(* ===== verification/Prelude.thy ===== *)
theory Prelude
  imports Main
    "HOL-Library.Word"
    "HOL-Library.Char_ord"
    "HOL-Library.List_Lexorder"
    "HOL-Library.Product_Lexorder"
    "HOL-Library.AList"
    "HOL-Library.Sublist"
begin

text \<open>
  The shared vocabulary of the development. It models the parts of the Go
  language and of its standard library that the components use:
  \<^item> errors (\<open>goerr\<close>) with their text and the sentinel errors they wrap;
  \<^item> \<open>strings.HasPrefix\<close>, \<open>strings.Contains\<close>, \<open>strings.Fields\<close>, \<open>strings.TrimSpace\<close>,
    \<open>strings.Cut\<close>, \<open>strconv.ParseUint\<close> and the verbs \<open>%d\<close> and \<open>%q\<close> of \<open>fmt.Sprintf\<close>, on strings
    that are lists of bytes;
  \<^item> maps that may be nil (\<open>gomap\<close>): reading a nil map yields the zero value, writing one
    panics;
  \<^item> the named collections of simplification rules the component theories extend.
\<close>

section \<open>Collections\<close>

named_theorems status_simps \<open>accessor and update facts of the API objects\<close>
named_theorems registry_simps \<open>unfolding rules of the registry operations\<close>
named_theorems trace_simps \<open>which commands an operation appends to the trace\<close>

section \<open>Integers\<close>

type_synonym u16 = "16 word"
type_synonym u32 = "32 word"
type_synonym u64 = "64 word"

text \<open>Integer division truncates towards zero.\<close>

definition quot :: "int \<Rightarrow> int \<Rightarrow> int" where
  "quot a b = (if a < 0 then - ((- a) div b) else a div b)"

section \<open>Errors\<close>

text \<open>
  A Go error is its text together with the sentinel errors \<open>errors.Is\<close> finds in its
  wrap chain.
\<close>

datatype sentinel = ErrNoSuchThin | ErrNoCapacity | ErrEOF | ErrUnexpectedEOF | ErrNotFound | ErrConflict | ErrAlreadyExists | ErrForbidden

datatype goerr = GoErr (err_msg: string) (err_wraps: "sentinel list")

type_synonym 'a res = "goerr + 'a"

definition Errorf :: "string \<Rightarrow> goerr" where
  "Errorf s = GoErr s []"

definition Errorw :: "string \<Rightarrow> goerr \<Rightarrow> goerr" where
  "Errorw s e = GoErr (s @ err_msg e) (err_wraps e)"

definition errors_Is :: "goerr \<Rightarrow> sentinel \<Rightarrow> bool" where
  "errors_Is e s \<longleftrightarrow> s \<in> set (err_wraps e)"

section \<open>Strings\<close>

definition HasPrefix :: "string \<Rightarrow> string \<Rightarrow> bool" where
  "HasPrefix s p \<longleftrightarrow> take (length p) s = p"

fun Contains :: "string \<Rightarrow> string \<Rightarrow> bool" where
  "Contains [] sub = (sub = [])"
| "Contains (c # s) sub = (HasPrefix (c # s) sub \<or> Contains s sub)"

definition is_space :: "char \<Rightarrow> bool" where
  "is_space c \<longleftrightarrow> of_char c \<in> {9, 10, 11, 12, 13, 32 :: nat}"

fun Fields_from :: "string \<Rightarrow> string \<Rightarrow> string list" where
  "Fields_from cur [] = (if cur = [] then [] else [cur])"
| "Fields_from cur (c # s) =
     (if is_space c then (if cur = [] then Fields_from [] s else cur # Fields_from [] s)
      else Fields_from (cur @ [c]) s)"

definition Fields :: "string \<Rightarrow> string list" where
  "Fields s = Fields_from [] s"

definition TrimSpace :: "string \<Rightarrow> string" where
  "TrimSpace s = rev (dropWhile is_space (rev (dropWhile is_space s)))"

fun Cut :: "char \<Rightarrow> string \<Rightarrow> (string \<times> string) option" where
  "Cut sep [] = None"
| "Cut sep (c # s) =
     (if c = sep then Some ([], s) else map_option (\<lambda>(a, b). (c # a, b)) (Cut sep s))"

fun Split_from :: "char \<Rightarrow> string \<Rightarrow> string \<Rightarrow> string list" where
  "Split_from sep cur [] = [cur]"
| "Split_from sep cur (c # s) =
     (if c = sep then cur # Split_from sep [] s else Split_from sep (cur @ [c]) s)"

definition Split :: "char \<Rightarrow> string \<Rightarrow> string list" where
  "Split sep s = Split_from sep [] s"

fun Join :: "string \<Rightarrow> string list \<Rightarrow> string" where
  "Join sep [] = []"
| "Join sep [x] = x"
| "Join sep (x # y # xs) = x @ sep @ Join sep (y # xs)"

text \<open>The \<open>%q\<close> verb on strings: double quotes around the escaped bytes.\<close>

definition hex_digit :: "nat \<Rightarrow> char" where
  "hex_digit d = char_of (if d < 10 then 48 + d else 87 + d)"

definition quote_char :: "char \<Rightarrow> string" where
  "quote_char c =
     (let n = (of_char c :: nat)
      in if n = 34 then [char_of (92 :: nat), c]
         else if n = 92 then [c, c]
         else if n = 7 then [char_of (92 :: nat), CHR ''a'']
         else if n = 8 then [char_of (92 :: nat), CHR ''b'']
         else if n = 9 then [char_of (92 :: nat), CHR ''t'']
         else if n = 10 then [char_of (92 :: nat), CHR ''n'']
         else if n = 11 then [char_of (92 :: nat), CHR ''v'']
         else if n = 12 then [char_of (92 :: nat), CHR ''f'']
         else if n = 13 then [char_of (92 :: nat), CHR ''r'']
         else if n < 32 \<or> n = 127 then [char_of (92 :: nat), CHR ''x'', hex_digit (n div 16), hex_digit (n mod 16)]
         else [c])"

definition Quote :: "string \<Rightarrow> string" where
  "Quote s = [char_of (34 :: nat)] @ concat (map quote_char s) @ [char_of (34 :: nat)]"

subsection \<open>Decimal numbers\<close>

definition digit :: "nat \<Rightarrow> char" where
  "digit d = char_of (48 + d)"

definition is_digit :: "char \<Rightarrow> bool" where
  "is_digit c \<longleftrightarrow> 48 \<le> (of_char c :: nat) \<and> (of_char c :: nat) \<le> 57"

definition digit_val :: "char \<Rightarrow> nat" where
  "digit_val c = of_char c - 48"

fun dec :: "nat \<Rightarrow> string" where
  "dec n = (if n < 10 then [digit n] else dec (n div 10) @ [digit (n mod 10)])"

definition dec_int :: "int \<Rightarrow> string" where
  "dec_int i = (if i < 0 then ''-'' @ dec (nat (- i)) else dec (nat i))"

definition digits_val :: "string \<Rightarrow> nat" where
  "digits_val s = foldl (\<lambda>a c. 10 * a + digit_val c) 0 s"

text \<open>
  \<open>strconv.ParseUint(s, 10, 64)\<close>: an empty string or any byte that is not a digit is a
  syntax error, a value past \<open>2 ^ 64 - 1\<close> a range error.
\<close>

definition ParseUint64 :: "string \<Rightarrow> u64 res" where
  "ParseUint64 s =
     (if s = [] \<or> \<not> list_all is_digit s then Inl (Errorf ''invalid syntax'')
      else if 2 ^ 64 \<le> digits_val s then Inl (Errorf ''value out of range'')
      else Inr (of_nat (digits_val s)))"

text \<open>
  \<open>strconv.Atoi\<close>: an optional sign and at least one digit, within the range of a 64-bit \<open>int\<close>.
  On a range error Go also returns the nearest bound, which none of the callers uses.
\<close>

definition Atoi :: "string \<Rightarrow> int res" where
  "Atoi s =
     (let neg = (s \<noteq> [] \<and> hd s = CHR ''-'');
          ds = (if s \<noteq> [] \<and> hd s \<in> {CHR ''-'', CHR ''+''} then tl s else s);
          v = (if neg then - int (digits_val ds) else int (digits_val ds))
      in if ds = [] \<or> \<not> list_all is_digit ds then Inl (Errorf ''invalid syntax'')
         else if v < - (2 ^ 63) \<or> 2 ^ 63 \<le> v then Inl (Errorf ''value out of range'')
         else Inr v)"

definition to_lower :: "char \<Rightarrow> char" where
  "to_lower c = (let n = (of_char c :: nat) in if 65 \<le> n \<and> n \<le> 90 then char_of (n + 32) else c)"

definition ToLower :: "string \<Rightarrow> string" where
  "ToLower s = map to_lower s"

section \<open>Maps\<close>

text \<open>
  A Go map is nil (\<open>None\<close>) or an association list. A lookup in a nil map is a miss; an
  assignment to an entry of a nil map panics, which \<open>gm_put\<close> reports as \<open>None\<close>.
\<close>

type_synonym ('k, 'v) gomap = "('k \<times> 'v) list option"

definition gm_list :: "('k, 'v) gomap \<Rightarrow> ('k \<times> 'v) list" where
  "gm_list m = (case m of None \<Rightarrow> [] | Some xs \<Rightarrow> xs)"

definition gm_get :: "('k, 'v) gomap \<Rightarrow> 'k \<Rightarrow> 'v option" where
  "gm_get m k = map_of (gm_list m) k"

definition gm_make :: "('k, 'v) gomap \<Rightarrow> ('k, 'v) gomap" where
  "gm_make m = (case m of None \<Rightarrow> Some [] | Some xs \<Rightarrow> Some xs)"

definition gm_put :: "('k, 'v) gomap \<Rightarrow> 'k \<Rightarrow> 'v \<Rightarrow> ('k, 'v) gomap option" where
  "gm_put m k v = (case m of None \<Rightarrow> None | Some xs \<Rightarrow> Some (Some (AList.update k v xs)))"

definition gm_delete :: "('k, 'v) gomap \<Rightarrow> 'k \<Rightarrow> ('k, 'v) gomap" where
  "gm_delete m k = map_option (AList.delete k) m"

definition gm_bool :: "('k, bool) gomap \<Rightarrow> 'k \<Rightarrow> bool" where
  "gm_bool m k = (gm_get m k = Some True)"

definition gm_ok :: "('k, 'v) gomap \<Rightarrow> bool" where
  "gm_ok m \<longleftrightarrow> distinct (map fst (gm_list m))"

section \<open>Generic lemmas\<close>

lemma find_SomeD: "find P xs = Some x \<Longrightarrow> x \<in> set xs \<and> P x"
  by (induction xs) (auto split: if_splits)

subsection \<open>Strings\<close>

lemma HasPrefix_iff_prefix: "HasPrefix s p \<longleftrightarrow> prefix p s"
  by (metis HasPrefix_def append_eq_conv_conj prefix_def)

lemma Contains_iff_sublist: "Contains s sub \<longleftrightarrow> sublist sub s"
  by (induction s) (auto simp: HasPrefix_iff_prefix sublist_Cons_right)

lemma Contains_append [simp]: "Contains s sub \<Longrightarrow> Contains (a @ s) sub"
  by (simp add: Contains_iff_sublist sublist_append)

lemma Contains_append2 [simp]: "Contains s sub \<Longrightarrow> Contains (s @ b) sub"
  by (simp add: Contains_iff_sublist sublist_append)

lemma Errorw_msg [simp]: "err_msg (Errorw s e) = s @ err_msg e"
  by (simp add: Errorw_def)

lemma errors_Is_Errorw [simp]: "errors_Is (Errorw s e) t = errors_Is e t"
  by (simp add: Errorw_def errors_Is_def)

lemma errors_Is_Errorf [simp]: "\<not> errors_Is (Errorf s) t"
  by (simp add: Errorf_def errors_Is_def)

subsection \<open>Decimal numbers\<close>

declare dec.simps [simp del]

lemma digit_facts:
  assumes "d < 10"
  shows "is_digit (digit d)" and "digit_val (digit d) = d"
  using assms by (simp_all add: is_digit_def digit_val_def digit_def)

lemma dec_digits: "list_all is_digit (dec n)"
proof (induction n rule: dec.induct)
  case (1 n)
  then show ?case
    by (cases "n < 10") (simp_all add: dec.simps [of n] digit_facts)
qed

lemma dec_not_Nil [simp]: "dec n \<noteq> []"
  by (subst dec.simps) simp

lemma digits_val_snoc [simp]: "digits_val (s @ [c]) = 10 * digits_val s + digit_val c"
  by (simp add: digits_val_def)

lemma digits_val_dec [simp]: "digits_val (dec n) = n"
proof (induction n rule: dec.induct)
  case (1 n)
  then show ?case
    by (cases "n < 10") (simp_all add: dec.simps [of n] digit_facts digits_val_def)
qed

lemma dec_inject [simp]: "dec m = dec n \<longleftrightarrow> m = n"
  by (metis digits_val_dec)

lemma is_digit_not_space: "is_digit c \<Longrightarrow> \<not> is_space c"
  by (auto simp: is_digit_def is_space_def)

lemma dec_no_space: "c \<in> set (dec n) \<Longrightarrow> \<not> is_space c"
  using dec_digits [of n] by (auto simp: list_all_iff is_digit_not_space)

text \<open>For evaluation the range check compares integers in binary.\<close>

lemma ParseUint64_code [code]:
  "ParseUint64 s =
     (if s = [] \<or> \<not> list_all is_digit s then Inl (Errorf ''invalid syntax'')
      else if 2 ^ 64 \<le> int (digits_val s) then Inl (Errorf ''value out of range'')
      else Inr (of_nat (digits_val s)))"
proof -
  have "2 ^ 64 \<le> digits_val s \<longleftrightarrow> 2 ^ 64 \<le> int (digits_val s)"
    by (metis of_nat_le_iff of_nat_numeral of_nat_power)
  then show ?thesis by (simp only: ParseUint64_def)
qed

lemma ParseUint64_dec: "ParseUint64 (dec (unat (w :: u64))) = Inr w"
proof -
  have "unat w < 2 ^ 64"
    using unsigned_less [where ?'a = nat and w = w] by simp
  then show ?thesis
    by (simp add: ParseUint64_def dec_digits)
qed

lemma ParseUint64_Inr:
  assumes "ParseUint64 s = Inr w"
  shows "s \<noteq> [] \<and> list_all is_digit s \<and> unat w = digits_val s"
proof -
  from assms have "s \<noteq> []" "list_all is_digit s" "digits_val s < 2 ^ 64"
    and w: "w = of_nat (digits_val s)"
    by (auto simp: ParseUint64_def split: if_splits)
  moreover from this have "unat w = digits_val s"
    by (simp add: w unat_of_nat)
  ultimately show ?thesis by simp
qed

subsection \<open>Maps\<close>

lemma gm_get_Nil [simp]: "gm_get None k = None" "gm_get (Some []) k = None"
  by (simp_all add: gm_get_def gm_list_def)

lemma gm_get_Some [simp]: "gm_get (Some xs) k = map_of xs k"
  by (simp add: gm_get_def gm_list_def)

lemma gm_get_make [simp]: "gm_get (gm_make m) k = gm_get m k"
  by (simp add: gm_get_def gm_list_def gm_make_def split: option.split)

lemma gm_make_neq_None [simp]: "gm_make m \<noteq> None"
  by (simp add: gm_make_def split: option.split)

lemma gm_make_Some [simp]: "gm_make (Some xs) = Some xs"
  by (simp add: gm_make_def)

lemma gm_get_put: "gm_put m k v = Some m' \<Longrightarrow> gm_get m' k' = (if k' = k then Some v else gm_get m k')"
  by (auto simp: gm_put_def gm_get_def gm_list_def update_conv' split: option.splits)

lemma gm_put_defined:
  assumes "m \<noteq> None"
  obtains m' where "gm_put m k v = Some m'"
  using assms by (cases m) (auto simp: gm_put_def)

lemma gm_put_not_None: "gm_put m k v = Some m' \<Longrightarrow> m' \<noteq> None"
  by (auto simp: gm_put_def split: option.splits)

lemma gm_get_delete: "gm_get (gm_delete m k) k' = (if k' = k then None else gm_get m k')"
  by (auto simp: gm_get_def gm_list_def gm_delete_def delete_conv' split: option.splits)

lemma gm_delete_None [simp]: "gm_delete m k = None \<longleftrightarrow> m = None"
  by (simp add: gm_delete_def)

lemma gm_ok_Nil [simp]: "gm_ok None" "gm_ok (Some [])"
  by (simp_all add: gm_ok_def gm_list_def)

lemma gm_ok_make [simp]: "gm_ok (gm_make m) = gm_ok m"
  by (simp add: gm_ok_def gm_list_def gm_make_def split: option.split)

lemma gm_ok_put: "gm_ok m \<Longrightarrow> gm_put m k v = Some m' \<Longrightarrow> gm_ok m'"
  by (auto simp: gm_ok_def gm_put_def gm_list_def distinct_update split: option.splits)

lemma gm_ok_delete [simp]: "gm_ok m \<Longrightarrow> gm_ok (gm_delete m k)"
  by (auto simp: gm_ok_def gm_delete_def gm_list_def distinct_delete split: option.splits)

lemma gm_bool_put:
  "gm_put m k v = Some m' \<Longrightarrow> gm_bool m' k' = (if k' = k then v else gm_bool m k')"
  by (simp add: gm_bool_def gm_get_put)

lemma gm_bool_delete: "gm_bool (gm_delete m k) k' = (k' \<noteq> k \<and> gm_bool m k')"
  by (simp add: gm_bool_def gm_get_delete)

end
