(* ===== verification/Frames.thy ===== *)
theory Frames
  imports Prelude
begin

text \<open>
  The host/guest streaming protocol: \<open>internal/guestagent/frame.go\<close>, the in-guest pumps
  of \<open>cmd/kubeswift-guest-agent/stream.go\<close> and the host loops of \<open>cmd/swiftctl/sandbox.go\<close>.

  A reader is the bytes still to come and the error its source reports once they are
  consumed. A writer is any state with a function that accepts bytes or fails, the
  \<open>io.Writer\<close> the code is given; \<open>buffer_write\<close> is the one that never fails. The shared
  \<open>FrameWriter\<close> is a step relation: goroutines take the mutex, write header and payload in
  separate writes and release it, in any interleaving.
\<close>

unbundle bit_operations_syntax

section \<open>Model\<close>

type_synonym byte = "8 word"

record reader =
  rd_buf :: "byte list"
  rd_end :: goerr

type_synonym 'w writer = "'w \<Rightarrow> byte list \<Rightarrow> goerr option \<times> 'w"

definition EOF :: goerr where
  "EOF = GoErr ''EOF'' [ErrEOF]"

definition UnexpectedEOF :: goerr where
  "UnexpectedEOF = GoErr ''unexpected EOF'' [ErrUnexpectedEOF]"

text \<open>
  \<open>io.ReadFull\<close> for a non-empty buffer: EOF before the first byte stays EOF, EOF after at
  least one byte becomes ErrUnexpectedEOF, any other error passes through.
\<close>

definition ReadFull :: "reader \<Rightarrow> nat \<Rightarrow> byte list res \<times> reader" where
  "ReadFull r n =
     (if n \<le> length (rd_buf r)
      then (Inr (take n (rd_buf r)), r\<lparr>rd_buf := drop n (rd_buf r)\<rparr>)
      else ((if rd_buf r \<noteq> [] \<and> rd_end r = EOF then Inl UnexpectedEOF else Inl (rd_end r)),
            r\<lparr>rd_buf := []\<rparr>))"

subsection \<open>Big-endian integers\<close>

definition PutUint32 :: "u32 \<Rightarrow> byte list" where
  "PutUint32 v = [ucast (drop_bit 24 v), ucast (drop_bit 16 v), ucast (drop_bit 8 v), ucast v]"

fun Uint32 :: "byte list \<Rightarrow> u32" where
  "Uint32 (a # b # c # d # _) =
     ucast d OR push_bit 8 (ucast c) OR push_bit 16 (ucast b) OR push_bit 24 (ucast a)"
| "Uint32 _ = 0"

definition PutUint16 :: "u16 \<Rightarrow> byte list" where
  "PutUint16 v = [ucast (drop_bit 8 v), ucast v]"

fun Uint16 :: "byte list \<Rightarrow> u16" where
  "Uint16 (a # b # _) = ucast b OR push_bit 8 (ucast a)"
| "Uint16 _ = 0"

subsection \<open>Frames\<close>

definition FrameStdout :: byte where "FrameStdout = 1"
definition FrameStderr :: byte where "FrameStderr = 2"
definition FrameExit :: byte where "FrameExit = 3"
definition FrameStdin :: byte where "FrameStdin = 4"
definition FrameResize :: byte where "FrameResize = 5"
definition FrameStdinClose :: byte where "FrameStdinClose = 6"
definition FrameError :: byte where "FrameError = 7"

definition MaxFramePayload :: nat where
  "MaxFramePayload = 1048576"

definition frame_header :: "byte \<Rightarrow> byte list \<Rightarrow> byte list" where
  "frame_header typ payload = typ # PutUint32 (of_nat (length payload))"

definition WriteFrame :: "'w writer \<Rightarrow> 'w \<Rightarrow> byte \<Rightarrow> byte list \<Rightarrow> goerr option \<times> 'w" where
  "WriteFrame write w typ payload =
     (if MaxFramePayload < length payload
      then (Some (Errorf (''frame payload too large: '' @ dec (length payload))), w)
      else case write w (frame_header typ payload) of
        (Some e, w1) \<Rightarrow> (Some e, w1)
      | (None, w1) \<Rightarrow>
          if 0 < length payload
          then (case write w1 payload of (Some e, w2) \<Rightarrow> (Some e, w2) | (None, w2) \<Rightarrow> (None, w2))
          else (None, w1))"

definition ReadFrame :: "reader \<Rightarrow> (byte \<times> byte list) res \<times> reader" where
  "ReadFrame r =
     (case ReadFull r 5 of
        (Inl e, r1) \<Rightarrow> (Inl e, r1)
      | (Inr hdr, r1) \<Rightarrow>
          let n = unat (Uint32 (tl hdr)) in
          if MaxFramePayload < n
          then (Inl (Errorf (''frame payload too large: '' @ dec n)), r1)
          else if n = 0 then (Inr (hd hdr, []), r1)
          else (case ReadFull r1 n of
                  (Inl e, r2) \<Rightarrow> (Inl e, r2)
                | (Inr buf, r2) \<Rightarrow> (Inr (hd hdr, buf), r2)))"

subsection \<open>Payloads\<close>

definition ExitCode :: "64 word \<Rightarrow> byte list" where
  "ExitCode code = PutUint32 (ucast code)"

definition DecodeExitCode :: "byte list \<Rightarrow> 64 word" where
  "DecodeExitCode payload = (if length payload < 4 then 0 else scast (Uint32 payload))"

definition ResizePayload :: "u16 \<Rightarrow> u16 \<Rightarrow> byte list" where
  "ResizePayload rows cols = PutUint16 rows @ PutUint16 cols"

definition DecodeResize :: "byte list \<Rightarrow> u16 \<times> u16" where
  "DecodeResize payload =
     (if length payload < 4 then (0, 0)
      else (Uint16 (take 2 payload), Uint16 (take 2 (drop 2 payload))))"

subsection \<open>The pumps\<close>

text \<open>
  A source of chunks: what successive \<open>Read\<close> calls return into the 32 KiB buffer. Each read
  is the bytes it returned and the error it returned with them; the loop stops at the first
  error, or at a frame that cannot be written.
\<close>

type_synonym reads = "(byte list \<times> goerr option) list"

fun pumpFrames :: "'w writer \<Rightarrow> byte \<Rightarrow> reads \<Rightarrow> 'w \<Rightarrow> 'w" where
  "pumpFrames write typ [] w = w"
| "pumpFrames write typ ((chunk, err) # rs) w =
     (case (if 0 < length chunk then WriteFrame write w typ chunk else (None, w)) of
        (Some e, w1) \<Rightarrow> w1
      | (None, w1) \<Rightarrow> (if err \<noteq> None then w1 else pumpFrames write typ rs w1))"

fun forwardStdin :: "'w writer \<Rightarrow> reads \<Rightarrow> 'w \<Rightarrow> 'w" where
  "forwardStdin write [] w = w"
| "forwardStdin write ((chunk, err) # rs) w =
     (case (if 0 < length chunk then WriteFrame write w FrameStdin chunk else (None, w)) of
        (Some e, w1) \<Rightarrow> w1
      | (None, w1) \<Rightarrow>
          (if err \<noteq> None then snd (WriteFrame write w1 FrameStdinClose [])
           else forwardStdin write rs w1))"

definition agent_exit :: "'w writer \<Rightarrow> 'w \<Rightarrow> 64 word \<Rightarrow> 'w" where
  "agent_exit write w code = snd (WriteFrame write w FrameExit (ExitCode code))"

text \<open>
  \<open>frameConn.exitErr\<close>; \<open>msg\<close> and \<open>line\<close> are the bytes of the message and of the stderr line
  built from it.
\<close>

definition exitErr :: "'w writer \<Rightarrow> 'w \<Rightarrow> bool \<Rightarrow> byte list \<Rightarrow> byte list \<Rightarrow> 'w" where
  "exitErr write w errorFrames msg line =
     (if errorFrames then snd (WriteFrame write w FrameError msg)
      else agent_exit write (snd (WriteFrame write w FrameStderr line)) 255)"

text \<open>The writer that never fails: everything written is appended.\<close>

definition buffer_write :: "byte list writer" where
  "buffer_write w bs = (None, w @ bs)"

definition frame_bytes :: "byte \<times> byte list \<Rightarrow> byte list" where
  "frame_bytes f = frame_header (fst f) (snd f) @ snd f"

lemma ReadFull_shorter:
  "ReadFull r n = (Inr bs, r') \<Longrightarrow> length (rd_buf r) = n + length (rd_buf r')"
  by (auto simp: ReadFull_def split: if_splits)

lemma ReadFrame_shorter:
  "ReadFrame r = (Inr f, r') \<Longrightarrow> length (rd_buf r') < length (rd_buf r)"
  by (auto simp: ReadFrame_def Let_def split: prod.splits sum.splits if_splits
      dest!: ReadFull_shorter)

text \<open>
  The host loop of \<open>agentExecStream\<close>: the result is the exit code and error it returns,
  with what it wrote to stdout and stderr.
\<close>

function exec_loop :: "reader \<Rightarrow> byte list \<Rightarrow> byte list
    \<Rightarrow> (64 word \<times> goerr option) \<times> byte list \<times> byte list" where
  "exec_loop r out err =
     (case ReadFrame r of
        (Inl e, _) \<Rightarrow>
          (if e = EOF then ((0, None), out, err)
           else ((1, Some (Errorw ''read agent stream: '' e)), out, err))
      | (Inr (typ, payload), r') \<Rightarrow>
          if typ = FrameStdout then exec_loop r' (out @ payload) err
          else if typ = FrameStderr then exec_loop r' out (err @ payload)
          else if typ = FrameExit then ((DecodeExitCode payload, None), out, err)
          else exec_loop r' out err)"
  by pat_completeness auto
termination
  by (relation "measure (\<lambda>(r, _, _). length (rd_buf r))") (auto dest: sym ReadFrame_shorter)

text \<open>\<open>pumpStdin\<close>: host frames into the command's stdin, until it is closed or a write fails.\<close>

function pumpStdin :: "'w writer \<Rightarrow> reader \<Rightarrow> 'w \<Rightarrow> 'w" where
  "pumpStdin write r w =
     (case ReadFrame r of
        (Inl e, _) \<Rightarrow> w
      | (Inr (typ, payload), r') \<Rightarrow>
          if typ = FrameStdin then
            (case write w payload of (Some e, w1) \<Rightarrow> w1 | (None, w1) \<Rightarrow> pumpStdin write r' w1)
          else if typ = FrameStdinClose then w
          else pumpStdin write r' w)"
  by pat_completeness auto
termination
  by (relation "measure (\<lambda>(_, r, _). length (rd_buf r))") (auto dest: sym ReadFrame_shorter)

text \<open>Reading a stream to its end: the frames it yields and the error that ended it.\<close>

function read_all :: "reader \<Rightarrow> (byte \<times> byte list) list \<times> goerr" where
  "read_all r =
     (case ReadFrame r of
        (Inl e, _) \<Rightarrow> ([], e)
      | (Inr f, r') \<Rightarrow> (case read_all r' of (fs, e) \<Rightarrow> (f # fs, e)))"
  by pat_completeness auto
termination
  by (relation "measure (\<lambda>r. length (rd_buf r))") (auto dest: sym ReadFrame_shorter)

subsection \<open>The shared writer\<close>

text \<open>
  Goroutines \<open>i\<close> with the frames each will write. \<open>Write\<close> takes the mutex, then
  \<open>WriteFrame\<close> refuses an oversized payload or writes header and payload one after the
  other, then the mutex is released.
\<close>

datatype fw_pc = Idle | Locked | HeaderDone

record fw_state =
  fw_holder :: "nat option"
  fw_pcs :: "nat \<Rightarrow> fw_pc"
  fw_pending :: "nat \<Rightarrow> (byte \<times> byte list) list"
  fw_wire :: "byte list"
  fw_log :: "(byte \<times> byte list) list"

definition fw_init :: "(nat \<Rightarrow> (byte \<times> byte list) list) \<Rightarrow> fw_state" where
  "fw_init todo = \<lparr>fw_holder = None, fw_pcs = (\<lambda>_. Idle), fw_pending = todo, fw_wire = [], fw_log = []\<rparr>"

inductive fw_step :: "fw_state \<Rightarrow> fw_state \<Rightarrow> bool" where
  fw_lock: "fw_holder s = None \<Longrightarrow> fw_pcs s i = Idle \<Longrightarrow> fw_pending s i = f # fs \<Longrightarrow>
     fw_step s (s\<lparr>fw_holder := Some i, fw_pcs := (fw_pcs s)(i := Locked)\<rparr>)"
| fw_refuse: "fw_pcs s i = Locked \<Longrightarrow> fw_pending s i = f # fs \<Longrightarrow> MaxFramePayload < length (snd f) \<Longrightarrow>
     fw_step s (s\<lparr>fw_holder := None, fw_pcs := (fw_pcs s)(i := Idle),
                  fw_pending := (fw_pending s)(i := fs)\<rparr>)"
| fw_header: "fw_pcs s i = Locked \<Longrightarrow> fw_pending s i = f # fs \<Longrightarrow> length (snd f) \<le> MaxFramePayload \<Longrightarrow>
     fw_step s (s\<lparr>fw_pcs := (fw_pcs s)(i := HeaderDone),
                  fw_wire := fw_wire s @ frame_header (fst f) (snd f)\<rparr>)"
| fw_payload: "fw_pcs s i = HeaderDone \<Longrightarrow> fw_pending s i = f # fs \<Longrightarrow>
     fw_step s (s\<lparr>fw_holder := None, fw_pcs := (fw_pcs s)(i := Idle),
                  fw_pending := (fw_pending s)(i := fs),
                  fw_wire := fw_wire s @ snd f, fw_log := fw_log s @ [f]\<rparr>)"

inductive fw_reachable :: "(nat \<Rightarrow> (byte \<times> byte list) list) \<Rightarrow> fw_state \<Rightarrow> bool" for todo where
  fw_start: "fw_reachable todo (fw_init todo)"
| fw_next: "fw_reachable todo s \<Longrightarrow> fw_step s t \<Longrightarrow> fw_reachable todo t"

definition fw_inv :: "fw_state \<Rightarrow> bool" where
  "fw_inv s \<longleftrightarrow>
     (\<forall>i. fw_pcs s i \<noteq> Idle \<longleftrightarrow> fw_holder s = Some i) \<and>
     (\<forall>i. fw_pcs s i \<noteq> Idle \<longrightarrow> fw_pending s i \<noteq> []) \<and>
     (\<forall>i. fw_pcs s i = HeaderDone \<longrightarrow> length (snd (hd (fw_pending s i))) \<le> MaxFramePayload) \<and>
     list_all (\<lambda>f. length (snd f) \<le> MaxFramePayload) (fw_log s) \<and>
     fw_wire s = concat (map frame_bytes (fw_log s)) @
       (case fw_holder s of
          Some i \<Rightarrow> (if fw_pcs s i = HeaderDone
                     then frame_header (fst (hd (fw_pending s i))) (snd (hd (fw_pending s i))) else [])
        | None \<Rightarrow> [])"

section \<open>Lemmas\<close>

declare exec_loop.simps [simp del] pumpStdin.simps [simp del] read_all.simps [simp del]

lemmas frame_type_defs = FrameStdout_def FrameStderr_def FrameExit_def FrameStdin_def
  FrameResize_def FrameStdinClose_def FrameError_def

subsection \<open>Integers\<close>

lemma Uint32_PutUint32 [simp]: "Uint32 (PutUint32 v @ rest) = v"
proof (rule bit_word_eqI)
  fix n
  assume n: "n < LENGTH(32)"
  then consider "n < 8" | "8 \<le> n" "n < 16" | "16 \<le> n" "n < 24" | "24 \<le> n" "n < 32" by fastforce
  then show "bit (Uint32 (PutUint32 v @ rest)) n = bit v n"
    by cases (auto simp: PutUint32_def bit_simps)
qed

lemma Uint32_PutUint32' [simp]: "Uint32 (PutUint32 v) = v"
  using Uint32_PutUint32 [of v "[]"] by simp

lemma Uint16_PutUint16 [simp]: "Uint16 (PutUint16 v @ rest) = v"
  by (rule bit_word_eqI) (auto simp: PutUint16_def bit_simps)

lemma Uint16_PutUint16' [simp]: "Uint16 (PutUint16 v) = v"
  using Uint16_PutUint16 [of v "[]"] by simp

lemma length_PutUint [simp]: "length (PutUint32 v) = 4" "length (PutUint16 w) = 2"
  by (simp_all add: PutUint32_def PutUint16_def)

lemma scast_ucast_int32:
  assumes "- (2 ^ 31) \<le> sint (code::64 word)" and "sint code < 2 ^ 31"
  shows "scast (ucast code :: u32) = code"
proof (rule signed_word_eqI)
  have "sint (ucast code :: u32) = signed_take_bit 31 (uint code)"
    by (simp add: signed_ucast_eq)
  moreover have u: "sint code = signed_take_bit 63 (uint code)"
    by (simp add: sint_uint)
  ultimately have "sint (ucast code :: u32) = signed_take_bit 31 (sint code)"
    by simp
  also have "\<dots> = sint code"
    using assms by (simp only: signed_take_bit_int_eq_self)
  finally have "sint (scast (ucast code :: u32) :: 64 word) = signed_take_bit 63 (sint code)"
    by (simp add: signed_scast_eq)
  also have "\<dots> = sint code"
    by (simp add: u)
  finally show "sint (scast (ucast code :: u32) :: 64 word) = sint code" .
qed
subsection \<open>One frame\<close>

lemma length_frame_header [simp]: "length (frame_header t p) = 5"
  by (simp add: frame_header_def)

lemma WriteFrame_buffer:
  "length p \<le> MaxFramePayload \<Longrightarrow> WriteFrame buffer_write w t p = (None, w @ frame_bytes (t, p))"
  by (auto simp: WriteFrame_def buffer_write_def frame_bytes_def)

lemma WriteFrame_refuses:
  "MaxFramePayload < length p \<Longrightarrow> snd (WriteFrame write w t p) = w"
  by (simp add: WriteFrame_def)

lemma length_payload_u32:
  "length p \<le> MaxFramePayload \<Longrightarrow> unat (of_nat (length p) :: u32) = length p"
  by (simp add: MaxFramePayload_def unat_of_nat)

lemma ReadFrame_frame_bytes:
  assumes "length (snd f) \<le> MaxFramePayload"
  shows "ReadFrame \<lparr>rd_buf = frame_bytes f @ rest, rd_end = e\<rparr> = (Inr f, \<lparr>rd_buf = rest, rd_end = e\<rparr>)"
  using assms
  by (cases f) (auto simp: ReadFrame_def ReadFull_def frame_bytes_def frame_header_def Let_def
      length_payload_u32)

lemma ReadFrame_empty: "ReadFrame \<lparr>rd_buf = [], rd_end = e\<rparr> = (Inl e, \<lparr>rd_buf = [], rd_end = e\<rparr>)"
  by (simp add: ReadFrame_def ReadFull_def)

subsection \<open>Streams of frames\<close>

lemma read_all_frames:
  assumes "list_all (\<lambda>f. length (snd f) \<le> MaxFramePayload) fs"
  shows "read_all \<lparr>rd_buf = concat (map frame_bytes fs), rd_end = e\<rparr> = (fs, e)"
  using assms
proof (induction fs)
  case Nil
  then show ?case by (subst read_all.simps) (simp add: ReadFrame_empty)
next
  case (Cons f fs)
  then show ?case by (subst read_all.simps) (simp add: ReadFrame_frame_bytes)
qed

text \<open>What each kind of frame contributes to one output of the host loop.\<close>

definition payload_of :: "byte \<Rightarrow> (byte \<times> byte list) list \<Rightarrow> byte list" where
  "payload_of t fs = concat (map snd (filter (\<lambda>f. fst f = t) fs))"

lemma payload_of_simps [simp]:
  "payload_of t [] = []"
  "payload_of t (f # fs) = (if fst f = t then snd f @ payload_of t fs else payload_of t fs)"
  "payload_of t (fs @ gs) = payload_of t fs @ payload_of t gs"
  by (simp_all add: payload_of_def)

lemma exec_loop_frames:
  assumes "list_all (\<lambda>f. length (snd f) \<le> MaxFramePayload \<and> fst f \<noteq> FrameExit) fs"
  shows "exec_loop \<lparr>rd_buf = concat (map frame_bytes fs) @ tail, rd_end = e\<rparr> out err =
    exec_loop \<lparr>rd_buf = tail, rd_end = e\<rparr> (out @ payload_of FrameStdout fs) (err @ payload_of FrameStderr fs)"
  using assms
proof (induction fs arbitrary: out err)
  case Nil
  then show ?case by simp
next
  case (Cons f fs)
  then have f: "ReadFrame \<lparr>rd_buf = concat (map frame_bytes (f # fs)) @ tail, rd_end = e\<rparr> =
      (Inr f, \<lparr>rd_buf = concat (map frame_bytes fs) @ tail, rd_end = e\<rparr>)"
    by (simp add: ReadFrame_frame_bytes)
  show ?case
    using Cons by (subst exec_loop.simps, subst f, cases f)
      (auto simp: FrameStdout_def FrameStderr_def FrameExit_def)
qed

lemma pumpStdin_frames:
  assumes "list_all (\<lambda>p. length p \<le> MaxFramePayload) ps"
  shows "pumpStdin buffer_write
      \<lparr>rd_buf = concat (map (\<lambda>p. frame_bytes (FrameStdin, p)) ps) @ tail, rd_end = e\<rparr> w =
    pumpStdin buffer_write \<lparr>rd_buf = tail, rd_end = e\<rparr> (w @ concat ps)"
  using assms
proof (induction ps arbitrary: w)
  case Nil
  then show ?case by simp
next
  case (Cons p ps)
  then show ?case
    by (subst pumpStdin.simps) (simp add: ReadFrame_frame_bytes buffer_write_def [of w p])
qed

text \<open>The chunks a pump forwards: every non-empty read up to and including the failing one.\<close>

fun chunks_until_error :: "reads \<Rightarrow> byte list list" where
  "chunks_until_error [] = []"
| "chunks_until_error ((chunk, err) # rs) =
     (if chunk = [] then [] else [chunk]) @ (if err \<noteq> None then [] else chunks_until_error rs)"

lemma chunks_bounded:
  "list_all (\<lambda>(c, _). length c \<le> MaxFramePayload) rs \<Longrightarrow>
   list_all (\<lambda>p. length p \<le> MaxFramePayload) (chunks_until_error rs)"
  by (induction rs rule: chunks_until_error.induct) auto

lemma forwardStdin_wire:
  assumes "list_all (\<lambda>(c, _). length c \<le> MaxFramePayload) rs" and "list_ex (\<lambda>(_, e). e \<noteq> None) rs"
  shows "forwardStdin buffer_write rs w =
    w @ concat (map (\<lambda>p. frame_bytes (FrameStdin, p)) (chunks_until_error rs)) @ frame_bytes (FrameStdinClose, [])"
  using assms
  by (induction rs arbitrary: w rule: chunks_until_error.induct)
     (auto simp: WriteFrame_buffer)

lemma pumpFrames_wire:
  assumes "list_all (\<lambda>(c, _). length c \<le> MaxFramePayload) rs"
  shows "pumpFrames buffer_write typ rs w =
    w @ concat (map (\<lambda>p. frame_bytes (typ, p)) (chunks_until_error rs))"
  using assms
  by (induction rs arbitrary: w rule: chunks_until_error.induct)
     (auto simp: WriteFrame_buffer)

subsection \<open>The shared writer\<close>

inductive_cases fw_stepE: "fw_step s t"

lemma fw_inv_init: "fw_inv (fw_init todo)"
  by (simp add: fw_inv_def fw_init_def)

lemma fw_step_inv: "fw_step s t \<Longrightarrow> fw_inv s \<Longrightarrow> fw_inv t"
proof (induction rule: fw_step.induct)
  case (fw_lock s i f fs)
  then show ?case by (auto simp: fw_inv_def)
next
  case (fw_refuse s i f fs)
  then have "fw_holder s = Some i" by (auto simp: fw_inv_def)
  with fw_refuse show ?case by (auto simp: fw_inv_def)
next
  case (fw_header s i f fs)
  then have "fw_holder s = Some i" by (auto simp: fw_inv_def)
  with fw_header show ?case by (auto simp: fw_inv_def)
next
  case (fw_payload s i f fs)
  then have "fw_holder s = Some i" by (metis fw_inv_def fw_pc.distinct(3))
  with fw_payload show ?case by (auto simp: fw_inv_def frame_bytes_def)
qed

lemma fw_reachable_inv: "fw_reachable todo s \<Longrightarrow> fw_inv s"
  by (induction rule: fw_reachable.induct) (auto intro: fw_inv_init fw_step_inv)

section \<open>Properties\<close>

text \<open>
  C27. A frame survives the wire: what \<open>WriteFrame\<close> writes, \<open>ReadFrame\<close> reads back with the
  same type and payload, leaving the reader exactly at the next frame.
\<close>

theorem frame_roundtrip:
  assumes "length p \<le> MaxFramePayload"
  shows "ReadFrame \<lparr>rd_buf = snd (WriteFrame buffer_write [] t p) @ rest, rd_end = e\<rparr> =
    (Inr (t, p), \<lparr>rd_buf = rest, rd_end = e\<rparr>)"
  using assms by (simp add: WriteFrame_buffer ReadFrame_frame_bytes)

theorem frame_roundtrip_witness:
  "ReadFrame \<lparr>rd_buf = snd (WriteFrame buffer_write [] FrameStdout [104, 105]) @ [9], rd_end = EOF\<rparr> =
    (Inr (FrameStdout, [104, 105]), \<lparr>rd_buf = [9], rd_end = EOF\<rparr>)"
  by (rule frame_roundtrip) (simp add: MaxFramePayload_def)

text \<open>
  Exactly when a stream that ends in EOF is reported as a clean EOF: it ended on a frame
  boundary, or right after a complete header that announced a payload. The second case is a
  truncated frame.
\<close>

theorem ReadFrame_eof_iff:
  "fst (ReadFrame \<lparr>rd_buf = b, rd_end = EOF\<rparr>) = Inl EOF \<longleftrightarrow>
     b = [] \<or> (length b = 5 \<and> 0 < unat (Uint32 (tl b)) \<and> unat (Uint32 (tl b)) \<le> MaxFramePayload)"
proof -
  have neq: "UnexpectedEOF \<noteq> EOF" "\<And>m. Errorf m \<noteq> EOF"
    by (simp_all add: UnexpectedEOF_def EOF_def Errorf_def)
  consider "length b < 5" | "length b = 5" | "5 < length b" by linarith
  then show ?thesis
  proof cases
    case 1
    then show ?thesis by (auto simp: ReadFrame_def ReadFull_def neq)
  next
    case 2
    then show ?thesis by (auto simp: ReadFrame_def ReadFull_def Let_def neq)
  next
    case 3
    then show ?thesis by (auto simp: ReadFrame_def ReadFull_def Let_def neq)
  qed
qed

text \<open>
  C28. The consequence for \<open>swiftctl sandbox exec\<close>: when the connection dies after the header
  of the Exit frame, the host loop reports exit code 0 and no error, whatever code the
  command had.
\<close>

theorem truncated_exit_reads_as_success:
  "exec_loop \<lparr>rd_buf = frame_header FrameExit (ExitCode code), rd_end = EOF\<rparr> out err =
    ((0, None), out, err)"
proof -
  have "ReadFrame \<lparr>rd_buf = frame_header FrameExit (ExitCode code), rd_end = EOF\<rparr> =
      (Inl EOF, \<lparr>rd_buf = [], rd_end = EOF\<rparr>)"
    by (simp add: ReadFrame_def ReadFull_def frame_header_def Let_def ExitCode_def MaxFramePayload_def)
  then show ?thesis by (simp add: exec_loop.simps)
qed

text \<open>
  C24. A streamed command delivers its output whole: any interleaving of stdout and stderr
  frames followed by the Exit frame gives the host the concatenation of each stream, in
  order, and the exit code truncated to 32 bits.
\<close>

theorem exec_stream_delivers:
  assumes "list_all (\<lambda>f. length (snd f) \<le> MaxFramePayload \<and> fst f \<noteq> FrameExit) fs"
  shows "exec_loop \<lparr>rd_buf = agent_exit buffer_write (concat (map frame_bytes fs)) code, rd_end = e\<rparr> [] [] =
    ((scast (ucast code :: u32), None), payload_of FrameStdout fs, payload_of FrameStderr fs)"
proof -
  have exit: "agent_exit buffer_write (concat (map frame_bytes fs)) code =
      concat (map frame_bytes fs) @ frame_bytes (FrameExit, ExitCode code)"
    by (simp add: agent_exit_def WriteFrame_buffer ExitCode_def MaxFramePayload_def)
  have len: "length (snd (FrameExit, ExitCode code)) \<le> MaxFramePayload"
    by (simp add: ExitCode_def MaxFramePayload_def)
  have "ReadFrame \<lparr>rd_buf = frame_bytes (FrameExit, ExitCode code), rd_end = e\<rparr> =
      (Inr (FrameExit, ExitCode code), \<lparr>rd_buf = [], rd_end = e\<rparr>)"
    using ReadFrame_frame_bytes [OF len, of "[]" e] by simp
  then show ?thesis
    by (simp add: exit exec_loop_frames [OF assms])
       (simp add: exec_loop.simps frame_type_defs DecodeExitCode_def ExitCode_def)
qed

theorem exec_stream_delivers_witness:
  "exec_loop \<lparr>rd_buf = agent_exit buffer_write (concat (map frame_bytes
      [(FrameStdout, [1]), (FrameStderr, [2]), (FrameStdout, [3])])) 7, rd_end = EOF\<rparr> [] [] =
    ((7, None), [1, 3], [2])"
  using exec_stream_delivers [of "[(FrameStdout, [1]), (FrameStderr, [2]), (FrameStdout, [3])]" 7 EOF]
  by (simp add: MaxFramePayload_def frame_type_defs)

text \<open>
  Forwarded stdin reaches the command unchanged: the guest pump, fed what \<open>forwardStdin\<close>
  wrote, writes exactly the bytes read up to the end of the host's stdin.
\<close>

theorem stdin_roundtrip:
  assumes "list_all (\<lambda>(c, _). length c \<le> MaxFramePayload) rs" and "list_ex (\<lambda>(_, e). e \<noteq> None) rs"
  shows "pumpStdin buffer_write \<lparr>rd_buf = forwardStdin buffer_write rs [], rd_end = e\<rparr> [] =
    concat (chunks_until_error rs)"
proof -
  have "pumpStdin buffer_write \<lparr>rd_buf = frame_bytes (FrameStdinClose, []), rd_end = e\<rparr> w = w" for w
    using ReadFrame_frame_bytes [of "(FrameStdinClose, [])" "[]" e]
    by (subst pumpStdin.simps) (simp add: frame_type_defs)
  then show ?thesis
    by (simp add: forwardStdin_wire [OF assms] pumpStdin_frames [OF chunks_bounded [OF assms(1)]])
qed

theorem stdin_roundtrip_witness:
  "pumpStdin buffer_write
     \<lparr>rd_buf = forwardStdin buffer_write [([1, 2], None), ([3], Some EOF), ([4], None)] [], rd_end = EOF\<rparr> [] =
   [1, 2, 3]"
  using stdin_roundtrip [of "[([1, 2], None), ([3], Some EOF), ([4], None)]" EOF]
  by (simp add: MaxFramePayload_def)

text \<open>
  Frames from concurrent writers are never interleaved: in every reachable state of the
  shared \<open>FrameWriter\<close> in which the mutex is free, the bytes on the wire read back as exactly
  the frames written so far, in the order they were completed.
\<close>

theorem frame_writer_whole_frames:
  assumes "fw_reachable todo s" and "fw_holder s = None"
  shows "read_all \<lparr>rd_buf = fw_wire s, rd_end = EOF\<rparr> = (fw_log s, EOF)"
proof -
  from assms(1) have "fw_inv s" by (rule fw_reachable_inv)
  with assms(2) show ?thesis by (simp add: fw_inv_def read_all_frames)
qed

definition fw_demo :: "nat \<Rightarrow> (byte \<times> byte list) list" where
  "fw_demo i = (if i = 0 then [(FrameStdout, [5])] else [])"

lemma fw_demo_reachable:
  "fw_reachable fw_demo
     ((fw_init fw_demo)\<lparr>fw_holder := None, fw_pcs := (\<lambda>_. Idle)(0 := Idle), fw_pending := fw_demo(0 := []),
       fw_wire := frame_header FrameStdout [5] @ [5], fw_log := [(FrameStdout, [5])]\<rparr>)"
proof -
  let ?f = "(FrameStdout, [5 :: byte])"
  let ?s1 = "(fw_init fw_demo)\<lparr>fw_holder := Some 0, fw_pcs := (\<lambda>_. Idle)(0 := Locked)\<rparr>"
  let ?s2 = "?s1\<lparr>fw_pcs := (\<lambda>_. Idle)(0 := HeaderDone), fw_wire := frame_header FrameStdout [5]\<rparr>"
  have "fw_reachable fw_demo ?s1"
    by (rule fw_next [OF fw_start])
       (use fw_lock [of "fw_init fw_demo" 0 ?f "[]"] in \<open>simp add: fw_init_def fw_demo_def\<close>)
  then have "fw_reachable fw_demo ?s2"
    by (rule fw_next)
       (use fw_header [of ?s1 0 ?f "[]"] in \<open>simp add: fw_init_def fw_demo_def MaxFramePayload_def\<close>)
  then show ?thesis
    by (rule fw_next)
       (use fw_payload [of ?s2 0 ?f "[]"] in \<open>simp add: fw_init_def fw_demo_def\<close>)
qed

theorem frame_writer_whole_frames_witness:
  "read_all \<lparr>rd_buf = frame_header FrameStdout [5] @ [5], rd_end = EOF\<rparr> = ([(FrameStdout, [5])], EOF)"
  using frame_writer_whole_frames [OF fw_demo_reachable] by simp

text \<open>
  An exit code in the range of a 32-bit integer survives the Exit frame, negative codes
  included.
\<close>

theorem exit_code_roundtrip:
  assumes "- (2 ^ 31) \<le> sint code" and "sint code < 2 ^ 31"
  shows "DecodeExitCode (ExitCode code) = code"
  using assms by (simp add: DecodeExitCode_def ExitCode_def scast_ucast_int32)

theorem exit_code_roundtrip_witness:
  "DecodeExitCode (ExitCode (- 9)) = - 9"
  by (rule exit_code_roundtrip) simp_all

end
