(* ===== verification/GPU_Types.thy ===== *)
theory GPU_Types
  imports Prelude
begin

text \<open>
  The API objects of the native GPU model (\<open>api/gpu/v1alpha1\<close>) and the cluster they live in.

  A cluster is the SwiftGPUNodes in list order and the core Nodes by name. Every object
  carries its resource version; a status write made from an older version is refused with a
  conflict, and a call may fail for reasons of its own, which the \<open>api_faults\<close> argument
  supplies. The label selector library is the argument \<open>matches\<close>.
\<close>

section \<open>Objects\<close>

record GPUDevice =
  gIndex :: int
  gPCIAddress :: string
  gVendor :: string
  gModel :: string
  gDeviceID :: string
  gNUMANode :: int
  gIOMMUGroup :: int
  gDriver :: string
  gBARSizes :: "(int \<times> int) list"
  gAllocated :: bool
  gAllocatedTo :: string

record FMPartitionStatus =
  pID :: int
  pGPUIndices :: "int list"
  pActive :: bool
  pAllocatedTo :: string

record FabricManagerStatus =
  fmInstalled :: bool
  fmVersion :: string
  fmRunning :: bool
  fmPartitions :: "FMPartitionStatus list"

record CPUTopologyInfo =
  ctSockets :: int
  ctCoresPerSocket :: int
  ctThreadsPerCore :: int
  ctTotalCPUs :: int

record NUMANodeInfo =
  nuID :: int
  nuCPUs :: string
  nuMemoryMi :: int

record HugepageInfo =
  hpTotal :: int
  hpFree :: int

record HostTopology =
  hCPUTopology :: CPUTopologyInfo
  hNUMANodes :: "NUMANodeInfo list"
  hIOMMUEnabled :: bool
  hHugepages1Gi :: HugepageInfo

record NVSwitchDevice =
  swPCIAddress :: string
  swDeviceID :: string
  swNUMANode :: int

text \<open>
  A SwiftGPUNode with the fields of its status inline; \<open>nResourceVersion\<close> is
  \<open>ObjectMeta.ResourceVersion\<close>.
\<close>

record SwiftGPUNode =
  nName :: string
  nResourceVersion :: nat
  nPhase :: string
  nLastDiscovery :: "int option"
  nGPUCount :: int
  nFreeGPUs :: int
  nGPUModel :: string
  nGPUVendor :: string
  nVfioReady :: bool
  nHost :: HostTopology
  nGPUs :: "GPUDevice list"
  nNVSwitches :: "NVSwitchDevice list"
  nFabricManager :: "FabricManagerStatus option"

record SwiftGPUProfile =
  prCount :: int
  prModel :: string
  prTier :: string
  prPartitionMode :: string
  prFabricManager :: "string option"  \<comment> \<open>\<open>FabricManagerSpec.RequiredVersion\<close> when the spec is set\<close>

record KNode =
  knUnschedulable :: bool
  knLabels :: "(string \<times> string) list"

record NodeConstraint =
  ncRequiredNode :: string
  ncNodeSelector :: "(string \<times> string) list"

section \<open>The cluster\<close>

record gpu_cluster =
  gcNodes :: "SwiftGPUNode list"
  gcKNodes :: "string \<rightharpoonup> KNode"

record api_faults =
  afList :: "goerr option"
  afGetGPU :: "string \<Rightarrow> goerr option"
  afGetNode :: "string \<Rightarrow> goerr option"
  afUpdate :: "string \<Rightarrow> goerr option"

definition no_faults :: api_faults where
  "no_faults = \<lparr>afList = None, afGetGPU = (\<lambda>_. None), afGetNode = (\<lambda>_. None), afUpdate = (\<lambda>_. None)\<rparr>"

definition NotFound :: "string \<Rightarrow> goerr" where
  "NotFound nm = GoErr (nm @ '' not found'') [ErrNotFound]"

definition Conflict :: "string \<Rightarrow> goerr" where
  "Conflict nm = GoErr (''the object has been modified: '' @ nm) [ErrConflict]"

definition node_named :: "SwiftGPUNode list \<Rightarrow> string \<Rightarrow> SwiftGPUNode option" where
  "node_named ns nm = find (\<lambda>n. nName n = nm) ns"

definition ListGPUNodes :: "api_faults \<Rightarrow> gpu_cluster \<Rightarrow> SwiftGPUNode list res" where
  "ListGPUNodes af c = (case afList af of Some e \<Rightarrow> Inl e | None \<Rightarrow> Inr (gcNodes c))"

definition GetGPUNode :: "api_faults \<Rightarrow> gpu_cluster \<Rightarrow> string \<Rightarrow> SwiftGPUNode res" where
  "GetGPUNode af c nm =
     (case afGetGPU af nm of
        Some e \<Rightarrow> Inl e
      | None \<Rightarrow> (case node_named (gcNodes c) nm of None \<Rightarrow> Inl (NotFound nm) | Some n \<Rightarrow> Inr n))"

definition GetNode :: "api_faults \<Rightarrow> gpu_cluster \<Rightarrow> string \<Rightarrow> KNode res" where
  "GetNode af c nm =
     (case afGetNode af nm of
        Some e \<Rightarrow> Inl e
      | None \<Rightarrow> (case gcKNodes c nm of None \<Rightarrow> Inl (NotFound nm) | Some n \<Rightarrow> Inr n))"

definition store_node :: "SwiftGPUNode \<Rightarrow> gpu_cluster \<Rightarrow> gpu_cluster" where
  "store_node n c = c\<lparr>gcNodes := map (\<lambda>m. if nName m = nName n then n else m) (gcNodes c)\<rparr>"

definition StatusUpdate :: "api_faults \<Rightarrow> gpu_cluster \<Rightarrow> SwiftGPUNode \<Rightarrow> goerr option \<times> gpu_cluster" where
  "StatusUpdate af c n =
     (case afUpdate af (nName n) of
        Some e \<Rightarrow> (Some e, c)
      | None \<Rightarrow>
          (case node_named (gcNodes c) (nName n) of
             None \<Rightarrow> (Some (NotFound (nName n)), c)
           | Some cur \<Rightarrow>
               if nResourceVersion cur \<noteq> nResourceVersion n then (Some (Conflict (nName n)), c)
               else (None, store_node (n\<lparr>nResourceVersion := Suc (nResourceVersion n)\<rparr>) c)))"

definition wf_names :: "gpu_cluster \<Rightarrow> bool" where
  "wf_names c \<longleftrightarrow> distinct (map nName (gcNodes c)) \<and> '''' \<notin> set (map nName (gcNodes c))"

text \<open>A call that fails for its own reasons does not claim that the object is missing.\<close>

definition faults_ok :: "api_faults \<Rightarrow> bool" where
  "faults_ok af \<longleftrightarrow> (\<forall>nm e. afGetGPU af nm = Some e \<longrightarrow> \<not> errors_Is e ErrNotFound)"

section \<open>Lemmas\<close>

lemma no_faults_simps [simp]:
  "afList no_faults = None" "afGetGPU no_faults nm = None"
  "afGetNode no_faults nm = None" "afUpdate no_faults nm = None"
  by (simp_all add: no_faults_def)

lemma node_named_Some: "node_named ns nm = Some n \<Longrightarrow> n \<in> set ns \<and> nName n = nm"
  by (auto simp: node_named_def find_Some_iff)

lemma node_named_distinct:
  assumes "distinct (map nName ns)" and "n \<in> set ns"
  shows "node_named ns (nName n) = Some n"
  using assms
proof (induction ns)
  case Nil
  then show ?case by simp
next
  case (Cons m ns)
  then show ?case by (cases "m = n") (auto simp: node_named_def)
qed

lemma names_store_node [simp]: "map nName (gcNodes (store_node n c)) = map nName (gcNodes c)"
  by (auto simp: store_node_def)

lemma wf_names_store_node [simp]: "wf_names (store_node n c) = wf_names c"
  unfolding wf_names_def names_store_node ..

lemma set_store_node:
  "m \<in> set (gcNodes (store_node n c)) \<Longrightarrow> m = n \<or> (m \<in> set (gcNodes c) \<and> nName m \<noteq> nName n)"
  by (auto simp: store_node_def split: if_splits)

lemma store_node_keeps:
  "m \<in> set (gcNodes c) \<Longrightarrow> nName m \<noteq> nName n \<Longrightarrow> m \<in> set (gcNodes (store_node n c))"
  by (force simp: store_node_def)

lemma node_named_store_node:
  "node_named (gcNodes (store_node n c)) nm =
     (if nm = nName n then map_option (\<lambda>_. n) (node_named (gcNodes c) nm) else node_named (gcNodes c) nm)"
proof -
  have "find (\<lambda>m. nName m = nm) (map (\<lambda>m. if nName m = nName n then n else m) ns) =
     (if nm = nName n then map_option (\<lambda>_. n) (find (\<lambda>m. nName m = nm) ns) else find (\<lambda>m. nName m = nm) ns)" for ns
    by (induction ns) auto
  then show ?thesis by (simp add: node_named_def store_node_def)
qed

lemma StatusUpdate_None:
  assumes "StatusUpdate af c n = (None, c')"
  shows "c' = store_node (n\<lparr>nResourceVersion := Suc (nResourceVersion n)\<rparr>) c"
    and "\<exists>cur. node_named (gcNodes c) (nName n) = Some cur \<and> nResourceVersion cur = nResourceVersion n"
  using assms by (auto simp: StatusUpdate_def split: option.splits if_splits)

lemma StatusUpdate_Some: "StatusUpdate af c n = (Some e, c') \<Longrightarrow> c' = c"
  by (auto simp: StatusUpdate_def split: option.splits if_splits)

lemma StatusUpdate_cases:
  assumes "StatusUpdate af c n = (r, c')"
  obtains (failed) e where "r = Some e" "c' = c"
  | (written) "r = None" "c' = store_node (n\<lparr>nResourceVersion := Suc (nResourceVersion n)\<rparr>) c"
  using assms StatusUpdate_Some StatusUpdate_None(1) by (cases r) blast+

lemma GetGPUNode_Inr: "GetGPUNode af c nm = Inr n \<Longrightarrow> node_named (gcNodes c) nm = Some n"
  by (auto simp: GetGPUNode_def split: option.splits)

lemma ListGPUNodes_Inr: "ListGPUNodes af c = Inr ns \<Longrightarrow> ns = gcNodes c"
  by (auto simp: ListGPUNodes_def split: option.splits)

end
