(* ===== verification/GPU_Alloc.thy ===== *)
theory GPU_Alloc
  imports GPU_Types
begin

text \<open>
  Native GPU allocation: \<open>internal/controller/swiftgpu/allocate.go\<close>, \<open>primitives.go\<close> and
  \<open>preflight.go\<close>.

  \<open>FindAndAllocateFor\<close> is split the way the code runs: a read of the node list, a decision
  on what was read (\<open>plan_allocation\<close>), and one status write of the decided node. The
  decision is a function of the values read, so the concurrency theory can put other
  writers between the read and the write.

  Counts are the \<open>Count\<close> of a profile, which the CRD restricts to 1, 2, 4 or 8; the slice
  expression of \<open>selectGPUs\<close> is modelled for counts that are not negative.
\<close>

section \<open>Selection\<close>

definition numaSetToSlice :: "int list \<Rightarrow> int list" where
  "numaSetToSlice xs = sort (remdups xs)"

definition countFreeGPUs :: "GPUDevice list \<Rightarrow> int" where
  "countFreeGPUs gpus = int (length (filter (\<lambda>g. \<not> gAllocated g) gpus))"

definition model_ok :: "string \<Rightarrow> string \<Rightarrow> bool" where
  "model_ok model have_model \<longleftrightarrow> model = '''' \<or> Contains have_model model"

text \<open>The devices of the NUMA nodes, taken in order until \<open>count\<close> are picked.\<close>

fun pick_across :: "(int \<Rightarrow> GPUDevice list) \<Rightarrow> nat \<Rightarrow> int list \<Rightarrow> GPUDevice list \<Rightarrow> GPUDevice list" where
  "pick_across byNUMA count [] picked = picked"
| "pick_across byNUMA count (k # ks) picked =
     (let picked' = picked @ take (count - length picked) (byNUMA k)
      in if count \<le> length picked' then picked' else pick_across byNUMA count ks picked')"

definition free_matching :: "GPUDevice list \<Rightarrow> string \<Rightarrow> GPUDevice list" where
  "free_matching gpus model = filter (\<lambda>g. \<not> gAllocated g \<and> model_ok model (gModel g)) gpus"

definition nil_if_empty :: "'a list \<Rightarrow> 'a list option" where
  "nil_if_empty xs = (if xs = [] then None else Some xs)"

text \<open>
  The first result is \<open>None\<close> for a nil slice. \<open>picked\<close> starts nil, so it is nil when nothing
  was appended.
\<close>

definition selectGPUs :: "GPUDevice list \<Rightarrow> int \<Rightarrow> string \<Rightarrow> GPUDevice list option \<times> int list" where
  "selectGPUs gpus count model =
     (let free = free_matching gpus model
      in if int (length free) < count then (None, [])
         else
           let byNUMA = (\<lambda>k. filter (\<lambda>g. gNUMANode g = k) free);
               numaKeys = sort (remdups (map gNUMANode free))
           in case find (\<lambda>k. count \<le> int (length (byNUMA k))) numaKeys of
                Some k \<Rightarrow> (Some (take (nat count) (byNUMA k)), [k])
              | None \<Rightarrow>
                  let picked = pick_across byNUMA (nat count) numaKeys []
                  in (nil_if_empty picked, numaSetToSlice (map gNUMANode picked)))"

definition byIndex :: "GPUDevice list \<Rightarrow> int \<Rightarrow> GPUDevice option" where
  "byIndex gpus i = find (\<lambda>g. gIndex g = i) (rev gpus)"

text \<open>The members of a partition, or \<open>None\<close> when one is missing, held or of another model.\<close>

fun partition_members :: "GPUDevice list \<Rightarrow> string \<Rightarrow> int list \<Rightarrow> GPUDevice list option" where
  "partition_members gpus model [] = Some []"
| "partition_members gpus model (i # is) =
     (case byIndex gpus i of
        None \<Rightarrow> None
      | Some g \<Rightarrow>
          if gAllocated g \<or> \<not> model_ok model (gModel g) then None
          else map_option (\<lambda>ms. g # ms) (partition_members gpus model is))"

type_synonym part_choice = "GPUDevice list option \<times> int list \<times> int"

fun partition_loop ::
  "GPUDevice list \<Rightarrow> int \<Rightarrow> string \<Rightarrow> FMPartitionStatus list \<Rightarrow> part_choice \<Rightarrow> part_choice" where
  "partition_loop gpus count model [] fb = fb"
| "partition_loop gpus count model (p # ps) fb =
     (if int (length (pGPUIndices p)) \<noteq> count \<or> pAllocatedTo p \<noteq> '''' then partition_loop gpus count model ps fb
      else case partition_members gpus model (pGPUIndices p) of
             None \<Rightarrow> partition_loop gpus count model ps fb
           | Some ms \<Rightarrow>
               let choice = (Some ms, numaSetToSlice (map gNUMANode ms), pID p)
               in if length (remdups (map gNUMANode ms)) = 1 then choice
                  else partition_loop gpus count model ps (if snd (snd fb) < 0 then choice else fb))"

definition selectPartitionGPUs :: "SwiftGPUNode \<Rightarrow> int \<Rightarrow> string \<Rightarrow> part_choice" where
  "selectPartitionGPUs n count model =
     (case nFabricManager n of
        None \<Rightarrow> (None, [], -1)
      | Some fm \<Rightarrow>
          if \<not> fmRunning fm then (None, [], -1)
          else partition_loop (nGPUs n) count model (fmPartitions fm) (None, [], -1))"

definition fmVersionCompatible :: "SwiftGPUNode \<Rightarrow> SwiftGPUProfile \<Rightarrow> bool" where
  "fmVersionCompatible n pr =
     (if prPartitionMode pr \<noteq> ''shared'' then True
      else case prFabricManager pr of
             None \<Rightarrow> True
           | Some v \<Rightarrow>
               v = '''' \<or> (case nFabricManager n of None \<Rightarrow> False | Some fm \<Rightarrow> fmVersion fm = v))"

definition fmVersionString :: "SwiftGPUNode \<Rightarrow> string" where
  "fmVersionString n =
     (case nFabricManager n of None \<Rightarrow> ''<no Fabric Manager reported>'' | Some fm \<Rightarrow> fmVersion fm)"

definition requiredVersion :: "SwiftGPUProfile \<Rightarrow> string" where
  "requiredVersion pr = (case prFabricManager pr of None \<Rightarrow> '''' | Some v \<Rightarrow> v)"

text \<open>The selection by partition mode that \<open>FindAndAllocateFor\<close> and \<open>ReserveOnNode\<close> share.\<close>

definition select_for :: "SwiftGPUNode \<Rightarrow> SwiftGPUProfile \<Rightarrow> part_choice" where
  "select_for n pr =
     (if prPartitionMode pr = ''shared'' then selectPartitionGPUs n (prCount pr) (prModel pr)
      else (case selectGPUs (nGPUs n) (prCount pr) (prModel pr) of (gpus, numa) \<Rightarrow> (gpus, numa, -1)))"

section \<open>Marking and clearing a node\<close>

definition mark_gpus :: "string \<Rightarrow> GPUDevice list \<Rightarrow> GPUDevice list \<Rightarrow> GPUDevice list" where
  "mark_gpus ident sel gpus =
     map (\<lambda>d. if gPCIAddress d \<in> gPCIAddress ` set sel
              then d\<lparr>gAllocated := True, gAllocatedTo := ident\<rparr> else d) gpus"

definition mark_partition :: "string \<Rightarrow> int \<Rightarrow> FabricManagerStatus \<Rightarrow> FabricManagerStatus" where
  "mark_partition ident part fm =
     fm\<lparr>fmPartitions := map (\<lambda>p. if pID p = part then p\<lparr>pAllocatedTo := ident\<rparr> else p) (fmPartitions fm)\<rparr>"

definition mark_node :: "string \<Rightarrow> GPUDevice list \<Rightarrow> int \<Rightarrow> SwiftGPUNode \<Rightarrow> SwiftGPUNode" where
  "mark_node ident sel part n =
     (let gpus = mark_gpus ident sel (nGPUs n)
      in n\<lparr>nGPUs := gpus,
           nFabricManager := (if 0 \<le> part then map_option (mark_partition ident part) (nFabricManager n)
                              else nFabricManager n),
           nFreeGPUs := countFreeGPUs gpus\<rparr>)"

definition clear_gpus :: "string \<Rightarrow> GPUDevice list \<Rightarrow> GPUDevice list" where
  "clear_gpus ident = map (\<lambda>d. if gAllocatedTo d = ident then d\<lparr>gAllocated := False, gAllocatedTo := ''''\<rparr> else d)"

definition clear_partitions :: "string \<Rightarrow> FabricManagerStatus \<Rightarrow> FabricManagerStatus" where
  "clear_partitions ident fm =
     fm\<lparr>fmPartitions := map (\<lambda>p. if pAllocatedTo p = ident then p\<lparr>pAllocatedTo := ''''\<rparr> else p) (fmPartitions fm)\<rparr>"

definition clear_node :: "string \<Rightarrow> SwiftGPUNode \<Rightarrow> SwiftGPUNode" where
  "clear_node ident n =
     (let gpus = clear_gpus ident (nGPUs n)
      in n\<lparr>nGPUs := gpus, nFabricManager := map_option (clear_partitions ident) (nFabricManager n),
           nFreeGPUs := countFreeGPUs gpus\<rparr>)"

text \<open>What a node holds for an identity: its devices and the last partition assigned to it.\<close>

definition held_gpus :: "string \<Rightarrow> SwiftGPUNode \<Rightarrow> GPUDevice list" where
  "held_gpus ident n = filter (\<lambda>g. gAllocatedTo g = ident) (nGPUs n)"

definition node_partitions :: "SwiftGPUNode \<Rightarrow> FMPartitionStatus list" where
  "node_partitions n = (case nFabricManager n of None \<Rightarrow> [] | Some fm \<Rightarrow> fmPartitions fm)"

definition held_partition :: "string \<Rightarrow> SwiftGPUNode \<Rightarrow> int" where
  "held_partition ident n =
     foldl (\<lambda>acc p. if pAllocatedTo p = ident then pID p else acc) (-1) (node_partitions n)"

definition holds_any :: "string \<Rightarrow> SwiftGPUNode \<Rightarrow> bool" where
  "holds_any ident n \<longleftrightarrow>
     (\<exists>g \<in> set (nGPUs n). gAllocatedTo g = ident) \<or> (\<exists>p \<in> set (node_partitions n). pAllocatedTo p = ident)"

section \<open>Allocation\<close>

type_synonym selector_lib = "(string \<times> string) list \<Rightarrow> (string \<times> string) list \<Rightarrow> bool"

definition nodeUsable ::
  "selector_lib \<Rightarrow> api_faults \<Rightarrow> gpu_cluster \<Rightarrow> SwiftGPUNode \<Rightarrow> NodeConstraint \<Rightarrow> bool res" where
  "nodeUsable matches af c n nc =
     (if \<not> nVfioReady n \<or> (nPhase n \<noteq> '''' \<and> nPhase n \<noteq> ''Ready'') then Inr False
      else if ncRequiredNode nc \<noteq> '''' \<and> nName n \<noteq> ncRequiredNode nc then Inr False
      else case GetNode af c (nName n) of
             Inl e \<Rightarrow> if errors_Is e ErrNotFound then Inr False else Inl e
           | Inr k \<Rightarrow>
               if knUnschedulable k then Inr False
               else Inr (matches (ncNodeSelector nc) (knLabels k)))"

type_synonym alloc_result = "SwiftGPUNode \<times> GPUDevice list \<times> int list \<times> int"

definition existing_result :: "string \<Rightarrow> SwiftGPUNode \<Rightarrow> alloc_result" where
  "existing_result ident n =
     (n, held_gpus ident n, numaSetToSlice (map gNUMANode (held_gpus ident n)), held_partition ident n)"

text \<open>The first pass: the preferred node if it holds devices, else the first node that does.\<close>

fun first_pass :: "string \<Rightarrow> string \<Rightarrow> SwiftGPUNode list \<Rightarrow> alloc_result option \<Rightarrow> alloc_result option" where
  "first_pass ident preferred [] fb = fb"
| "first_pass ident preferred (n # ns) fb =
     (if held_gpus ident n = [] then first_pass ident preferred ns fb
      else if preferred \<noteq> '''' \<and> nName n = preferred then Some (existing_result ident n)
      else first_pass ident preferred ns
             (case fb of None \<Rightarrow> Some (existing_result ident n) | Some r \<Rightarrow> Some r))"

text \<open>
  The second pass up to the marks: the node chosen, its selection, or the error of a
  failed read; \<open>None\<close> when no node qualifies, with the Fabric Manager mismatch flag.
\<close>

fun second_pass ::
  "selector_lib \<Rightarrow> api_faults \<Rightarrow> gpu_cluster \<Rightarrow> SwiftGPUProfile \<Rightarrow> NodeConstraint \<Rightarrow>
   SwiftGPUNode list \<Rightarrow> bool \<Rightarrow> (alloc_result option \<times> bool) res" where
  "second_pass matches af c pr nc [] mismatch = Inr (None, mismatch)"
| "second_pass matches af c pr nc (n # ns) mismatch =
     (if nFreeGPUs n < prCount pr then second_pass matches af c pr nc ns mismatch
      else case nodeUsable matches af c n nc of
             Inl e \<Rightarrow> Inl e
           | Inr ok \<Rightarrow>
               if \<not> ok then second_pass matches af c pr nc ns mismatch
               else if \<not> model_ok (prModel pr) (nGPUModel n) then second_pass matches af c pr nc ns mismatch
               else if \<not> fmVersionCompatible n pr then second_pass matches af c pr nc ns True
               else case select_for n pr of
                      (None, _, _) \<Rightarrow> second_pass matches af c pr nc ns mismatch
                    | (Some gpus, numa, part) \<Rightarrow> Inr (Some (n, gpus, numa, part), mismatch))"

datatype alloc_plan =
    Existing alloc_result
  | Allocate alloc_result
  | Refuse goerr

definition ErrNoCapacity_err :: goerr where
  "ErrNoCapacity_err = GoErr ''no GPU node has sufficient capacity'' [ErrNoCapacity]"

definition mismatch_err :: "SwiftGPUProfile \<Rightarrow> goerr" where
  "mismatch_err pr =
     GoErr (err_msg ErrNoCapacity_err @
            '': candidate GPU node(s) run a Fabric Manager version that does not match profile.spec.fabricManager.requiredVersion='' @
            Quote (requiredVersion pr) @
            '' (for shared NVSwitch mode the host Fabric Manager version must exactly match the guest driver version)'') [ErrNoCapacity]"

definition plan_allocation ::
  "selector_lib \<Rightarrow> api_faults \<Rightarrow> gpu_cluster \<Rightarrow> SwiftGPUNode list \<Rightarrow> string \<Rightarrow> string \<Rightarrow>
   SwiftGPUProfile \<Rightarrow> NodeConstraint \<Rightarrow> alloc_plan" where
  "plan_allocation matches af c items ident preferred pr nc =
     (case first_pass ident preferred items None of
        Some r \<Rightarrow> Existing r
      | None \<Rightarrow>
          (case second_pass matches af c pr nc items False of
             Inl e \<Rightarrow> Refuse e
           | Inr (Some r, _) \<Rightarrow> Allocate r
           | Inr (None, mismatch) \<Rightarrow> Refuse (if mismatch then mismatch_err pr else ErrNoCapacity_err)))"

text \<open>The write of a planned allocation.\<close>

definition commit_allocation ::
  "api_faults \<Rightarrow> gpu_cluster \<Rightarrow> string \<Rightarrow> alloc_plan \<Rightarrow> alloc_result res \<times> gpu_cluster" where
  "commit_allocation af c ident plan =
     (case plan of
        Existing r \<Rightarrow> (Inr r, c)
      | Refuse e \<Rightarrow> (Inl e, c)
      | Allocate (n, gpus, numa, part) \<Rightarrow>
          let n' = mark_node ident gpus part n
          in case StatusUpdate af c n' of
               (Some e, c') \<Rightarrow> (Inl (Errorw (''update SwiftGPUNode '' @ nName n @ '' status: '') e), c')
             | (None, c') \<Rightarrow> (Inr (n', gpus, numa, part), c'))"

definition FindAndAllocateFor ::
  "selector_lib \<Rightarrow> api_faults \<Rightarrow> gpu_cluster \<Rightarrow> string \<Rightarrow> string \<Rightarrow> SwiftGPUProfile \<Rightarrow>
   NodeConstraint \<Rightarrow> alloc_result res \<times> gpu_cluster" where
  "FindAndAllocateFor matches af c ident preferred pr nc =
     (case ListGPUNodes af c of
        Inl e \<Rightarrow> (Inl e, c)
      | Inr items \<Rightarrow> commit_allocation af c ident (plan_allocation matches af c items ident preferred pr nc))"

section \<open>Reservation, release and preflight\<close>

definition identity :: "string \<Rightarrow> string \<Rightarrow> string" where
  "identity ns nm = ns @ ''/'' @ nm"

definition ReserveOnNode ::
  "api_faults \<Rightarrow> gpu_cluster \<Rightarrow> string \<Rightarrow> string \<Rightarrow> SwiftGPUProfile \<Rightarrow> string \<Rightarrow>
   (GPUDevice list \<times> int list \<times> int) res \<times> gpu_cluster" where
  "ReserveOnNode af c ns nm pr nodeName =
     (let ident = identity ns nm in
      case GetGPUNode af c nodeName of
        Inl e \<Rightarrow> (Inl (Errorw (''get SwiftGPUNode '' @ Quote nodeName @ '': '') e), c)
      | Inr n \<Rightarrow>
          if held_gpus ident n \<noteq> [] then (Inr (snd (existing_result ident n)), c)
          else if \<not> nVfioReady n then (Inl (Errorf (''GPU node '' @ Quote nodeName @ '' is not vfio-ready (vfio-pci not loaded)'')), c)
          else if nFreeGPUs n < prCount pr then
            (Inl (Errorf (''GPU node '' @ Quote nodeName @ '' has '' @ dec_int (nFreeGPUs n) @ '' free GPU(s), need '' @ dec_int (prCount pr))), c)
          else if \<not> model_ok (prModel pr) (nGPUModel n) then
            (Inl (Errorf (''GPU node '' @ Quote nodeName @ '' model '' @ Quote (nGPUModel n) @ '' does not match profile model '' @ Quote (prModel pr))), c)
          else if \<not> fmVersionCompatible n pr then
            (Inl (Errorf (''GPU node '' @ Quote nodeName @ '' Fabric Manager version '' @ Quote (fmVersionString n) @
                          '' does not match profile requiredVersion '' @ Quote (requiredVersion pr))), c)
          else case select_for n pr of
                 (None, _, _) \<Rightarrow>
                   (Inl (Errorf (if prPartitionMode pr = ''shared''
                                 then ''GPU node '' @ Quote nodeName @ '': no free FM partition with '' @ dec_int (prCount pr) @ '' free matching GPU(s)''
                                 else ''GPU node '' @ Quote nodeName @ '' could not select '' @ dec_int (prCount pr) @ '' matching GPU(s)'')), c)
               | (Some gpus, numa, part) \<Rightarrow>
                   (case StatusUpdate af c (mark_node ident gpus part n) of
                      (Some e, c') \<Rightarrow> (Inl (Errorw (''reserve GPUs on '' @ Quote nodeName @ '': '') e), c')
                    | (None, c') \<Rightarrow> (Inr (gpus, numa, part), c')))"

definition releaseFromNodeFor ::
  "api_faults \<Rightarrow> gpu_cluster \<Rightarrow> string \<Rightarrow> string \<Rightarrow> goerr option \<times> gpu_cluster" where
  "releaseFromNodeFor af c ident nodeName =
     (if nodeName = '''' then (None, c)
      else case GetGPUNode af c nodeName of
             Inl e \<Rightarrow> (if errors_Is e ErrNotFound then None else Some e, c)
           | Inr n \<Rightarrow> if holds_any ident n then StatusUpdate af c (clear_node ident n) else (None, c))"

definition ReleaseFromNode ::
  "api_faults \<Rightarrow> gpu_cluster \<Rightarrow> string \<Rightarrow> string \<Rightarrow> string \<Rightarrow> goerr option \<times> gpu_cluster" where
  "ReleaseFromNode af c ns nm nodeName = releaseFromNodeFor af c (identity ns nm) nodeName"

fun release_each :: "api_faults \<Rightarrow> gpu_cluster \<Rightarrow> string \<Rightarrow> string list \<Rightarrow> goerr option \<times> gpu_cluster" where
  "release_each af c ident [] = (None, c)"
| "release_each af c ident (nm # nms) =
     (case releaseFromNodeFor af c ident nm of
        (Some e, c') \<Rightarrow> (Some e, c')
      | (None, c') \<Rightarrow> release_each af c' ident nms)"

definition DeallocateForWorkload :: "api_faults \<Rightarrow> gpu_cluster \<Rightarrow> string \<Rightarrow> goerr option \<times> gpu_cluster" where
  "DeallocateForWorkload af c ident =
     (case ListGPUNodes af c of
        Inl e \<Rightarrow> (Some (Errorw ''list SwiftGPUNodes for deallocation: '' e), c)
      | Inr items \<Rightarrow> release_each af c ident (map nName items))"

definition nativeAllocationHeld :: "api_faults \<Rightarrow> gpu_cluster \<Rightarrow> string \<Rightarrow> bool res" where
  "nativeAllocationHeld af c ident =
     (case ListGPUNodes af c of
        Inl e \<Rightarrow> Inl (Errorw ''list SwiftGPUNodes: '' e)
      | Inr items \<Rightarrow> Inr (list_ex (holds_any ident) items))"

definition GPUNodeHasCapacity ::
  "api_faults \<Rightarrow> gpu_cluster \<Rightarrow> string \<Rightarrow> SwiftGPUProfile \<Rightarrow> goerr option" where
  "GPUNodeHasCapacity af c nodeName pr =
     (case GetGPUNode af c nodeName of
        Inl e \<Rightarrow>
          Some (if errors_Is e ErrNotFound then Errorf (''node '' @ Quote nodeName @ '' has no SwiftGPUNode (not a GPU node, or discovery has not run)'')
                else Errorw (''get SwiftGPUNode '' @ Quote nodeName @ '': '') e)
      | Inr n \<Rightarrow>
          if \<not> nVfioReady n then Some (Errorf (''GPU node '' @ Quote nodeName @ '' is not vfio-ready (vfio-pci not loaded); load vfio-pci on the host''))
          else if nFreeGPUs n < prCount pr then
            Some (Errorf (''GPU node '' @ Quote nodeName @ '' has '' @ dec_int (nFreeGPUs n) @ '' free GPU(s), need '' @ dec_int (prCount pr)))
          else if \<not> model_ok (prModel pr) (nGPUModel n) then
            Some (Errorf (''GPU node '' @ Quote nodeName @ '' model '' @ Quote (nGPUModel n) @ '' does not match profile model '' @ Quote (prModel pr)))
          else if \<not> fmVersionCompatible n pr then
            Some (Errorf (''GPU node '' @ Quote nodeName @ '' Fabric Manager version '' @ Quote (fmVersionString n) @
                          '' does not match profile requiredVersion '' @ Quote (requiredVersion pr) @
                          '' (host FM version must match the guest driver version for shared NVSwitch mode)''))
          else if prPartitionMode pr = ''shared'' \<and> fst (selectPartitionGPUs n (prCount pr) (prModel pr)) = None then
            Some (Errorf (''GPU node '' @ Quote nodeName @ '' has no free Fabric Manager partition with '' @
                          dec_int (prCount pr) @ '' free matching GPU(s)''))
          else None)"

section \<open>Well-formed nodes\<close>

definition wf_node :: "SwiftGPUNode \<Rightarrow> bool" where
  "wf_node n \<longleftrightarrow>
     distinct (map gPCIAddress (nGPUs n)) \<and> distinct (map gIndex (nGPUs n)) \<and>
     (\<forall>g \<in> set (nGPUs n). gAllocated g \<longleftrightarrow> gAllocatedTo g \<noteq> '''') \<and>
     nFreeGPUs n = countFreeGPUs (nGPUs n) \<and>
     distinct (map pID (node_partitions n)) \<and>
     (\<forall>p \<in> set (node_partitions n). 0 \<le> pID p \<and> distinct (pGPUIndices p))"

definition wf_cluster :: "gpu_cluster \<Rightarrow> bool" where
  "wf_cluster c \<longleftrightarrow> wf_names c \<and> (\<forall>n \<in> set (gcNodes c). wf_node n)"

text \<open>
  The fabric invariant: the members of a partition assigned to a workload are devices of
  that workload.
\<close>

definition fabric_ok :: "SwiftGPUNode \<Rightarrow> bool" where
  "fabric_ok n \<longleftrightarrow>
     (\<forall>p \<in> set (node_partitions n). pAllocatedTo p \<noteq> '''' \<longrightarrow>
        (\<forall>i \<in> set (pGPUIndices p). \<exists>g \<in> set (nGPUs n). gIndex g = i \<and> gAllocatedTo g = pAllocatedTo p))"

section \<open>Selection lemmas\<close>

lemma set_free_matching [simp]:
  "set (free_matching gpus model) = {g \<in> set gpus. \<not> gAllocated g \<and> model_ok model (gModel g)}"
  by (auto simp: free_matching_def)

lemma pick_across_take:
  "length picked < count \<Longrightarrow>
   pick_across by_numa count ks picked = picked @ take (count - length picked) (concat (map by_numa ks))"
proof (induction ks arbitrary: picked)
  case Nil
  then show ?case by simp
next
  case (Cons k ks)
  let ?p = "picked @ take (count - length picked) (by_numa k)"
  show ?case
  proof (cases "count \<le> length ?p")
    case True
    then show ?thesis using Cons.prems by (auto simp: Let_def)
  next
    case False
    then have "take (count - length picked) (by_numa k) = by_numa k" by simp
    then show ?thesis using False Cons.IH [of ?p] by (simp add: Let_def)
  qed
qed

lemma concat_groups:
  assumes "distinct xs" and "distinct ks" and "set ks = f ` set xs"
  shows "distinct (concat (map (\<lambda>k. filter (\<lambda>x. f x = k) xs) ks))"
    and "set (concat (map (\<lambda>k. filter (\<lambda>x. f x = k) xs) ks)) = set xs"
    and "length (concat (map (\<lambda>k. filter (\<lambda>x. f x = k) xs) ks)) = length xs"
proof -
  let ?c = "\<lambda>ks. concat (map (\<lambda>k. filter (\<lambda>x. f x = k) xs) ks)"
  have *: "distinct ks \<Longrightarrow> distinct (?c ks)" for ks
    using assms(1) by (induction ks) auto
  from * assms(2) show 1: "distinct (?c ks)" by blast
  show 2: "set (?c ks) = set xs" using assms(3) by auto
  show "length (?c ks) = length xs"
    using distinct_card [OF 1] distinct_card [OF assms(1)] 2 by simp
qed

lemma remdups_map_const:
  assumes "xs \<noteq> []" and "\<forall>x \<in> set xs. f x = k"
  shows "remdups (map f xs) = [k]"
  using assms
proof (induction xs)
  case (Cons x xs)
  then show ?case by (cases "xs = []") (auto dest: hd_in_set)
qed simp

text \<open>The grouped devices that \<open>selectGPUs\<close> falls back to, as one list.\<close>

lemma selectGPUs_cases:
  assumes "0 < count"
  shows "int (length (free_matching gpus model)) < count \<and> selectGPUs gpus count model = (None, []) \<or>
    count \<le> int (length (free_matching gpus model)) \<and>
    (\<exists>k. count \<le> int (length (filter (\<lambda>g. gNUMANode g = k) (free_matching gpus model))) \<and>
       selectGPUs gpus count model =
         (Some (take (nat count) (filter (\<lambda>g. gNUMANode g = k) (free_matching gpus model))), [k])) \<or>
    count \<le> int (length (free_matching gpus model)) \<and>
    (\<forall>k. int (length (filter (\<lambda>g. gNUMANode g = k) (free_matching gpus model))) < count) \<and>
    (let picked = take (nat count) (concat (map (\<lambda>k. filter (\<lambda>g. gNUMANode g = k) (free_matching gpus model))
                      (sort (remdups (map gNUMANode (free_matching gpus model))))))
     in selectGPUs gpus count model = (nil_if_empty picked, numaSetToSlice (map gNUMANode picked)))"
proof -
  let ?free = "free_matching gpus model"
  let ?by = "\<lambda>k. filter (\<lambda>g. gNUMANode g = k) ?free"
  let ?keys = "sort (remdups (map gNUMANode ?free))"
  consider (few) "int (length ?free) < count"
    | (one) k where "count \<le> int (length ?free)" "find (\<lambda>k. count \<le> int (length (?by k))) ?keys = Some k"
    | (many) "count \<le> int (length ?free)" "find (\<lambda>k. count \<le> int (length (?by k))) ?keys = None"
    using not_le by blast
  then show ?thesis
  proof cases
    case few
    then show ?thesis by (simp add: selectGPUs_def)
  next
    case one
    then have "count \<le> int (length (?by k))" by (auto simp: find_Some_iff)
    with one show ?thesis by (auto simp: selectGPUs_def Let_def)
  next
    case many
    have "int (length (?by k)) < count" for k
    proof (cases "k \<in> gNUMANode ` set ?free")
      case True
      with many(2) show ?thesis by (auto simp: find_None_iff image_def)
    next
      case False
      then have "?by k = []" by (auto simp: filter_empty_conv)
      with assms show ?thesis by simp
    qed
    moreover have "pick_across ?by (nat count) ?keys [] = take (nat count) (concat (map ?by ?keys))"
      using assms by (simp add: pick_across_take)
    ultimately show ?thesis
      using many by (simp add: selectGPUs_def Let_def del: length_greater_0_conv)
  qed
qed

lemma selectGPUs_Some:
  assumes sel: "selectGPUs gpus count model = (Some sel, numa)" and "0 < count" and d: "distinct gpus"
  shows "int (length sel) = count" and "distinct sel"
    and "set sel \<subseteq> set (free_matching gpus model)"
    and "numa = numaSetToSlice (map gNUMANode sel)"
proof -
  let ?free = "free_matching gpus model"
  let ?by = "\<lambda>k. filter (\<lambda>g. gNUMANode g = k) ?free"
  let ?all = "concat (map ?by (sort (remdups (map gNUMANode ?free))))"
  have df: "distinct ?free" using d by (simp add: free_matching_def)
  note all = concat_groups [OF df, of "sort (remdups (map gNUMANode ?free))" gNUMANode, simplified]
  have single: "numaSetToSlice (map gNUMANode xs) = [k]"
    if "xs \<noteq> []" "set xs \<subseteq> set (?by k)" for xs k
  proof -
    have "\<forall>x \<in> set xs. gNUMANode x = k" using that(2) by auto
    from remdups_map_const [OF that(1) this] show ?thesis by (simp add: numaSetToSlice_def)
  qed
  from selectGPUs_cases [OF \<open>0 < count\<close>, of gpus model] sel
  consider (one) k where "count \<le> int (length (?by k))" "sel = take (nat count) (?by k)" "numa = [k]"
    | (many) "count \<le> int (length ?free)" "sel = take (nat count) ?all" "numa = numaSetToSlice (map gNUMANode sel)"
    by (auto simp: Let_def nil_if_empty_def split: if_splits)
  then have "int (length sel) = count \<and> distinct sel \<and> set sel \<subseteq> set ?free \<and> numa = numaSetToSlice (map gNUMANode sel)"
  proof cases
    case one
    have "set sel \<subseteq> set (?by k)" using one(2) set_take_subset by metis
    moreover have "sel \<noteq> []" using one \<open>0 < count\<close> by auto
    ultimately show ?thesis
      using one \<open>0 < count\<close> df single [of sel k] by auto
  next
    case many
    then show ?thesis using all \<open>0 < count\<close> set_take_subset [of "nat count" ?all]
      by auto
  qed
  then show "int (length sel) = count" "distinct sel" "set sel \<subseteq> set ?free"
    "numa = numaSetToSlice (map gNUMANode sel)" by simp_all
qed

lemma selectGPUs_None_iff:
  assumes "0 < count" and d: "distinct gpus"
  shows "fst (selectGPUs gpus count model) = None \<longleftrightarrow> int (length (free_matching gpus model)) < count"
proof -
  let ?free = "free_matching gpus model"
  let ?all = "concat (map (\<lambda>k. filter (\<lambda>g. gNUMANode g = k) ?free) (sort (remdups (map gNUMANode ?free))))"
  have "length ?all = length ?free"
    using d by (intro concat_groups(3)) (simp_all add: free_matching_def)
  then have "length (take (nat count) ?all) = min (length ?free) (nat count)"
    by (simp only: length_take)
  then have "take (nat count) ?all \<noteq> []" if "count \<le> int (length ?free)"
    using that assms(1) by fastforce
  then show ?thesis
    using selectGPUs_cases [OF assms(1), of gpus model]
    by (elim disjE conjE exE) (simp_all add: Let_def nil_if_empty_def)
qed

lemma selectGPUs_local:
  assumes "0 < count" and sel: "selectGPUs gpus count model = (Some sel, numa)"
    and "count \<le> int (length (filter (\<lambda>g. gNUMANode g = k) (free_matching gpus model)))"
  shows "\<exists>k'. numa = [k'] \<and> (\<forall>g \<in> set sel. gNUMANode g = k')"
  using selectGPUs_cases [OF assms(1), of gpus model] assms
  by (elim disjE) (auto simp: Let_def not_le [symmetric] dest!: in_set_takeD)

lemma byIndex_Some: "byIndex gpus i = Some g \<Longrightarrow> g \<in> set gpus \<and> gIndex g = i"
  by (auto simp: byIndex_def dest: find_SomeD)

lemma partition_members_Some:
  "partition_members gpus model is = Some ms \<Longrightarrow>
   map gIndex ms = is \<and> set ms \<subseteq> set (free_matching gpus model)"
  by (induction "is" arbitrary: ms) (auto split: option.splits if_splits dest: byIndex_Some)

definition viable :: "GPUDevice list \<Rightarrow> int \<Rightarrow> string \<Rightarrow> FMPartitionStatus \<Rightarrow> bool" where
  "viable gpus count model p \<longleftrightarrow>
     int (length (pGPUIndices p)) = count \<and> pAllocatedTo p = '''' \<and>
     partition_members gpus model (pGPUIndices p) \<noteq> None"

lemma partition_loop_Some:
  assumes "partition_loop gpus count model ps fb = (Some ms, numa, part)"
  shows "fb = (Some ms, numa, part) \<or>
    (\<exists>p \<in> set ps. viable gpus count model p \<and> pID p = part \<and>
       partition_members gpus model (pGPUIndices p) = Some ms \<and> numa = numaSetToSlice (map gNUMANode ms))"
  using assms
proof (induction ps arbitrary: fb)
  case (Cons p ps)
  show ?case
  proof (cases "viable gpus count model p")
    case False
    then have "partition_loop gpus count model (p # ps) fb = partition_loop gpus count model ps fb"
      by (auto simp: viable_def split: option.splits)
    with Cons.prems have "partition_loop gpus count model ps fb = (Some ms, numa, part)" by simp
    from Cons.IH [OF this] show ?thesis by auto
  next
    case True
    then obtain ms' where ms': "partition_members gpus model (pGPUIndices p) = Some ms'"
      by (auto simp: viable_def)
    with True Cons.prems
    consider (here) "ms' = ms" "numa = numaSetToSlice (map gNUMANode ms)" "pID p = part"
      | (rest) fb' where "partition_loop gpus count model ps fb' = (Some ms, numa, part)"
          "fb' = fb \<or> fb' = (Some ms', numaSetToSlice (map gNUMANode ms'), pID p)"
      by (auto simp: viable_def Let_def split: if_splits)
    then show ?thesis
    proof cases
      case here
      with True ms' show ?thesis by auto
    next
      case rest
      with Cons.IH [OF rest(1)] True ms' show ?thesis by auto
    qed
  qed
qed simp

lemma partition_loop_fallback:
  "fst fb \<noteq> None \<Longrightarrow> fst (partition_loop gpus count model ps fb) \<noteq> None"
  by (induction ps arbitrary: fb) (auto simp: Let_def split: option.splits)

lemma partition_loop_None_iff:
  "fst (partition_loop gpus count model ps (None, xs, -1)) = None \<longleftrightarrow>
   (\<forall>p \<in> set ps. \<not> viable gpus count model p)"
proof (induction ps)
  case (Cons p ps)
  then show ?case
    using partition_loop_fallback [of "(Some ms, numa, part)" gpus count model ps for ms numa part]
    by (auto simp: viable_def Let_def split: option.splits)
qed simp

lemma selectPartitionGPUs_Some:
  assumes "selectPartitionGPUs n count model = (Some ms, numa, part)"
  shows "\<exists>p \<in> set (node_partitions n). viable (nGPUs n) count model p \<and> pID p = part \<and>
     map gIndex ms = pGPUIndices p \<and> set ms \<subseteq> set (free_matching (nGPUs n) model) \<and>
     numa = numaSetToSlice (map gNUMANode ms)"
proof -
  from assms obtain p where "p \<in> set (node_partitions n)" "viable (nGPUs n) count model p" "pID p = part"
    "partition_members (nGPUs n) model (pGPUIndices p) = Some ms" "numa = numaSetToSlice (map gNUMANode ms)"
    by (auto simp: selectPartitionGPUs_def node_partitions_def split: option.splits if_splits
        dest!: partition_loop_Some)
  then show ?thesis using partition_members_Some by blast
qed

lemma selectPartitionGPUs_None:
  assumes "fst (selectPartitionGPUs n count model) = None" and "nFabricManager n = Some fm" and "fmRunning fm"
  shows "\<forall>p \<in> set (fmPartitions fm). \<not> viable (nGPUs n) count model p"
  using assms by (simp add: selectPartitionGPUs_def partition_loop_None_iff)

text \<open>What either selection hands over.\<close>

definition selection_ok :: "SwiftGPUNode \<Rightarrow> SwiftGPUProfile \<Rightarrow> GPUDevice list \<Rightarrow> int list \<Rightarrow> int \<Rightarrow> bool" where
  "selection_ok n pr gpus numa part \<longleftrightarrow>
     int (length gpus) = prCount pr \<and> distinct gpus \<and>
     set gpus \<subseteq> set (free_matching (nGPUs n) (prModel pr)) \<and>
     numa = numaSetToSlice (map gNUMANode gpus) \<and>
     (if prPartitionMode pr = ''shared''
      then 0 \<le> part \<and> (\<exists>p \<in> set (node_partitions n). pID p = part \<and> pAllocatedTo p = '''' \<and> map gIndex gpus = pGPUIndices p)
      else part = -1)"

lemma select_for_Some:
  assumes sel: "select_for n pr = (Some gpus, numa, part)" and wf: "wf_node n" and cnt: "0 < prCount pr"
  shows "selection_ok n pr gpus numa part"
proof (cases "prPartitionMode pr = ''shared''")
  case True
  with sel have s: "selectPartitionGPUs n (prCount pr) (prModel pr) = (Some gpus, numa, part)"
    by (simp add: select_for_def)
  from selectPartitionGPUs_Some [OF this] obtain p where p: "p \<in> set (node_partitions n)"
    "viable (nGPUs n) (prCount pr) (prModel pr) p" "pID p = part" "map gIndex gpus = pGPUIndices p"
    "set gpus \<subseteq> set (free_matching (nGPUs n) (prModel pr))" "numa = numaSetToSlice (map gNUMANode gpus)"
    by blast
  have parts: "0 \<le> pID p" "distinct (pGPUIndices p)"
    using wf p(1) by (simp_all add: wf_node_def)
  have "length gpus = length (pGPUIndices p)" using p(4) by (metis length_map)
  moreover have "distinct gpus" using p(4) parts(2) by (metis distinct_map)
  ultimately show ?thesis
    using True p parts(1) unfolding selection_ok_def viable_def by auto
next
  case False
  with sel have s: "selectGPUs (nGPUs n) (prCount pr) (prModel pr) = (Some gpus, numa)" "part = -1"
    by (auto simp: select_for_def split: prod.splits)
  have d: "distinct (nGPUs n)" using wf by (simp add: wf_node_def distinct_map)
  from selectGPUs_Some [OF s(1) cnt d] s(2) False show ?thesis
    unfolding selection_ok_def by simp
qed

lemma selection_okD:
  assumes "selection_ok n pr gpus numa part"
  shows "set gpus \<subseteq> set (nGPUs n)" and "\<forall>g \<in> set gpus. \<not> gAllocated g"
    and "0 \<le> part \<Longrightarrow> \<exists>p \<in> set (node_partitions n). pID p = part \<and> pAllocatedTo p = '''' \<and> map gIndex gpus = pGPUIndices p"
  using assms by (auto simp: selection_ok_def split: if_splits)

section \<open>Lemmas on marking and clearing\<close>

lemma mark_node_simps [simp, status_simps]:
  "nName (mark_node ident sel part n) = nName n"
  "nResourceVersion (mark_node ident sel part n) = nResourceVersion n"
  "nGPUs (mark_node ident sel part n) = mark_gpus ident sel (nGPUs n)"
  "nFreeGPUs (mark_node ident sel part n) = countFreeGPUs (mark_gpus ident sel (nGPUs n))"
  "nVfioReady (mark_node ident sel part n) = nVfioReady n"
  by (simp_all add: mark_node_def Let_def)

lemma clear_node_simps [simp, status_simps]:
  "nName (clear_node ident n) = nName n"
  "nResourceVersion (clear_node ident n) = nResourceVersion n"
  "nGPUs (clear_node ident n) = clear_gpus ident (nGPUs n)"
  "nFreeGPUs (clear_node ident n) = countFreeGPUs (clear_gpus ident (nGPUs n))"
  by (simp_all add: clear_node_def Let_def)

lemma partitions_mark_node [simp]:
  "node_partitions (mark_node ident sel part n) =
     (if 0 \<le> part then map (\<lambda>p. if pID p = part then p\<lparr>pAllocatedTo := ident\<rparr> else p) (node_partitions n)
      else node_partitions n)"
  by (simp add: mark_node_def Let_def node_partitions_def mark_partition_def split: option.split)

lemma partitions_clear_node [simp]:
  "node_partitions (clear_node ident n) =
     map (\<lambda>p. if pAllocatedTo p = ident then p\<lparr>pAllocatedTo := ''''\<rparr> else p) (node_partitions n)"
  by (simp add: clear_node_def Let_def node_partitions_def clear_partitions_def split: option.split)

lemma rv_simps [simp]:
  "node_partitions (n\<lparr>nResourceVersion := v\<rparr>) = node_partitions n"
  "wf_node (n\<lparr>nResourceVersion := v\<rparr>) = wf_node n"
  "fabric_ok (n\<lparr>nResourceVersion := v\<rparr>) = fabric_ok n"
  "held_gpus ident (n\<lparr>nResourceVersion := v\<rparr>) = held_gpus ident n"
  "holds_any ident (n\<lparr>nResourceVersion := v\<rparr>) = holds_any ident n"
  by (simp_all add: node_partitions_def wf_node_def fabric_ok_def held_gpus_def holds_any_def)

lemma map_key_mark_gpus [simp]:
  "map gPCIAddress (mark_gpus ident sel gpus) = map gPCIAddress gpus"
  "map gIndex (mark_gpus ident sel gpus) = map gIndex gpus"
  by (auto simp: mark_gpus_def)

lemma map_key_clear_gpus [simp]:
  "map gPCIAddress (clear_gpus ident gpus) = map gPCIAddress gpus"
  "map gIndex (clear_gpus ident gpus) = map gIndex gpus"
  by (auto simp: clear_gpus_def)

lemma map_pID_node [simp]:
  "map pID (node_partitions (mark_node ident sel part n)) = map pID (node_partitions n)"
  "map pID (node_partitions (clear_node ident n)) = map pID (node_partitions n)"
  by auto

lemma wf_mark_node:
  assumes "wf_node n" and "ident \<noteq> ''''"
  shows "wf_node (mark_node ident sel part n)"
proof -
  have "\<forall>p \<in> set (node_partitions (mark_node ident sel part n)). 0 \<le> pID p \<and> distinct (pGPUIndices p)"
    using assms by (auto simp: wf_node_def)
  moreover have "\<forall>g \<in> set (mark_gpus ident sel (nGPUs n)). gAllocated g \<longleftrightarrow> gAllocatedTo g \<noteq> ''''"
    using assms by (auto simp: wf_node_def mark_gpus_def)
  ultimately show ?thesis
    using assms unfolding wf_node_def map_pID_node by simp
qed

lemma wf_clear_node:
  assumes "wf_node n"
  shows "wf_node (clear_node ident n)"
proof -
  have "\<forall>p \<in> set (node_partitions (clear_node ident n)). 0 \<le> pID p \<and> distinct (pGPUIndices p)"
    using assms by (auto simp: wf_node_def)
  moreover have "\<forall>g \<in> set (clear_gpus ident (nGPUs n)). gAllocated g \<longleftrightarrow> gAllocatedTo g \<noteq> ''''"
    using assms by (auto simp: wf_node_def clear_gpus_def)
  ultimately show ?thesis
    using assms unfolding wf_node_def map_pID_node by simp
qed

text \<open>Marking hands over exactly the selection when the selected devices were free.\<close>

lemma marked_iff_selected:
  assumes "wf_node n" and "set sel \<subseteq> set (nGPUs n)" and "d \<in> set (nGPUs n)"
  shows "gPCIAddress d \<in> gPCIAddress ` set sel \<longleftrightarrow> d \<in> set sel"
  using assms by (auto simp: wf_node_def distinct_map inj_on_def)

lemma held_mark_node:
  assumes "wf_node n" and "set sel \<subseteq> set (nGPUs n)" and "ident \<noteq> ''''" and "held_gpus ident n = []"
  shows "set (held_gpus ident (mark_node ident sel part n)) =
         (\<lambda>g. g\<lparr>gAllocated := True, gAllocatedTo := ident\<rparr>) ` set sel"
proof -
  have "\<forall>g \<in> set (nGPUs n). gAllocatedTo g \<noteq> ident"
    using assms(4) by (auto simp: held_gpus_def filter_empty_conv)
  then have "set (held_gpus ident (mark_node ident sel part n)) =
      (\<lambda>g. g\<lparr>gAllocated := True, gAllocatedTo := ident\<rparr>) ` {d \<in> set (nGPUs n). gPCIAddress d \<in> gPCIAddress ` set sel}"
    unfolding held_gpus_def mark_node_simps mark_gpus_def by force
  moreover have "{d \<in> set (nGPUs n). gPCIAddress d \<in> gPCIAddress ` set sel} = set sel"
    using marked_iff_selected [OF assms(1,2)] assms(2) by blast
  ultimately show ?thesis by simp
qed

lemma filter_map_same:
  "(\<And>x. x \<in> set xs \<Longrightarrow> P (f x) = P x) \<Longrightarrow> (\<And>x. x \<in> set xs \<Longrightarrow> P x \<Longrightarrow> f x = x) \<Longrightarrow>
   filter P (map f xs) = filter P xs"
  by (induction xs) auto

lemma held_mark_other:
  assumes "wf_node n" and "set sel \<subseteq> set (nGPUs n)" and free: "\<forall>g \<in> set sel. \<not> gAllocated g"
    and "other \<noteq> ident" and "other \<noteq> ''''"
  shows "held_gpus other (mark_node ident sel part n) = held_gpus other n"
proof -
  have "gAllocatedTo d = ''''" if "d \<in> set (nGPUs n)" "gPCIAddress d \<in> gPCIAddress ` set sel" for d
    using that marked_iff_selected [OF assms(1,2)] assms(1) free by (auto simp: wf_node_def)
  then show ?thesis
    using assms(4,5) unfolding held_gpus_def mark_node_simps mark_gpus_def
    by (intro filter_map_same) auto
qed

lemma held_clear_node:
  "ident \<noteq> '''' \<Longrightarrow> held_gpus ident (clear_node ident n) = []"
  "other \<noteq> ident \<Longrightarrow> other \<noteq> '''' \<Longrightarrow> held_gpus other (clear_node ident n) = held_gpus other n"
  unfolding held_gpus_def clear_node_simps clear_gpus_def
  by (auto simp: filter_empty_conv intro!: filter_map_same)

lemma holds_clear_node: "ident \<noteq> '''' \<Longrightarrow> \<not> holds_any ident (clear_node ident n)"
  by (auto simp: holds_any_def clear_gpus_def split: if_splits)

lemma holds_clear_other:
  "other \<noteq> ident \<Longrightarrow> other \<noteq> '''' \<Longrightarrow> holds_any other (clear_node ident n) = holds_any other n"
  by (auto simp: holds_any_def clear_gpus_def split: if_splits)

lemma held_gpus_holds: "held_gpus ident n \<noteq> [] \<Longrightarrow> holds_any ident n"
  by (auto simp: held_gpus_def holds_any_def filter_empty_conv)

lemma mark_gpus_other:
  "g \<in> set gpus \<Longrightarrow> gPCIAddress g \<notin> gPCIAddress ` set sel \<Longrightarrow> g \<in> set (mark_gpus ident sel gpus)"
  unfolding mark_gpus_def set_map by (rule image_eqI [of _ _ g]) simp_all

lemma mark_gpus_selected:
  "g \<in> set gpus \<Longrightarrow> gPCIAddress g \<in> gPCIAddress ` set sel \<Longrightarrow>
   g\<lparr>gAllocated := True, gAllocatedTo := ident\<rparr> \<in> set (mark_gpus ident sel gpus)"
  unfolding mark_gpus_def set_map by (rule image_eqI [of _ _ g]) simp_all

lemma fabric_mark_node:
  assumes wf: "wf_node n" and fab: "fabric_ok n" and sub: "set sel \<subseteq> set (nGPUs n)"
    and free: "\<forall>g \<in> set sel. \<not> gAllocated g" and "ident \<noteq> ''''"
    and part: "0 \<le> part \<Longrightarrow> \<exists>p \<in> set (node_partitions n). pID p = part \<and> pAllocatedTo p = '''' \<and> map gIndex sel = pGPUIndices p"
  shows "fabric_ok (mark_node ident sel part n)"
proof -
  have dp: "p = q" if "p \<in> set (node_partitions n)" "q \<in> set (node_partitions n)" "pID p = pID q" for p q
    using that wf by (auto simp: wf_node_def distinct_map inj_on_def)
  have old: "\<exists>g \<in> set (mark_gpus ident sel (nGPUs n)). gIndex g = i \<and> gAllocatedTo g = pAllocatedTo p"
    if p: "p \<in> set (node_partitions n)" "pAllocatedTo p \<noteq> ''''" "i \<in> set (pGPUIndices p)" for p i
  proof -
    obtain g where g: "g \<in> set (nGPUs n)" "gIndex g = i" "gAllocatedTo g = pAllocatedTo p"
      using fab p unfolding fabric_ok_def by blast
    then have "gPCIAddress g \<notin> gPCIAddress ` set sel"
      using marked_iff_selected [OF wf sub g(1)] free wf p(2) by (auto simp: wf_node_def)
    with g mark_gpus_other show ?thesis by blast
  qed
  have new: "\<exists>g \<in> set (mark_gpus ident sel (nGPUs n)). gIndex g = i \<and> gAllocatedTo g = ident"
    if i: "i \<in> gIndex ` set sel" for i
  proof -
    from i obtain g where g: "g \<in> set sel" "gIndex g = i" by blast
    with sub have "g\<lparr>gAllocated := True, gAllocatedTo := ident\<rparr> \<in> set (mark_gpus ident sel (nGPUs n))"
      by (intro mark_gpus_selected) auto
    with g(2) show ?thesis by (intro bexI) simp_all
  qed
  show ?thesis
  proof (cases "0 \<le> part")
    case False
    with old show ?thesis by (simp add: fabric_ok_def)
  next
    case True
    with part obtain p where p: "p \<in> set (node_partitions n)" "pID p = part" "map gIndex sel = pGPUIndices p"
      by blast
    have idx: "set (pGPUIndices p) = gIndex ` set sel" using p(3) by (metis set_map)
    show ?thesis
      unfolding fabric_ok_def partitions_mark_node mark_node_simps if_P [OF True]
    proof (intro ballI impI)
      fix q i
      assume q: "q \<in> set (map (\<lambda>p. if pID p = part then p\<lparr>pAllocatedTo := ident\<rparr> else p) (node_partitions n))"
        "pAllocatedTo q \<noteq> ''''" "i \<in> set (pGPUIndices q)"
      then obtain r where r: "r \<in> set (node_partitions n)"
        "q = (if pID r = part then r\<lparr>pAllocatedTo := ident\<rparr> else r)" by auto
      show "\<exists>g \<in> set (mark_gpus ident sel (nGPUs n)). gIndex g = i \<and> gAllocatedTo g = pAllocatedTo q"
      proof (cases "pID r = part")
        case True
        then have "r = p" using dp r(1) p(1,2) by simp
        with True q(3) r(2) idx new show ?thesis by simp
      next
        case False
        with q r old [of q i] show ?thesis by simp
      qed
    qed
  qed
qed

lemma fabric_clear_node:
  assumes fab: "fabric_ok n"
  shows "fabric_ok (clear_node ident n)"
proof -
  have "\<exists>g \<in> set (clear_gpus ident (nGPUs n)). gIndex g = i \<and> gAllocatedTo g = pAllocatedTo p"
    if p: "p \<in> set (node_partitions n)" "pAllocatedTo p \<noteq> ''''" "pAllocatedTo p \<noteq> ident" "i \<in> set (pGPUIndices p)" for p i
  proof -
    obtain g where g: "g \<in> set (nGPUs n)" "gIndex g = i" "gAllocatedTo g = pAllocatedTo p"
      using fab p unfolding fabric_ok_def by blast
    moreover from this p(3) have "g \<in> set (clear_gpus ident (nGPUs n))"
      unfolding clear_gpus_def set_map by (intro image_eqI [of _ _ g]) simp_all
    ultimately show ?thesis by blast
  qed
  then show ?thesis by (auto simp: fabric_ok_def)
qed

section \<open>The abstract view: who owns a device\<close>

text \<open>
  \<open>owner c nm a\<close> is the workload the device at address \<open>a\<close> of node \<open>nm\<close> belongs to: the
  empty identity when it is free, \<open>None\<close> when there is no such device. Allocation and
  release are specified on this map.
\<close>

definition owner :: "gpu_cluster \<Rightarrow> string \<Rightarrow> string \<Rightarrow> string option" where
  "owner c nm a =
     (case node_named (gcNodes c) nm of
        None \<Rightarrow> None
      | Some n \<Rightarrow> map_option gAllocatedTo (find (\<lambda>g. gPCIAddress g = a) (nGPUs n)))"

definition spec_take :: "string \<Rightarrow> string \<Rightarrow> string set \<Rightarrow> (string \<Rightarrow> string \<Rightarrow> string option) \<Rightarrow> string \<Rightarrow> string \<Rightarrow> string option" where
  "spec_take ident nm addrs own nm' a = (if nm' = nm \<and> a \<in> addrs then Some ident else own nm' a)"

definition spec_free :: "string \<Rightarrow> (string \<Rightarrow> string \<Rightarrow> string option) \<Rightarrow> string \<Rightarrow> string \<Rightarrow> string option" where
  "spec_free ident own nm a = (if own nm a = Some ident then Some '''' else own nm a)"

lemma find_map_key:
  "(\<And>x. f (h x) = f x) \<Longrightarrow> find (\<lambda>x. f x = a) (map h xs) = map_option h (find (\<lambda>x. f x = a) xs)"
  by (induction xs) auto

lemma find_mark_gpus:
  "find (\<lambda>g. gPCIAddress g = a) (mark_gpus ident sel gpus) =
     map_option (\<lambda>d. if gPCIAddress d \<in> gPCIAddress ` set sel then d\<lparr>gAllocated := True, gAllocatedTo := ident\<rparr> else d)
       (find (\<lambda>g. gPCIAddress g = a) gpus)"
  unfolding mark_gpus_def by (intro find_map_key) simp

lemma find_clear_gpus:
  "find (\<lambda>g. gPCIAddress g = a) (clear_gpus ident gpus) =
     map_option (\<lambda>d. if gAllocatedTo d = ident then d\<lparr>gAllocated := False, gAllocatedTo := ''''\<rparr> else d)
       (find (\<lambda>g. gPCIAddress g = a) gpus)"
  unfolding clear_gpus_def by (intro find_map_key) simp

lemma find_address: "set sel \<subseteq> set gpus \<Longrightarrow> a \<in> gPCIAddress ` set sel \<Longrightarrow> find (\<lambda>g. gPCIAddress g = a) gpus \<noteq> None"
  by (auto simp: find_None_iff)

lemma owner_mark:
  assumes "node_named (gcNodes c) (nName n) = Some n" and "set sel \<subseteq> set (nGPUs n)"
  shows "owner (store_node ((mark_node ident sel part n)\<lparr>nResourceVersion := v\<rparr>) c) =
         spec_take ident (nName n) (gPCIAddress ` set sel) (owner c)"
proof (intro ext)
  fix nm a
  show "owner (store_node ((mark_node ident sel part n)\<lparr>nResourceVersion := v\<rparr>) c) nm a =
        spec_take ident (nName n) (gPCIAddress ` set sel) (owner c) nm a"
  proof (cases "nm = nName n")
    case False
    then show ?thesis by (simp add: owner_def spec_take_def node_named_store_node)
  next
    case True
    then show ?thesis
      using assms find_address [OF assms(2), of a]
      by (cases "find (\<lambda>g. gPCIAddress g = a) (nGPUs n)")
        (auto simp: owner_def spec_take_def node_named_store_node find_mark_gpus dest: find_SomeD)
  qed
qed

lemma owner_clear:
  assumes "node_named (gcNodes c) (nName n) = Some n"
  shows "owner (store_node ((clear_node ident n)\<lparr>nResourceVersion := v\<rparr>) c) nm a =
         (if nm = nName n then spec_free ident (owner c) nm a else owner c nm a)"
  using assms
  by (cases "find (\<lambda>g. gPCIAddress g = a) (nGPUs n)")
    (simp_all add: owner_def spec_free_def node_named_store_node find_clear_gpus)

lemma owner_held:
  assumes "node_named (gcNodes c) nm = Some n" and "wf_node n"
  shows "owner c nm a = Some ident \<longleftrightarrow> a \<in> gPCIAddress ` set (held_gpus ident n)"
proof -
  have "find (\<lambda>g. gPCIAddress g = a) (nGPUs n) = Some g \<longleftrightarrow> g \<in> set (nGPUs n) \<and> gPCIAddress g = a" for g
  proof
    assume "g \<in> set (nGPUs n) \<and> gPCIAddress g = a"
    moreover have "distinct (map gPCIAddress xs) \<Longrightarrow> g \<in> set xs \<Longrightarrow> find (\<lambda>h. gPCIAddress h = gPCIAddress g) xs = Some g" for xs
      by (induction xs) auto
    ultimately show "find (\<lambda>g. gPCIAddress g = a) (nGPUs n) = Some g"
      using assms(2) by (auto simp: wf_node_def)
  qed (auto dest: find_SomeD)
  then show ?thesis
    using assms(1) by (auto simp: owner_def held_gpus_def)
qed

section \<open>Lemmas on the passes\<close>

lemma first_pass_fb: "fb \<noteq> None \<Longrightarrow> first_pass ident preferred ns fb \<noteq> None"
  by (induction ns arbitrary: fb) (auto simp: existing_result_def split: option.splits)

lemma first_pass_None_iff:
  "first_pass ident preferred ns None = None \<longleftrightarrow> (\<forall>n \<in> set ns. held_gpus ident n = [])"
proof (induction ns)
  case (Cons n ns)
  then show ?case
    using first_pass_fb [of "Some (existing_result ident n)" ident preferred ns]
    by (auto simp: existing_result_def)
qed simp

lemma first_pass_Some:
  "first_pass ident preferred ns fb = Some r \<Longrightarrow>
   fb = Some r \<or> (\<exists>n \<in> set ns. held_gpus ident n \<noteq> [] \<and> r = existing_result ident n)"
  by (induction ns arbitrary: fb) (fastforce split: if_splits option.splits)+

lemma first_pass_preferred:
  assumes "distinct (map nName ns)" and "n \<in> set ns" and "held_gpus ident n \<noteq> []" and "nName n \<noteq> ''''"
  shows "first_pass ident (nName n) ns fb = Some (existing_result ident n)"
  using assms by (induction ns arbitrary: fb) auto

definition candidate ::
  "selector_lib \<Rightarrow> api_faults \<Rightarrow> gpu_cluster \<Rightarrow> SwiftGPUProfile \<Rightarrow> NodeConstraint \<Rightarrow> SwiftGPUNode \<Rightarrow> bool" where
  "candidate matches af c pr nc n \<longleftrightarrow>
     prCount pr \<le> nFreeGPUs n \<and> nodeUsable matches af c n nc = Inr True \<and> model_ok (prModel pr) (nGPUModel n) \<and>
     fmVersionCompatible n pr \<and> fst (select_for n pr) \<noteq> None"

lemma second_pass_Some:
  "second_pass matches af c pr nc ns mm = Inr (Some (n, gpus, numa, part), mm') \<Longrightarrow>
   n \<in> set ns \<and> candidate matches af c pr nc n \<and> select_for n pr = (Some gpus, numa, part)"
  by (induction ns arbitrary: mm)
    (auto simp: candidate_def split: if_splits sum.splits prod.splits option.splits)

lemma second_pass_None:
  "second_pass matches af c pr nc ns mm = Inr (None, mm') \<Longrightarrow> \<forall>n \<in> set ns. \<not> candidate matches af c pr nc n"
  by (induction ns arbitrary: mm)
    (auto simp: candidate_def split: if_splits sum.splits prod.splits option.splits)

lemma nodeUsable_no_faults: "nodeUsable matches no_faults c n nc \<noteq> Inl e"
  by (auto simp: nodeUsable_def GetNode_def NotFound_def errors_Is_def split: option.splits)

lemma second_pass_no_faults: "second_pass matches no_faults c pr nc ns mm \<noteq> Inl e"
  by (induction ns arbitrary: mm)
    (auto simp: nodeUsable_no_faults split: sum.splits prod.splits option.splits)

section \<open>Lemmas on the operations\<close>

lemma wf_cluster_store:
  "wf_cluster c \<Longrightarrow> wf_node n \<Longrightarrow> wf_cluster (store_node n c)"
  by (auto simp: wf_cluster_def dest: set_store_node)

lemma wf_cluster_node: "wf_cluster c \<Longrightarrow> n \<in> set (gcNodes c) \<Longrightarrow> node_named (gcNodes c) (nName n) = Some n \<and> wf_node n"
  by (simp add: wf_cluster_def wf_names_def node_named_distinct)

text \<open>The two outcomes of a successful allocation.\<close>

lemma FindAndAllocateFor_Inr:
  assumes "FindAndAllocateFor matches af c ident preferred pr nc = (Inr (n', gpus, numa, part), c')"
  shows "(c' = c \<and> n' \<in> set (gcNodes c) \<and> held_gpus ident n' \<noteq> [] \<and> (n', gpus, numa, part) = existing_result ident n') \<or>
    (\<exists>n \<in> set (gcNodes c). (\<forall>m \<in> set (gcNodes c). held_gpus ident m = []) \<and> candidate matches af c pr nc n \<and>
       select_for n pr = (Some gpus, numa, part) \<and> n' = mark_node ident gpus part n \<and>
       c' = store_node (n'\<lparr>nResourceVersion := Suc (nResourceVersion n)\<rparr>) c)"
proof -
  from assms obtain items where "items = gcNodes c"
    and run: "commit_allocation af c ident (plan_allocation matches af c items ident preferred pr nc) =
              (Inr (n', gpus, numa, part), c')"
    by (auto simp: FindAndAllocateFor_def ListGPUNodes_def split: sum.splits option.splits)
  note items = this(1)
  show ?thesis
  proof (cases "first_pass ident preferred items None")
    case (Some r)
    with run have "r = (n', gpus, numa, part)" "c' = c"
      by (simp_all add: plan_allocation_def commit_allocation_def)
    with first_pass_Some [OF Some] items show ?thesis
      by (auto simp: existing_result_def)
  next
    case None
    have free: "\<forall>m \<in> set (gcNodes c). held_gpus ident m = []"
      using None items by (simp add: first_pass_None_iff)
    from None run obtain n mm where sp: "second_pass matches af c pr nc items False = Inr (Some (n, gpus, numa, part), mm)"
      and up: "StatusUpdate af c (mark_node ident gpus part n) = (None, c')" and n': "n' = mark_node ident gpus part n"
      by (auto simp: plan_allocation_def commit_allocation_def Let_def split: sum.splits option.splits prod.splits)
    from second_pass_Some [OF sp] StatusUpdate_None(1) [OF up] n' items free show ?thesis by auto
  qed
qed

lemma FindAndAllocateFor_Inl:
  "FindAndAllocateFor matches af c ident preferred pr nc = (Inl e, c') \<Longrightarrow> c' = c"
  by (auto simp: FindAndAllocateFor_def commit_allocation_def Let_def split: sum.splits alloc_plan.splits prod.splits option.splits
      dest: StatusUpdate_Some)

lemma releaseFromNodeFor_cases:
  "releaseFromNodeFor af c ident nm = (r, c') \<Longrightarrow>
   c' = c \<or> (\<exists>n. node_named (gcNodes c) nm = Some n \<and> r = None \<and>
     c' = store_node ((clear_node ident n)\<lparr>nResourceVersion := Suc (nResourceVersion n)\<rparr>) c)"
  by (auto simp: releaseFromNodeFor_def split: if_splits sum.splits
      dest!: GetGPUNode_Inr elim: StatusUpdate_cases)

lemma releaseFromNodeFor_None:
  assumes "releaseFromNodeFor af c ident nm = (None, c')" and "nm \<noteq> ''''"
    and "faults_ok af" and "ident \<noteq> ''''"
    and "node_named (gcNodes c') nm = Some n"
  shows "\<not> holds_any ident n"
proof -
  from assms(1,2,3) consider
      (gone) "c' = c" "node_named (gcNodes c) nm = None"
    | (clean) m where "c' = c" "node_named (gcNodes c) nm = Some m" "\<not> holds_any ident m"
    | (cleared) m where "node_named (gcNodes c) nm = Some m"
        "c' = store_node ((clear_node ident m)\<lparr>nResourceVersion := Suc (nResourceVersion m)\<rparr>) c"
    by (auto simp: releaseFromNodeFor_def GetGPUNode_def faults_ok_def split: if_splits option.splits dest: StatusUpdate_None(1))
  then show ?thesis
  proof cases
    case cleared
    with node_named_Some [OF cleared(1)] assms(5) have "n = (clear_node ident m)\<lparr>nResourceVersion := Suc (nResourceVersion m)\<rparr>"
      by (simp add: node_named_store_node)
    with assms(4) show ?thesis by (simp add: holds_clear_node)
  qed (use assms(5) in auto)
qed

lemma release_preserves:
  assumes rel: "releaseFromNodeFor af c ident nm = (r, c')" and wf: "wf_cluster c" and id: "ident \<noteq> ''''"
  shows "wf_cluster c'" and "map nName (gcNodes c') = map nName (gcNodes c)"
    and "owner c' nm' a \<in> {owner c nm' a, spec_free ident (owner c) nm' a}"
    and "node_named (gcNodes c') nm' = Some n' \<Longrightarrow>
         \<exists>n. node_named (gcNodes c) nm' = Some n \<and> (holds_any ident n' \<longrightarrow> holds_any ident n)"
proof -
  from releaseFromNodeFor_cases [OF rel] consider "c' = c"
    | n where "node_named (gcNodes c) nm = Some n"
      "c' = store_node ((clear_node ident n)\<lparr>nResourceVersion := Suc (nResourceVersion n)\<rparr>) c" by blast
  then have "wf_cluster c' \<and> map nName (gcNodes c') = map nName (gcNodes c) \<and>
    owner c' nm' a \<in> {owner c nm' a, spec_free ident (owner c) nm' a} \<and>
    (node_named (gcNodes c') nm' = Some n' \<longrightarrow>
         (\<exists>n. node_named (gcNodes c) nm' = Some n \<and> (holds_any ident n' \<longrightarrow> holds_any ident n)))"
  proof cases
    case 2
    note n = node_named_Some [OF 2(1)]
    with 2(1) have nn: "node_named (gcNodes c) (nName n) = Some n" by simp
    have "wf_node n" using wf n by (simp add: wf_cluster_def)
    then have "wf_cluster c'" using 2(2) wf by (simp add: wf_cluster_store wf_clear_node)
    with 2 n show ?thesis
      using owner_clear [OF nn, where ident = ident and v = "Suc (nResourceVersion n)" and nm = nm' and a = a] id
      by (auto simp: node_named_store_node holds_clear_node split: if_splits)
  qed (use wf in simp)
  then show "wf_cluster c'" "map nName (gcNodes c') = map nName (gcNodes c)"
    "owner c' nm' a \<in> {owner c nm' a, spec_free ident (owner c) nm' a}"
    "node_named (gcNodes c') nm' = Some n' \<Longrightarrow>
         \<exists>n. node_named (gcNodes c) nm' = Some n \<and> (holds_any ident n' \<longrightarrow> holds_any ident n)"
    by blast+
qed

lemma spec_free_idem [simp]: "ident \<noteq> '''' \<Longrightarrow> spec_free ident (spec_free ident own) = spec_free ident own"
  by (auto simp: spec_free_def fun_eq_iff)

lemma release_each_preserves:
  assumes "release_each af c ident nms = (r, c')" and "wf_cluster c" and id: "ident \<noteq> ''''"
  shows "wf_cluster c' \<and> map nName (gcNodes c') = map nName (gcNodes c) \<and>
    (\<forall>nm a. owner c' nm a \<in> {owner c nm a, spec_free ident (owner c) nm a}) \<and>
    (\<forall>nm n'. node_named (gcNodes c') nm = Some n' \<longrightarrow>
         (\<exists>n. node_named (gcNodes c) nm = Some n \<and> (holds_any ident n' \<longrightarrow> holds_any ident n)))"
  using assms(1,2)
proof (induction nms arbitrary: c)
  case (Cons nm nms)
  obtain r1 c1 where rel: "releaseFromNodeFor af c ident nm = (r1, c1)" by fastforce
  note step = release_preserves [OF rel Cons.prems(2) id]
  show ?case
  proof (cases r1)
    case (Some e)
    with rel Cons.prems(1) have "c' = c1" by simp
    with step show ?thesis by blast
  next
    case None
    with rel Cons.prems(1) have "release_each af c1 ident nms = (r, c')" by simp
    note IH = Cons.IH [OF this step(1)]
    have "owner c' nm' a \<in> {owner c nm' a, spec_free ident (owner c) nm' a}" for nm' a
    proof -
      have "owner c' nm' a \<in> {owner c1 nm' a, spec_free ident (owner c1) nm' a}" using IH by blast
      moreover have "owner c1 nm' a \<in> {owner c nm' a, spec_free ident (owner c) nm' a}" using step(3) .
      ultimately show ?thesis using id by (auto simp: spec_free_def split: if_splits)
    qed
    moreover have "\<exists>n. node_named (gcNodes c) nm' = Some n \<and> (holds_any ident n' \<longrightarrow> holds_any ident n)"
      if "node_named (gcNodes c') nm' = Some n'" for nm' n'
      using IH that step(4) by meson
    ultimately show ?thesis using IH step(2) by simp
  qed
qed auto

lemma release_each_None:
  assumes "release_each af c ident nms = (None, c')" and "wf_cluster c" and id: "ident \<noteq> ''''"
    and "faults_ok af" and "'''' \<notin> set nms" and "nm \<in> set nms" and "node_named (gcNodes c') nm = Some n"
  shows "\<not> holds_any ident n"
  using assms(1,2,5,6,7)
proof (induction nms arbitrary: c)
  case (Cons x nms)
  obtain r1 c1 where rel: "releaseFromNodeFor af c ident x = (r1, c1)" by fastforce
  with Cons.prems(1) have r1: "r1 = None" and rest: "release_each af c1 ident nms = (None, c')"
    by (auto split: option.splits)
  note wf1 = release_preserves(1) [OF rel Cons.prems(2) id]
  show ?case
  proof (cases "nm \<in> set nms")
    case True
    with Cons.IH [OF rest wf1] Cons.prems show ?thesis by simp
  next
    case False
    then have x: "x = nm" using Cons.prems(4) by simp
    from release_each_preserves [OF rest wf1 id] Cons.prems(5)
    obtain m where m: "node_named (gcNodes c1) nm = Some m" "holds_any ident n \<longrightarrow> holds_any ident m" by blast
    from releaseFromNodeFor_None [OF _ _ assms(4) id, of c x c1 m] rel r1 x m Cons.prems(3) show ?thesis by auto
  qed
qed simp

section \<open>A concrete cluster\<close>

definition ex_gpu :: "int \<Rightarrow> string \<Rightarrow> int \<Rightarrow> GPUDevice" where
  "ex_gpu i addr numa =
     \<lparr>gIndex = i, gPCIAddress = addr, gVendor = ''NVIDIA'', gModel = ''H200-SXM'', gDeviceID = ''10de:2335'',
      gNUMANode = numa, gIOMMUGroup = i, gDriver = ''vfio-pci'', gBARSizes = [], gAllocated = False, gAllocatedTo = ''''\<rparr>"

definition ex_host :: HostTopology where
  "ex_host =
     \<lparr>hCPUTopology = \<lparr>ctSockets = 2, ctCoresPerSocket = 48, ctThreadsPerCore = 2, ctTotalCPUs = 192\<rparr>,
      hNUMANodes = [], hIOMMUEnabled = True, hHugepages1Gi = \<lparr>hpTotal = 0, hpFree = 0\<rparr>\<rparr>"

definition ex_node :: "string \<Rightarrow> SwiftGPUNode" where
  "ex_node nm =
     \<lparr>nName = nm, nResourceVersion = 1, nPhase = ''Ready'', nLastDiscovery = None, nGPUCount = 3, nFreeGPUs = 3,
      nGPUModel = ''H200-SXM'', nGPUVendor = ''NVIDIA'', nVfioReady = True, nHost = ex_host,
      nGPUs = [ex_gpu 0 ''0000:17:00.0'' 0, ex_gpu 1 ''0000:65:00.0'' 1, ex_gpu 2 ''0000:66:00.0'' 1],
      nNVSwitches = [],
      nFabricManager = Some \<lparr>fmInstalled = True, fmVersion = ''550'', fmRunning = True,
        fmPartitions = [\<lparr>pID = 0, pGPUIndices = [0, 1], pActive = False, pAllocatedTo = ''''\<rparr>,
                        \<lparr>pID = 1, pGPUIndices = [1, 2], pActive = False, pAllocatedTo = ''''\<rparr>]\<rparr>\<rparr>"

definition ex_cluster :: gpu_cluster where
  "ex_cluster = \<lparr>gcNodes = [ex_node ''gpu-a'', ex_node ''gpu-b''],
     gcKNodes = (\<lambda>nm. if nm = ''gpu-a'' then Some \<lparr>knUnschedulable = True, knLabels = []\<rparr>
                      else if nm = ''gpu-b'' then Some \<lparr>knUnschedulable = False, knLabels = []\<rparr> else None)\<rparr>"

definition ex_profile :: "string \<Rightarrow> SwiftGPUProfile" where
  "ex_profile mode = \<lparr>prCount = 2, prModel = ''H200'', prTier = ''hgx-shared'', prPartitionMode = mode, prFabricManager = Some ''550''\<rparr>"

definition ex_nc :: NodeConstraint where
  "ex_nc = \<lparr>ncRequiredNode = '''', ncNodeSelector = []\<rparr>"

definition ex_matches :: selector_lib where
  "ex_matches sel labels = list_all (\<lambda>kv. kv \<in> set labels) sel"

lemmas ex_defs = ex_gpu_def ex_node_def ex_cluster_def ex_profile_def ex_nc_def ex_matches_def ex_host_def

lemma wf_ex_cluster: "wf_cluster ex_cluster"
  by (simp add: ex_defs wf_cluster_def wf_names_def wf_node_def countFreeGPUs_def node_partitions_def)

section \<open>Properties\<close>

lemma allocate_spec:
  assumes "FindAndAllocateFor matches af c ident preferred pr nc = (Inr (n', gpus, numa, part), c')"
    and "wf_cluster c" and "ident \<noteq> ''''" and "0 < prCount pr"
    and "\<forall>m \<in> set (gcNodes c). held_gpus ident m = []"
  shows "\<exists>n \<in> set (gcNodes c). nName n' = nName n \<and> nodeUsable matches af c n nc = Inr True \<and>
      selection_ok n pr gpus numa part \<and> card (gPCIAddress ` set gpus) = nat (prCount pr) \<and>
      (\<forall>a \<in> gPCIAddress ` set gpus. owner c (nName n) a = Some '''') \<and>
      owner c' = spec_take ident (nName n) (gPCIAddress ` set gpus) (owner c) \<and> wf_cluster c'"
proof -
  from FindAndAllocateFor_Inr [OF assms(1)] assms(5) obtain n where n: "n \<in> set (gcNodes c)"
    "candidate matches af c pr nc n" "select_for n pr = (Some gpus, numa, part)"
    "n' = mark_node ident gpus part n" "c' = store_node (n'\<lparr>nResourceVersion := Suc (nResourceVersion n)\<rparr>) c"
    by blast
  from wf_cluster_node [OF assms(2) n(1)] have nn: "node_named (gcNodes c) (nName n) = Some n" and wf: "wf_node n"
    by simp_all
  have ok: "selection_ok n pr gpus numa part" by (rule select_for_Some [OF n(3) wf assms(4)])
  note sub = selection_okD(1) [OF ok] and free = selection_okD(2) [OF ok]
  have "inj_on gPCIAddress (set gpus)"
    using sub wf by (auto simp: wf_node_def distinct_map intro: inj_on_subset)
  then have "card (gPCIAddress ` set gpus) = nat (prCount pr)"
    using ok by (auto simp: card_image selection_ok_def distinct_card)
  moreover have "\<forall>a \<in> gPCIAddress ` set gpus. owner c (nName n) a = Some ''''"
    using sub free wf by (auto simp: owner_held [OF nn wf] held_gpus_def wf_node_def)
  moreover have "wf_cluster c'"
    using n(4,5) wf assms(2,3) by (simp add: wf_cluster_store wf_mark_node)
  ultimately show ?thesis
    using n ok owner_mark [OF nn sub] by (auto simp: candidate_def)
qed

text \<open>
  C10. A fresh allocation takes, in the abstract ownership map, exactly \<open>Count\<close> distinct devices
  of one usable node for the identity and changes no other entry. Every device taken was
  free and matches the model; in shared mode the devices are exactly the members of a free
  Fabric Manager partition. Well-formedness of the cluster is preserved.
\<close>

theorem allocation_refines:
  assumes "FindAndAllocateFor matches af c ident preferred pr nc = (Inr (n', gpus, numa, part), c')"
    and "wf_cluster c" and "ident \<noteq> ''''" and "0 < prCount pr"
    and "\<forall>m \<in> set (gcNodes c). held_gpus ident m = []"
  shows "\<exists>n \<in> set (gcNodes c). nName n' = nName n \<and> nodeUsable matches af c n nc = Inr True \<and>
      selection_ok n pr gpus numa part \<and> card (gPCIAddress ` set gpus) = nat (prCount pr) \<and>
      (\<forall>a \<in> gPCIAddress ` set gpus. owner c (nName n) a = Some '''') \<and>
      owner c' = spec_take ident (nName n) (gPCIAddress ` set gpus) (owner c) \<and> wf_cluster c'"
  using assms by (rule allocate_spec)

theorem allocation_refines_witness:
  "\<exists>n \<in> set (gcNodes ex_cluster). nName n = ''gpu-b'' \<and>
     owner (snd (FindAndAllocateFor ex_matches no_faults ex_cluster ''ns/vm'' '''' (ex_profile ''shared'') ex_nc)) =
     spec_take ''ns/vm'' (nName n) {''0000:65:00.0'', ''0000:66:00.0''} (owner ex_cluster)"
proof -
  let ?n = "ex_node ''gpu-b''"
  let ?sel = "[ex_gpu 1 ''0000:65:00.0'' 1, ex_gpu 2 ''0000:66:00.0'' 1]"
  let ?run = "FindAndAllocateFor ex_matches no_faults ex_cluster ''ns/vm'' '''' (ex_profile ''shared'') ex_nc"
  have "fst ?run = Inr (mark_node ''ns/vm'' ?sel 1 ?n, ?sel, [1], 1)" by code_simp
  then have run: "?run = (Inr (mark_node ''ns/vm'' ?sel 1 ?n, ?sel, [1], 1), snd ?run)" by (simp add: prod_eq_iff)
  have "\<forall>m \<in> set (gcNodes ex_cluster). held_gpus ''ns/vm'' m = []"
    by (simp add: ex_defs held_gpus_def)
  from allocation_refines [OF run wf_ex_cluster _ _ this] show ?thesis
    by (auto simp: ex_defs)
qed

lemma deallocate_spec:
  assumes "DeallocateForWorkload af c ident = (None, c')" and "wf_cluster c" and "ident \<noteq> ''''" and "faults_ok af"
  shows "owner c' = spec_free ident (owner c) \<and> nativeAllocationHeld no_faults c' ident = Inr False \<and> wf_cluster c'"
proof -
  from assms(1) have run: "release_each af c ident (map nName (gcNodes c)) = (None, c')"
    by (auto simp: DeallocateForWorkload_def ListGPUNodes_def split: sum.splits option.splits)
  note pres = release_each_preserves [OF run assms(2,3)]
  have ne: "'''' \<notin> set (map nName (gcNodes c))" using assms(2) by (simp add: wf_cluster_def wf_names_def)
  have clean: "\<not> holds_any ident n" if "node_named (gcNodes c') nm = Some n" for nm n
  proof -
    have "nm \<in> set (map nName (gcNodes c'))" using node_named_Some [OF that] by auto
    with pres have "nm \<in> set (map nName (gcNodes c))" by metis
    from release_each_None [OF run assms(2,3,4) ne this that] show ?thesis .
  qed
  have wf': "wf_cluster c'" using pres by blast
  have "\<not> list_ex (holds_any ident) (gcNodes c')"
    using clean wf_cluster_node [OF wf'] by (auto simp: list_ex_iff)
  moreover have "owner c' nm a = spec_free ident (owner c) nm a" for nm a
  proof -
    have "owner c' nm a \<noteq> Some ident"
    proof (cases "node_named (gcNodes c') nm")
      case (Some n)
      with clean [OF Some] have "held_gpus ident n = []" using held_gpus_holds by blast
      with Some wf' show ?thesis
        using owner_held [OF Some, of a ident] node_named_Some [OF Some] by (auto simp: wf_cluster_def)
    qed (simp add: owner_def)
    moreover have "owner c' nm a \<in> {owner c nm a, spec_free ident (owner c) nm a}" using pres by blast
    ultimately show ?thesis by (auto simp: spec_free_def split: if_splits)
  qed
  ultimately show ?thesis using wf' by (auto simp: nativeAllocationHeld_def ListGPUNodes_def)
qed

text \<open>
  C29. When \<open>DeallocateForWorkload\<close> returns without an error, the abstract ownership map has
  every device of the identity freed, on every node, and no other entry changed; no device
  and no Fabric Manager partition is left recorded for the identity.
\<close>

theorem deallocation_refines:
  assumes "DeallocateForWorkload af c ident = (None, c')" and "wf_cluster c" and "ident \<noteq> ''''" and "faults_ok af"
  shows "owner c' = spec_free ident (owner c) \<and> nativeAllocationHeld no_faults c' ident = Inr False \<and> wf_cluster c'"
  using assms by (rule deallocate_spec)

definition ex_held_cluster :: gpu_cluster where
  "ex_held_cluster = ex_cluster\<lparr>gcNodes :=
     [mark_node ''ns/vm'' [ex_gpu 0 ''0000:17:00.0'' 0] (-1) (ex_node ''gpu-a''),
      mark_node ''ns/vm'' [ex_gpu 1 ''0000:65:00.0'' 1, ex_gpu 2 ''0000:66:00.0'' 1] 1 (ex_node ''gpu-b'')]\<rparr>"

lemma wf_ex_held_cluster: "wf_cluster ex_held_cluster"
proof -
  have "wf_node (ex_node ''gpu-a'')" "wf_node (ex_node ''gpu-b'')"
    using wf_ex_cluster by (simp_all add: wf_cluster_def ex_cluster_def)
  then show ?thesis
    by (simp add: wf_cluster_def ex_held_cluster_def wf_names_def wf_mark_node) (simp add: ex_node_def)
qed

theorem deallocation_refines_witness:
  "fst (DeallocateForWorkload no_faults ex_held_cluster ''ns/vm'') = None \<and>
   owner ex_held_cluster ''gpu-a'' ''0000:17:00.0'' = Some ''ns/vm'' \<and>
   owner (snd (DeallocateForWorkload no_faults ex_held_cluster ''ns/vm'')) = spec_free ''ns/vm'' (owner ex_held_cluster)"
proof -
  let ?run = "DeallocateForWorkload no_faults ex_held_cluster ''ns/vm''"
  have none: "fst ?run = None" by code_simp
  then have run: "?run = (None, snd ?run)" by (simp add: prod_eq_iff)
  have "owner ex_held_cluster ''gpu-a'' ''0000:17:00.0'' = Some ''ns/vm''" by code_simp
  with none deallocation_refines [OF run wf_ex_held_cluster] show ?thesis
    by (simp add: faults_ok_def)
qed

definition has_capacity :: "SwiftGPUNode \<Rightarrow> SwiftGPUProfile \<Rightarrow> bool" where
  "has_capacity n pr \<longleftrightarrow>
     (if prPartitionMode pr = ''shared''
      then (case nFabricManager n of
              None \<Rightarrow> False
            | Some fm \<Rightarrow> fmRunning fm \<and> requiredVersion pr \<in> {'''', fmVersion fm} \<and>
                list_ex (viable (nGPUs n) (prCount pr) (prModel pr)) (fmPartitions fm))
      else prCount pr \<le> int (length (free_matching (nGPUs n) (prModel pr))))"

lemma free_matching_le: "int (length (free_matching gpus model)) \<le> countFreeGPUs gpus"
  unfolding free_matching_def countFreeGPUs_def
  by (induction gpus) auto

lemma viable_le_free:
  assumes "wf_node n" and "p \<in> set (node_partitions n)" and "viable (nGPUs n) count model p"
  shows "count \<le> countFreeGPUs (nGPUs n)"
proof -
  from assms(3) obtain ms where ms: "partition_members (nGPUs n) model (pGPUIndices p) = Some ms"
    and len: "int (length (pGPUIndices p)) = count" by (auto simp: viable_def)
  note m = partition_members_Some [OF ms]
  have "distinct (pGPUIndices p)" using assms(1,2) by (simp add: wf_node_def)
  then have "distinct ms" using m by (metis distinct_map)
  then have "length ms = card (set ms)" by (simp add: distinct_card)
  also have "\<dots> \<le> card (set (free_matching (nGPUs n) model))" using m by (intro card_mono) auto
  also have "\<dots> \<le> length (free_matching (nGPUs n) model)" by (rule card_length)
  finally have "int (length ms) \<le> int (length (free_matching (nGPUs n) model))" by simp
  moreover have "length ms = length (pGPUIndices p)" using m by (metis length_map)
  ultimately show ?thesis using len free_matching_le [of "nGPUs n" model] by simp
qed

lemma candidate_iff:
  assumes wf: "wf_node n" and cnt: "0 < prCount pr"
  shows "candidate matches af c pr nc n \<longleftrightarrow>
    nodeUsable matches af c n nc = Inr True \<and> model_ok (prModel pr) (nGPUModel n) \<and> has_capacity n pr"
proof (cases "prPartitionMode pr = ''shared''")
  case True
  have "fst (selectPartitionGPUs n (prCount pr) (prModel pr)) \<noteq> None \<longleftrightarrow>
    (\<exists>fm. nFabricManager n = Some fm \<and> fmRunning fm \<and> list_ex (viable (nGPUs n) (prCount pr) (prModel pr)) (fmPartitions fm))"
    using partition_loop_None_iff [of "nGPUs n" "prCount pr" "prModel pr" _ "[]"]
    by (auto simp: selectPartitionGPUs_def list_ex_iff simp del: not_None_eq split: option.split)
  moreover have "prCount pr \<le> nFreeGPUs n" if "nFabricManager n = Some fm"
    "list_ex (viable (nGPUs n) (prCount pr) (prModel pr)) (fmPartitions fm)" for fm
    using that viable_le_free [OF wf] wf by (auto simp: list_ex_iff node_partitions_def wf_node_def)
  ultimately show ?thesis
    using True by (auto simp: candidate_def select_for_def has_capacity_def fmVersionCompatible_def requiredVersion_def split: option.splits)
next
  case False
  have d: "distinct (nGPUs n)" using wf by (simp add: wf_node_def distinct_map)
  have "nFreeGPUs n = countFreeGPUs (nGPUs n)" using wf by (simp add: wf_node_def)
  with False show ?thesis
    using selectGPUs_None_iff [OF cnt d, of "prModel pr"] free_matching_le [of "nGPUs n" "prModel pr"]
    by (auto simp: candidate_def select_for_def has_capacity_def fmVersionCompatible_def split: prod.splits)
qed

text \<open>
  C30. Allocation is complete: with a working API it succeeds exactly when the identity already
  holds devices or some node qualifies, where a node qualifies by its devices: outside
  shared mode by having \<open>Count\<close> free devices of the model, in shared mode by a running Fabric
  Manager of the required version with a free partition of \<open>Count\<close> free members. Otherwise it
  returns \<open>ErrNoCapacity\<close> and writes nothing.
\<close>

theorem allocation_complete:
  assumes "wf_cluster c" and "0 < prCount pr"
  shows "((\<exists>r c'. FindAndAllocateFor matches no_faults c ident preferred pr nc = (Inr r, c')) \<longleftrightarrow>
      (\<exists>n \<in> set (gcNodes c). held_gpus ident n \<noteq> []) \<or>
      (\<exists>n \<in> set (gcNodes c). nodeUsable matches no_faults c n nc = Inr True \<and>
         model_ok (prModel pr) (nGPUModel n) \<and> has_capacity n pr)) \<and>
    (\<forall>e c'. FindAndAllocateFor matches no_faults c ident preferred pr nc = (Inl e, c') \<longrightarrow>
       errors_Is e ErrNoCapacity \<and> c' = c)"
    (is "(?succeeds \<longleftrightarrow> ?held \<or> ?fits) \<and> ?error")
proof -
  let ?run = "FindAndAllocateFor matches no_faults c ident preferred pr nc"
  have cand: "candidate matches no_faults c pr nc n \<longleftrightarrow> nodeUsable matches no_faults c n nc = Inr True \<and>
       model_ok (prModel pr) (nGPUModel n) \<and> has_capacity n pr" if "n \<in> set (gcNodes c)" for n
    using that assms by (intro candidate_iff) (auto simp: wf_cluster_def)
  have "?held \<or> ?fits" if ?succeeds
  proof -
    from that obtain n' gpus numa part c' where "?run = (Inr (n', gpus, numa, part), c')" by auto
    from FindAndAllocateFor_Inr [OF this] cand show ?thesis by blast
  qed
  moreover have "errors_Is e ErrNoCapacity \<and> \<not> ?held \<and> \<not> ?fits" if "?run = (Inl e, c')" for e c'
  proof -
    from that have plan: "commit_allocation no_faults c ident (plan_allocation matches no_faults c (gcNodes c) ident preferred pr nc) = (Inl e, c')"
      by (simp add: FindAndAllocateFor_def ListGPUNodes_def)
    then have none: "first_pass ident preferred (gcNodes c) None = None"
      by (cases "first_pass ident preferred (gcNodes c) None") (simp_all add: plan_allocation_def commit_allocation_def)
    obtain r mm where sp: "second_pass matches no_faults c pr nc (gcNodes c) False = Inr (r, mm)"
      using second_pass_no_faults by (metis sum.exhaust surj_pair)
    show ?thesis
    proof (cases r)
      case None
      with none plan sp have "e = (if mm then mismatch_err pr else ErrNoCapacity_err)"
        by (simp add: plan_allocation_def commit_allocation_def)
      moreover have "\<not> ?fits" using second_pass_None sp None cand by blast
      moreover have "\<not> ?held" using none by (simp add: first_pass_None_iff)
      ultimately show ?thesis by (simp add: errors_Is_def mismatch_err_def ErrNoCapacity_err_def)
    next
      case (Some x)
      obtain n gpus numa part where x: "x = (n, gpus, numa, part)" by (metis prod_cases4)
      with sp Some have "n \<in> set (gcNodes c)" using second_pass_Some by blast
      then have "node_named (gcNodes c) (nName n) = Some n" using wf_cluster_node assms(1) by blast
      then have "fst (StatusUpdate no_faults c (mark_node ident gpus part n)) = None"
        by (simp add: StatusUpdate_def)
      with plan none sp Some x have False
        by (simp add: plan_allocation_def commit_allocation_def Let_def split: prod.splits option.splits)
      then show ?thesis ..
    qed
  qed
  moreover have "?succeeds \<or> (\<exists>e c'. ?run = (Inl e, c'))"
    by (metis old.sum.exhaust surj_pair)
  ultimately show ?thesis using FindAndAllocateFor_Inl by blast
qed

theorem allocation_complete_witness:
  "\<exists>r c'. FindAndAllocateFor ex_matches no_faults ex_cluster ''ns/vm'' '''' (ex_profile ''isolated'') ex_nc = (Inr r, c')"
proof -
  have "has_capacity (ex_node ''gpu-b'') (ex_profile ''isolated'')"
    "nodeUsable ex_matches no_faults ex_cluster (ex_node ''gpu-b'') ex_nc = Inr True"
    "model_ok (prModel (ex_profile ''isolated'')) (nGPUModel (ex_node ''gpu-b''))" by code_simp+
  moreover have "ex_node ''gpu-b'' \<in> set (gcNodes ex_cluster)" by (simp add: ex_cluster_def)
  moreover have "0 < prCount (ex_profile ''isolated'')" by (simp add: ex_profile_def)
  ultimately show ?thesis
    using allocation_complete [OF wf_ex_cluster] by blast
qed

text \<open>
  Retrying is harmless: while the node that \<open>status.GPU\<close> names holds devices for the identity,
  the allocator returns exactly that node's devices and writes nothing, whatever the
  profile, the other nodes and their order; so a re-stamp never moves a workload that a
  migration holds on two nodes.
\<close>

theorem preferred_node_wins:
  assumes "wf_cluster c" and "n \<in> set (gcNodes c)" and "held_gpus ident n \<noteq> []" and "afList af = None"
  shows "FindAndAllocateFor matches af c ident (nName n) pr nc = (Inr (existing_result ident n), c)"
proof -
  have "distinct (map nName (gcNodes c))" "nName n \<noteq> ''''"
    using assms(1,2) by (force simp: wf_cluster_def wf_names_def)+
  from first_pass_preferred [OF this(1) assms(2,3) this(2)] show ?thesis
    using assms(4) by (simp add: FindAndAllocateFor_def ListGPUNodes_def plan_allocation_def commit_allocation_def)
qed

theorem preferred_node_wins_witness:
  "FindAndAllocateFor ex_matches no_faults ex_held_cluster ''ns/vm'' ''gpu-b'' (ex_profile ''shared'') ex_nc =
     (Inr (existing_result ''ns/vm'' (mark_node ''ns/vm'' [ex_gpu 1 ''0000:65:00.0'' 1, ex_gpu 2 ''0000:66:00.0'' 1] 1 (ex_node ''gpu-b''))),
      ex_held_cluster)"
proof -
  let ?n = "mark_node ''ns/vm'' [ex_gpu 1 ''0000:65:00.0'' 1, ex_gpu 2 ''0000:66:00.0'' 1] 1 (ex_node ''gpu-b'')"
  have "?n \<in> set (gcNodes ex_held_cluster)" by (simp add: ex_held_cluster_def)
  moreover have "held_gpus ''ns/vm'' ?n \<noteq> []" by code_simp
  moreover have "nName ?n = ''gpu-b''" by (simp add: ex_node_def)
  ultimately show ?thesis
    using preferred_node_wins [OF wf_ex_held_cluster, of ?n "''ns/vm''" no_faults ex_matches] by simp
qed

lemma identity_nonempty [simp]: "identity ns nm \<noteq> ''''"
  by (simp add: identity_def)

lemma preflight_None:
  assumes "GPUNodeHasCapacity af c nodeName pr = None"
  shows "\<exists>n. node_named (gcNodes c) nodeName = Some n \<and> GetGPUNode af c nodeName = Inr n \<and> nVfioReady n \<and>
    prCount pr \<le> nFreeGPUs n \<and> model_ok (prModel pr) (nGPUModel n) \<and> fmVersionCompatible n pr \<and>
    (prPartitionMode pr = ''shared'' \<longrightarrow> fst (selectPartitionGPUs n (prCount pr) (prModel pr)) \<noteq> None)"
  using assms by (auto simp: GPUNodeHasCapacity_def split: sum.splits if_splits dest: GetGPUNode_Inr)

text \<open>
  The preflight is sound for the reservation that follows it: on a node whose free devices
  are all of the model the node reports, if \<open>GPUNodeHasCapacity\<close> accepts the node and nothing
  changes in between, \<open>ReserveOnNode\<close> succeeds, and it takes the \<open>Count\<close> devices from free
  ones only.
\<close>

theorem preflight_then_reserve:
  assumes pre: "GPUNodeHasCapacity no_faults c nodeName pr = None" and wf: "wf_cluster c" and cnt: "0 < prCount pr"
    and homogeneous: "\<forall>n \<in> set (gcNodes c). \<forall>g \<in> set (nGPUs n). \<not> gAllocated g \<longrightarrow> gModel g = nGPUModel n"
    and fresh: "\<forall>n \<in> set (gcNodes c). held_gpus (identity ns nm) n = []"
  shows "\<exists>gpus numa part c'. ReserveOnNode no_faults c ns nm pr nodeName = (Inr (gpus, numa, part), c') \<and>
    int (length gpus) = prCount pr \<and> (\<forall>a \<in> gPCIAddress ` set gpus. owner c nodeName a = Some '''') \<and>
    owner c' = spec_take (identity ns nm) nodeName (gPCIAddress ` set gpus) (owner c)"
proof -
  from preflight_None [OF pre] obtain n where nn: "node_named (gcNodes c) nodeName = Some n"
    and get: "GetGPUNode no_faults c nodeName = Inr n" and vfio: "nVfioReady n" and free: "prCount pr \<le> nFreeGPUs n"
    and model: "model_ok (prModel pr) (nGPUModel n)" and fm: "fmVersionCompatible n pr"
    and part: "prPartitionMode pr = ''shared'' \<longrightarrow> fst (selectPartitionGPUs n (prCount pr) (prModel pr)) \<noteq> None" by blast
  from node_named_Some [OF nn] have n: "n \<in> set (gcNodes c)" "nName n = nodeName" by simp_all
  have wfn: "wf_node n" using wf n by (simp add: wf_cluster_def)
  have "free_matching (nGPUs n) (prModel pr) = filter (\<lambda>g. \<not> gAllocated g) (nGPUs n)"
    using homogeneous n(1) model by (auto simp: free_matching_def intro!: filter_cong)
  then have "prCount pr \<le> int (length (free_matching (nGPUs n) (prModel pr)))"
    using free wfn by (simp add: wf_node_def countFreeGPUs_def)
  with part wfn selectGPUs_None_iff [OF cnt, of "nGPUs n" "prModel pr"] have "fst (select_for n pr) \<noteq> None"
    by (auto simp: select_for_def wf_node_def distinct_map split: prod.splits)
  then obtain gpus numa pt where sel: "select_for n pr = (Some gpus, numa, pt)" by (metis option.exhaust prod.collapse)
  have ok: "selection_ok n pr gpus numa pt" by (rule select_for_Some [OF sel wfn cnt])
  note sub = selection_okD(1) [OF ok]
  have nn': "node_named (gcNodes c) (nName n) = Some n" using nn n(2) by simp
  let ?n' = "mark_node (identity ns nm) gpus pt n"
  have "StatusUpdate no_faults c ?n' = (None, store_node (?n'\<lparr>nResourceVersion := Suc (nResourceVersion n)\<rparr>) c)"
    using nn' by (simp add: StatusUpdate_def)
  then have "ReserveOnNode no_faults c ns nm pr nodeName = (Inr (gpus, numa, pt), store_node (?n'\<lparr>nResourceVersion := Suc (nResourceVersion n)\<rparr>) c)"
    using get fresh n(1) vfio free model fm sel by (simp add: ReserveOnNode_def Let_def)
  moreover have "\<forall>a \<in> gPCIAddress ` set gpus. owner c nodeName a = Some ''''"
    using sub selection_okD(2) [OF ok] wfn by (auto simp: owner_held [OF nn wfn] held_gpus_def wf_node_def)
  ultimately show ?thesis
    using ok owner_mark [OF nn' sub] n(2) by (auto simp: selection_ok_def)
qed

theorem preflight_then_reserve_witness:
  "\<exists>gpus numa part c'. ReserveOnNode no_faults ex_cluster ''ns'' ''vm'' (ex_profile ''isolated'') ''gpu-a'' = (Inr (gpus, numa, part), c') \<and>
     int (length gpus) = 2"
proof -
  have "GPUNodeHasCapacity no_faults ex_cluster ''gpu-a'' (ex_profile ''isolated'') = None" by code_simp
  moreover have "\<forall>n \<in> set (gcNodes ex_cluster). \<forall>g \<in> set (nGPUs n). \<not> gAllocated g \<longrightarrow> gModel g = nGPUModel n"
    "\<forall>n \<in> set (gcNodes ex_cluster). held_gpus (identity ''ns'' ''vm'') n = []"
    "prCount (ex_profile ''isolated'') = 2"
    by (simp_all add: ex_defs held_gpus_def identity_def)
  ultimately show ?thesis
    using preflight_then_reserve [OF _ wf_ex_cluster, of "''gpu-a''" "ex_profile ''isolated''" "''ns''" "''vm''"] by auto
qed

end
