(* ===== verification/GPU_Discovery.thy ===== *)
theory GPU_Discovery
  imports GPU_Alloc
begin

text \<open>
  The GPU discovery daemon: \<open>cmd/gpu-discovery/main.go\<close> and the pure part of
  \<open>cmd/gpu-discovery/discover.go\<close>.

  \<open>mergeStatus\<close> copies the discovered \<open>FabricManager\<close> struct but not its partition slice, so it
  writes the preserved assignments into the discovered value as well; the model returns
  that value next to the merged node. Reading sysfs, running \<open>lspci\<close>, \<open>nvidia-smi\<close> and
  \<open>fmpm\<close> and matching their output with regular expressions are not modelled: a \<open>discovered\<close>
  record is what they produced.
\<close>

section \<open>Discovered hardware\<close>

record discovered =
  dHost :: HostTopology
  dGPUs :: "GPUDevice list"
  dNVSwitches :: "NVSwitchDevice list"
  dFabricManager :: "FabricManagerStatus option"
  dVfioReady :: bool

definition VendorName :: "string \<Rightarrow> string" where
  "VendorName vendorID =
     (let v = ToLower vendorID
      in if v = ''10de'' then ''NVIDIA'' else if v = ''1002'' then ''AMD'' else if v = ''8086'' then ''Intel''
         else ''Unknown ('' @ vendorID @ '')'')"

definition HasNVIDIAGPUs :: "GPUDevice list \<Rightarrow> bool" where
  "HasNVIDIAGPUs gpus = list_ex (\<lambda>g. gVendor g = ''NVIDIA'') gpus"

text \<open>The end of \<open>parseGPUsFromLspci\<close>: sorted by address, numbered in that order.\<close>

fun number_from :: "int \<Rightarrow> GPUDevice list \<Rightarrow> GPUDevice list" where
  "number_from i [] = []"
| "number_from i (g # gs) = g\<lparr>gIndex := i\<rparr> # number_from (i + 1) gs"

definition sort_and_index :: "GPUDevice list \<Rightarrow> GPUDevice list" where
  "sort_and_index gpus = number_from 0 (sort_key gPCIAddress gpus)"

definition parseIntList :: "string \<Rightarrow> int list" where
  "parseIntList s =
     concat (map (\<lambda>p. case Atoi (TrimSpace p) of Inl _ \<Rightarrow> [] | Inr n \<Rightarrow> [n]) (Split CHR '','' s))"

definition normalizeBDF :: "string \<Rightarrow> string" where
  "normalizeBDF bdf0 =
     (let b0 = ToLower (TrimSpace bdf0);
          b = (if length (filter (\<lambda>c. c = CHR '':'') b0) = 1 then ''0000:'' @ b0 else b0)
      in case Cut CHR '':'' b of
           None \<Rightarrow> b
         | Some (dm, rest) \<Rightarrow>
             let dm' = (if 4 < length dm then drop (length dm - 4) dm
                         else replicate (4 - length dm) CHR ''0'' @ dm)
             in dm' @ '':'' @ rest)"

definition buildModuleToIndex :: "(string \<rightharpoonup> int) \<Rightarrow> GPUDevice list \<Rightarrow> (int \<times> int) list" where
  "buildModuleToIndex bdfToModule gpus =
     foldl (\<lambda>out g. case bdfToModule (normalizeBDF (gPCIAddress g)) of
                       None \<Rightarrow> out | Some md \<Rightarrow> AList.update md (gIndex g) out) [] gpus"

definition translatePartitionGPUIndices :: "int list \<Rightarrow> (int \<times> int) list \<Rightarrow> int list" where
  "translatePartitionGPUIndices physicalIDs moduleToIndex =
     (if moduleToIndex = [] then physicalIDs
      else concat (map (\<lambda>pid. case map_of moduleToIndex pid of None \<Rightarrow> [] | Some idx \<Rightarrow> [idx]) physicalIDs))"

section \<open>Merging\<close>

definition existing_gpu :: "SwiftGPUNode \<Rightarrow> string \<Rightarrow> GPUDevice option" where
  "existing_gpu n a = find (\<lambda>g. gPCIAddress g = a) (rev (nGPUs n))"

definition existing_partition :: "SwiftGPUNode \<Rightarrow> int \<Rightarrow> string option" where
  "existing_partition n i = map_option pAllocatedTo (find (\<lambda>p. pID p = i) (rev (node_partitions n)))"

definition merge_gpu :: "SwiftGPUNode \<Rightarrow> GPUDevice \<Rightarrow> GPUDevice" where
  "merge_gpu n dg =
     (case existing_gpu n (gPCIAddress dg) of
        None \<Rightarrow> dg\<lparr>gAllocated := False, gAllocatedTo := ''''\<rparr>
      | Some eg \<Rightarrow> dg\<lparr>gAllocated := gAllocated eg, gAllocatedTo := gAllocatedTo eg\<rparr>)"

definition merge_partition :: "SwiftGPUNode \<Rightarrow> FMPartitionStatus \<Rightarrow> FMPartitionStatus" where
  "merge_partition n p =
     (case existing_partition n (pID p) of None \<Rightarrow> p | Some to \<Rightarrow> p\<lparr>pAllocatedTo := to\<rparr>)"

definition removedAllocated :: "discovered \<Rightarrow> SwiftGPUNode \<Rightarrow> string list" where
  "removedAllocated d n =
     map gPCIAddress (filter (\<lambda>eg. gPCIAddress eg \<notin> gPCIAddress ` set (dGPUs d) \<and> gAllocated eg) (nGPUs n))"

definition mergeStatus :: "int \<Rightarrow> discovered \<Rightarrow> SwiftGPUNode \<Rightarrow> SwiftGPUNode \<times> discovered" where
  "mergeStatus now d n =
     (let gpus = map (merge_gpu n) (dGPUs d);
          fm = map_option (\<lambda>fm. fm\<lparr>fmPartitions := map (merge_partition n) (fmPartitions fm)\<rparr>) (dFabricManager d)
      in (n\<lparr>nPhase := (if removedAllocated d n \<noteq> [] then ''Error'' else ''Ready''),
            nLastDiscovery := Some now,
            nGPUCount := int (length gpus),
            nFreeGPUs := countFreeGPUs gpus,
            nGPUModel := (case gpus of [] \<Rightarrow> '''' | g # _ \<Rightarrow> gModel g),
            nGPUVendor := (case gpus of [] \<Rightarrow> '''' | g # _ \<Rightarrow> gVendor g),
            nVfioReady := dVfioReady d,
            nHost := dHost d,
            nGPUs := gpus,
            nNVSwitches := dNVSwitches d,
            nFabricManager := fm\<rparr>,
          d\<lparr>dFabricManager := fm\<rparr>))"

section \<open>Publishing\<close>

text \<open>A SwiftGPUNode as created: the name and an empty status.\<close>

definition empty_host :: HostTopology where
  "empty_host =
     \<lparr>hCPUTopology = \<lparr>ctSockets = 0, ctCoresPerSocket = 0, ctThreadsPerCore = 0, ctTotalCPUs = 0\<rparr>,
      hNUMANodes = [], hIOMMUEnabled = False, hHugepages1Gi = \<lparr>hpTotal = 0, hpFree = 0\<rparr>\<rparr>"

definition empty_node :: "string \<Rightarrow> nat \<Rightarrow> SwiftGPUNode" where
  "empty_node nm rv =
     \<lparr>nName = nm, nResourceVersion = rv, nPhase = '''', nLastDiscovery = None, nGPUCount = 0, nFreeGPUs = 0,
      nGPUModel = '''', nGPUVendor = '''', nVfioReady = False, nHost = empty_host, nGPUs = [], nNVSwitches = [],
      nFabricManager = None\<rparr>"

definition create_node :: "string \<Rightarrow> gpu_cluster \<Rightarrow> gpu_cluster" where
  "create_node nm c = c\<lparr>gcNodes := gcNodes c @ [empty_node nm 1]\<rparr>"

text \<open>
  The retried body. Other clients may write between the read and the patch: \<open>env\<close> is what
  they do to the cluster in one attempt, and the list of attempts is as long as the retry
  policy allows. The optimistically locked patch sends the whole merged status, so it is a
  status write at the version that was read.
\<close>

fun publish_attempts ::
  "api_faults \<Rightarrow> int \<Rightarrow> string \<Rightarrow> (gpu_cluster \<Rightarrow> gpu_cluster) list \<Rightarrow> discovered \<Rightarrow> gpu_cluster \<Rightarrow>
   goerr option \<times> gpu_cluster" where
  "publish_attempts af now nm [] d c = (Some (Conflict nm), c)"
| "publish_attempts af now nm (env # envs) d c =
     (case GetGPUNode af c nm of
        Inl e \<Rightarrow> (Some e, c)
      | Inr n \<Rightarrow>
          (case mergeStatus now d n of
             (n', d') \<Rightarrow>
               (case StatusUpdate af (env c) n' of
                  (None, c') \<Rightarrow> (None, c')
                | (Some e, c') \<Rightarrow>
                    if errors_Is e ErrConflict then publish_attempts af now nm envs d' c' else (Some e, c'))))"

definition publishStatus ::
  "api_faults \<Rightarrow> int \<Rightarrow> string \<Rightarrow> goerr option \<Rightarrow> (gpu_cluster \<Rightarrow> gpu_cluster) list \<Rightarrow> discovered \<Rightarrow> gpu_cluster \<Rightarrow>
   bool \<times> gpu_cluster" where
  "publishStatus af now nm createErr envs d c =
     (case GetGPUNode af c nm of
        Inr n \<Rightarrow>
          (case publish_attempts af now nm envs (snd (mergeStatus now d n)) c of (r, c') \<Rightarrow> (r = None, c'))
      | Inl e \<Rightarrow>
          if \<not> errors_Is e ErrNotFound then (False, c)
          else if createErr \<noteq> None then (False, c)
          else
            let c1 = create_node nm c; d1 = snd (mergeStatus now d (empty_node nm 0))
            in case GetGPUNode af c1 nm of
                 Inl _ \<Rightarrow> (False, c1)
               | Inr _ \<Rightarrow> (case publish_attempts af now nm envs d1 c1 of (r, c') \<Rightarrow> (r = None, c')))"

text \<open>The unlocked phase patch: only the phase of the current object changes.\<close>

definition patchPhase :: "api_faults \<Rightarrow> string \<Rightarrow> string \<Rightarrow> gpu_cluster \<Rightarrow> gpu_cluster" where
  "patchPhase af nm phase c =
     (case GetGPUNode af c nm of
        Inl _ \<Rightarrow> c
      | Inr n \<Rightarrow>
          (if nPhase n = phase \<or> afUpdate af nm \<noteq> None then c
           else store_node (n\<lparr>nPhase := phase, nResourceVersion := Suc (nResourceVersion n)\<rparr>) c))"

section \<open>Lemmas\<close>

definition wf_discovered :: "discovered \<Rightarrow> bool" where
  "wf_discovered d \<longleftrightarrow>
     distinct (map gPCIAddress (dGPUs d)) \<and> distinct (map gIndex (dGPUs d)) \<and>
     (case dFabricManager d of
        None \<Rightarrow> True
      | Some fm \<Rightarrow> distinct (map pID (fmPartitions fm)) \<and>
          (\<forall>p \<in> set (fmPartitions fm). 0 \<le> pID p \<and> distinct (pGPUIndices p)))"

lemma find_rev_distinct:
  assumes "distinct (map f xs)"
  shows "find (\<lambda>x. f x = a) (rev xs) = find (\<lambda>x. f x = a) xs"
proof -
  have uniq: "find (\<lambda>x. f x = a) ys = Some y \<longleftrightarrow> y \<in> set ys \<and> f y = a" if "distinct (map f ys)" for ys y
    using that by (induction ys) auto
  have "find (\<lambda>x. f x = a) (rev xs) = Some y \<longleftrightarrow> find (\<lambda>x. f x = a) xs = Some y" for y
    using assms by (simp add: uniq rev_map [symmetric])
  then show ?thesis by (metis option.exhaust)
qed

lemma merge_gpu_simps [simp]:
  "gPCIAddress (merge_gpu n g) = gPCIAddress g" "gIndex (merge_gpu n g) = gIndex g"
  "gModel (merge_gpu n g) = gModel g" "gNUMANode (merge_gpu n g) = gNUMANode g"
  by (simp_all add: merge_gpu_def split: option.split)

lemma merge_partition_simps [simp]:
  "pID (merge_partition n p) = pID p" "pGPUIndices (merge_partition n p) = pGPUIndices p"
  by (simp_all add: merge_partition_def split: option.split)

lemma mergeStatus_simps [simp]:
  "nName (fst (mergeStatus now d n)) = nName n"
  "nResourceVersion (fst (mergeStatus now d n)) = nResourceVersion n"
  "nGPUs (fst (mergeStatus now d n)) = map (merge_gpu n) (dGPUs d)"
  "nFreeGPUs (fst (mergeStatus now d n)) = countFreeGPUs (map (merge_gpu n) (dGPUs d))"
  by (simp_all add: mergeStatus_def Let_def)

lemma partitions_mergeStatus [simp]:
  "node_partitions (fst (mergeStatus now d n)) =
     (case dFabricManager d of None \<Rightarrow> [] | Some fm \<Rightarrow> map (merge_partition n) (fmPartitions fm))"
  by (simp add: mergeStatus_def Let_def node_partitions_def split: option.split)

lemma map_key_merge [simp]:
  "map gPCIAddress (map (merge_gpu n) gs) = map gPCIAddress gs"
  "map gIndex (map (merge_gpu n) gs) = map gIndex gs"
  "map pID (map (merge_partition n) ps) = map pID ps"
  by auto

lemma wf_mergeStatus:
  assumes "wf_node n" and "wf_discovered d"
  shows "wf_node (fst (mergeStatus now d n))"
proof -
  have "gAllocated (merge_gpu n g) \<longleftrightarrow> gAllocatedTo (merge_gpu n g) \<noteq> ''''" for g
    using assms(1) by (auto simp: merge_gpu_def existing_gpu_def wf_node_def split: option.split dest!: find_SomeD)
  moreover have "\<forall>p \<in> set (node_partitions (fst (mergeStatus now d n))). 0 \<le> pID p \<and> distinct (pGPUIndices p)"
    using assms(2) by (auto simp: wf_discovered_def split: option.splits)
  moreover have "distinct (map pID (node_partitions (fst (mergeStatus now d n))))"
    using assms(2) by (auto simp: wf_discovered_def simp del: map_map split: option.splits)
  ultimately show ?thesis
    using assms(2) unfolding wf_node_def wf_discovered_def mergeStatus_simps map_key_merge by simp
qed

lemma wf_discovered_merge: "wf_discovered d \<Longrightarrow> wf_discovered (snd (mergeStatus now d n))"
  by (auto simp: wf_discovered_def mergeStatus_def Let_def simp del: map_map split: option.splits)

definition spec_rediscover ::
  "string \<Rightarrow> string set \<Rightarrow> (string \<Rightarrow> string \<Rightarrow> string option) \<Rightarrow> string \<Rightarrow> string \<Rightarrow> string option" where
  "spec_rediscover nm addrs own nm' a =
     (if nm' = nm then (if a \<in> addrs then (case own nm a of None \<Rightarrow> Some '''' | Some w \<Rightarrow> Some w) else None)
      else own nm' a)"

lemma owner_merge:
  assumes nn: "node_named (gcNodes c) (nName n) = Some n" and wf: "wf_node n"
  shows "owner (store_node ((fst (mergeStatus now d n))\<lparr>nResourceVersion := v\<rparr>) c) =
         spec_rediscover (nName n) (gPCIAddress ` set (dGPUs d)) (owner c)"
proof (intro ext)
  fix nm a
  have ex: "existing_gpu n a = find (\<lambda>g. gPCIAddress g = a) (nGPUs n)"
    using wf by (simp add: existing_gpu_def wf_node_def find_rev_distinct)
  have "find (\<lambda>g. gPCIAddress g = a) (map (merge_gpu n) (dGPUs d)) =
        map_option (merge_gpu n) (find (\<lambda>g. gPCIAddress g = a) (dGPUs d))"
    by (intro find_map_key) simp
  moreover have "gAllocatedTo (merge_gpu n g) = (case find (\<lambda>g. gPCIAddress g = a) (nGPUs n) of None \<Rightarrow> '''' | Some eg \<Rightarrow> gAllocatedTo eg)"
    if "find (\<lambda>g. gPCIAddress g = a) (dGPUs d) = Some g" for g
    using find_SomeD [OF that] ex by (simp add: merge_gpu_def split: option.split)
  moreover have "a \<in> gPCIAddress ` set (dGPUs d) \<longleftrightarrow> find (\<lambda>g. gPCIAddress g = a) (dGPUs d) \<noteq> None"
    by (auto simp: find_None_iff simp del: not_None_eq)
  ultimately show "owner (store_node ((fst (mergeStatus now d n))\<lparr>nResourceVersion := v\<rparr>) c) nm a =
        spec_rediscover (nName n) (gPCIAddress ` set (dGPUs d)) (owner c) nm a"
    using nn by (auto simp: owner_def spec_rediscover_def node_named_store_node split: option.splits)
qed

text \<open>
  What the API promises about other writers: an object whose version is unchanged is
  unchanged.
\<close>

definition env_ok :: "(gpu_cluster \<Rightarrow> gpu_cluster) \<Rightarrow> bool" where
  "env_ok env \<longleftrightarrow>
     (\<forall>c. wf_cluster c \<longrightarrow> wf_cluster (env c) \<and>
        (\<forall>nm n n'. node_named (gcNodes c) nm = Some n \<longrightarrow> node_named (gcNodes (env c)) nm = Some n' \<longrightarrow>
           nResourceVersion n' = nResourceVersion n \<longrightarrow> n' = n))"

lemma publish_attempts_None:
  assumes "publish_attempts af now nm envs d c = (None, c')" and "\<forall>env \<in> set envs. env_ok env"
    and "wf_cluster c" and "wf_discovered d"
  shows "\<exists>cw n d'. wf_cluster cw \<and> node_named (gcNodes cw) nm = Some n \<and> dGPUs d' = dGPUs d \<and> wf_discovered d' \<and>
    c' = store_node ((fst (mergeStatus now d' n))\<lparr>nResourceVersion := Suc (nResourceVersion n)\<rparr>) cw"
  using assms
proof (induction envs arbitrary: d c)
  case (Cons env envs)
  from Cons.prems(1) obtain n where get: "GetGPUNode af c nm = Inr n"
    by (auto split: sum.splits)
  note nn = GetGPUNode_Inr [OF get]
  let ?n' = "fst (mergeStatus now d n)" and ?d' = "snd (mergeStatus now d n)"
  have env: "wf_cluster (env c)" using Cons.prems by (simp add: env_ok_def)
  obtain r c1 where up: "StatusUpdate af (env c) ?n' = (r, c1)" by fastforce
  have run: "publish_attempts af now nm (env # envs) d c =
      (case r of None \<Rightarrow> (None, c1)
       | Some e \<Rightarrow> if errors_Is e ErrConflict then publish_attempts af now nm envs ?d' c1 else (Some e, c1))"
    using get up by (cases r) (simp_all add: case_prod_beta)
  show ?case
  proof (cases r)
    case None
    with run Cons.prems(1) have c1: "c' = c1" by simp
    from StatusUpdate_None [of af "env c" ?n' c1] up None obtain cur where
      cur: "node_named (gcNodes (env c)) (nName ?n') = Some cur" "nResourceVersion cur = nResourceVersion ?n'"
      and c1': "c1 = store_node (?n'\<lparr>nResourceVersion := Suc (nResourceVersion ?n')\<rparr>) (env c)" by blast
    have "nName n = nm" using node_named_Some [OF nn] by simp
    with cur nn Cons.prems(2,3) have "cur = n" by (auto simp: env_ok_def)
    with cur c1 c1' env Cons.prems(4) \<open>nName n = nm\<close> show ?thesis by (intro exI [of _ "env c"] exI [of _ n] exI [of _ d]) simp
  next
    case (Some e)
    with up have "c1 = env c" using StatusUpdate_Some by blast
    moreover from run Some Cons.prems(1) have "publish_attempts af now nm envs ?d' c1 = (None, c')"
      by (simp split: if_splits)
    moreover have "dGPUs ?d' = dGPUs d" by (simp add: mergeStatus_def Let_def)
    ultimately show ?thesis
      using Cons.IH [of ?d' c1] Cons.prems env wf_discovered_merge by simp
  qed
qed simp

section \<open>Properties\<close>


definition ex_discovered :: discovered where
  "ex_discovered = \<lparr>dHost = ex_host, dGPUs = nGPUs (ex_node ''gpu-b''), dNVSwitches = [],
     dFabricManager = nFabricManager (ex_node ''gpu-b''), dVfioReady = True\<rparr>"


text \<open>
  C31. An allocated device that one discovery cycle misses is recorded as free when a later
  cycle reports it again, although nothing released it: the merge drops the record with
  the device, and the node is \<open>Ready\<close> again.
\<close>

theorem reappearing_device_is_free:
  assumes "g \<in> set (dGPUs d2)" and "gPCIAddress g \<notin> gPCIAddress ` set (dGPUs d1)"
  shows "\<forall>n. let n1 = fst (mergeStatus t1 d1 n); n2 = fst (mergeStatus t2 d2 n1) in
     g\<lparr>gAllocated := False, gAllocatedTo := ''''\<rparr> \<in> set (nGPUs n2) \<and>
     (dGPUs d2 = map (\<lambda>h. h\<lparr>gAllocated := False, gAllocatedTo := ''''\<rparr>) (nGPUs n) \<longrightarrow> nPhase n2 = ''Ready'')"
proof (intro allI)
  fix n
  let ?n1 = "fst (mergeStatus t1 d1 n)"
  have none: "existing_gpu ?n1 (gPCIAddress g) = None"
  proof -
    have "gPCIAddress ` set (nGPUs ?n1) = gPCIAddress ` set (dGPUs d1)" by (simp add: image_image)
    with assms(2) have "\<forall>h \<in> set (nGPUs ?n1). gPCIAddress h \<noteq> gPCIAddress g" by (metis imageI)
    then show ?thesis unfolding existing_gpu_def find_None_iff by auto
  qed
  then have "merge_gpu ?n1 g = g\<lparr>gAllocated := False, gAllocatedTo := ''''\<rparr>"
    by (simp add: merge_gpu_def)
  then have "g\<lparr>gAllocated := False, gAllocatedTo := ''''\<rparr> \<in> set (nGPUs (fst (mergeStatus t2 d2 ?n1)))"
    using assms(1) by (auto simp: image_iff intro!: bexI [of _ g])
  moreover have "removedAllocated d2 ?n1 = []"
    if "dGPUs d2 = map (\<lambda>h. h\<lparr>gAllocated := False, gAllocatedTo := ''''\<rparr>) (nGPUs n)"
  proof -
    have "gPCIAddress h \<in> gPCIAddress ` set (dGPUs d2)" if "h \<in> set (nGPUs ?n1)" "gAllocated h" for h
    proof -
      from that obtain k where k: "k \<in> set (dGPUs d1)" "h = merge_gpu n k" by auto
      with that(2) have "existing_gpu n (gPCIAddress k) \<noteq> None" by (auto simp: merge_gpu_def split: option.splits)
      then obtain e where "e \<in> set (nGPUs n)" "gPCIAddress e = gPCIAddress k"
        by (auto simp: existing_gpu_def dest!: find_SomeD)
      then have "gPCIAddress k \<in> gPCIAddress ` set (nGPUs n)" by (metis imageI)
      then show ?thesis using k \<open>dGPUs d2 = _\<close> by (simp add: image_image)
    qed
    then show ?thesis unfolding removedAllocated_def by (auto simp: filter_empty_conv simp del: mergeStatus_simps)
  qed
  then have "nPhase (fst (mergeStatus t2 d2 ?n1)) = ''Ready''"
    if "dGPUs d2 = map (\<lambda>h. h\<lparr>gAllocated := False, gAllocatedTo := ''''\<rparr>) (nGPUs n)"
    using that by (simp add: mergeStatus_def Let_def)
  ultimately show "let n1 = fst (mergeStatus t1 d1 n); n2 = fst (mergeStatus t2 d2 n1) in
     g\<lparr>gAllocated := False, gAllocatedTo := ''''\<rparr> \<in> set (nGPUs n2) \<and>
     (dGPUs d2 = map (\<lambda>h. h\<lparr>gAllocated := False, gAllocatedTo := ''''\<rparr>) (nGPUs n) \<longrightarrow> nPhase n2 = ''Ready'')"
    unfolding Let_def by blast
qed

theorem reappearing_device_is_free_witness:
  "let n = mark_node ''ns/vm'' [ex_gpu 0 ''0000:17:00.0'' 0] (-1) (ex_node ''gpu-a'');
       n1 = fst (mergeStatus 1 (ex_discovered\<lparr>dGPUs := []\<rparr>) n);
       n2 = fst (mergeStatus 2 ex_discovered n1)
   in held_gpus ''ns/vm'' n \<noteq> [] \<and> nPhase n1 = ''Error'' \<and> nPhase n2 = ''Ready'' \<and> ex_gpu 0 ''0000:17:00.0'' 0 \<in> set (nGPUs n2)"
proof -
  let ?n = "mark_node ''ns/vm'' [ex_gpu 0 ''0000:17:00.0'' 0] (-1) (ex_node ''gpu-a'')"
  have "held_gpus ''ns/vm'' ?n \<noteq> []" "nPhase (fst (mergeStatus 1 (ex_discovered\<lparr>dGPUs := []\<rparr>) ?n)) = ''Error''" by code_simp+
  moreover have "ex_gpu 0 ''0000:17:00.0'' 0 \<in> set (dGPUs ex_discovered)" by (simp add: ex_discovered_def ex_node_def)
  moreover have "dGPUs ex_discovered = map (\<lambda>h. h\<lparr>gAllocated := False, gAllocatedTo := ''''\<rparr>) (nGPUs ?n)" by code_simp
  moreover have "(ex_gpu 0 ''0000:17:00.0'' 0)\<lparr>gAllocated := False, gAllocatedTo := ''''\<rparr> = ex_gpu 0 ''0000:17:00.0'' 0"
    by (simp add: ex_gpu_def)
  ultimately show ?thesis
    using reappearing_device_is_free [of "ex_gpu 0 ''0000:17:00.0'' 0" ex_discovered "ex_discovered\<lparr>dGPUs := []\<rparr>" 1 2]
    by (simp add: Let_def)
qed

lemma buildModuleToIndex_snoc:
  "buildModuleToIndex b (gs @ [g]) =
     (case b (normalizeBDF (gPCIAddress g)) of None \<Rightarrow> buildModuleToIndex b gs
      | Some md \<Rightarrow> AList.update md (gIndex g) (buildModuleToIndex b gs))"
  by (simp add: buildModuleToIndex_def split: option.split)

lemma buildModuleToIndex_lookup:
  assumes "\<forall>g \<in> set gpus. \<forall>h \<in> set gpus. \<forall>md. b (normalizeBDF (gPCIAddress g)) = Some md \<longrightarrow>
             b (normalizeBDF (gPCIAddress h)) = Some md \<longrightarrow> g = h"
  shows "map_of (buildModuleToIndex b gpus) md = Some i \<longleftrightarrow>
         (\<exists>g \<in> set gpus. b (normalizeBDF (gPCIAddress g)) = Some md \<and> gIndex g = i)"
  using assms
proof (induction gpus rule: rev_induct)
  case Nil
  then show ?case by (simp add: buildModuleToIndex_def)
next
  case (snoc g gs)
  then show ?case
    by (auto simp: buildModuleToIndex_snoc update_conv' split: option.splits if_splits)
qed

text \<open>
  With distinct module ids, the translation of a Fabric Manager partition yields exactly the
  device indices of the partition's discovered members, in order.
\<close>

theorem partition_translation_exact:
  assumes "\<forall>g \<in> set gpus. \<forall>h \<in> set gpus. \<forall>md. b (normalizeBDF (gPCIAddress g)) = Some md \<longrightarrow>
             b (normalizeBDF (gPCIAddress h)) = Some md \<longrightarrow> g = h"
    and "\<exists>g \<in> set gpus. b (normalizeBDF (gPCIAddress g)) \<noteq> None"
    and "list_all2 (\<lambda>pid g. g \<in> set gpus \<and> b (normalizeBDF (gPCIAddress g)) = Some pid) pids members"
  shows "translatePartitionGPUIndices pids (buildModuleToIndex b gpus) = map gIndex members"
proof -
  from assms(2) obtain g md where g: "g \<in> set gpus" "b (normalizeBDF (gPCIAddress g)) = Some md" by blast
  then have "map_of (buildModuleToIndex b gpus) md = Some (gIndex g)"
    using buildModuleToIndex_lookup [OF assms(1)] by blast
  then have ne: "buildModuleToIndex b gpus \<noteq> []" by auto
  have "concat (map (\<lambda>pid. case map_of (buildModuleToIndex b gpus) pid of None \<Rightarrow> [] | Some idx \<Rightarrow> [idx]) pids) = map gIndex members"
    using assms(3)
  proof (induction rule: list_all2_induct)
    case (Cons pid pids m members)
    then have "map_of (buildModuleToIndex b gpus) pid = Some (gIndex m)"
      using buildModuleToIndex_lookup [OF assms(1)] by blast
    with Cons show ?case by simp
  qed simp
  with ne show ?thesis by (simp add: translatePartitionGPUIndices_def)
qed

theorem partition_translation_exact_witness:
  "let gpus = [ex_gpu 0 ''0000:17:00.0'' 0, ex_gpu 1 ''0000:65:00.0'' 1];
       b = [normalizeBDF ''00000000:17:00.0'' \<mapsto> 2, normalizeBDF ''00000000:65:00.0'' \<mapsto> 1]
   in translatePartitionGPUIndices [1, 2] (buildModuleToIndex b gpus) = [1, 0]"
proof -
  let ?gpus = "[ex_gpu 0 ''0000:17:00.0'' 0, ex_gpu 1 ''0000:65:00.0'' 1]"
  let ?b = "[normalizeBDF ''00000000:17:00.0'' \<mapsto> 2, normalizeBDF ''00000000:65:00.0'' \<mapsto> (1 :: int)]"
  have n: "normalizeBDF ''00000000:17:00.0'' = ''0000:17:00.0''" "normalizeBDF ''0000:17:00.0'' = ''0000:17:00.0''"
    "normalizeBDF ''00000000:65:00.0'' = ''0000:65:00.0''" "normalizeBDF ''0000:65:00.0'' = ''0000:65:00.0''" by code_simp+
  have a: "gPCIAddress (ex_gpu i a k) = a" "gIndex (ex_gpu i a k) = i" for i a k by (simp_all add: ex_gpu_def)
  show ?thesis
    using partition_translation_exact [of ?gpus ?b "[1, 2]" "[ex_gpu 1 ''0000:65:00.0'' 1, ex_gpu 0 ''0000:17:00.0'' 0]"]
    by (simp add: n a Let_def)
qed


end
