(* ===== verification/GPU_Concurrency.thy ===== *)
theory GPU_Concurrency
  imports GPU_Discovery
begin

text \<open>
  The writers of a SwiftGPUNode run concurrently: the GPU controller and the sandbox
  controller allocate and release, the migration controller reserves and releases, the
  discovery daemon rewrites the whole status. Each reads a node, computes the new status and
  writes it at the version it read.

  A system state is the cluster and, per worker, the write it has computed from the copy
  it read. A labelled step is one read, one write, or a change by another client; any
  number of steps of other workers may come between the read and the write of one.
\<close>

section \<open>The system\<close>

datatype writer =
    WAlloc string "GPUDevice list" int
  | WRelease string
  | WMerge int discovered

fun apply_writer :: "writer \<Rightarrow> SwiftGPUNode \<Rightarrow> SwiftGPUNode" where
  "apply_writer (WAlloc ident sel part) n = mark_node ident sel part n"
| "apply_writer (WRelease ident) n = clear_node ident n"
| "apply_writer (WMerge now d) n = fst (mergeStatus now d n)"

record gpu_sys =
  syC :: gpu_cluster
  syP :: "nat \<Rightarrow> (writer \<times> SwiftGPUNode) option"

datatype label = LRead | LWrite writer string | LFail | LOther

inductive gpu_step ::
  "selector_lib \<Rightarrow> (string \<Rightarrow> discovered set) \<Rightarrow> gpu_sys \<Rightarrow> label \<Rightarrow> gpu_sys \<Rightarrow> bool"
  for matches reports where
  read_alloc: "gpu_step matches reports s LRead (s\<lparr>syP := (syP s)(w \<mapsto> (WAlloc ident gpus part, n))\<rparr>)"
    if "syP s w = None" "ident \<noteq> ''''" "0 < prCount pr"
      "plan_allocation matches af ((syC s)\<lparr>gcKNodes := kn\<rparr>) (gcNodes (syC s)) ident preferred pr nc =
       Allocate (n, gpus, numa, part)"
| read_reserve: "gpu_step matches reports s LRead (s\<lparr>syP := (syP s)(w \<mapsto> (WAlloc (identity ns nm) gpus part, n))\<rparr>)"
    if "syP s w = None" "0 < prCount pr" "GetGPUNode af (syC s) node = Inr n" "held_gpus (identity ns nm) n = []"
      "select_for n pr = (Some gpus, numa, part)"
| read_release: "gpu_step matches reports s LRead (s\<lparr>syP := (syP s)(w \<mapsto> (WRelease ident, n))\<rparr>)"
    if "syP s w = None" "ident \<noteq> ''''" "GetGPUNode af (syC s) node = Inr n" "holds_any ident n"
| read_merge: "gpu_step matches reports s LRead (s\<lparr>syP := (syP s)(w \<mapsto> (WMerge now d, n))\<rparr>)"
    if "syP s w = None" "GetGPUNode af (syC s) node = Inr n" "d \<in> reports node" "wf_discovered d"
| written: "gpu_step matches reports s (LWrite wr (nName n)) (s\<lparr>syC := c', syP := (syP s)(w := None)\<rparr>)"
    if "syP s w = Some (wr, n)" "StatusUpdate af (syC s) (apply_writer wr n) = (None, c')"
| failed: "gpu_step matches reports s LFail (s\<lparr>syC := c', syP := (syP s)(w := None)\<rparr>)"
    if "syP s w = Some (wr, n)" "StatusUpdate af (syC s) (apply_writer wr n) = (Some e, c')"
| phase: "gpu_step matches reports s LOther (s\<lparr>syC := patchPhase af node ph (syC s)\<rparr>)"
| create: "gpu_step matches reports s LOther (s\<lparr>syC := create_node node (syC s)\<rparr>)"
    if "node \<noteq> ''''" "node \<notin> set (map nName (gcNodes (syC s)))"
| knodes: "gpu_step matches reports s LOther (s\<lparr>syC := (syC s)\<lparr>gcKNodes := kn\<rparr>\<rparr>)"

inductive gpu_reach :: "selector_lib \<Rightarrow> (string \<Rightarrow> discovered set) \<Rightarrow> gpu_sys \<Rightarrow> bool" for matches reports where
  init: "gpu_reach matches reports \<lparr>syC = \<lparr>gcNodes = [], gcKNodes = kn\<rparr>, syP = (\<lambda>_. None)\<rparr>"
| step: "gpu_reach matches reports s \<Longrightarrow> gpu_step matches reports s l s' \<Longrightarrow> gpu_reach matches reports s'"

section \<open>The abstract steps\<close>

fun abs_step ::
  "label \<Rightarrow> (string \<Rightarrow> string \<Rightarrow> string option) \<Rightarrow> (string \<Rightarrow> string \<Rightarrow> string option) \<Rightarrow> bool" where
  "abs_step (LWrite (WAlloc ident sel part) nm) own own' \<longleftrightarrow>
     (\<forall>a \<in> gPCIAddress ` set sel. own nm a = Some '''') \<and> own' = spec_take ident nm (gPCIAddress ` set sel) own"
| "abs_step (LWrite (WRelease ident) nm) own own' \<longleftrightarrow>
     own' = (\<lambda>nm' a. if nm' = nm then spec_free ident own nm' a else own nm' a)"
| "abs_step (LWrite (WMerge now d) nm) own own' \<longleftrightarrow>
     own' = spec_rediscover nm (gPCIAddress ` set (dGPUs d)) own"
| "abs_step LRead own own' \<longleftrightarrow> own' = own"
| "abs_step LFail own own' \<longleftrightarrow> own' = own"
| "abs_step LOther own own' \<longleftrightarrow> own' = own"

section \<open>The invariant\<close>

fun legal :: "writer \<Rightarrow> SwiftGPUNode \<Rightarrow> bool" where
  "legal (WAlloc ident sel part) n \<longleftrightarrow>
     ident \<noteq> '''' \<and> set sel \<subseteq> set (nGPUs n) \<and> (\<forall>g \<in> set sel. \<not> gAllocated g) \<and>
     (0 \<le> part \<longrightarrow> (\<exists>p \<in> set (node_partitions n). pID p = part \<and> pAllocatedTo p = '''' \<and> map gIndex sel = pGPUIndices p))"
| "legal (WRelease ident) n \<longleftrightarrow> ident \<noteq> ''''"
| "legal (WMerge now d) n \<longleftrightarrow> wf_discovered d"

definition fresh_copy :: "gpu_cluster \<Rightarrow> SwiftGPUNode \<Rightarrow> bool" where
  "fresh_copy c n \<longleftrightarrow>
     (\<exists>cur. node_named (gcNodes c) (nName n) = Some cur \<and> nResourceVersion n \<le> nResourceVersion cur \<and>
        (nResourceVersion n = nResourceVersion cur \<longrightarrow> cur = n))"

definition sys_inv :: "gpu_sys \<Rightarrow> bool" where
  "sys_inv s \<longleftrightarrow> wf_cluster (syC s) \<and>
     (\<forall>w wr n. syP s w = Some (wr, n) \<longrightarrow> legal wr n \<and> fresh_copy (syC s) n)"

lemma apply_writer_simps [simp]:
  "nName (apply_writer wr n) = nName n" "nResourceVersion (apply_writer wr n) = nResourceVersion n"
  by (cases wr; simp)+

lemma wf_apply_writer: "wf_node n \<Longrightarrow> legal wr n \<Longrightarrow> wf_node (apply_writer wr n)"
  by (cases wr) (simp_all add: wf_mark_node wf_clear_node wf_mergeStatus)

lemma fresh_copy_current:
  "wf_cluster c \<Longrightarrow> node_named (gcNodes c) nm = Some n \<Longrightarrow> fresh_copy c n"
  by (auto simp: fresh_copy_def dest: node_named_Some)

lemma fresh_copy_store:
  assumes "fresh_copy c n" and "node_named (gcNodes c) (nName m) = Some cur" and "nResourceVersion cur < nResourceVersion m"
  shows "fresh_copy (store_node m c) n"
  using assms by (auto simp: fresh_copy_def node_named_store_node)

lemma fresh_copy_knodes [simp]: "fresh_copy (c\<lparr>gcKNodes := kn\<rparr>) n = fresh_copy c n"
  by (simp add: fresh_copy_def)

lemma node_named_create:
  "node_named (gcNodes (create_node nm c)) nm' =
     (case node_named (gcNodes c) nm' of Some n \<Rightarrow> Some n | None \<Rightarrow> if nm' = nm then Some (empty_node nm 1) else None)"
proof -
  have "find P (xs @ [x]) = (case find P xs of Some y \<Rightarrow> Some y | None \<Rightarrow> if P x then Some x else None)"
    for P and xs :: "SwiftGPUNode list" and x
    by (induction xs) auto
  then show ?thesis by (simp add: node_named_def create_node_def empty_node_def split: option.split)
qed

lemma fresh_copy_create: "fresh_copy c n \<Longrightarrow> fresh_copy (create_node nm c) n"
  by (auto simp: fresh_copy_def node_named_create)

lemma wf_empty_node: "wf_node (empty_node nm v)"
  by (simp add: wf_node_def empty_node_def countFreeGPUs_def node_partitions_def)

lemma wf_cluster_create:
  "wf_cluster c \<Longrightarrow> nm \<noteq> '''' \<Longrightarrow> nm \<notin> set (map nName (gcNodes c)) \<Longrightarrow> wf_cluster (create_node nm c)"
  using wf_empty_node [of nm 1] by (auto simp: wf_cluster_def wf_names_def create_node_def empty_node_def)

lemma phase_simps [simp]:
  "wf_node (n\<lparr>nPhase := ph\<rparr>) = wf_node n" "node_partitions (n\<lparr>nPhase := ph\<rparr>) = node_partitions n"
  by (simp_all add: wf_node_def node_partitions_def)

lemma wf_cluster_knodes [simp]: "wf_cluster (c\<lparr>gcKNodes := kn\<rparr>) = wf_cluster c"
  by (simp add: wf_cluster_def wf_names_def)

lemma patchPhase_cases:
  obtains "patchPhase af nm ph c = c"
  | n where "node_named (gcNodes c) nm = Some n"
      "patchPhase af nm ph c = store_node (n\<lparr>nPhase := ph, nResourceVersion := Suc (nResourceVersion n)\<rparr>) c"
proof (cases "GetGPUNode af c nm")
  case (Inr n)
  then show thesis
    using that GetGPUNode_Inr [OF Inr] by (cases "nPhase n = ph \<or> afUpdate af nm \<noteq> None") (simp_all add: patchPhase_def)
qed (use that(1) in \<open>simp add: patchPhase_def\<close>)

lemma legal_selection:
  "selection_ok n pr gpus numa part \<Longrightarrow> ident \<noteq> '''' \<Longrightarrow> legal (WAlloc ident gpus part) n"
  using selection_okD [of n pr gpus numa part] by auto

lemma plan_allocation_Allocate:
  assumes "plan_allocation matches af c items ident preferred pr nc = Allocate (n, gpus, numa, part)"
  shows "n \<in> set items" and "select_for n pr = (Some gpus, numa, part)"
  using assms by (auto simp: plan_allocation_def split: option.splits sum.splits prod.splits dest: second_pass_Some)

lemma sys_inv_read:
  assumes "sys_inv s" and "fresh_copy (syC s) n" and "legal wr n"
  shows "sys_inv (s\<lparr>syP := (syP s)(w \<mapsto> (wr, n))\<rparr>)"
  using assms by (auto simp: sys_inv_def)

lemma sys_inv_store:
  assumes "sys_inv s" and "wf_node m" and "node_named (gcNodes (syC s)) (nName m) = Some cur"
    and "nResourceVersion cur < nResourceVersion m"
  shows "sys_inv (s\<lparr>syC := store_node m (syC s), syP := (syP s)(w := None)\<rparr>)"
    and "sys_inv (s\<lparr>syC := store_node m (syC s)\<rparr>)"
  using assms fresh_copy_store [OF _ assms(3,4)] by (auto simp: sys_inv_def wf_cluster_store)

text \<open>A write that the API accepts was computed from the current node.\<close>

lemma accepted_write:
  assumes "sys_inv s" and "syP s w = Some (wr, n)"
    and "StatusUpdate af (syC s) (apply_writer wr n) = (None, c')"
  shows "node_named (gcNodes (syC s)) (nName n) = Some n" and "wf_node n" and "legal wr n"
    and "c' = store_node ((apply_writer wr n)\<lparr>nResourceVersion := Suc (nResourceVersion n)\<rparr>) (syC s)"
proof -
  from StatusUpdate_None [OF assms(3)] obtain cur where
    "node_named (gcNodes (syC s)) (nName n) = Some cur" "nResourceVersion cur = nResourceVersion n"
    and c': "c' = store_node ((apply_writer wr n)\<lparr>nResourceVersion := Suc (nResourceVersion n)\<rparr>) (syC s)"
    by auto
  moreover have "fresh_copy (syC s) n" using assms(1,2) unfolding sys_inv_def by blast
  ultimately show nn: "node_named (gcNodes (syC s)) (nName n) = Some n"
    by (auto simp: fresh_copy_def)
  from c' show "c' = store_node ((apply_writer wr n)\<lparr>nResourceVersion := Suc (nResourceVersion n)\<rparr>) (syC s)" .
  from assms(1,2) show "legal wr n" by (auto simp: sys_inv_def)
  from node_named_Some [OF nn] assms(1) show "wf_node n" by (auto simp: sys_inv_def wf_cluster_def)
qed

lemma sys_inv_step:
  assumes "gpu_step matches reports s l s'" and inv: "sys_inv s"
  shows "sys_inv s'"
  using assms(1)
proof cases
  case (read_alloc w ident pr af kn preferred nc n gpus numa part)
  note p = plan_allocation_Allocate [OF read_alloc(6)]
  have n: "node_named (gcNodes (syC s)) (nName n) = Some n" "wf_node n"
    using p(1) inv wf_cluster_node by (auto simp: sys_inv_def)
  with p(2) read_alloc(5) have "selection_ok n pr gpus numa part" by (intro select_for_Some)
  then have "legal (WAlloc ident gpus part) n" using read_alloc(4) by (rule legal_selection)
  moreover have "fresh_copy (syC s) n" using n inv by (auto simp: sys_inv_def intro: fresh_copy_current)
  ultimately show ?thesis using read_alloc(2) sys_inv_read [OF inv] by simp
next
  case (read_reserve w pr af node n ns nm gpus numa part)
  note nn = GetGPUNode_Inr [OF read_reserve(5)]
  have wf: "wf_node n" using node_named_Some [OF nn] inv by (auto simp: sys_inv_def wf_cluster_def)
  from select_for_Some [OF read_reserve(7) wf read_reserve(4)]
  have "legal (WAlloc (identity ns nm) gpus part) n" by (rule legal_selection) simp
  moreover have "fresh_copy (syC s) n" using nn inv by (auto simp: sys_inv_def intro: fresh_copy_current)
  ultimately show ?thesis using read_reserve(2) sys_inv_read [OF inv] by simp
next
  case (read_release w ident af node n)
  then have "fresh_copy (syC s) n" using inv by (auto simp: sys_inv_def intro: fresh_copy_current dest: GetGPUNode_Inr)
  then show ?thesis using read_release sys_inv_read [OF inv] by simp
next
  case (read_merge w af node n d now)
  then have "fresh_copy (syC s) n" using inv by (auto simp: sys_inv_def intro: fresh_copy_current dest: GetGPUNode_Inr)
  then show ?thesis using read_merge sys_inv_read [OF inv] by simp
next
  case (written w wr n af c')
  note a = accepted_write [OF inv written(3,4)]
  have "wf_node ((apply_writer wr n)\<lparr>nResourceVersion := Suc (nResourceVersion n)\<rparr>)"
    using a by (simp add: wf_apply_writer)
  with a written sys_inv_store(1) [OF inv] show ?thesis by simp
next
  case (failed w wr n af e c')
  then have "c' = syC s" using StatusUpdate_Some by blast
  with failed inv show ?thesis by (auto simp: sys_inv_def)
next
  case (phase af node ph)
  show ?thesis
  proof (cases rule: patchPhase_cases [of af node ph "syC s"])
    case 1
    with phase inv show ?thesis by simp
  next
    case (2 n)
    note n = node_named_Some [OF 2(1)]
    with inv have "wf_node n" by (auto simp: sys_inv_def wf_cluster_def)
    with 2 n phase sys_inv_store(2) [OF inv, of "n\<lparr>nPhase := ph, nResourceVersion := Suc (nResourceVersion n)\<rparr>" n]
    show ?thesis by simp
  qed
next
  case (create node)
  then show ?thesis using inv by (auto simp: sys_inv_def wf_cluster_create fresh_copy_create)
next
  case (knodes kn)
  then show ?thesis using inv by (auto simp: sys_inv_def)
qed

lemma sys_inv_reach: "gpu_reach matches reports s \<Longrightarrow> sys_inv s"
proof (induction rule: gpu_reach.induct)
  case (init kn)
  then show ?case by (simp add: sys_inv_def wf_cluster_def wf_names_def)
next
  case (step s l s')
  from sys_inv_step [OF step(2) step(3)] show ?case .
qed

lemma owner_phase: "owner (patchPhase af nm ph c) = owner c"
proof (cases rule: patchPhase_cases [of af nm ph c])
  case (2 n)
  with node_named_Some [OF 2(1)] show ?thesis
    by (intro ext) (simp add: owner_def node_named_store_node)
qed simp

lemma owner_knodes: "owner (c\<lparr>gcKNodes := kn\<rparr>) = owner c"
  by (intro ext) (simp add: owner_def)

lemma owner_create: "nm \<notin> set (map nName (gcNodes c)) \<Longrightarrow> owner (create_node nm c) = owner c"
  by (intro ext) (auto simp: owner_def node_named_create empty_node_def dest: node_named_Some split: option.split)

lemma owner_free:
  assumes "node_named (gcNodes c) nm = Some n" and "wf_node n" and "set sel \<subseteq> set (nGPUs n)" and "\<forall>g \<in> set sel. \<not> gAllocated g"
  shows "\<forall>a \<in> gPCIAddress ` set sel. owner c nm a = Some ''''"
  using assms(2-4) by (auto simp: owner_held [OF assms(1,2)] held_gpus_def wf_node_def)

section \<open>Properties\<close>

text \<open>
  C2. Under every interleaving of allocators, reservations, releases, discovery merges and other
  clients, each step is one step of the abstract ownership map: an accepted allocation finds
  all its devices free at the moment of the write, not only when they were read, a release
  frees only its own workload's devices, and a discovery merge keeps every owner. So no
  device is handed to two workloads.
\<close>

theorem no_double_allocation:
  assumes "gpu_reach matches reports s" and "gpu_step matches reports s l s'"
  shows "abs_step l (owner (syC s)) (owner (syC s'))"
  using assms(2)
proof cases
  case (written w wr n af c')
  note inv = sys_inv_reach [OF assms(1)]
  note a = accepted_write [OF inv written(3,4)]
  show ?thesis
  proof (cases wr)
    case (WAlloc ident sel part)
    with a(3) have sel: "set sel \<subseteq> set (nGPUs n)" "\<forall>g \<in> set sel. \<not> gAllocated g" by simp_all
    from owner_mark [OF a(1) sel(1)] owner_free [OF a(1,2) sel] show ?thesis
      using written(1,2) a(4) WAlloc by simp
  next
    case (WRelease ident)
    with written(1,2) a(4) show ?thesis by (simp add: fun_eq_iff owner_clear [OF a(1)])
  next
    case (WMerge now d)
    then show ?thesis using written(1,2) a(4) owner_merge [OF a(1,2)] by simp
  qed
next
  case (failed w wr n af e c')
  from StatusUpdate_Some [OF failed(4)] failed show ?thesis by simp
qed (simp_all add: owner_phase owner_create owner_knodes)

definition ex_sys :: "gpu_cluster \<Rightarrow> (nat \<Rightarrow> (writer \<times> SwiftGPUNode) option) \<Rightarrow> gpu_sys" where
  "ex_sys c p = \<lparr>syC = c, syP = p\<rparr>"

text \<open>A node created, then read and written by discovery; the merge is the third step.\<close>

theorem no_double_allocation_witness:
  "\<exists>s s'. gpu_reach ex_matches (\<lambda>_. {ex_discovered}) s \<and>
     gpu_step ex_matches (\<lambda>_. {ex_discovered}) s (LWrite (WMerge 1 ex_discovered) ''gpu-b'') s' \<and>
     owner (syC s') = spec_rediscover ''gpu-b'' (gPCIAddress ` set (dGPUs ex_discovered)) (owner (syC s))"
proof -
  let ?R = "\<lambda>_. {ex_discovered}" and ?c0 = "\<lparr>gcNodes = [], gcKNodes = (\<lambda>_. None)\<rparr>"
  let ?n = "empty_node ''gpu-b'' 1"
  let ?s0 = "\<lparr>syC = ?c0, syP = (\<lambda>_. None)\<rparr>" and ?s1 = "\<lparr>syC = create_node ''gpu-b'' ?c0, syP = (\<lambda>_. None)\<rparr>"
  let ?s2 = "\<lparr>syC = create_node ''gpu-b'' ?c0, syP = (\<lambda>_. None)(0 \<mapsto> (WMerge 1 ex_discovered, ?n))\<rparr>"
  have "gpu_step ex_matches ?R ?s0 LOther ?s1"
    using gpu_step.create [of "''gpu-b''" ?s0 ex_matches ?R] by simp
  then have r1: "gpu_reach ex_matches ?R ?s1" using gpu_reach.init gpu_reach.step by blast
  have get: "GetGPUNode no_faults (create_node ''gpu-b'' ?c0) ''gpu-b'' = Inr ?n"
    by (simp add: GetGPUNode_def create_node_def node_named_def empty_node_def)
  have "wf_discovered ex_discovered" by (simp add: wf_discovered_def ex_discovered_def ex_defs)
  then have "gpu_step ex_matches ?R ?s1 LRead ?s2"
    using gpu_step.read_merge [of ?s1 0 no_faults "''gpu-b''" ?n ex_discovered ?R ex_matches 1] get by simp
  then have r2: "gpu_reach ex_matches ?R ?s2" using r1 gpu_reach.step by blast
  let ?up = "StatusUpdate no_faults (create_node ''gpu-b'' ?c0) (apply_writer (WMerge 1 ex_discovered) ?n)"
  have "fst ?up = None" by (simp add: StatusUpdate_def create_node_def node_named_def)
  then have up: "?up = (None, snd ?up)" by (simp add: prod_eq_iff)
  let ?s3 = "?s2\<lparr>syC := snd ?up, syP := (syP ?s2)(0 := None)\<rparr>"
  have w: "gpu_step ex_matches ?R ?s2 (LWrite (WMerge 1 ex_discovered) (nName ?n)) ?s3"
    using gpu_step.written [of ?s2 0 "WMerge 1 ex_discovered" ?n no_faults "snd ?up" ex_matches ?R] up by simp
  then have w': "gpu_step ex_matches ?R ?s2 (LWrite (WMerge 1 ex_discovered) ''gpu-b'') ?s3"
    by (simp add: empty_node_def)
  show ?thesis
    using no_double_allocation [OF r2 w'] r2 w' by (intro exI [of _ ?s2] exI [of _ ?s3] conjI) simp_all
qed

section \<open>Fabric isolation\<close>

text \<open>
  The reports of a node are stable when its hardware is: the same devices at the same
  indices, and the same members for a partition id. A node matches the stable hardware
  once discovery has filled it in.
\<close>

definition gkey :: "GPUDevice \<Rightarrow> string \<times> int" where
  "gkey g = (gPCIAddress g, gIndex g)"

definition stable_reports ::
  "(string \<Rightarrow> (string \<times> int) list) \<Rightarrow> (string \<Rightarrow> int \<Rightarrow> int list) \<Rightarrow> (string \<Rightarrow> discovered set) \<Rightarrow> bool" where
  "stable_reports tg tp reports \<longleftrightarrow>
     (\<forall>nm. \<forall>d \<in> reports nm. map gkey (dGPUs d) = tg nm \<and>
        (\<forall>fm. dFabricManager d = Some fm \<longrightarrow>
           (\<forall>p \<in> set (fmPartitions fm). pGPUIndices p = tp nm (pID p) \<and> pAllocatedTo p = '''')))"

definition topo_ok :: "(string \<Rightarrow> (string \<times> int) list) \<Rightarrow> (string \<Rightarrow> int \<Rightarrow> int list) \<Rightarrow> SwiftGPUNode \<Rightarrow> bool" where
  "topo_ok tg tp n \<longleftrightarrow>
     (nGPUs n = [] \<or> map gkey (nGPUs n) = tg (nName n)) \<and>
     (\<forall>p \<in> set (node_partitions n). pGPUIndices p = tp (nName n) (pID p))"

definition fabric_inv :: "(string \<Rightarrow> (string \<times> int) list) \<Rightarrow> (string \<Rightarrow> int \<Rightarrow> int list) \<Rightarrow> (string \<Rightarrow> discovered set) \<Rightarrow> gpu_sys \<Rightarrow> bool" where
  "fabric_inv tg tp reports s \<longleftrightarrow> (\<forall>n \<in> set (gcNodes (syC s)). fabric_ok n \<and> topo_ok tg tp n) \<and>
     (\<forall>w now d n. syP s w = Some (WMerge now d, n) \<longrightarrow> d \<in> reports (nName n))"

lemma map_gkey [simp]:
  "map gkey (mark_gpus ident sel gpus) = map gkey gpus" "map gkey (clear_gpus ident gpus) = map gkey gpus"
  "map gkey (map (merge_gpu n) gpus) = map gkey gpus"
  by (auto simp: mark_gpus_def clear_gpus_def gkey_def)

lemma gpus_Nil [simp]: "mark_gpus ident sel [] = []" "clear_gpus ident [] = []"
  by (simp_all add: mark_gpus_def clear_gpus_def)

lemma topo_mark: "topo_ok tg tp n \<Longrightarrow> topo_ok tg tp (mark_node ident sel part n)"
  by (auto simp: topo_ok_def)

lemma topo_clear: "topo_ok tg tp n \<Longrightarrow> topo_ok tg tp (clear_node ident n)"
  by (auto simp: topo_ok_def)

lemma topo_merge:
  "stable_reports tg tp reports \<Longrightarrow> d \<in> reports (nName n) \<Longrightarrow> topo_ok tg tp (fst (mergeStatus now d n))"
  unfolding topo_ok_def stable_reports_def mergeStatus_simps map_gkey
  by (cases "dFabricManager d") auto

lemma fabric_merge:
  assumes wf: "wf_node n" and fab: "fabric_ok n" and topo: "topo_ok tg tp n"
    and st: "stable_reports tg tp reports" and d: "d \<in> reports (nName n)"
  shows "fabric_ok (fst (mergeStatus now d n))"
  unfolding fabric_ok_def
proof (intro ballI impI)
  fix q i
  assume q: "q \<in> set (node_partitions (fst (mergeStatus now d n)))" "pAllocatedTo q \<noteq> ''''" "i \<in> set (pGPUIndices q)"
  then obtain fm p where p: "dFabricManager d = Some fm" "p \<in> set (fmPartitions fm)" "q = merge_partition n p"
    by (cases "dFabricManager d") auto
  have shape: "pGPUIndices p = tp (nName n) (pID p)" "pAllocatedTo p = ''''"
    using st d p(1,2) by (auto simp: stable_reports_def)
  with p(3) q(2) obtain p0 where p0: "p0 \<in> set (node_partitions n)" "pID p0 = pID p" "pAllocatedTo q = pAllocatedTo p0"
    by (auto simp: merge_partition_def existing_partition_def split: option.splits dest!: find_SomeD)
  with topo shape p(3) q(3) have "i \<in> set (pGPUIndices p0)" by (auto simp: topo_ok_def)
  with fab p0 q(2) obtain g where g: "g \<in> set (nGPUs n)" "gIndex g = i" "gAllocatedTo g = pAllocatedTo q"
    unfolding fabric_ok_def by (metis (no_types, lifting))
  then have "(gPCIAddress g, i) \<in> gkey ` set (nGPUs n)" by (force simp: gkey_def)
  also have "\<dots> = set (tg (nName n))"
    using topo g(1) unfolding topo_ok_def by (metis empty_iff empty_set set_map)
  also have "\<dots> = gkey ` set (dGPUs d)"
    using st d unfolding stable_reports_def by (metis set_map)
  finally obtain dg where dg: "dg \<in> set (dGPUs d)" "gPCIAddress dg = gPCIAddress g" "gIndex dg = i" by (auto simp: gkey_def)
  have "existing_gpu n (gPCIAddress g) = Some g"
  proof -
    have "distinct (map gPCIAddress xs) \<Longrightarrow> g \<in> set xs \<Longrightarrow> find (\<lambda>h. gPCIAddress h = gPCIAddress g) xs = Some g" for xs
      by (induction xs) auto
    then show ?thesis using wf g(1) by (simp add: existing_gpu_def find_rev_distinct wf_node_def)
  qed
  then have "gAllocatedTo (merge_gpu n dg) = pAllocatedTo q" using dg(2) g(3) by (simp add: merge_gpu_def)
  then show "\<exists>g \<in> set (nGPUs (fst (mergeStatus now d n))). gIndex g = i \<and> gAllocatedTo g = pAllocatedTo q"
    using dg by auto
qed

lemma fabric_inv_store:
  assumes "fabric_inv tg tp reports s" and "fabric_ok m" and "topo_ok tg tp m"
  shows "fabric_inv tg tp reports (s\<lparr>syC := store_node m (syC s), syP := (syP s)(w := None)\<rparr>)"
    and "fabric_inv tg tp reports (s\<lparr>syC := store_node m (syC s)\<rparr>)"
  using assms by (auto simp: fabric_inv_def dest: set_store_node)

lemma topo_rv [simp]: "topo_ok tg tp (n\<lparr>nResourceVersion := v\<rparr>) = topo_ok tg tp n"
  by (simp add: topo_ok_def)

lemma topo_phase [simp]: "topo_ok tg tp (n\<lparr>nPhase := ph\<rparr>) = topo_ok tg tp n"
  by (simp add: topo_ok_def)

lemma fabric_phase [simp]: "fabric_ok (n\<lparr>nPhase := ph\<rparr>) = fabric_ok n"
  by (simp add: fabric_ok_def)

lemma fabric_empty: "fabric_ok (empty_node nm v) \<and> topo_ok tg tp (empty_node nm v)"
  by (simp add: fabric_ok_def topo_ok_def empty_node_def node_partitions_def)

lemma fabric_inv_step:
  assumes "gpu_step matches reports s l s'" and inv: "sys_inv s" and fab: "fabric_inv tg tp reports s"
    and st: "stable_reports tg tp reports"
  shows "fabric_inv tg tp reports s'"
  using assms(1)
proof cases
  case (read_merge w af node n d now)
  then have "nName n = node" by (auto dest!: GetGPUNode_Inr node_named_Some)
  with read_merge fab show ?thesis by (auto simp: fabric_inv_def)
next
  case (written w wr n af c')
  note a = accepted_write [OF inv written(3,4)]
  from node_named_Some [OF a(1)] fab have n: "fabric_ok n" "topo_ok tg tp n" by (auto simp: fabric_inv_def)
  have "fabric_ok (apply_writer wr n) \<and> topo_ok tg tp (apply_writer wr n)"
  proof (cases wr)
    case (WAlloc ident sel part)
    with a(3) fabric_mark_node [OF a(2) n(1), of sel ident part] n(2) show ?thesis by (simp add: topo_mark)
  next
    case (WRelease ident)
    with n show ?thesis by (simp add: fabric_clear_node topo_clear)
  next
    case (WMerge now d)
    then have "d \<in> reports (nName n)" using fab written(3) unfolding fabric_inv_def by blast
    with WMerge fabric_merge [OF a(2) n st] topo_merge [OF st] show ?thesis by simp
  qed
  with written a(4) fabric_inv_store(1) [OF fab] show ?thesis by simp
next
  case (failed w wr n af e c')
  then have "c' = syC s" using StatusUpdate_Some by blast
  with failed fab show ?thesis by (auto simp: fabric_inv_def)
next
  case (phase af node ph)
  show ?thesis
  proof (cases rule: patchPhase_cases [of af node ph "syC s"])
    case 1
    with phase fab show ?thesis by simp
  next
    case (2 n)
    with node_named_Some [OF 2(1)] fab have "fabric_ok n" "topo_ok tg tp n" by (auto simp: fabric_inv_def)
    with 2 phase fabric_inv_store(2) [OF fab, of "n\<lparr>nPhase := ph, nResourceVersion := Suc (nResourceVersion n)\<rparr>"]
    show ?thesis by simp
  qed
next
  case (create node)
  then show ?thesis using fab fabric_empty by (auto simp: fabric_inv_def create_node_def)
qed (use fab in \<open>auto simp: fabric_inv_def\<close>)

lemma fabric_inv_reach:
  assumes "gpu_reach matches reports s" and "stable_reports tg tp reports"
  shows "fabric_inv tg tp reports s"
  using assms(1)
proof (induction rule: gpu_reach.induct)
  case (init kn)
  then show ?case by (simp add: fabric_inv_def)
next
  case (step s l s')
  from fabric_inv_step [OF step(2) sys_inv_reach [OF step(1)] step(3) assms(2)] show ?case .
qed

text \<open>
  C17. NVLink isolation: while the hardware reports are stable, in every reachable state the
  members of a Fabric Manager partition assigned to a workload are devices of that workload,
  so partitions assigned to different workloads have no device in common.
\<close>

theorem fabric_isolation:
  assumes "gpu_reach matches reports s" and "stable_reports tg tp reports"
    and "n \<in> set (gcNodes (syC s))" and "p \<in> set (node_partitions n)" and "q \<in> set (node_partitions n)"
    and "pAllocatedTo p \<noteq> ''''" and "pAllocatedTo q \<noteq> ''''" and "pAllocatedTo p \<noteq> pAllocatedTo q"
  shows "(\<forall>i \<in> set (pGPUIndices p). \<exists>g \<in> set (nGPUs n). gIndex g = i \<and> gAllocatedTo g = pAllocatedTo p) \<and>
         set (pGPUIndices p) \<inter> set (pGPUIndices q) = {}"
proof -
  have fab: "fabric_ok n" using fabric_inv_reach [OF assms(1,2)] assms(3) by (simp add: fabric_inv_def)
  have wf: "wf_node n" using sys_inv_reach [OF assms(1)] assms(3) by (simp add: sys_inv_def wf_cluster_def)
  have mem: "\<exists>g \<in> set (nGPUs n). gIndex g = i \<and> gAllocatedTo g = pAllocatedTo r"
    if "r \<in> set (node_partitions n)" "pAllocatedTo r \<noteq> ''''" "i \<in> set (pGPUIndices r)" for r i
    using fab that unfolding fabric_ok_def by blast
  have "inj_on gIndex (set (nGPUs n))" using wf by (simp add: wf_node_def distinct_map)
  then have "False" if "i \<in> set (pGPUIndices p)" "i \<in> set (pGPUIndices q)" for i
    using mem [OF assms(4,6) that(1)] mem [OF assms(5,7) that(2)] assms(8) by (auto simp: inj_on_def)
  with mem [OF assms(4,6)] show ?thesis by blast
qed

text \<open>The sequential operations are executions of the system.\<close>

abbreviation quiet :: "gpu_cluster \<Rightarrow> gpu_sys" where
  "quiet c \<equiv> \<lparr>syC = c, syP = (\<lambda>_. None)\<rparr>"

lemma serial_write:
  assumes "gpu_reach matches reports (quiet c)"
    and "gpu_step matches reports (quiet c) LRead (\<lparr>syC = c, syP = (\<lambda>_. None)(0 \<mapsto> (wr, n))\<rparr>)"
    and "StatusUpdate af c (apply_writer wr n) = (None, c')"
  shows "gpu_reach matches reports (quiet c')"
proof -
  let ?s = "\<lparr>syC = c, syP = (\<lambda>_. None)(0 \<mapsto> (wr, n))\<rparr>"
  have "gpu_reach matches reports ?s" using assms(1,2) by (rule gpu_reach.step)
  moreover have "gpu_step matches reports ?s (LWrite wr (nName n)) (?s\<lparr>syC := c', syP := (syP ?s)(0 := None)\<rparr>)"
    using assms(3) by (intro gpu_step.written [where af = af]) simp_all
  moreover have "?s\<lparr>syC := c', syP := (syP ?s)(0 := None)\<rparr> = quiet c'" by auto
  ultimately show ?thesis using gpu_reach.step by metis
qed

lemma serial_reserve:
  assumes "gpu_reach matches reports (quiet c)" and "0 < prCount pr"
    and "ReserveOnNode af c ns nm pr node = (Inr (gpus, numa, part), c')"
  shows "gpu_reach matches reports (quiet c')"
proof -
  from assms(3) obtain n where get: "GetGPUNode af c node = Inr n"
    by (auto simp: ReserveOnNode_def Let_def split: sum.splits)
  show ?thesis
  proof (cases "held_gpus (identity ns nm) n = []")
    case False
    with assms(1,3) get show ?thesis by (simp add: ReserveOnNode_def Let_def)
  next
    case True
    with assms(3) get have sel: "select_for n pr = (Some gpus, numa, part)"
      and up: "StatusUpdate af c (mark_node (identity ns nm) gpus part n) = (None, c')"
      by (auto simp: ReserveOnNode_def Let_def split: if_splits prod.splits option.splits)
    have "gpu_step matches reports (quiet c) LRead \<lparr>syC = c, syP = (\<lambda>_. None)(0 \<mapsto> (WAlloc (identity ns nm) gpus part, n))\<rparr>"
      using gpu_step.read_reserve [of "quiet c" 0 pr af node n ns nm gpus numa part] assms(2) get True sel by simp
    from serial_write [OF assms(1) this] up show ?thesis by simp
  qed
qed

lemma serial_publish:
  assumes "gpu_reach matches reports (quiet c)" and "d \<in> reports nm" and "wf_discovered d"
    and "publish_attempts af now nm [id] d c = (None, c')"
  shows "gpu_reach matches reports (quiet c')"
proof -
  from assms(4) obtain n where get: "GetGPUNode af c nm = Inr n"
    and up: "StatusUpdate af c (fst (mergeStatus now d n)) = (None, c')"
    by (auto split: sum.splits prod.splits option.splits if_splits)
  have "gpu_step matches reports (quiet c) LRead \<lparr>syC = c, syP = (\<lambda>_. None)(0 \<mapsto> (WMerge now d, n))\<rparr>"
    using gpu_step.read_merge [of "quiet c" 0 af nm n d reports matches now] assms get by simp
  from serial_write [OF assms(1) this] up show ?thesis by simp
qed

definition ex_pair :: discovered where
  "ex_pair = ex_discovered\<lparr>dGPUs := [ex_gpu 0 ''0000:17:00.0'' 0, ex_gpu 1 ''0000:65:00.0'' 1],
     dFabricManager := Some \<lparr>fmInstalled = True, fmVersion = ''550'', fmRunning = True,
        fmPartitions = [\<lparr>pID = 0, pGPUIndices = [0], pActive = False, pAllocatedTo = ''''\<rparr>,
                        \<lparr>pID = 1, pGPUIndices = [1], pActive = False, pAllocatedTo = ''''\<rparr>]\<rparr>\<rparr>"

definition ex_one :: SwiftGPUProfile where
  "ex_one = \<lparr>prCount = 1, prModel = '''', prTier = ''hgx-shared'', prPartitionMode = ''shared'', prFabricManager = None\<rparr>"

definition ex_c1 :: gpu_cluster where
  "ex_c1 = create_node ''hgx'' \<lparr>gcNodes = [], gcKNodes = (\<lambda>_. None)\<rparr>"

definition ex_c2 :: gpu_cluster where
  "ex_c2 = snd (publish_attempts no_faults 1 ''hgx'' [id] ex_pair ex_c1)"

definition ex_c3 :: gpu_cluster where
  "ex_c3 = snd (ReserveOnNode no_faults ex_c2 ''a'' ''vm'' ex_one ''hgx'')"

definition ex_run :: gpu_cluster where
  "ex_run = snd (ReserveOnNode no_faults ex_c3 ''b'' ''vm'' ex_one ''hgx'')"

lemma pair_of_fst: "fst x = a \<Longrightarrow> snd x = b \<Longrightarrow> x = (a, b)"
  by (simp add: prod_eq_iff)

theorem fabric_isolation_witness:
  "\<exists>n p q. n \<in> set (gcNodes ex_run) \<and> p \<in> set (node_partitions n) \<and> q \<in> set (node_partitions n) \<and>
     pAllocatedTo p = ''a/vm'' \<and> pAllocatedTo q = ''b/vm'' \<and> set (pGPUIndices p) \<inter> set (pGPUIndices q) = {}"
proof -
  let ?R = "\<lambda>_. {ex_pair}"
  let ?c0 = "\<lparr>gcNodes = [], gcKNodes = (\<lambda>_. None)\<rparr>"
  have one: "0 < prCount ex_one" by (simp add: ex_one_def)
  have "gpu_step ex_matches ?R (quiet ?c0) LOther (quiet ex_c1)"
    using gpu_step.create [of "''hgx''" "quiet ?c0" ex_matches ?R] by (simp add: ex_c1_def)
  then have r1: "gpu_reach ex_matches ?R (quiet ex_c1)" using gpu_reach.init gpu_reach.step by blast
  have "fst (publish_attempts no_faults 1 ''hgx'' [id] ex_pair ex_c1) = None" by code_simp
  from pair_of_fst [OF this ex_c2_def [symmetric]] have p: "publish_attempts no_faults 1 ''hgx'' [id] ex_pair ex_c1 = (None, ex_c2)" .
  have wfd: "wf_discovered ex_pair" by (simp add: wf_discovered_def ex_pair_def ex_gpu_def)
  from serial_publish [OF r1 _ wfd p] have r2: "gpu_reach ex_matches ?R (quiet ex_c2)" by simp
  have "fst (ReserveOnNode no_faults ex_c2 ''a'' ''vm'' ex_one ''hgx'') = Inr ([ex_gpu 0 ''0000:17:00.0'' 0], [0], 0)" by code_simp
  from serial_reserve [OF r2 one pair_of_fst [OF this ex_c3_def [symmetric]]] have r3: "gpu_reach ex_matches ?R (quiet ex_c3)" .
  have "fst (ReserveOnNode no_faults ex_c3 ''b'' ''vm'' ex_one ''hgx'') = Inr ([ex_gpu 1 ''0000:65:00.0'' 1], [1], 1)" by code_simp
  from serial_reserve [OF r3 one pair_of_fst [OF this ex_run_def [symmetric]]] have run: "gpu_reach ex_matches ?R (quiet ex_run)" .
  have st: "stable_reports (\<lambda>_. map gkey (dGPUs ex_pair)) (\<lambda>_ i. [i]) ?R"
    by (simp add: stable_reports_def ex_pair_def)
  let ?n = "hd (gcNodes ex_run)"
  let ?p = "\<lparr>pID = 0, pGPUIndices = [0], pActive = False, pAllocatedTo = ''a/vm''\<rparr>"
  let ?q = "\<lparr>pID = 1, pGPUIndices = [1], pActive = False, pAllocatedTo = ''b/vm''\<rparr>"
  have n: "gcNodes ex_run \<noteq> []" and parts: "node_partitions ?n = [?p, ?q]" by code_simp+
  have "set (pGPUIndices ?p) \<inter> set (pGPUIndices ?q) = {}"
    using fabric_isolation [OF run st, of ?n ?p ?q] n parts by simp
  with n parts show ?thesis by (intro exI [of _ ?n] exI [of _ ?p] exI [of _ ?q]) simp
qed

end
