(* ===== verification/GPU_Controller.thy ===== *)
theory GPU_Controller
  imports GPU_Alloc
begin

text \<open>
  The GPU controller: \<open>internal/controller/swiftgpu/controller.go\<close>, \<open>status.go\<close>,
  \<open>native_backend.go\<close> and the allocation backends of \<open>internal/gpualloc\<close>.

  \<open>reconcile\<close> takes the guest as the cache returned it and the world it acts on; every API
  call may fail as the \<open>faults\<close> argument says. Condition and finalizer helpers of the
  Kubernetes libraries are the \<open>k8slib\<close> argument; \<open>lib_ok\<close> states what their documentation
  promises. The backend interface is the locale \<open>gpu_backend\<close>, interpreted for both
  implementations. Metrics and log lines are not modelled.
\<close>

section \<open>Objects\<close>

record condition =
  cType :: string
  cStatus :: string
  cReason :: string
  cMessage :: string

record GPUStatus =
  gsDevices :: "string list"
  gsPartitionID :: int
  gsNUMANodes :: "int list"
  gsHypervisor :: string
  gsNodeName :: string

record GPUResourceClaim =
  grClaimName :: string
  grTemplateName :: string
  grRequestName :: string
  grTier :: string

record SwiftGuest =
  guNamespace :: string
  guName :: string
  guResourceVersion :: nat
  guDeleting :: bool
  guFinalizers :: "string list"
  guNodeName :: string
  guGPUProfileRef :: "string option"
  guGPUResourceClaim :: "GPUResourceClaim option"
  guGPU :: "GPUStatus option"
  guConditions :: "condition list"

record Pod =
  podNamespace :: string
  podName :: string
  podGuestLabel :: string
  podNodeName :: string
  podResourceClaims :: "string option list"
  podClaimStatuses :: "string option list"

text \<open>
  A device of a claim's status with its driver payload: nothing when \<open>Data\<close> is empty, else
  what unmarshalling it gives, the two address fields or an error.
\<close>

record ResourceClaim =
  rcName :: string
  rcAllocation :: "string list option"
  rcDevices :: "(string \<times> (string \<times> string) res option) list"

record gpu_world =
  gwC :: gpu_cluster
  gwGuest :: "SwiftGuest option"
  gwProfiles :: "string \<times> string \<rightharpoonup> SwiftGPUProfile"
  gwPods :: "Pod list"
  gwClaims :: "string \<times> string \<rightharpoonup> ResourceClaim"

record faults =
  fGetGuest :: "goerr option"
  fUpdate :: "goerr option"
  fPatch :: "goerr option"
  fPods :: "goerr option"
  fProfile :: "goerr option"
  fClaim :: "goerr option"
  fGPU :: api_faults

definition all_ok :: faults where
  "all_ok = \<lparr>fGetGuest = None, fUpdate = None, fPatch = None, fPods = None, fProfile = None, fClaim = None,
             fGPU = no_faults\<rparr>"

record k8slib =
  libSetCondition :: "condition \<Rightarrow> condition list \<Rightarrow> condition list"
  libRemoveCondition :: "string \<Rightarrow> condition list \<Rightarrow> condition list"
  libConditionTrue :: "condition list \<Rightarrow> string \<Rightarrow> bool"
  libContainsFinalizer :: "string list \<Rightarrow> string \<Rightarrow> bool"
  libAddFinalizer :: "string list \<Rightarrow> string \<Rightarrow> string list"
  libRemoveFinalizer :: "string list \<Rightarrow> string \<Rightarrow> string list"

definition lib_ok :: "k8slib \<Rightarrow> bool" where
  "lib_ok lib \<longleftrightarrow>
     (\<forall>cs t. libConditionTrue lib cs t \<longleftrightarrow> (\<exists>c. find (\<lambda>c. cType c = t) cs = Some c \<and> cStatus c = ''True'')) \<and>
     (\<forall>c cs. \<exists>c'. find (\<lambda>x. cType x = cType c) (libSetCondition lib c cs) = Some c' \<and> cStatus c' = cStatus c) \<and>
     (\<forall>c cs t. t \<noteq> cType c \<longrightarrow> find (\<lambda>x. cType x = t) (libSetCondition lib c cs) = find (\<lambda>x. cType x = t) cs) \<and>
     (\<forall>fs f. libContainsFinalizer lib fs f \<longleftrightarrow> f \<in> set fs) \<and>
     (\<forall>fs f. set (libAddFinalizer lib fs f) = insert f (set fs)) \<and>
     (\<forall>fs f. set (libRemoveFinalizer lib fs f) = set fs - {f})"

section \<open>Backend selection and conditions\<close>

definition GPUBackend :: "SwiftGuest \<Rightarrow> string" where
  "GPUBackend g =
     (if guGPUProfileRef g \<noteq> None then ''native'' else if guGPUResourceClaim g \<noteq> None then ''dra'' else '''')"

definition guest_ident :: "SwiftGuest \<Rightarrow> string" where
  "guest_ident g = identity (guNamespace g) (guName g)"

definition isGPUAllocated :: "SwiftGuest \<Rightarrow> bool" where
  "isGPUAllocated g =
     (case find (\<lambda>c. cType c = ''GPUAllocated'') (guConditions g) of None \<Rightarrow> False | Some c \<Rightarrow> cStatus c = ''True'')"

definition hasGPUAllocatedReason :: "SwiftGuest \<Rightarrow> string \<Rightarrow> bool" where
  "hasGPUAllocatedReason g reason =
     (case find (\<lambda>c. cType c = ''GPUAllocated'') (guConditions g) of None \<Rightarrow> False | Some c \<Rightarrow> cReason c = reason)"

fun replace_first :: "('a \<Rightarrow> bool) \<Rightarrow> 'a \<Rightarrow> 'a list \<Rightarrow> 'a list" where
  "replace_first P x [] = [x]"
| "replace_first P x (y # ys) = (if P y then x # ys else y # replace_first P x ys)"

definition setGPUAllocatedCondition :: "bool \<Rightarrow> string \<Rightarrow> string \<Rightarrow> condition list \<Rightarrow> condition list" where
  "setGPUAllocatedCondition ok reason message cs =
     replace_first (\<lambda>c. cType c = ''GPUAllocated'')
       \<lparr>cType = ''GPUAllocated'', cStatus = (if ok then ''True'' else ''False''), cReason = reason, cMessage = message\<rparr> cs"

section \<open>Backends\<close>

datatype prepare_error =
    PrepareErr goerr
  | ProfileNotFoundError string
  | UnsupportedTierError string

definition prepare_error_text :: "prepare_error \<Rightarrow> string" where
  "prepare_error_text e =
     (case e of
        PrepareErr e \<Rightarrow> err_msg e
      | ProfileNotFoundError nm \<Rightarrow> ''SwiftGPUProfile '' @ Quote nm @ '' not found''
      | UnsupportedTierError t \<Rightarrow>
          ''tier '' @ Quote t @ '' (Tier 3, full baseboard passthrough) is not yet supported: '' @
          ''the guest-side NVSwitch passthrough that an in-guest Fabric Manager needs is not wired '' @
          ''(NVSwitches are discovered on the SwiftGPUNode but not passed into the guest). '' @
          ''Use tier: hgx-shared (Tier 2, host Fabric Manager) or tier: pcie'')"

record PodBinding =
  pbResourceClaimName :: string
  pbResourceClaimTemplateName :: string
  pbRequestName :: string

text \<open>\<open>Resolved\<close> carries the status, \<open>Deferred\<close> the pod binding.\<close>

datatype prepare_result = Resolved GPUStatus | Deferred PodBinding

definition findAndAllocate ::
  "selector_lib \<Rightarrow> faults \<Rightarrow> gpu_world \<Rightarrow> SwiftGuest \<Rightarrow> SwiftGPUProfile \<Rightarrow> alloc_result res \<times> gpu_cluster" where
  "findAndAllocate matches f w g pr =
     FindAndAllocateFor matches (fGPU f) (gwC w) (guest_ident g)
       (case guGPU g of None \<Rightarrow> '''' | Some s \<Rightarrow> gsNodeName s) pr
       \<lparr>ncRequiredNode = guNodeName g, ncNodeSelector = []\<rparr>"

definition native_Prepare ::
  "selector_lib \<Rightarrow> faults \<Rightarrow> gpu_world \<Rightarrow> SwiftGuest \<Rightarrow> (prepare_error + prepare_result) \<times> gpu_world" where
  "native_Prepare matches f w g =
     (let nm = the (guGPUProfileRef g)
      in case fProfile f of
           Some e \<Rightarrow> (Inl (if errors_Is e ErrNotFound then ProfileNotFoundError nm else PrepareErr e), w)
         | None \<Rightarrow>
             (case gwProfiles w (guNamespace g, nm) of
                None \<Rightarrow> (Inl (ProfileNotFoundError nm), w)
              | Some pr \<Rightarrow>
                  if prTier pr = ''hgx-full'' then (Inl (UnsupportedTierError (prTier pr)), w)
                  else (case findAndAllocate matches f w g pr of
                          (Inl e, c') \<Rightarrow> (Inl (PrepareErr e), w\<lparr>gwC := c'\<rparr>)
                        | (Inr (n, gpus, numa, part), c') \<Rightarrow>
                            (Inr (Resolved \<lparr>gsDevices = map gPCIAddress gpus, gsPartitionID = part, gsNUMANodes = numa,
                                            gsHypervisor = (if prTier pr = ''hgx-shared'' \<or> prTier pr = ''hgx-full''
                                                            then ''qemu'' else ''cloud-hypervisor''),
                                            gsNodeName = nName n\<rparr>),
                             w\<lparr>gwC := c'\<rparr>))))"

text \<open>A resolution is the status, or \<open>None\<close> while the device is not known yet.\<close>

definition native_Resolve :: "SwiftGuest \<Rightarrow> GPUStatus option res" where
  "native_Resolve g = Inr (guGPU g)"

definition native_Release :: "faults \<Rightarrow> gpu_world \<Rightarrow> SwiftGuest \<Rightarrow> goerr option \<times> gpu_world" where
  "native_Release f w g =
     (case DeallocateForWorkload (fGPU f) (gwC w) (guest_ident g) of (r, c') \<Rightarrow> (r, w\<lparr>gwC := c'\<rparr>))"

definition dra_Prepare :: "gpu_world \<Rightarrow> SwiftGuest \<Rightarrow> (prepare_error + prepare_result) \<times> gpu_world" where
  "dra_Prepare w g =
     (case guGPUResourceClaim g of
        None \<Rightarrow> (Inl (PrepareErr (Errorf ''DRA backend Prepare called on a guest without spec.gpuResourceClaim'')), w)
      | Some rc \<Rightarrow>
          (Inr (Deferred \<lparr>pbResourceClaimName = grClaimName rc, pbResourceClaimTemplateName = grTemplateName rc,
                          pbRequestName = (if grRequestName rc = '''' then ''gpu'' else grRequestName rc)\<rparr>), w))"

definition hypervisorForTier :: "string \<Rightarrow> string" where
  "hypervisorForTier t = (if t = ''hgx-shared'' \<or> t = ''hgx-full'' then ''qemu'' else ''cloud-hypervisor'')"

definition EncodeDeviceName :: "string \<Rightarrow> string" where
  "EncodeDeviceName bdf = ''gpu-'' @ map (\<lambda>c. if c = CHR '':'' \<or> c = CHR ''.'' then CHR ''-'' else c) bdf"

definition DecodeDeviceName :: "string \<Rightarrow> string option" where
  "DecodeDeviceName name =
     (if \<not> HasPrefix name ''gpu-'' then None
      else case Split CHR ''-'' (drop 4 name) of
             [a, b, c, d] \<Rightarrow>
               if a = '''' \<or> b = '''' \<or> c = '''' \<or> d = '''' then None
               else Some (a @ '':'' @ b @ '':'' @ c @ ''.'' @ d)
           | _ \<Rightarrow> None)"

fun payload_BDFs :: "(string \<times> (string \<times> string) res option) list \<Rightarrow> string list res" where
  "payload_BDFs [] = Inr []"
| "payload_BDFs ((dev, None) # ds) = payload_BDFs ds"
| "payload_BDFs ((dev, Some (Inl e)) # ds) = Inl (Errorw (''device '' @ Quote dev @ '': unparseable Data: '') e)"
| "payload_BDFs ((dev, Some (Inr (addr, bus))) # ds) =
     (case payload_BDFs ds of
        Inl e \<Rightarrow> Inl e
      | Inr bs \<Rightarrow> Inr (if addr \<noteq> '''' then addr # bs else if bus \<noteq> '''' then bus # bs else bs))"

definition extractDeviceBDFs :: "ResourceClaim \<Rightarrow> string list res" where
  "extractDeviceBDFs claim =
     (case payload_BDFs (rcDevices claim) of
        Inl e \<Rightarrow> Inl e
      | Inr bs \<Rightarrow>
          if bs \<noteq> [] then Inr bs
          else Inr (case rcAllocation claim of
                      None \<Rightarrow> []
                    | Some names \<Rightarrow> concat (map (\<lambda>n. case DecodeDeviceName n of None \<Rightarrow> [] | Some b \<Rightarrow> [b]) names)))"

definition guest_pods :: "gpu_world \<Rightarrow> SwiftGuest \<Rightarrow> Pod list" where
  "guest_pods w g = filter (\<lambda>p. podNamespace p = guNamespace g \<and> podGuestLabel p = guName g) (gwPods w)"

definition findScheduledLauncherPod :: "faults \<Rightarrow> gpu_world \<Rightarrow> SwiftGuest \<Rightarrow> Pod option res" where
  "findScheduledLauncherPod f w g =
     (case fPods f of
        Some e \<Rightarrow> Inl (Errorw (''list launcher pods for guest '' @ Quote (guName g) @ '': '') e)
      | None \<Rightarrow> Inr (find (\<lambda>p. podResourceClaims p \<noteq> []) (guest_pods w g)))"

definition first_name :: "string option list \<Rightarrow> string" where
  "first_name xs = (case find (\<lambda>x. x \<noteq> None \<and> x \<noteq> Some '''') xs of Some (Some s) \<Rightarrow> s | _ \<Rightarrow> '''')"

definition resolveClaim :: "faults \<Rightarrow> gpu_world \<Rightarrow> Pod \<Rightarrow> ResourceClaim option res" where
  "resolveClaim f w p =
     (let minted = first_name (podClaimStatuses p);
          claimName = (if minted = '''' then first_name (podResourceClaims p) else minted)
      in if claimName = '''' then Inr None
         else case fClaim f of
                Some e \<Rightarrow> if errors_Is e ErrNotFound then Inr None
                           else Inl (Errorw (''get ResourceClaim '' @ Quote claimName @ '': '') e)
              | None \<Rightarrow> Inr (gwClaims w (podNamespace p, claimName)))"

definition dra_Resolve :: "faults \<Rightarrow> gpu_world \<Rightarrow> SwiftGuest \<Rightarrow> GPUStatus option res" where
  "dra_Resolve f w g =
     (case guGPUResourceClaim g of
        None \<Rightarrow> Inl (Errorf ''DRA backend Resolve called on a guest without spec.gpuResourceClaim'')
      | Some rc \<Rightarrow>
          (case findScheduledLauncherPod f w g of
             Inl e \<Rightarrow> Inl e
           | Inr None \<Rightarrow> Inr None
           | Inr (Some p) \<Rightarrow>
               if podNodeName p = '''' then Inr None
               else (case resolveClaim f w p of
                       Inl e \<Rightarrow> Inl e
                     | Inr None \<Rightarrow> Inr None
                     | Inr (Some claim) \<Rightarrow>
                         if rcAllocation claim = None then Inr None
                         else (case extractDeviceBDFs claim of
                                 Inl e \<Rightarrow> Inl (Errorw (''read allocated device(s) from ResourceClaim '' @ Quote (rcName claim) @ '': '') e)
                               | Inr bdfs \<Rightarrow>
                                   if bdfs = [] then
                                     Inl (Errorf (''ResourceClaim '' @ Quote (rcName claim) @ '' is allocated but exposes no PCI device address''))
                                   else Inr (Some \<lparr>gsDevices = bdfs, gsPartitionID = -1, gsNUMANodes = [],
                                                   gsHypervisor = hypervisorForTier (grTier rc), gsNodeName = podNodeName p\<rparr>)))))"

definition dra_Release :: "gpu_world \<Rightarrow> SwiftGuest \<Rightarrow> goerr option \<times> gpu_world" where
  "dra_Release w g = (None, w)"

section \<open>The reconciler\<close>

definition GPUFinalizerName :: string where
  "GPUFinalizerName = ''kubeswift.io/gpu-allocation''"

text \<open>
  Writes of the guest. Both go through the version the caller read; a successful write
  returns the stored object, which the caller continues with.
\<close>

definition store_guest :: "SwiftGuest \<Rightarrow> gpu_world \<Rightarrow> SwiftGuest \<times> gpu_world" where
  "store_guest g w = (let g' = g\<lparr>guResourceVersion := Suc (guResourceVersion g)\<rparr> in (g', w\<lparr>gwGuest := Some g'\<rparr>))"

definition write_guest ::
  "goerr option \<Rightarrow> SwiftGuest \<Rightarrow> gpu_world \<Rightarrow> goerr + SwiftGuest \<times> gpu_world" where
  "write_guest fault g w =
     (case fault of
        Some e \<Rightarrow> Inl e
      | None \<Rightarrow>
          (case gwGuest w of
             None \<Rightarrow> Inl (NotFound (guName g))
           | Some cur \<Rightarrow>
               if guResourceVersion cur \<noteq> guResourceVersion g then Inl (Conflict (guName g))
               else Inr (store_guest g w)))"

definition patchStatus ::
  "faults \<Rightarrow> SwiftGuest \<Rightarrow> GPUStatus option \<Rightarrow> condition list \<Rightarrow> gpu_world \<Rightarrow> goerr + SwiftGuest \<times> gpu_world" where
  "patchStatus f g gpu conds w =
     (if gpu = guGPU g \<and> conds = guConditions g then Inr (g, w)
      else write_guest (fPatch f) (g\<lparr>guGPU := gpu, guConditions := conds\<rparr>) w)"

type_synonym reconcile_result = "(nat option \<times> goerr option) \<times> gpu_world"

definition failed_with :: "goerr \<Rightarrow> gpu_world \<Rightarrow> reconcile_result" where
  "failed_with e w = ((None, Some e), w)"

definition finish_with :: "nat option \<Rightarrow> gpu_world \<Rightarrow> reconcile_result" where
  "finish_with requeue w = ((requeue, None), w)"

text \<open>Requeue delays are in seconds: 30 for a refused request, 10 for a pending claim.\<close>

definition launcherStillPresent :: "faults \<Rightarrow> gpu_world \<Rightarrow> SwiftGuest \<Rightarrow> bool res" where
  "launcherStillPresent f w g =
     (case fPods f of Some e \<Rightarrow> Inl e | None \<Rightarrow> Inr (guest_pods w g \<noteq> []))"

definition releaseAll :: "faults \<Rightarrow> gpu_world \<Rightarrow> SwiftGuest \<Rightarrow> string \<Rightarrow> goerr option \<times> gpu_world" where
  "releaseAll f w g backendName =
     (case DeallocateForWorkload (fGPU f) (gwC w) (guest_ident g) of
        (Some e, c') \<Rightarrow> (Some e, w\<lparr>gwC := c'\<rparr>)
      | (None, c') \<Rightarrow> if backendName = ''dra'' then dra_Release (w\<lparr>gwC := c'\<rparr>) g else (None, w\<lparr>gwC := c'\<rparr>))"

text \<open>\<open>None\<close>: continue the pass with the returned guest.\<close>

definition releaseStaleNative ::
  "k8slib \<Rightarrow> faults \<Rightarrow> gpu_world \<Rightarrow> SwiftGuest \<Rightarrow> reconcile_result option \<times> SwiftGuest \<times> gpu_world" where
  "releaseStaleNative lib f w g =
     (case nativeAllocationHeld (fGPU f) (gwC w) (guest_ident g) of
        Inl e \<Rightarrow> (Some (failed_with e w), g, w)
      | Inr False \<Rightarrow> (None, g, w)
      | Inr True \<Rightarrow>
          (case launcherStillPresent f w g of
             Inl e \<Rightarrow> (Some (failed_with e w), g, w)
           | Inr True \<Rightarrow> (Some (finish_with (Some 60) w), g, w)
           | Inr False \<Rightarrow>
               (case DeallocateForWorkload (fGPU f) (gwC w) (guest_ident g) of
                  (Some e, c') \<Rightarrow> (Some (failed_with e (w\<lparr>gwC := c'\<rparr>)), g, w\<lparr>gwC := c'\<rparr>)
                | (None, c') \<Rightarrow>
                    (case patchStatus f g None (libRemoveCondition lib ''GPUAllocated'' (guConditions g)) (w\<lparr>gwC := c'\<rparr>) of
                       Inl e \<Rightarrow> (Some (failed_with e (w\<lparr>gwC := c'\<rparr>)), g, w\<lparr>gwC := c'\<rparr>)
                     | Inr (g', w') \<Rightarrow> (None, g', w')))))"

definition refuse_with ::
  "faults \<Rightarrow> gpu_world \<Rightarrow> SwiftGuest \<Rightarrow> string \<Rightarrow> string \<Rightarrow> reconcile_result" where
  "refuse_with f w g reason msg =
     (case patchStatus f g (guGPU g) (setGPUAllocatedCondition False reason msg (guConditions g)) w of
        Inl e \<Rightarrow> failed_with e w
      | Inr (_, w') \<Rightarrow> finish_with (Some 30) w')"

definition handlePrepareError :: "faults \<Rightarrow> gpu_world \<Rightarrow> SwiftGuest \<Rightarrow> prepare_error \<Rightarrow> reconcile_result" where
  "handlePrepareError f w g e =
     (case e of
        ProfileNotFoundError nm \<Rightarrow> refuse_with f w g ''ProfileNotFound'' (prepare_error_text e)
      | UnsupportedTierError t \<Rightarrow> refuse_with f w g ''UnsupportedTier'' (prepare_error_text e)
      | PrepareErr err \<Rightarrow>
          if errors_Is err ErrNoCapacity then
            refuse_with f w g ''NoCapacity''
              (if err_msg err \<noteq> err_msg ErrNoCapacity_err then err_msg err
               else ''no SwiftGPUNode has sufficient free GPUs matching the profile'')
          else failed_with err w)"

definition commitAllocation ::
  "k8slib \<Rightarrow> faults \<Rightarrow> gpu_world \<Rightarrow> SwiftGuest \<Rightarrow> GPUStatus \<Rightarrow> reconcile_result" where
  "commitAllocation lib f w g s =
     (let cs1 = setGPUAllocatedCondition True ''Allocated''
                  (''allocated '' @ dec (length (gsDevices s)) @ '' GPU(s) on node '' @ gsNodeName s) (guConditions g);
          cs2 = libSetCondition lib \<lparr>cType = ''GPUClaimPending'', cStatus = ''False'', cReason = ''Allocated'',
                                     cMessage = ''device allocated''\<rparr> cs1
      in case patchStatus f g (Some s) cs2 w of
           Inl e \<Rightarrow> failed_with e w
         | Inr (_, w') \<Rightarrow> finish_with None w')"

text \<open>
  A status of \<open>None\<close> from \<open>Resolve\<close> is \<open>Ready = false\<close>. Only the DRA backend reaches this
  point: the native \<open>Prepare\<close> either fails or resolves.
\<close>

definition reconcileDeferred :: "k8slib \<Rightarrow> faults \<Rightarrow> gpu_world \<Rightarrow> SwiftGuest \<Rightarrow> reconcile_result" where
  "reconcileDeferred lib f w g =
     (case (if libConditionTrue lib (guConditions g) ''GPUClaimPending'' then Inr (g, w)
            else patchStatus f g (guGPU g)
                   (libSetCondition lib \<lparr>cType = ''GPUClaimPending'', cStatus = ''True'', cReason = ''AwaitingScheduler'',
                      cMessage = ''launcher pod created with a ResourceClaim; awaiting scheduler/DRA device allocation''\<rparr>
                      (guConditions g)) w) of
        Inl e \<Rightarrow> failed_with e w
      | Inr (g', w') \<Rightarrow>
          (case dra_Resolve f w' g' of
             Inl e \<Rightarrow> failed_with e w'
           | Inr None \<Rightarrow> finish_with (Some 10) w'
           | Inr (Some s) \<Rightarrow> commitAllocation lib f w' g' s))"

definition reconcile_delete :: "k8slib \<Rightarrow> faults \<Rightarrow> gpu_world \<Rightarrow> SwiftGuest \<Rightarrow> reconcile_result" where
  "reconcile_delete lib f w g =
     (if \<not> libContainsFinalizer lib (guFinalizers g) GPUFinalizerName then finish_with None w
      else case launcherStillPresent f w g of
             Inl e \<Rightarrow> failed_with e w
           | Inr True \<Rightarrow> finish_with (Some 5) w
           | Inr False \<Rightarrow>
               (case releaseAll f w g (GPUBackend g) of
                  (Some e, w') \<Rightarrow> failed_with e w'
                | (None, w') \<Rightarrow>
                    (case write_guest (fUpdate f) (g\<lparr>guFinalizers := libRemoveFinalizer lib (guFinalizers g) GPUFinalizerName\<rparr>) w' of
                       Inl e \<Rightarrow> failed_with e w'
                     | Inr (_, w'') \<Rightarrow> finish_with None w'')))"

definition reconcile_allocate ::
  "selector_lib \<Rightarrow> k8slib \<Rightarrow> faults \<Rightarrow> gpu_world \<Rightarrow> SwiftGuest \<Rightarrow> reconcile_result" where
  "reconcile_allocate matches lib f w g =
     (case (if libContainsFinalizer lib (guFinalizers g) GPUFinalizerName then Inr (g, w)
            else write_guest (fUpdate f) (g\<lparr>guFinalizers := libAddFinalizer lib (guFinalizers g) GPUFinalizerName\<rparr>) w) of
        Inl e \<Rightarrow> failed_with e w
      | Inr (g1, w1) \<Rightarrow>
          if isGPUAllocated g1 then finish_with None w1
          else (case (if GPUBackend g = ''dra'' then dra_Prepare w1 g1 else native_Prepare matches f w1 g1) of
                  (Inl e, w2) \<Rightarrow> handlePrepareError f w2 g1 e
                | (Inr (Resolved s), w2) \<Rightarrow> commitAllocation lib f w2 g1 s
                | (Inr (Deferred _), w2) \<Rightarrow> reconcileDeferred lib f w2 g1))"

definition reconcile_guest ::
  "selector_lib \<Rightarrow> k8slib \<Rightarrow> faults \<Rightarrow> gpu_world \<Rightarrow> SwiftGuest \<Rightarrow> reconcile_result" where
  "reconcile_guest matches lib f w g =
     (if guDeleting g then reconcile_delete lib f w g
      else if GPUBackend g \<noteq> ''native'' \<and> libContainsFinalizer lib (guFinalizers g) GPUFinalizerName then
        (case releaseStaleNative lib f w g of
           (Some r, _, _) \<Rightarrow> r
         | (None, g1, w1) \<Rightarrow>
             if GPUBackend g = '''' then
               (case write_guest (fUpdate f) (g1\<lparr>guFinalizers := libRemoveFinalizer lib (guFinalizers g1) GPUFinalizerName\<rparr>) w1 of
                  Inl e \<Rightarrow> failed_with e w1
                | Inr (_, w2) \<Rightarrow> finish_with None w2)
             else reconcile_allocate matches lib f w1 g1)
      else if GPUBackend g = '''' then finish_with None w
      else reconcile_allocate matches lib f w g)"

definition reconcile :: "selector_lib \<Rightarrow> k8slib \<Rightarrow> faults \<Rightarrow> gpu_world \<Rightarrow> SwiftGuest option \<Rightarrow> reconcile_result" where
  "reconcile matches lib f w read_guest =
     (case fGetGuest f of
        Some e \<Rightarrow> if errors_Is e ErrNotFound then finish_with None w else failed_with e w
      | None \<Rightarrow> (case read_guest of None \<Rightarrow> finish_with None w | Some g \<Rightarrow> reconcile_guest matches lib f w g))"

definition Reconcile :: "selector_lib \<Rightarrow> k8slib \<Rightarrow> faults \<Rightarrow> gpu_world \<Rightarrow> SwiftGuest option \<Rightarrow> reconcile_result" where
  "Reconcile matches lib f w read_guest =
     (case reconcile matches lib f w read_guest of
        ((rq, Some e), w') \<Rightarrow> if errors_Is e ErrConflict then finish_with (Some 1) w' else ((rq, Some e), w')
      | r \<Rightarrow> r)"

definition mapGPUNodeToSwiftGuests :: "goerr option \<Rightarrow> SwiftGuest list \<Rightarrow> (string \<times> string) list" where
  "mapGPUNodeToSwiftGuests listErr guests =
     (if listErr \<noteq> None then []
      else map (\<lambda>g. (guNamespace g, guName g))
             (filter (\<lambda>g. guGPUProfileRef g \<noteq> None \<and> \<not> isGPUAllocated g) guests))"

section \<open>Lemmas\<close>

lemma store_guest_simps:
  "store_guest g w = (g', w') \<Longrightarrow> gwGuest w' = Some g' \<and> g' = g\<lparr>guResourceVersion := Suc (guResourceVersion g)\<rparr> \<and>
     gwC w' = gwC w \<and> gwPods w' = gwPods w \<and> gwProfiles w' = gwProfiles w \<and> gwClaims w' = gwClaims w"
  by (auto simp: store_guest_def Let_def)

lemma write_guest_Inr:
  assumes "write_guest fault g w = Inr (g', w')"
  shows "gwGuest w' = Some g'" "g' = g\<lparr>guResourceVersion := Suc (guResourceVersion g)\<rparr>" "gwC w' = gwC w" "gwPods w' = gwPods w"
  using assms by (auto simp: write_guest_def split: option.splits if_splits dest!: store_guest_simps)

lemma patchStatus_Inr:
  assumes "patchStatus f g gpu conds w = Inr (g', w')"
  shows "gwC w' = gwC w" "guGPU g' = gpu" "guConditions g' = conds" "guFinalizers g' = guFinalizers g"
    "guNamespace g' = guNamespace g" "guName g' = guName g" "gwGuest w = Some g \<Longrightarrow> gwGuest w' = Some g'"
    "guGPUProfileRef g' = guGPUProfileRef g" "guGPUResourceClaim g' = guGPUResourceClaim g" "gwPods w' = gwPods w"
  using assms write_guest_Inr [of "fPatch f" "g\<lparr>guGPU := gpu, guConditions := conds\<rparr>" w g' w']
  by (auto simp: patchStatus_def split: if_splits)

lemma outcome_simps [simp]: "snd (failed_with e w) = w" "snd (finish_with rq w) = w"
  by (simp_all add: failed_with_def finish_with_def)

lemma gwC_refuse [simp]: "gwC (snd (refuse_with f w g reason msg)) = gwC w"
  by (auto simp: refuse_with_def split: sum.split dest: patchStatus_Inr(1))

lemma gwC_handle [simp]: "gwC (snd (handlePrepareError f w g e)) = gwC w"
  by (auto simp: handlePrepareError_def split: prepare_error.split)

lemma gwC_commit [simp]: "gwC (snd (commitAllocation lib f w g s)) = gwC w"
  by (auto simp: commitAllocation_def Let_def split: sum.split dest: patchStatus_Inr(1))

lemma gwC_deferred [simp]: "gwC (snd (reconcileDeferred lib f w g)) = gwC w"
  by (auto simp: reconcileDeferred_def split: sum.split option.split if_splits dest: patchStatus_Inr(1))

lemma Reconcile_world: "snd (Reconcile matches lib f w r) = snd (reconcile matches lib f w r)"
  by (auto simp: Reconcile_def split: prod.splits option.splits)

lemma native_Prepare_world:
  "snd (native_Prepare matches f w g) = w \<or>
   (\<exists>pr. snd (native_Prepare matches f w g) = w\<lparr>gwC := snd (findAndAllocate matches f w g pr)\<rparr>)"
  by (auto simp: native_Prepare_def Let_def split: option.splits prod.splits sum.splits) (metis snd_conv)+

lemma dra_Prepare_world [simp]: "snd (dra_Prepare w g) = w"
  by (simp add: dra_Prepare_def split: option.split)

lemma findAndAllocate_held:
  assumes "n \<in> set (gcNodes (gwC w))" and "held_gpus (guest_ident g) n \<noteq> []"
  shows "snd (findAndAllocate matches f w g pr) = gwC w"
proof -
  obtain r c' where run: "findAndAllocate matches f w g pr = (r, c')" by fastforce
  show ?thesis
  proof (cases r)
    case (Inl e)
    with run show ?thesis unfolding findAndAllocate_def using FindAndAllocateFor_Inl by (metis snd_conv)
  next
    case (Inr x)
    obtain n' gpus numa part where x: "x = (n', gpus, numa, part)" by (metis prod_cases4)
    from FindAndAllocateFor_Inr [OF run [unfolded Inr x findAndAllocate_def]] assms have "c' = gwC w" by blast
    with run show ?thesis by simp
  qed
qed

lemma reconcile_allocate_C:
  "gwC (snd (reconcile_allocate matches lib f w g)) = gwC w \<or>
   (\<exists>w1 g1 pr. gwC w1 = gwC w \<and> guest_ident g1 = guest_ident g \<and>
      gwC (snd (reconcile_allocate matches lib f w g)) = snd (findAndAllocate matches f w1 g1 pr))"
proof -
  let ?upd = "if libContainsFinalizer lib (guFinalizers g) GPUFinalizerName then Inr (g, w)
            else write_guest (fUpdate f) (g\<lparr>guFinalizers := libAddFinalizer lib (guFinalizers g) GPUFinalizerName\<rparr>) w"
  show ?thesis
  proof (cases ?upd)
    case (Inl e)
    then show ?thesis by (simp add: reconcile_allocate_def)
  next
    case (Inr x)
    obtain g1 w1 where x: "x = (g1, w1)" by fastforce
    with Inr have 1: "gwC w1 = gwC w" "guest_ident g1 = guest_ident g"
      by (auto simp: guest_ident_def split: if_splits dest: write_guest_Inr)
    obtain r2 w2 where p: "(if GPUBackend g = ''dra'' then dra_Prepare w1 g1 else native_Prepare matches f w1 g1) = (r2, w2)"
      by fastforce
    have "gwC (snd (reconcile_allocate matches lib f w g)) = (if isGPUAllocated g1 then gwC w1 else gwC w2)"
      using Inr x p by (auto simp: reconcile_allocate_def split: sum.split prepare_result.split)
    moreover have "w2 = w1 \<or> (\<exists>pr. w2 = w1\<lparr>gwC := snd (findAndAllocate matches f w1 g1 pr)\<rparr>)"
      using p native_Prepare_world [of matches f w1 g1] dra_Prepare_world [of w1 g1]
      by (cases "GPUBackend g = ''dra''") simp_all
    ultimately have "gwC (snd (reconcile_allocate matches lib f w g)) = gwC w1 \<or>
        (\<exists>pr. gwC (snd (reconcile_allocate matches lib f w g)) = snd (findAndAllocate matches f w1 g1 pr))"
      by auto
    with 1 show ?thesis by metis
  qed
qed

lemma owner_node:
  assumes "wf_cluster c" and "owner c nm a = Some ident"
  shows "\<exists>n \<in> set (gcNodes c). held_gpus ident n \<noteq> []"
proof (cases "node_named (gcNodes c) nm")
  case (Some n)
  from node_named_Some [OF Some] assms(1) have n: "n \<in> set (gcNodes c)" "wf_node n" by (auto simp: wf_cluster_def)
  from assms(2) owner_held [OF Some n(2)] have "held_gpus ident n \<noteq> []" by auto
  with n(1) show ?thesis ..
qed (use assms(2) in \<open>simp add: owner_def\<close>)

lemma DeallocateForWorkload_wf:
  "DeallocateForWorkload af c ident = (r, c') \<Longrightarrow> wf_cluster c \<Longrightarrow> ident \<noteq> '''' \<Longrightarrow> wf_cluster c'"
  by (auto simp: DeallocateForWorkload_def split: sum.splits dest!: release_each_preserves)

lemma guest_ident_nonempty [simp]: "guest_ident g \<noteq> ''''"
  by (simp add: guest_ident_def)

section \<open>Properties\<close>

text \<open>
  C6. The controller never gives a guest's devices back while a launcher pod of the guest exists,
  terminating or not, on any path and under any API failure: in that case a device that
  belongs to the guest still belongs to it after the pass.
\<close>

theorem no_release_while_launcher_present:
  assumes "wf_cluster (gwC w)" and "guest_pods w g \<noteq> []" and "owner (gwC w) nm a = Some (guest_ident g)"
  shows "owner (gwC (snd (Reconcile matches lib f w (Some g)))) nm a = Some (guest_ident g)"
proof -
  from owner_node [OF assms(1,3)] obtain n where n: "n \<in> set (gcNodes (gwC w))" "held_gpus (guest_ident g) n \<noteq> []" by blast
  have present: "launcherStillPresent f w g \<noteq> Inr False"
    using assms(2) by (simp add: launcherStillPresent_def split: option.split)
  have alloc: "gwC (snd (reconcile_allocate matches lib f w g)) = gwC w"
    using reconcile_allocate_C [of matches lib f w g] findAndAllocate_held n by metis
  have del: "reconcile_delete lib f w g = finish_with x w \<or> (\<exists>e. reconcile_delete lib f w g = failed_with e w)" if "x = (if libContainsFinalizer lib (guFinalizers g) GPUFinalizerName then Some 5 else None)" for x
    using present that by (auto simp: reconcile_delete_def split: sum.split bool.splits)
  have held: "nativeAllocationHeld (fGPU f) (gwC w) (guest_ident g) \<noteq> Inr False"
    using n held_gpus_holds by (auto simp: nativeAllocationHeld_def list_ex_iff split: sum.splits dest: ListGPUNodes_Inr)
  have stale: "\<exists>r. releaseStaleNative lib f w g = (Some r, g, w) \<and> snd r = w"
    using present held by (auto simp: releaseStaleNative_def failed_with_def finish_with_def split: sum.split bool.splits)
  have "gwC (snd (reconcile_guest matches lib f w g)) = gwC w"
    using alloc del stale by (auto simp: reconcile_guest_def)
  then have "gwC (snd (Reconcile matches lib f w (Some g))) = gwC w"
    by (simp add: Reconcile_world reconcile_def split: option.split)
  with assms(3) show ?thesis by simp
qed

definition ex_lib :: k8slib where
  "ex_lib = \<lparr>libSetCondition = (\<lambda>c. replace_first (\<lambda>x. cType x = cType c) c),
     libRemoveCondition = (\<lambda>t. filter (\<lambda>c. cType c \<noteq> t)),
     libConditionTrue = (\<lambda>cs t. case find (\<lambda>c. cType c = t) cs of None \<Rightarrow> False | Some c \<Rightarrow> cStatus c = ''True''),
     libContainsFinalizer = (\<lambda>fs f. f \<in> set fs),
     libAddFinalizer = (\<lambda>fs f. if f \<in> set fs then fs else fs @ [f]),
     libRemoveFinalizer = (\<lambda>fs f. filter (\<lambda>x. x \<noteq> f) fs)\<rparr>"

definition ex_guest :: SwiftGuest where
  "ex_guest = \<lparr>guNamespace = ''ns'', guName = ''vm'', guResourceVersion = 4, guDeleting = False, guFinalizers = [],
     guNodeName = '''', guGPUProfileRef = Some ''h200'', guGPUResourceClaim = None, guGPU = None, guConditions = []\<rparr>"

definition ex_pod :: Pod where
  "ex_pod = \<lparr>podNamespace = ''ns'', podName = ''vm-launcher'', podGuestLabel = ''vm'', podNodeName = ''gpu-b'',
     podResourceClaims = [], podClaimStatuses = []\<rparr>"

definition ex_world :: "gpu_cluster \<Rightarrow> SwiftGuest \<Rightarrow> Pod list \<Rightarrow> gpu_world" where
  "ex_world c g pods = \<lparr>gwC = c, gwGuest = Some g, gwProfiles = [(''ns'', ''h200'') \<mapsto> ex_profile ''shared''], gwPods = pods,
     gwClaims = Map.empty\<rparr>"

theorem no_release_while_launcher_present_witness:
  "let g = ex_guest\<lparr>guDeleting := True, guFinalizers := [GPUFinalizerName]\<rparr>;
       w = ex_world ex_held_cluster g [ex_pod]
   in owner (gwC (snd (Reconcile ex_matches ex_lib all_ok w (Some g)))) ''gpu-b'' ''0000:65:00.0'' = Some ''ns/vm''"
proof -
  let ?g = "ex_guest\<lparr>guDeleting := True, guFinalizers := [GPUFinalizerName]\<rparr>"
  let ?w = "ex_world ex_held_cluster ?g [ex_pod]"
  have id: "guest_ident ?g = ''ns/vm''" by (simp add: guest_ident_def identity_def ex_guest_def)
  have "guest_pods ?w ?g \<noteq> []" by (simp add: guest_pods_def ex_world_def ex_guest_def ex_pod_def)
  moreover have "owner (gwC ?w) ''gpu-b'' ''0000:65:00.0'' = Some ''ns/vm''" by code_simp
  moreover have "wf_cluster (gwC ?w)" by (simp add: ex_world_def wf_ex_held_cluster)
  ultimately show ?thesis
    using no_release_while_launcher_present [of ?w ?g] id by (simp add: Let_def)
qed

definition held_world :: "gpu_world \<Rightarrow> SwiftGuest \<Rightarrow> bool" where
  "held_world w g \<longleftrightarrow> list_ex (holds_any (guest_ident g)) (gcNodes (gwC w))"

definition finalized :: "gpu_world \<Rightarrow> bool" where
  "finalized w \<longleftrightarrow> (\<exists>g. gwGuest w = Some g \<and> GPUFinalizerName \<in> set (guFinalizers g))"

lemma finalizedI: "gwGuest w = Some g \<Longrightarrow> GPUFinalizerName \<in> set (guFinalizers g) \<Longrightarrow> finalized w"
  by (simp add: finalized_def)

lemma finalized_patch:
  assumes "patchStatus f g gpu cs w = Inr (g', w')" and "gwGuest w = Some g" and "GPUFinalizerName \<in> set (guFinalizers g)"
  shows "gwGuest w' = Some g'" and "GPUFinalizerName \<in> set (guFinalizers g')" and "finalized w'"
  using patchStatus_Inr [OF assms(1)] assms(2,3) by (auto simp: finalized_def)

lemma finalized_refuse:
  "gwGuest w = Some g \<Longrightarrow> GPUFinalizerName \<in> set (guFinalizers g) \<Longrightarrow> finalized (snd (refuse_with f w g reason msg))"
  by (auto simp: refuse_with_def split: sum.split intro: finalizedI dest: finalized_patch)

lemma finalized_handle:
  "gwGuest w = Some g \<Longrightarrow> GPUFinalizerName \<in> set (guFinalizers g) \<Longrightarrow> finalized (snd (handlePrepareError f w g e))"
  by (auto simp: handlePrepareError_def finalized_refuse split: prepare_error.split intro: finalizedI)

lemma finalized_commit:
  "gwGuest w = Some g \<Longrightarrow> GPUFinalizerName \<in> set (guFinalizers g) \<Longrightarrow> finalized (snd (commitAllocation lib f w g s))"
  by (auto simp: commitAllocation_def Let_def split: sum.split intro: finalizedI dest: finalized_patch)

lemma finalized_deferred:
  assumes "gwGuest w = Some g" and "GPUFinalizerName \<in> set (guFinalizers g)"
  shows "finalized (snd (reconcileDeferred lib f w g))"
proof -
  let ?p = "if libConditionTrue lib (guConditions g) ''GPUClaimPending'' then Inr (g, w)
            else patchStatus f g (guGPU g)
                   (libSetCondition lib \<lparr>cType = ''GPUClaimPending'', cStatus = ''True'', cReason = ''AwaitingScheduler'',
                      cMessage = ''launcher pod created with a ResourceClaim; awaiting scheduler/DRA device allocation''\<rparr>
                      (guConditions g)) w"
  show ?thesis
  proof (cases ?p)
    case (Inl e)
    with assms show ?thesis by (simp add: reconcileDeferred_def finalizedI)
  next
    case (Inr x)
    obtain g' w' where x: "x = (g', w')" by fastforce
    with Inr assms have g': "gwGuest w' = Some g'" "GPUFinalizerName \<in> set (guFinalizers g')"
      by (auto split: if_splits dest: finalized_patch)
    with Inr x show ?thesis
      by (auto simp: reconcileDeferred_def split: sum.split option.split intro: finalizedI finalized_commit)
  qed
qed

lemma native_Prepare_guest: "gwGuest (snd (native_Prepare matches f w g)) = gwGuest w"
  using native_Prepare_world [of matches f w g] by auto

lemma finalized_allocate:
  assumes "gwGuest w = Some g" and "lib_ok lib"
  shows "finalized (snd (reconcile_allocate matches lib f w g)) \<or> snd (reconcile_allocate matches lib f w g) = w"
proof -
  let ?upd = "if libContainsFinalizer lib (guFinalizers g) GPUFinalizerName then Inr (g, w)
            else write_guest (fUpdate f) (g\<lparr>guFinalizers := libAddFinalizer lib (guFinalizers g) GPUFinalizerName\<rparr>) w"
  show ?thesis
  proof (cases ?upd)
    case (Inl e)
    then show ?thesis by (simp add: reconcile_allocate_def)
  next
    case (Inr x)
    obtain g1 w1 where x: "x = (g1, w1)" by fastforce
    with Inr assms have 1: "gwGuest w1 = Some g1" "GPUFinalizerName \<in> set (guFinalizers g1)"
      by (auto simp: lib_ok_def split: if_splits dest: write_guest_Inr)
    obtain r2 w2 where p: "(if GPUBackend g = ''dra'' then dra_Prepare w1 g1 else native_Prepare matches f w1 g1) = (r2, w2)"
      by fastforce
    then have "gwGuest w2 = Some g1"
      using 1 native_Prepare_guest [of matches f w1 g1] dra_Prepare_world [of w1 g1]
      by (cases "GPUBackend g = ''dra''") simp_all
    with Inr x p 1 show ?thesis
      by (auto simp: reconcile_allocate_def finalized_handle finalized_commit finalized_deferred
          split: sum.split prepare_result.split intro: finalizedI)
  qed
qed

lemma deallocated_not_held:
  assumes "DeallocateForWorkload af c ident = (None, c')" and "wf_cluster c" and "ident \<noteq> ''''" and "faults_ok af"
  shows "\<not> list_ex (holds_any ident) (gcNodes c')"
  using deallocate_spec [OF assms] by (simp add: nativeAllocationHeld_def ListGPUNodes_def)

lemma releaseStale_cases:
  assumes "wf_cluster (gwC w)" and "faults_ok (fGPU f)" and "gwGuest w = Some g"
  shows "(\<exists>r. releaseStaleNative lib f w g = (Some r, g, snd r) \<and> gwGuest (snd r) = Some g) \<or>
    (\<exists>g1 w1. releaseStaleNative lib f w g = (None, g1, w1) \<and> gwGuest w1 = Some g1 \<and>
       guest_ident g1 = guest_ident g \<and> \<not> held_world w1 g)"
proof -
  have ident: "guest_ident g \<noteq> ''''" by simp
  have held: "held_world w g" if "nativeAllocationHeld (fGPU f) (gwC w) (guest_ident g) = Inr True"
    using that by (auto simp: nativeAllocationHeld_def held_world_def split: sum.splits dest: ListGPUNodes_Inr)
  have free: "\<not> held_world w g" if "nativeAllocationHeld (fGPU f) (gwC w) (guest_ident g) = Inr False"
    using that by (auto simp: nativeAllocationHeld_def held_world_def split: sum.splits dest: ListGPUNodes_Inr)
  show ?thesis
  proof (cases "DeallocateForWorkload (fGPU f) (gwC w) (guest_ident g)")
    case (Pair r c')
    have clean: "\<not> list_ex (holds_any (guest_ident g)) (gcNodes c')" if "r = None"
      using deallocated_not_held [OF _ assms(1) ident assms(2)] Pair that by simp
    have patched: "gwGuest w1 = Some g1 \<and> guest_ident g1 = guest_ident g \<and> gwC w1 = c'"
      if "patchStatus f g gpu cs (w\<lparr>gwC := c'\<rparr>) = Inr (g1, w1)" for gpu cs g1 w1
      using patchStatus_Inr [OF that] assms(3) by (simp add: guest_ident_def)
    show ?thesis
      using Pair clean patched free assms(3)
      unfolding releaseStaleNative_def held_world_def failed_with_def finish_with_def
      by (auto split: sum.split bool.split option.split prod.splits)
  qed
qed

lemma releaseAll_None:
  assumes "releaseAll f w g b = (None, w')" and "wf_cluster (gwC w)" and "faults_ok (fGPU f)"
  shows "\<not> held_world w' g"
  using assms deallocated_not_held [OF _ assms(2) guest_ident_nonempty assms(3)]
  by (auto simp: releaseAll_def dra_Release_def held_world_def split: prod.splits option.splits if_splits)

lemma releaseAll_guest: "releaseAll f w g b = (r, w') \<Longrightarrow> gwGuest w' = gwGuest w"
  by (auto simp: releaseAll_def dra_Release_def split: prod.splits option.splits if_splits)

lemma held_world_C: "gwC w' = gwC w \<Longrightarrow> held_world w' g = held_world w g"
  by (simp add: held_world_def)

lemma delete_safe:
  assumes "wf_cluster (gwC w)" and "faults_ok (fGPU f)" and "gwGuest w = Some g" and "lib_ok lib"
  shows "snd (reconcile_delete lib f w g) = w \<or> finalized (snd (reconcile_delete lib f w g)) \<or>
         \<not> held_world (snd (reconcile_delete lib f w g)) g"
proof (cases "libContainsFinalizer lib (guFinalizers g) GPUFinalizerName \<and> launcherStillPresent f w g = Inr False")
  case False
  then show ?thesis by (auto simp: reconcile_delete_def split: sum.split bool.split)
next
  case True
  then have fin: "GPUFinalizerName \<in> set (guFinalizers g)" using assms(4) by (simp add: lib_ok_def)
  obtain r w1 where rel: "releaseAll f w g (GPUBackend g) = (r, w1)" by fastforce
  note g1 = releaseAll_guest [OF rel]
  show ?thesis
  proof (cases r)
    case (Some e)
    with True rel g1 fin assms(3) show ?thesis by (auto simp: reconcile_delete_def intro: finalizedI)
  next
    case None
    with rel releaseAll_None assms(1,2) have clean: "\<not> held_world w1 g" by blast
    then show ?thesis
      using True rel None
      by (auto simp: reconcile_delete_def split: sum.split dest!: write_guest_Inr(3) held_world_C [of _ w1 g])
  qed
qed

text \<open>
  C12. No allocation outlives the record that frees it: if what the guest holds is covered by the
  finalizer before a pass, it is so after the pass, on every path and under every API
  failure. In particular the finalizer is stored before any device is taken, and removed
  only when nothing is held.
\<close>

theorem allocation_covered_by_finalizer:
  assumes "lib_ok lib" and "wf_cluster (gwC w)" and "faults_ok (fGPU f)" and "gwGuest w = Some g"
    and "held_world w g \<longrightarrow> finalized w"
  shows "held_world (snd (Reconcile matches lib f w (Some g))) g \<longrightarrow> finalized (snd (Reconcile matches lib f w (Some g)))"
proof -
  have alloc: "held_world (snd (reconcile_allocate matches lib f w1 g1)) g \<longrightarrow> finalized (snd (reconcile_allocate matches lib f w1 g1))"
    if "gwGuest w1 = Some g1" "held_world w1 g \<longrightarrow> finalized w1" for w1 g1
    using finalized_allocate [OF that(1) assms(1), of matches f] that(2) by auto
  have "held_world (snd (reconcile_guest matches lib f w g)) g \<longrightarrow> finalized (snd (reconcile_guest matches lib f w g))"
  proof (cases "guDeleting g")
    case True
    then show ?thesis using delete_safe [OF assms(2,3,4,1)] assms(5) by (auto simp: reconcile_guest_def)
  next
    case nodel: False
    show ?thesis
    proof (cases "GPUBackend g \<noteq> ''native'' \<and> libContainsFinalizer lib (guFinalizers g) GPUFinalizerName")
      case False
      with nodel alloc [OF assms(4,5)] assms(5) show ?thesis by (auto simp: reconcile_guest_def)
    next
      case True
      then have fin: "GPUFinalizerName \<in> set (guFinalizers g)" using assms(1) by (simp add: lib_ok_def)
      from releaseStale_cases [OF assms(2-4), of lib] show ?thesis
      proof (elim disjE exE conjE)
        fix r assume "releaseStaleNative lib f w g = (Some r, g, snd r)" "gwGuest (snd r) = Some g"
        with True nodel fin show ?thesis by (auto simp: reconcile_guest_def intro: finalizedI)
      next
        fix g1 w1 assume st: "releaseStaleNative lib f w g = (None, g1, w1)" "gwGuest w1 = Some g1" "\<not> held_world w1 g"
        show ?thesis
          using True nodel st alloc [of w1 g1] 
          by (auto simp: reconcile_guest_def split: sum.split dest!: write_guest_Inr(3) held_world_C [of _ w1 g])
      qed
    qed
  qed
  with assms(5) show ?thesis by (simp add: Reconcile_world reconcile_def split: option.split)
qed

lemma replace_first_find:
  "P x \<Longrightarrow> find P (replace_first P x cs) = Some x"
  by (induction cs) auto

lemma replace_first_other:
  "(\<And>y. \<not> (P y \<and> Q y)) \<Longrightarrow> P x \<Longrightarrow> find Q (replace_first P x cs) = find Q cs"
  by (induction cs) auto

lemma ex_lib_ok: "lib_ok ex_lib"
  by (auto simp: lib_ok_def ex_lib_def replace_first_find split: option.split intro!: replace_first_other)

theorem allocation_covered_by_finalizer_witness:
  "let w = ex_world ex_cluster ex_guest [] in
   held_world (snd (Reconcile ex_matches ex_lib all_ok w (Some ex_guest))) ex_guest \<and>
   finalized (snd (Reconcile ex_matches ex_lib all_ok w (Some ex_guest)))"
proof -
  let ?w = "ex_world ex_cluster ex_guest []"
  have "held_world (snd (Reconcile ex_matches ex_lib all_ok ?w (Some ex_guest))) ex_guest" by code_simp
  moreover have "\<not> held_world ?w ex_guest" by code_simp
  ultimately show ?thesis
    using allocation_covered_by_finalizer [OF ex_lib_ok, of ?w all_ok ex_guest ex_matches] wf_ex_cluster
    by (simp add: Let_def ex_world_def faults_ok_def all_ok_def)
qed

lemma allocated_devices:
  assumes run: "FindAndAllocateFor matches af c ident preferred pr nc = (Inr (n', gpus, numa, part), c')"
    and wf: "wf_cluster c" and id: "ident \<noteq> ''''" and cnt: "0 < prCount pr"
  shows "gPCIAddress ` set gpus = {a. owner c' (nName n') a = Some ident}" and "gpus \<noteq> []"
proof -
  have "gPCIAddress ` set gpus = {a. owner c' (nName n') a = Some ident} \<and> gpus \<noteq> []"
  proof (cases "\<forall>m \<in> set (gcNodes c). held_gpus ident m = []")
    case False
    with FindAndAllocateFor_Inr [OF run] have e: "c' = c" "n' \<in> set (gcNodes c)" "held_gpus ident n' \<noteq> []"
      "(n', gpus, numa, part) = existing_result ident n'" by blast+
    from wf_cluster_node [OF wf e(2)] owner_held [of c "nName n'" n' _ ident] e show ?thesis
      by (auto simp: existing_result_def)
  next
    case True
    from allocate_spec [OF run wf id cnt True] obtain n where n: "n \<in> set (gcNodes c)" "nName n' = nName n"
      "selection_ok n pr gpus numa part" "owner c' = spec_take ident (nName n) (gPCIAddress ` set gpus) (owner c)" by blast
    have "owner c (nName n) a \<noteq> Some ident" for a
      using True n(1) wf_cluster_node [OF wf n(1)] owner_held [of c "nName n" n a ident] by simp
    moreover have "gpus \<noteq> []" using n(3) cnt by (auto simp: selection_ok_def)
    ultimately show ?thesis using n(2,4) by (auto simp: spec_take_def)
  qed
  then show "gPCIAddress ` set gpus = {a. owner c' (nName n') a = Some ident}" "gpus \<noteq> []" by simp_all
qed

lemma native_Prepare_Resolved:
  assumes "native_Prepare matches f w g = (Inr (Resolved s), w')"
  shows "\<exists>pr n gpus numa part. gwProfiles w (guNamespace g, the (guGPUProfileRef g)) = Some pr \<and>
    findAndAllocate matches f w g pr = (Inr (n, gpus, numa, part), gwC w') \<and>
    gsDevices s = map gPCIAddress gpus \<and> gsNodeName s = nName n \<and> gwGuest w' = gwGuest w"
  using assms by (auto simp: native_Prepare_def Let_def split: option.splits if_splits prod.splits sum.splits)

lemma native_Prepare_not_deferred: "native_Prepare matches f w g \<noteq> (Inr (Deferred b), w')"
  by (auto simp: native_Prepare_def Let_def split: option.splits if_splits prod.splits sum.splits)

lemma not_finished [simp]:
  "fst (refuse_with f w g reason msg) \<noteq> (None, None)" "fst (failed_with e w) \<noteq> (None, None)"
  by (auto simp: refuse_with_def failed_with_def finish_with_def split: sum.splits)

lemma handle_not_finished [simp]: "fst (handlePrepareError f w g e) \<noteq> (None, None)"
  by (auto simp: handlePrepareError_def split: prepare_error.splits)

lemma commit_finished:
  assumes "fst (commitAllocation lib f w g s) = (None, None)" and "gwGuest w = Some g" and "lib_ok lib"
  shows "\<exists>g'. gwGuest (snd (commitAllocation lib f w g s)) = Some g' \<and> isGPUAllocated g' \<and> guGPU g' = Some s"
proof -
  let ?cs1 = "setGPUAllocatedCondition True ''Allocated''
                  (''allocated '' @ dec (length (gsDevices s)) @ '' GPU(s) on node '' @ gsNodeName s) (guConditions g)"
  let ?cs2 = "libSetCondition lib \<lparr>cType = ''GPUClaimPending'', cStatus = ''False'', cReason = ''Allocated'',
                                     cMessage = ''device allocated''\<rparr> ?cs1"
  from assms(1) obtain g' w' where p: "patchStatus f g (Some s) ?cs2 w = Inr (g', w')"
    by (cases "patchStatus f g (Some s) ?cs2 w") (auto simp: commitAllocation_def Let_def)
  have "find (\<lambda>c. cType c = ''GPUAllocated'') ?cs2 = find (\<lambda>c. cType c = ''GPUAllocated'') ?cs1"
    using assms(3) by (simp add: lib_ok_def)
  also have "\<dots> = Some \<lparr>cType = ''GPUAllocated'', cStatus = ''True'', cReason = ''Allocated'',
      cMessage = ''allocated '' @ dec (length (gsDevices s)) @ '' GPU(s) on node '' @ gsNodeName s\<rparr>"
    unfolding setGPUAllocatedCondition_def by (subst replace_first_find) simp_all
  finally have "isGPUAllocated g'" using patchStatus_Inr(3) [OF p] by (simp add: isGPUAllocated_def)
  with p patchStatus_Inr(2,7) [OF p] assms(2) show ?thesis by (simp add: commitAllocation_def Let_def)
qed

text \<open>
  When a pass over a guest that wants native devices ends without error and without a
  requeue, the stored guest is marked allocated and the devices stamped into its status are
  exactly the devices the SwiftGPUNode of the stamped node records for it.
\<close>

theorem stamped_status_matches_nodes:
  assumes "lib_ok lib" and "wf_cluster (gwC w)" and "gwGuest w = Some g"
    and "GPUBackend g = ''native''" and "\<not> guDeleting g" and "\<not> isGPUAllocated g" and "fGetGuest f = None"
    and "\<forall>pr \<in> ran (gwProfiles w). 0 < prCount pr"
    and "Reconcile matches lib f w (Some g) = ((None, None), w')"
  shows "\<exists>g' s. gwGuest w' = Some g' \<and> isGPUAllocated g' \<and> guGPU g' = Some s \<and> gsDevices s \<noteq> [] \<and>
    set (gsDevices s) = {a. owner (gwC w') (gsNodeName s) a = Some (guest_ident g)}"
proof -
  have run: "reconcile_allocate matches lib f w g = ((None, None), w')"
    using assms(4,5,7,9) by (auto simp: Reconcile_def reconcile_def reconcile_guest_def finish_with_def split: prod.splits option.splits if_splits)
  let ?upd = "if libContainsFinalizer lib (guFinalizers g) GPUFinalizerName then Inr (g, w)
            else write_guest (fUpdate f) (g\<lparr>guFinalizers := libAddFinalizer lib (guFinalizers g) GPUFinalizerName\<rparr>) w"
  obtain g1 w1 where upd: "?upd = Inr (g1, w1)"
    using run by (cases ?upd) (auto simp: reconcile_allocate_def failed_with_def)
  then have 1: "gwGuest w1 = Some g1" "gwC w1 = gwC w" "guest_ident g1 = guest_ident g" "\<not> isGPUAllocated g1" "gwProfiles w1 = gwProfiles w"
    using assms(3,6) by (auto simp: guest_ident_def isGPUAllocated_def write_guest_def store_guest_def Let_def split: if_splits option.splits)
  obtain r2 w2 where p: "native_Prepare matches f w1 g1 = (r2, w2)" by fastforce
  have run2: "((None, None), w') = (case r2 of Inl e \<Rightarrow> handlePrepareError f w2 g1 e
      | Inr (Resolved s) \<Rightarrow> commitAllocation lib f w2 g1 s | Inr (Deferred _) \<Rightarrow> reconcileDeferred lib f w2 g1)"
    using run upd p 1(4) assms(4) by (auto simp: reconcile_allocate_def split: sum.split prepare_result.split)
  obtain s where s: "r2 = Inr (Resolved s)"
  proof (cases r2)
    case (Inl e)
    with run2 have "fst (handlePrepareError f w2 g1 e) = (None, None)" by (metis fst_conv sum.case(1))
    then show thesis by simp
  next
    case (Inr x)
    with p native_Prepare_not_deferred that show thesis by (cases x) blast+
  qed
  with p have p': "native_Prepare matches f w1 g1 = (Inr (Resolved s), w2)" by simp
  from native_Prepare_Resolved [OF this] obtain pr n gpus numa part where
    a: "gwProfiles w1 (guNamespace g1, the (guGPUProfileRef g1)) = Some pr"
      "findAndAllocate matches f w1 g1 pr = (Inr (n, gpus, numa, part), gwC w2)"
      "gsDevices s = map gPCIAddress gpus" "gsNodeName s = nName n" "gwGuest w2 = gwGuest w1" by blast
  have "0 < prCount pr" using a(1) 1(5) assms(8) by (simp add: ranI)
  from allocated_devices [OF a(2) [unfolded findAndAllocate_def] _ _ this] 1(2,3) assms(2)
  have dev: "gPCIAddress ` set gpus = {a. owner (gwC w2) (nName n) a = Some (guest_ident g)}" "gpus \<noteq> []" by simp_all
  have c: "commitAllocation lib f w2 g1 s = ((None, None), w')" using run2 s by simp
  then have "gwC w' = gwC w2" using gwC_commit [of lib f w2 g1 s] by simp
  with commit_finished [of lib f w2 g1 s] c a 1(1) assms(1) dev show ?thesis by auto
qed

theorem stamped_status_matches_nodes_witness:
  "\<exists>g' s. gwGuest (snd (Reconcile ex_matches ex_lib all_ok (ex_world ex_cluster ex_guest []) (Some ex_guest))) = Some g' \<and>
     guGPU g' = Some s \<and> gsDevices s \<noteq> [] \<and>
     set (gsDevices s) = {a. owner (gwC (snd (Reconcile ex_matches ex_lib all_ok (ex_world ex_cluster ex_guest []) (Some ex_guest)))) (gsNodeName s) a = Some ''ns/vm''}"
proof -
  let ?w = "ex_world ex_cluster ex_guest []"
  let ?run = "Reconcile ex_matches ex_lib all_ok ?w (Some ex_guest)"
  have "fst ?run = (None, None)" by code_simp
  then have run: "?run = ((None, None), snd ?run)" by (simp add: prod_eq_iff)
  have id: "guest_ident ex_guest = ''ns/vm''" by (simp add: guest_ident_def identity_def ex_guest_def)
  have "wf_cluster (gwC ?w)" by (simp add: ex_world_def wf_ex_cluster)
  moreover have "gwGuest ?w = Some ex_guest" by (simp add: ex_world_def)
  moreover have "GPUBackend ex_guest = ''native''" "\<not> guDeleting ex_guest" "\<not> isGPUAllocated ex_guest" "fGetGuest all_ok = None"
    by (simp_all add: GPUBackend_def ex_guest_def isGPUAllocated_def all_ok_def)
  moreover have "\<forall>pr \<in> ran (gwProfiles ?w). 0 < prCount pr" by (simp add: ex_world_def ex_profile_def)
  ultimately show ?thesis
    using stamped_status_matches_nodes [OF ex_lib_ok _ _ _ _ _ _ _ run] unfolding id by blast
qed

section \<open>The backend interface\<close>

text \<open>
  What the reconciler relies on from a \<open>gpualloc.Backend\<close>: preparing again changes nothing,
  preparing never takes a device from a workload, and releasing undoes preparing.
\<close>

primrec retry_prepare ::
  "(gpu_world \<Rightarrow> SwiftGuest \<Rightarrow> (prepare_error + prepare_result) \<times> gpu_world) \<Rightarrow> nat \<Rightarrow> gpu_world \<Rightarrow> SwiftGuest \<Rightarrow> gpu_world" where
  "retry_prepare prep 0 w g = w"
| "retry_prepare prep (Suc k) w g = snd (prep (retry_prepare prep k w g) g)"

locale gpu_backend =
  fixes prep :: "gpu_world \<Rightarrow> SwiftGuest \<Rightarrow> (prepare_error + prepare_result) \<times> gpu_world"
    and release :: "gpu_world \<Rightarrow> SwiftGuest \<Rightarrow> goerr option \<times> gpu_world"
    and inv :: "gpu_world \<Rightarrow> bool"
  assumes prep_inv: "inv w \<Longrightarrow> inv (snd (prep w g))"
    and prep_again: "inv w \<Longrightarrow> prep w g = (Inr r, w1) \<Longrightarrow> snd (prep w1 g) = w1"
    and prep_frame: "inv w \<Longrightarrow> owner (gwC w) nm a = Some ident \<Longrightarrow> ident \<noteq> '''' \<Longrightarrow>
          owner (gwC (snd (prep w g))) nm a = Some ident"
    and release_undoes: "inv w \<Longrightarrow> \<forall>nm a. owner (gwC w) nm a \<noteq> Some (guest_ident g) \<Longrightarrow> prep w g = (Inr r, w1) \<Longrightarrow>
          release w1 g = (None, w2) \<Longrightarrow> owner (gwC w2) = owner (gwC w)"
begin

lemma retry_stable: "inv w \<Longrightarrow> prep w g = (Inr r, w1) \<Longrightarrow> retry_prepare prep k w1 g = w1"
  by (induction k) (simp_all add: prep_again)

lemma retry_then_release:
  assumes "inv w" and "\<forall>nm a. owner (gwC w) nm a \<noteq> Some (guest_ident g)" and "prep w g = (Inr r, w1)"
    and "release (retry_prepare prep k w1 g) g = (None, w2)"
  shows "owner (gwC w2) = owner (gwC w)"
  using assms retry_stable release_undoes by metis

lemma retry_frame:
  assumes "inv w" and "owner (gwC w) nm a = Some ident" and "ident \<noteq> ''''"
  shows "inv (retry_prepare prep k w g) \<and> owner (gwC (retry_prepare prep k w g)) nm a = Some ident"
  by (induction k) (simp_all add: assms prep_inv prep_frame)

end

definition native_inv :: "gpu_world \<Rightarrow> bool" where
  "native_inv w \<longleftrightarrow> wf_cluster (gwC w) \<and> (\<forall>pr \<in> ran (gwProfiles w). 0 < prCount pr)"

lemma findAndAllocate_effect:
  assumes "wf_cluster (gwC w)" and "0 < prCount pr" and "findAndAllocate matches f w g pr = (r, c')"
  shows "wf_cluster c'" and "owner (gwC w) nm a = Some ident \<Longrightarrow> ident \<noteq> '''' \<Longrightarrow> owner c' nm a = Some ident"
    and "\<forall>nm a. owner (gwC w) nm a \<noteq> Some (guest_ident g) \<Longrightarrow> spec_free (guest_ident g) (owner c') = owner (gwC w)"
proof -
  have "wf_cluster c' \<and> (owner (gwC w) nm a = Some ident \<longrightarrow> ident \<noteq> '''' \<longrightarrow> owner c' nm a = Some ident) \<and>
    ((\<forall>nm a. owner (gwC w) nm a \<noteq> Some (guest_ident g)) \<longrightarrow> spec_free (guest_ident g) (owner c') = owner (gwC w))"
  proof (cases "c' = gwC w")
    case True
    then show ?thesis using assms(1) by (auto simp: spec_free_def fun_eq_iff)
  next
    case False
    then obtain n' gpus numa part where run: "FindAndAllocateFor matches (fGPU f) (gwC w) (guest_ident g)
       (case guGPU g of None \<Rightarrow> '''' | Some s \<Rightarrow> gsNodeName s) pr \<lparr>ncRequiredNode = guNodeName g, ncNodeSelector = []\<rparr> =
       (Inr (n', gpus, numa, part), c')"
      using assms(3) FindAndAllocateFor_Inl unfolding findAndAllocate_def by (cases r) (metis, metis prod_cases4)
    from FindAndAllocateFor_Inr [OF this] False have "\<forall>m \<in> set (gcNodes (gwC w)). held_gpus (guest_ident g) m = []" by blast
    from allocate_spec [OF run assms(1) guest_ident_nonempty assms(2) this] obtain n where
      "n \<in> set (gcNodes (gwC w))" "\<forall>a \<in> gPCIAddress ` set gpus. owner (gwC w) (nName n) a = Some ''''" "wf_cluster c'"
      "owner c' = spec_take (guest_ident g) (nName n) (gPCIAddress ` set gpus) (owner (gwC w))" by blast
    then show ?thesis by (auto simp: spec_take_def spec_free_def fun_eq_iff)
  qed
  then show "wf_cluster c'" "owner (gwC w) nm a = Some ident \<Longrightarrow> ident \<noteq> '''' \<Longrightarrow> owner c' nm a = Some ident"
    "\<forall>nm a. owner (gwC w) nm a \<noteq> Some (guest_ident g) \<Longrightarrow> spec_free (guest_ident g) (owner c') = owner (gwC w)" by blast+
qed

lemma native_Prepare_effect:
  assumes "native_inv w"
  obtains "snd (native_Prepare matches f w g) = w"
  | pr r c' where "0 < prCount pr" "findAndAllocate matches f w g pr = (r, c')" "snd (native_Prepare matches f w g) = w\<lparr>gwC := c'\<rparr>"
proof (cases "snd (native_Prepare matches f w g) = w")
  case False
  then obtain pr where pr: "gwProfiles w (guNamespace g, the (guGPUProfileRef g)) = Some pr"
    "snd (native_Prepare matches f w g) = w\<lparr>gwC := snd (findAndAllocate matches f w g pr)\<rparr>"
    by (auto simp: native_Prepare_def Let_def split: option.splits if_splits prod.splits sum.splits)
  then have "0 < prCount pr" using assms by (auto simp: native_inv_def ranI)
  with pr(2) that(2) show thesis by (metis prod.collapse)
qed (rule that(1))

lemma native_backend:
  assumes "faults_ok (fGPU f)"
  shows "gpu_backend (native_Prepare matches f) (native_Release f) native_inv"
proof
  fix w g assume inv: "native_inv w"
  show "native_inv (snd (native_Prepare matches f w g))"
    using inv findAndAllocate_effect(1) by (cases rule: native_Prepare_effect [OF inv, of matches f g]) (auto simp: native_inv_def)
  fix r w1 assume p: "native_Prepare matches f w g = (Inr r, w1)"
  then obtain s where "r = Resolved s" using native_Prepare_not_deferred by (cases r) auto
  with p native_Prepare_Resolved [of matches f w g s w1] obtain pr n gpus numa part where
    a: "gwProfiles w (guNamespace g, the (guGPUProfileRef g)) = Some pr"
      "findAndAllocate matches f w g pr = (Inr (n, gpus, numa, part), gwC w1)" by blast
  have cnt: "0 < prCount pr" using a(1) inv by (auto simp: native_inv_def ranI)
  have wf: "wf_cluster (gwC w)" using inv by (simp add: native_inv_def)
  note dev = allocated_devices [OF a(2) [unfolded findAndAllocate_def] wf guest_ident_nonempty cnt]
  have wf1: "wf_cluster (gwC w1)" using findAndAllocate_effect(1) [OF wf cnt a(2)] .
  from dev obtain x where "owner (gwC w1) (nName n) x = Some (guest_ident g)" by (metis (mono_tags) hd_in_set image_eqI mem_Collect_eq)
  from owner_node [OF wf1 this] obtain m where m: "m \<in> set (gcNodes (gwC w1))" "held_gpus (guest_ident g) m \<noteq> []" by blast
  show "snd (native_Prepare matches f w1 g) = w1"
    using native_Prepare_world [of matches f w1 g] findAndAllocate_held [OF m, of matches f] by auto
next
  fix w nm a ident g
  assume inv: "native_inv w" and o: "owner (gwC w) nm a = Some ident" "ident \<noteq> ''''"
  show "owner (gwC (snd (native_Prepare matches f w g))) nm a = Some ident"
  proof (cases rule: native_Prepare_effect [OF inv, of matches f g])
    case (2 pr r c')
    from findAndAllocate_effect(2) [OF _ 2(1,2) o] 2(3) inv show ?thesis by (simp add: native_inv_def)
  qed (use o in simp)
next
  fix w g r w1 w2
  assume inv: "native_inv w" and free: "\<forall>nm a. owner (gwC w) nm a \<noteq> Some (guest_ident g)"
    and p: "native_Prepare matches f w g = (Inr r, w1)" and rel: "native_Release f w1 g = (None, w2)"
  have "wf_cluster (gwC w1) \<and> spec_free (guest_ident g) (owner (gwC w1)) = owner (gwC w)"
  proof (cases rule: native_Prepare_effect [OF inv, of matches f g])
    case 1
    with p inv free show ?thesis by (auto simp: native_inv_def spec_free_def fun_eq_iff)
  next
    case (2 pr r c')
    from findAndAllocate_effect(1,3) [OF _ 2(1,2)] 2(3) inv p free show ?thesis by (simp add: native_inv_def)
  qed
  moreover have "DeallocateForWorkload (fGPU f) (gwC w1) (guest_ident g) = (None, gwC w2)"
    using rel by (auto simp: native_Release_def split: prod.splits)
  ultimately show "owner (gwC w2) = owner (gwC w)"
    using deallocate_spec [of "fGPU f" "gwC w1" "guest_ident g" "gwC w2"] assms by simp
qed

interpretation native: gpu_backend "native_Prepare matches all_ok" "native_Release all_ok" native_inv for matches
  by (rule native_backend) (simp add: all_ok_def faults_ok_def)

interpretation dra: gpu_backend dra_Prepare dra_Release "\<lambda>_. True"
proof
  fix w :: gpu_world and g r w1
  assume "dra_Prepare w g = (Inr r, w1)"
  show "snd (dra_Prepare w1 g) = w1" by simp
next
  fix w :: gpu_world and g r w1 w2
  assume "dra_Prepare w g = (Inr r, w1)" and "dra_Release w1 g = (None, w2)"
  then show "owner (gwC w2) = owner (gwC w)" using dra_Prepare_world [of w g] by (simp add: dra_Release_def)
qed simp_all

text \<open>
  Preparing a native allocation any number of times and then releasing it gives every device
  back to the owner it had before, for a guest that held nothing.
\<close>

theorem prepare_retry_release:
  assumes "native_inv w" and "\<forall>nm a. owner (gwC w) nm a \<noteq> Some (guest_ident g)"
    and "native_Prepare matches all_ok w g = (Inr r, w1)"
    and "native_Release all_ok (retry_prepare (native_Prepare matches all_ok) k w1 g) g = (None, w2)"
  shows "owner (gwC w2) = owner (gwC w)"
  using assms by (rule native.retry_then_release)

theorem prepare_retry_release_witness:
  "let w = ex_world ex_cluster ex_guest [];
       w1 = snd (native_Prepare ex_matches all_ok w ex_guest);
       w2 = snd (native_Release all_ok (retry_prepare (native_Prepare ex_matches all_ok) 3 w1 ex_guest) ex_guest)
   in held_world w1 ex_guest \<and> owner (gwC w2) = owner ex_cluster"
proof -
  let ?w = "ex_world ex_cluster ex_guest []"
  let ?p = "native_Prepare ex_matches all_ok ?w ex_guest"
  have inv: "native_inv ?w" by (simp add: native_inv_def ex_world_def wf_ex_cluster ex_profile_def)
  have held: "held_world (snd ?p) ex_guest" by code_simp
  have free: "\<forall>nm a. owner (gwC ?w) nm a \<noteq> Some (guest_ident ex_guest)"
  proof (intro allI)
    fix nm a
    have "\<forall>n \<in> set (gcNodes ex_cluster). held_gpus (guest_ident ex_guest) n = []"
      by (simp add: ex_defs held_gpus_def guest_ident_def identity_def ex_guest_def)
    then show "owner (gwC ?w) nm a \<noteq> Some (guest_ident ex_guest)"
      using owner_node [OF wf_ex_cluster, of nm a] by (auto simp: ex_world_def)
  qed
  have "\<not> isl (fst ?p)" by code_simp
  then obtain r where p: "?p = (Inr r, snd ?p)" by (metis prod.collapse sum.collapse(2))
  have "retry_prepare (native_Prepare ex_matches all_ok) 3 (snd ?p) ex_guest = snd ?p" by (rule native.retry_stable [OF inv p])
  moreover have "fst (native_Release all_ok (snd ?p) ex_guest) = None" by code_simp
  ultimately have rel: "native_Release all_ok (retry_prepare (native_Prepare ex_matches all_ok) 3 (snd ?p) ex_guest) ex_guest =
      (None, snd (native_Release all_ok (retry_prepare (native_Prepare ex_matches all_ok) 3 (snd ?p) ex_guest) ex_guest))"
    by (simp add: prod_eq_iff)
  from prepare_retry_release [OF inv free p rel] held show ?thesis by (simp add: Let_def ex_world_def)
qed

definition bdf :: "string \<Rightarrow> string \<Rightarrow> string \<Rightarrow> string \<Rightarrow> string" where
  "bdf a b c d = a @ '':'' @ b @ '':'' @ c @ ''.'' @ d"

definition bdf_part :: "string \<Rightarrow> bool" where
  "bdf_part s \<longleftrightarrow> s \<noteq> [] \<and> list_all (\<lambda>c. c \<notin> {CHR '':'', CHR ''.'', CHR ''-''}) s"

lemma Split_from_part:
  "list_all (\<lambda>c. c \<noteq> sep) s \<Longrightarrow> Split_from sep cur (s @ sep # rest) = (cur @ s) # Split_from sep [] rest"
  by (induction s arbitrary: cur) auto

lemma Split_from_last: "list_all (\<lambda>c. c \<noteq> sep) s \<Longrightarrow> Split_from sep cur s = [cur @ s]"
  by (induction s arbitrary: cur) auto

lemma encode_part: "bdf_part s \<Longrightarrow> map (\<lambda>c. if c = CHR '':'' \<or> c = CHR ''.'' then CHR ''-'' else c) s = s"
  by (induction s) (auto simp: bdf_part_def)

lemma bdf_part_dash: "bdf_part s \<Longrightarrow> list_all (\<lambda>c. c \<noteq> CHR ''-'') s"
  by (auto simp: bdf_part_def list_all_iff)

text \<open>
  Decoding a DRA device name inverts the encoding of a PCI address of four non-empty parts,
  exactly, as the reference driver contract asks.
\<close>

theorem device_name_roundtrip:
  assumes "bdf_part a" and "bdf_part b" and "bdf_part c" and "bdf_part d"
  shows "DecodeDeviceName (EncodeDeviceName (bdf a b c d)) = Some (bdf a b c d)"
proof -
  have enc: "EncodeDeviceName (bdf a b c d) = ''gpu-'' @ a @ CHR ''-'' # b @ CHR ''-'' # c @ CHR ''-'' # d"
    using assms by (simp add: EncodeDeviceName_def bdf_def encode_part)
  have "Split CHR ''-'' (a @ CHR ''-'' # b @ CHR ''-'' # c @ CHR ''-'' # d) = [a, b, c, d]"
    using assms by (simp add: Split_def Split_from_part Split_from_last bdf_part_dash)
  moreover have "HasPrefix (EncodeDeviceName (bdf a b c d)) ''gpu-''" by (simp add: enc HasPrefix_def)
  ultimately show ?thesis
    using assms by (simp add: DecodeDeviceName_def enc bdf_part_def) (simp add: bdf_def)
qed

theorem device_name_roundtrip_witness:
  "DecodeDeviceName (EncodeDeviceName (bdf ''0000'' ''01'' ''00'' ''0'')) = Some ''0000:01:00.0''"
  using device_name_roundtrip [of "''0000''" "''01''" "''00''" "''0''"] by (simp add: bdf_part_def bdf_def)

end
