(* ===== verification/Programs.thy ===== *)
theory Programs
  imports Prelude
begin

text \<open>
  Programs with effects, shared by the components that act on the world outside: a program
  takes a world and returns a result or an error in a new world. The world is a type
  parameter; a component gives it the state it acts on and a trace of what was done.

  \<open>wp\<close> is the weakest precondition (total: no panic), \<open>grows\<close> relates a trace to a longer one
  whose new events satisfy a predicate on the history, and \<open>emits_via\<close> says that every run of a
  program only appends such events.
\<close>

section \<open>Programs\<close>

text \<open>
  A program returns a result or an error in a new world; \<open>None\<close> is a panic. \<open>andThen\<close> is
  the early return on an error.
\<close>

type_synonym ('w, 'a) program = "'w \<Rightarrow> ('a res \<times> 'w) option"

definition ret :: "'a \<Rightarrow> ('w, 'a) program" where
  "ret x w = Some (Inr x, w)"

definition raise :: "goerr \<Rightarrow> ('w, 'a) program" where
  "raise e w = Some (Inl e, w)"

definition andThen :: "('w, 'a) program \<Rightarrow> ('a \<Rightarrow> ('w, 'b) program) \<Rightarrow> ('w, 'b) program" where
  "andThen m k w =
     (case m w of
        None \<Rightarrow> None
      | Some (Inl e, w') \<Rightarrow> Some (Inl e, w')
      | Some (Inr x, w') \<Rightarrow> k x w')"

definition attempt :: "('w, 'a) program \<Rightarrow> ('w, 'a res) program" where
  "attempt m w = map_option (\<lambda>(r, w'). (Inr r, w')) (m w)"

definition wrapErr :: "string \<Rightarrow> ('w, 'a) program \<Rightarrow> ('w, 'a) program" where
  "wrapErr s m w = map_option (\<lambda>(r, w'). (case r of Inl e \<Rightarrow> Inl (Errorw s e) | Inr x \<Rightarrow> Inr x, w')) (m w)"

text \<open>A deferred call runs when the body has returned; its error is not reported.\<close>

definition deferring :: "('w, unit) program \<Rightarrow> ('w, 'a) program \<Rightarrow> ('w, 'a) program" where
  "deferring d m w =
     (case m w of
        None \<Rightarrow> None
      | Some (r, w') \<Rightarrow> map_option (\<lambda>(_, w''). (r, w'')) (d w'))"

definition ignoring :: "('w, 'a) program \<Rightarrow> ('w, unit) program" where
  "ignoring m = andThen m (\<lambda>_. ret ())"

section \<open>Reasoning about programs\<close>

text \<open>
  \<open>wp m Q w\<close>: started in \<open>w\<close>, the program does not panic and ends in a result and a world
  that satisfy \<open>Q\<close>.
\<close>

named_theorems wp_rules \<open>weakest preconditions of the program combinators\<close>
named_theorems emits_rules \<open>events a program may append to the trace\<close>

definition wp :: "('w, 'a) program \<Rightarrow> ('a res \<Rightarrow> 'w \<Rightarrow> bool) \<Rightarrow> 'w \<Rightarrow> bool" where
  "wp m Q w \<longleftrightarrow> (\<exists>r w'. m w = Some (r, w') \<and> Q r w')"

lemma wpD: "wp m Q w \<Longrightarrow> m w = Some (r, w') \<Longrightarrow> Q r w'"
  by (simp add: wp_def)

lemma wp_mono: "wp m P w \<Longrightarrow> (\<And>r w'. P r w' \<Longrightarrow> Q r w') \<Longrightarrow> wp m Q w"
  by (auto simp: wp_def)

lemma wp_conj: "wp m P w \<Longrightarrow> wp m Q w \<Longrightarrow> wp m (\<lambda>r w'. P r w' \<and> Q r w') w"
  by (auto simp: wp_def)

lemma wp_ret [wp_rules]: "wp (ret x) Q w = Q (Inr x) w"
  by (simp add: wp_def ret_def)

lemma wp_raise [wp_rules]: "wp (raise e) Q w = Q (Inl e) w"
  by (simp add: wp_def raise_def)

lemma wp_andThen [wp_rules]:
  "wp (andThen m k) Q w = wp m (\<lambda>r w'. case r of Inl e \<Rightarrow> Q (Inl e) w' | Inr x \<Rightarrow> wp (k x) Q w') w"
  by (auto simp: wp_def andThen_def split: option.split prod.split sum.split)

lemma wp_attempt [wp_rules]: "wp (attempt m) Q w = wp m (\<lambda>r. Q (Inr r)) w"
  by (auto simp: wp_def attempt_def)

lemma wp_wrapErr [wp_rules]:
  "wp (wrapErr s m) Q w = wp m (\<lambda>r. Q (case r of Inl e \<Rightarrow> Inl (Errorw s e) | Inr x \<Rightarrow> Inr x)) w"
  by (auto simp: wp_def wrapErr_def)

lemma wp_deferring [wp_rules]: "wp (deferring d m) Q w = wp m (\<lambda>r w'. wp d (\<lambda>_ w''. Q r w'') w') w"
  by (auto simp: wp_def deferring_def split: option.split prod.split)

lemma wp_ignoring [wp_rules]:
  "wp (ignoring m) Q w = wp m (\<lambda>r. Q (case r of Inl e \<Rightarrow> Inl e | Inr _ \<Rightarrow> Inr ())) w"
  by (simp add: ignoring_def wp_andThen) (auto simp: wp_ret intro!: arg_cong2 [where f = "\<lambda>Q. wp m Q"] split: sum.split)

subsection \<open>Traces\<close>

text \<open>
  \<open>grows P tr tr'\<close>: the trace has grown from \<open>tr\<close> to \<open>tr'\<close>, and each new event satisfies \<open>P\<close>
  together with the trace before it.
\<close>

inductive grows :: "('e list \<Rightarrow> 'e \<Rightarrow> bool) \<Rightarrow> 'e list \<Rightarrow> 'e list \<Rightarrow> bool" for P where
  same: "grows P tr tr"
| more: "grows P tr tr' \<Longrightarrow> P tr' e \<Longrightarrow> grows P tr (tr' @ [e])"

lemma grows_trans:
  assumes "grows P a b" and "grows P b c"
  shows "grows P a c"
  using assms(2,1) by (induction rule: grows.induct) (blast intro: grows.more)+

lemma grows_one: "P tr e \<Longrightarrow> grows P tr (tr @ [e])"
  using grows.more [OF grows.same] .

lemma grows_snoc: "P tr' e \<Longrightarrow> grows P tr tr' \<Longrightarrow> grows P tr (tr' @ [e])"
  by (rule grows.more)

lemma grows_mono: "grows P a b \<Longrightarrow> (\<And>tr e. grows P a tr \<Longrightarrow> P tr e \<Longrightarrow> Q tr e) \<Longrightarrow> grows Q a b"
  by (induction rule: grows.induct) (auto intro: grows.intros)

lemma grows_prefix: "grows P a b \<Longrightarrow> \<exists>new. b = a @ new"
  by (induction rule: grows.induct) auto

lemma grows_event:
  assumes "grows P a (a @ pre @ e # post)"
  shows "P (a @ pre) e"
  using assms
proof (induction "a @ pre @ e # post" arbitrary: post rule: grows.induct)
  case (more tr' e')
  then show ?case by (cases post rule: rev_cases) auto
qed simp

lemma grows_iff: "grows P a b \<longleftrightarrow> (\<exists>new. b = a @ new \<and> (\<forall>pre e post. new = pre @ e # post \<longrightarrow> P (a @ pre) e))"
  (is "_ \<longleftrightarrow> ?rhs")
proof
  assume ?rhs
  then obtain new where "b = a @ new" and "\<forall>pre e post. new = pre @ e # post \<longrightarrow> P (a @ pre) e" by blast
  then show "grows P a b"
  proof (induction new arbitrary: b rule: rev_induct)
    case Nil
    then show ?case by (simp add: grows.same)
  next
    case (snoc e new)
    have "grows P a (a @ new)" by (rule snoc.IH) (use snoc.prems(2) in simp_all)
    moreover have "P (a @ new) e" using snoc.prems(2) by simp
    ultimately show ?case using grows.more [of P a "a @ new" e] snoc.prems(1) by simp
  qed
next
  assume g: "grows P a b"
  then obtain new where "b = a @ new" using grows_prefix by blast
  with g show ?rhs using grows_event [of P a] by blast
qed

definition emits_via :: "('w \<Rightarrow> 'e list) \<Rightarrow> ('e list \<Rightarrow> 'e \<Rightarrow> bool) \<Rightarrow> ('w, 'a) program \<Rightarrow> bool" where
  "emits_via tr P m \<longleftrightarrow> (\<forall>w. wp m (\<lambda>_ w'. grows P (tr w) (tr w')) w)"

lemma emits_viaD: "emits_via tr P m \<Longrightarrow> wp m (\<lambda>_ w'. grows P (tr w) (tr w')) w"
  by (simp add: emits_via_def)

lemma emits_via_total: "emits_via tr P m \<Longrightarrow> \<exists>r w'. m w = Some (r, w') \<and> grows P (tr w) (tr w')"
  by (auto simp: emits_via_def wp_def)

lemma emits_via_mono:
  assumes "emits_via tr P m" and "\<And>tr e. P tr e \<Longrightarrow> Q tr e"
  shows "emits_via tr Q m"
  unfolding emits_via_def
proof
  fix w
  show "wp m (\<lambda>_ w'. grows Q (tr w) (tr w')) w"
    by (rule wp_mono [OF emits_viaD [OF assms(1)]]) (erule grows_mono, erule assms(2))
qed

lemma emits_ret [emits_rules]: "emits_via tr P (ret x)"
  by (simp add: emits_via_def wp_rules grows.same)

lemma emits_raise [emits_rules]: "emits_via tr P (raise e)"
  by (simp add: emits_via_def wp_rules grows.same)

lemma emits_andThen [emits_rules]:
  assumes "emits_via tr P m" and "\<And>x. emits_via tr P (k x)"
  shows "emits_via tr P (andThen m k)"
  unfolding emits_via_def wp_andThen
proof
  fix w
  show "wp m (\<lambda>r w'. case r of Inl e \<Rightarrow> grows P (tr w) (tr w')
      | Inr x \<Rightarrow> wp (k x) (\<lambda>_ w'. grows P (tr w) (tr w')) w') w"
  proof (rule wp_mono [OF emits_viaD [OF assms(1)]])
    fix r w'
    assume g: "grows P (tr w) (tr w')"
    have "wp (k x) (\<lambda>_ w'. grows P (tr w) (tr w')) w'" for x
      by (rule wp_mono [OF emits_viaD [OF assms(2)]]) (rule grows_trans [OF g])
    with g show "case r of Inl e \<Rightarrow> grows P (tr w) (tr w')
      | Inr x \<Rightarrow> wp (k x) (\<lambda>_ w'. grows P (tr w) (tr w')) w'" by (simp split: sum.split)
  qed
qed

lemma emits_attempt [emits_rules]: "emits_via tr P m \<Longrightarrow> emits_via tr P (attempt m)"
  by (simp add: emits_via_def wp_attempt)

lemma emits_wrapErr [emits_rules]: "emits_via tr P m \<Longrightarrow> emits_via tr P (wrapErr s m)"
  by (simp add: emits_via_def wp_wrapErr)

lemma emits_ignoring [emits_rules]: "emits_via tr P m \<Longrightarrow> emits_via tr P (ignoring m)"
  unfolding ignoring_def by (intro emits_rules)

lemma emits_via_deferring [emits_rules]:
  assumes "emits_via tr P d" and "emits_via tr P m"
  shows "emits_via tr P (deferring d m)"
  unfolding emits_via_def wp_deferring
proof
  fix w
  show "wp m (\<lambda>r w'. wp d (\<lambda>_ w''. grows P (tr w) (tr w'')) w') w"
    by (rule wp_mono [OF emits_viaD [OF assms(2)]], rule wp_mono [OF emits_viaD [OF assms(1)]], erule grows_trans)
qed

lemma emits_if [emits_rules]: "(b \<Longrightarrow> emits_via tr P m) \<Longrightarrow> (\<not> b \<Longrightarrow> emits_via tr P n) \<Longrightarrow> emits_via tr P (if b then m else n)"
  by simp

lemma emits_option [emits_rules]:
  "emits_via tr P m \<Longrightarrow> (\<And>x. emits_via tr P (k x)) \<Longrightarrow> emits_via tr P (case y of None \<Rightarrow> m | Some x \<Rightarrow> k x)"
  by (simp split: option.split)

lemma emits_sum [emits_rules]:
  "(\<And>e. emits_via tr P (m e)) \<Longrightarrow> (\<And>x. emits_via tr P (k x)) \<Longrightarrow> emits_via tr P (case y of Inl e \<Rightarrow> m e | Inr x \<Rightarrow> k x)"
  by (simp split: sum.split)

lemma wp_emits_via:
  assumes "emits_via tr P m" and "grows P a (tr w)" and "\<And>r w'. grows P a (tr w') \<Longrightarrow> Q r w'"
  shows "wp m Q w"
  by (rule wp_mono [OF emits_viaD [OF assms(1)]]) (rule assms(3), rule grows_trans [OF assms(2)])

end
