(* ===== verification/Thin_Registry.thy ===== *)
theory Thin_Registry
  imports Prelude
begin

text \<open>
  The node's thin pool registry: \<open>internal/thinpool/registry.go\<close>.

  A registry file is absent, corrupt, or the JSON object with each key absent, null or an
  object. \<open>load\<close> and \<open>store\<close> translate between the file and \<open>registryState\<close>, whose Go maps
  may be nil; assigning to an entry of a nil map panics, and a panic is the outcome
  \<open>None\<close>. Timestamps are represented by what \<open>time.Parse\<close> yields for their text: nanoseconds
  since the zero time, or \<open>None\<close> for text that does not parse.
\<close>

section \<open>State and file\<close>

record reservation =
  resBytes :: u64
  resSince :: "int option"

record registryState =
  rNextID :: u32
  rBases :: "(string, u32) gomap"
  rGuests :: "(string, u32) gomap"
  rReady :: "(string, bool) gomap"
  rUsed :: "(string, int option) gomap"
  rCreated :: "(string, bool) gomap"
  rDerived :: "(string, u32) gomap"
  rReserved :: "(string, reservation) gomap"

text \<open>The JSON object: an outer \<open>None\<close> is an absent key, \<open>Some None\<close> is null.\<close>

record registryJSON =
  jNextID :: "u32 option"
  jBases :: "(string, u32) gomap option"
  jGuests :: "(string, u32) gomap option"
  jReady :: "(string, bool) gomap option"
  jUsed :: "(string, int option) gomap option"
  jCreated :: "(string, bool) gomap option"
  jDerived :: "(string, u32) gomap option"
  jReserved :: "(string, reservation) gomap option"

datatype regfile = Absent | Corrupt | Stored registryJSON

definition firstDeviceID :: u32 where
  "firstDeviceID = 1"

definition reservationTTL :: int where
  "reservationTTL = 6 * 3600 * 1000000000"

text \<open>A field whose key is absent keeps its initial value.\<close>

definition unmarshal_field :: "'a \<Rightarrow> 'a option \<Rightarrow> 'a" where
  "unmarshal_field dflt x = (case x of None \<Rightarrow> dflt | Some v \<Rightarrow> v)"

definition load :: "regfile \<Rightarrow> registryState res" where
  "load f =
     (case f of
        Absent \<Rightarrow>
          Inr \<lparr>rNextID = firstDeviceID, rBases = Some [], rGuests = Some [], rReady = Some [], rUsed = None,
               rCreated = Some [], rDerived = None, rReserved = None\<rparr>
      | Corrupt \<Rightarrow> Inl (Errorf ''registry is corrupt; refusing to allocate over an existing pool'')
      | Stored j \<Rightarrow>
          let n = unmarshal_field firstDeviceID (jNextID j);
              bases = gm_make (unmarshal_field (Some []) (jBases j));
              guests = gm_make (unmarshal_field (Some []) (jGuests j));
              ready = gm_make (unmarshal_field (Some []) (jReady j));
              created = unmarshal_field None (jCreated j)
          in Inr \<lparr>rNextID = (if n < firstDeviceID then firstDeviceID else n), rBases = bases, rGuests = guests,
                  rReady = ready, rUsed = unmarshal_field None (jUsed j),
                  rCreated = (case created of None \<Rightarrow> Some (map (\<lambda>(k, _). (k, True)) (gm_list guests)) | Some c \<Rightarrow> Some c),
                  rDerived = unmarshal_field None (jDerived j), rReserved = unmarshal_field None (jReserved j)\<rparr>)"

definition omitempty :: "('k, 'v) gomap \<Rightarrow> ('k, 'v) gomap option" where
  "omitempty m = (if gm_list m = [] then None else Some m)"

definition marshal :: "registryState \<Rightarrow> registryJSON" where
  "marshal st =
     \<lparr>jNextID = Some (rNextID st), jBases = omitempty (rBases st), jGuests = omitempty (rGuests st),
      jReady = omitempty (rReady st), jUsed = omitempty (rUsed st), jCreated = Some (rCreated st),
      jDerived = omitempty (rDerived st), jReserved = omitempty (rReserved st)\<rparr>"

text \<open>
  I/O outcomes of one locked section: taking the lock and reading may fail, and storing may
  fail before the rename, leaving the old file, or after it, with the new file in place.
\<close>

datatype store_outcome = StoreOK | StoreFailed goerr | SyncFailed goerr

record regio =
  ioLock :: "goerr option"
  ioStore :: store_outcome

definition reg_ok :: regio where
  "reg_ok = \<lparr>ioLock = None, ioStore = StoreOK\<rparr>"

definition store :: "regio \<Rightarrow> registryState \<Rightarrow> regfile \<Rightarrow> goerr option \<times> regfile" where
  "store io st f =
     (case ioStore io of
        StoreOK \<Rightarrow> (None, Stored (marshal st))
      | StoreFailed e \<Rightarrow> (Some e, f)
      | SyncFailed e \<Rightarrow> (Some e, Stored (marshal st)))"

text \<open>
  A locked section: its result, whether it changed the state, and the state; \<open>None\<close> when
  it panics.
\<close>

type_synonym 'a locked = "registryState \<Rightarrow> ((goerr + 'a \<times> bool) \<times> registryState) option"

definition withLock :: "regio \<Rightarrow> 'a locked \<Rightarrow> regfile \<Rightarrow> ('a res \<times> regfile) option" where
  "withLock io mutate f =
     (case ioLock io of
        Some e \<Rightarrow> Some (Inl e, f)
      | None \<Rightarrow>
          (case load f of
             Inl e \<Rightarrow> Some (Inl e, f)
           | Inr st \<Rightarrow>
               (case mutate st of
                  None \<Rightarrow> None
                | Some (Inl e, _) \<Rightarrow> Some (Inl e, f)
                | Some (Inr (x, False), _) \<Rightarrow> Some (Inr x, f)
                | Some (Inr (x, True), st') \<Rightarrow>
                    (case store io st' f of
                       (Some e, f') \<Rightarrow> Some (Inl e, f')
                     | (None, f') \<Rightarrow> Some (Inr x, f')))))"

section \<open>Operations\<close>

definition reading :: "(registryState \<Rightarrow> 'a) \<Rightarrow> 'a locked" where
  "reading g st = Some (Inr (g st, False), st)"

definition BaseID :: "regio \<Rightarrow> string \<Rightarrow> regfile \<Rightarrow> (u32 option res \<times> regfile) option" where
  "BaseID io digest = withLock io (reading (\<lambda>st. gm_get (rBases st) digest))"

definition GuestID :: "regio \<Rightarrow> string \<Rightarrow> regfile \<Rightarrow> (u32 option res \<times> regfile) option" where
  "GuestID io key = withLock io (reading (\<lambda>st. gm_get (rGuests st) key))"

text \<open>\<open>allocate\<close> with its accessors: \<open>get\<close> and \<open>put\<close> pick the map.\<close>

definition allocate_section ::
  "(registryState \<Rightarrow> (string, u32) gomap) \<Rightarrow> ((string, u32) gomap \<Rightarrow> registryState \<Rightarrow> registryState) \<Rightarrow>
   string \<Rightarrow> (u32 \<times> bool) locked" where
  "allocate_section get put key st =
     (let m = gm_make (get st)
      in case gm_get m key of
           Some existing \<Rightarrow> Some (Inr ((existing, False), False), st)
         | None \<Rightarrow>
             (case gm_put m key (rNextID st) of
                None \<Rightarrow> None
              | Some m' \<Rightarrow> Some (Inr ((rNextID st, True), True), put m' (st\<lparr>rNextID := rNextID st + 1\<rparr>))))"

definition allocate ::
  "regio \<Rightarrow> (registryState \<Rightarrow> (string, u32) gomap) \<Rightarrow> ((string, u32) gomap \<Rightarrow> registryState \<Rightarrow> registryState) \<Rightarrow>
   string \<Rightarrow> regfile \<Rightarrow> ((u32 \<times> bool) res \<times> regfile) option" where
  "allocate io get put key f =
     (if key = '''' then Some (Inl (Errorf ''thinpool registry: empty key''), f)
      else withLock io (allocate_section get put key) f)"

definition AllocateBase :: "regio \<Rightarrow> string \<Rightarrow> regfile \<Rightarrow> ((u32 \<times> bool) res \<times> regfile) option" where
  "AllocateBase io = allocate io rBases (\<lambda>m st. st\<lparr>rBases := m\<rparr>)"

definition AllocateGuest :: "regio \<Rightarrow> string \<Rightarrow> regfile \<Rightarrow> ((u32 \<times> bool) res \<times> regfile) option" where
  "AllocateGuest io = allocate io rGuests (\<lambda>m st. st\<lparr>rGuests := m\<rparr>)"

definition Advance_section :: "u32 \<Rightarrow> unit locked" where
  "Advance_section past st =
     (if rNextID st > past then Some (Inr ((), False), st)
      else Some (Inr ((), True), st\<lparr>rNextID := past + 1\<rparr>))"

definition Advance :: "regio \<Rightarrow> u32 \<Rightarrow> regfile \<Rightarrow> (unit res \<times> regfile) option" where
  "Advance io past = withLock io (Advance_section past)"

definition Forget_section :: "string \<Rightarrow> unit locked" where
  "Forget_section key st =
     (if gm_get (rGuests st) key = None then Some (Inr ((), False), st)
      else Some (Inr ((), True), st\<lparr>rGuests := gm_delete (rGuests st) key, rCreated := gm_delete (rCreated st) key,
                                     rDerived := gm_delete (rDerived st) key\<rparr>))"

definition Forget :: "regio \<Rightarrow> string \<Rightarrow> regfile \<Rightarrow> (unit res \<times> regfile) option" where
  "Forget io key = withLock io (Forget_section key)"

definition GuestCreated :: "regio \<Rightarrow> string \<Rightarrow> regfile \<Rightarrow> (bool res \<times> regfile) option" where
  "GuestCreated io key = withLock io (reading (\<lambda>st. gm_bool (rCreated st) key))"

definition MarkGuestCreated_section :: "string \<Rightarrow> u32 \<Rightarrow> unit locked" where
  "MarkGuestCreated_section key baseID st =
     (if gm_get (rGuests st) key = None then
        Some (Inl (Errorf (''marking guest '' @ key @ '' created: no id allocated for it'')), st)
      else if gm_bool (rCreated st) key \<and> (case gm_get (rDerived st) key of None \<Rightarrow> 0 | Some b \<Rightarrow> b) = baseID then
        Some (Inr ((), False), st)
      else case gm_put (rCreated st) key True of
             None \<Rightarrow> None
           | Some c \<Rightarrow>
               (case gm_put (gm_make (rDerived st)) key baseID of
                  None \<Rightarrow> None
                | Some d \<Rightarrow> Some (Inr ((), True), st\<lparr>rCreated := c, rDerived := d\<rparr>)))"

definition MarkGuestCreated :: "regio \<Rightarrow> string \<Rightarrow> u32 \<Rightarrow> regfile \<Rightarrow> (unit res \<times> regfile) option" where
  "MarkGuestCreated io key baseID = withLock io (MarkGuestCreated_section key baseID)"

definition ForgetBase_section :: "string \<Rightarrow> unit locked" where
  "ForgetBase_section digest st =
     (if gm_get (rBases st) digest = None then Some (Inr ((), False), st)
      else Some (Inr ((), True), st\<lparr>rBases := gm_delete (rBases st) digest, rUsed := gm_delete (rUsed st) digest,
                                     rReady := gm_delete (rReady st) digest\<rparr>))"

definition ForgetBase :: "regio \<Rightarrow> string \<Rightarrow> regfile \<Rightarrow> (unit res \<times> regfile) option" where
  "ForgetBase io digest = withLock io (ForgetBase_section digest)"

definition BaseReady :: "regio \<Rightarrow> string \<Rightarrow> regfile \<Rightarrow> (bool res \<times> regfile) option" where
  "BaseReady io digest = withLock io (reading (\<lambda>st. gm_bool (rReady st) digest))"

definition MarkBaseReady_section :: "string \<Rightarrow> unit locked" where
  "MarkBaseReady_section digest st =
     (if gm_get (rBases st) digest = None then
        Some (Inl (Errorf (''marking '' @ digest @ '' ready: no base allocated for it'')), st)
      else if gm_bool (rReady st) digest then Some (Inr ((), False), st)
      else case gm_put (rReady st) digest True of
             None \<Rightarrow> None
           | Some r \<Rightarrow> Some (Inr ((), True), st\<lparr>rReady := r\<rparr>))"

definition MarkBaseReady :: "regio \<Rightarrow> string \<Rightarrow> regfile \<Rightarrow> (unit res \<times> regfile) option" where
  "MarkBaseReady io digest = withLock io (MarkBaseReady_section digest)"

text \<open>
  \<open>Reserve\<close>: \<open>free\<close> is the result of the probe run under the lock, \<open>now\<close> the clock. The claims
  of other keys that do not parse or are past the lifetime are dropped, the rest are summed
  in 64 bits.
\<close>

definition lapsed :: "int \<Rightarrow> reservation \<Rightarrow> bool" where
  "lapsed now res = (case resSince res of None \<Rightarrow> True | Some since \<Rightarrow> now - since > reservationTTL)"

definition Reserve_section :: "string \<Rightarrow> u64 \<Rightarrow> u64 res \<Rightarrow> int \<Rightarrow> (bool \<times> u64) locked" where
  "Reserve_section key bytes free now st =
     (case free of
        Inl e \<Rightarrow> Some (Inl e, st)
      | Inr f \<Rightarrow>
          let kept = filter (\<lambda>x. fst x = key \<or> \<not> lapsed now (snd x)) (gm_list (rReserved st));
              changed = (kept \<noteq> gm_list (rReserved st));
              st1 = st\<lparr>rReserved := map_option (\<lambda>_. kept) (rReserved st)\<rparr>;
              held = sum_list (map (\<lambda>x. resBytes (snd x)) (filter (\<lambda>x. fst x \<noteq> key) kept));
              available = (if f > held then f - held else 0)
          in if available < bytes then Some (Inr ((False, available), changed), st1)
             else case gm_put (gm_make (rReserved st1)) key \<lparr>resBytes = bytes, resSince = Some now\<rparr> of
                    None \<Rightarrow> None
                  | Some m \<Rightarrow> Some (Inr ((True, available), True), st1\<lparr>rReserved := m\<rparr>))"

definition Reserve :: "regio \<Rightarrow> string \<Rightarrow> u64 \<Rightarrow> u64 res \<Rightarrow> int \<Rightarrow> regfile \<Rightarrow> ((bool \<times> u64) res \<times> regfile) option" where
  "Reserve io key bytes free now = withLock io (Reserve_section key bytes free now)"

definition Unreserve_section :: "string \<Rightarrow> unit locked" where
  "Unreserve_section key st =
     (if gm_get (rReserved st) key = None then Some (Inr ((), False), st)
      else Some (Inr ((), True), st\<lparr>rReserved := gm_delete (rReserved st) key\<rparr>))"

definition Unreserve :: "regio \<Rightarrow> string \<Rightarrow> regfile \<Rightarrow> (unit res \<times> regfile) option" where
  "Unreserve io key = withLock io (Unreserve_section key)"

definition TouchBase_section :: "string \<Rightarrow> int \<Rightarrow> unit locked" where
  "TouchBase_section digest now st =
     (if gm_get (rBases st) digest = None then Some (Inr ((), False), st)
      else case gm_put (gm_make (rUsed st)) digest (Some now) of
             None \<Rightarrow> None
           | Some u \<Rightarrow> Some (Inr ((), True), st\<lparr>rUsed := u\<rparr>))"

definition TouchBase :: "regio \<Rightarrow> string \<Rightarrow> int \<Rightarrow> regfile \<Rightarrow> (unit res \<times> regfile) option" where
  "TouchBase io digest now = withLock io (TouchBase_section digest now)"

text \<open>
  The order of eviction. A base without a parseable last use has the zero time. Go sorts
  in place with a comparison; \<open>sort_key\<close> on the pair of time and digest is that order.
\<close>

definition used_at :: "registryState \<Rightarrow> string \<Rightarrow> int" where
  "used_at st d = (case gm_get (rUsed st) d of Some (Some t) \<Rightarrow> t | _ \<Rightarrow> 0)"

definition lruOrder :: "registryState \<Rightarrow> string list \<Rightarrow> string list" where
  "lruOrder st digests = sort_key (\<lambda>d. (used_at st d, d)) digests"

definition base_digests :: "registryState \<Rightarrow> string list" where
  "base_digests st = map fst (gm_list (rBases st))"

definition BasesByLeastRecentUse :: "regio \<Rightarrow> regfile \<Rightarrow> (string list res \<times> regfile) option" where
  "BasesByLeastRecentUse io = withLock io (reading (\<lambda>st. lruOrder st (base_digests st)))"

definition inUse :: "registryState \<Rightarrow> u32 list" where
  "inUse st = map snd (filter (\<lambda>(g, _). gm_get (rGuests st) g \<noteq> None) (gm_list (rDerived st)))"

definition EvictionOrder_of :: "registryState \<Rightarrow> string list \<times> nat" where
  "EvictionOrder_of st =
     (let used = inUse st;
          held = map fst (filter (\<lambda>(d, i). i \<in> set used) (gm_list (rBases st)));
          free = map fst (filter (\<lambda>(d, i). i \<notin> set used) (gm_list (rBases st)))
      in (lruOrder st free @ lruOrder st held, length held))"

definition EvictionOrder :: "regio \<Rightarrow> regfile \<Rightarrow> ((string list \<times> nat) res \<times> regfile) option" where
  "EvictionOrder io = withLock io (reading EvictionOrder_of)"

definition Bases :: "regio \<Rightarrow> regfile \<Rightarrow> (string list res \<times> regfile) option" where
  "Bases io = withLock io (reading (\<lambda>st. sort (base_digests st)))"

section \<open>The invariant of a loaded registry\<close>

text \<open>
  What \<open>load\<close> establishes and every section keeps: the four maps that sections assign to
  directly are not nil, every handed out id is below the next one, no two entries share an
  id, and the unlapsed claims do not exceed 64 bits.
\<close>

definition all_ids :: "registryState \<Rightarrow> u32 list" where
  "all_ids st = map snd (gm_list (rBases st)) @ map snd (gm_list (rGuests st))"

definition maps_made :: "registryState \<Rightarrow> bool" where
  "maps_made st \<longleftrightarrow> rBases st \<noteq> None \<and> rGuests st \<noteq> None \<and> rReady st \<noteq> None \<and> rCreated st \<noteq> None"

definition maps_ok :: "registryState \<Rightarrow> bool" where
  "maps_ok st \<longleftrightarrow> gm_ok (rBases st) \<and> gm_ok (rGuests st) \<and> gm_ok (rReady st) \<and> gm_ok (rUsed st) \<and> gm_ok (rCreated st) \<and>
     gm_ok (rDerived st) \<and> gm_ok (rReserved st)"

definition ids_ok :: "registryState \<Rightarrow> bool" where
  "ids_ok st \<longleftrightarrow> distinct (all_ids st) \<and> (\<forall>i \<in> set (all_ids st). i < rNextID st)"

definition claims_total :: "registryState \<Rightarrow> nat" where
  "claims_total st = sum_list (map (\<lambda>x. unat (resBytes (snd x))) (gm_list (rReserved st)))"

definition ready_known :: "registryState \<Rightarrow> bool" where
  "ready_known st \<longleftrightarrow>
     (\<forall>d. gm_bool (rReady st) d \<longrightarrow> gm_get (rBases st) d \<noteq> None) \<and>
     (\<forall>g. gm_bool (rCreated st) g \<longrightarrow> gm_get (rGuests st) g \<noteq> None)"

definition reg_inv :: "registryState \<Rightarrow> bool" where
  "reg_inv st \<longleftrightarrow> maps_made st \<and> maps_ok st \<and> ids_ok st \<and> claims_total st < 2 ^ 64 \<and> ready_known st \<and> 1 \<le> rNextID st"

section \<open>Lemmas\<close>

subsection \<open>Maps\<close>

lemma update_fresh: "k \<notin> fst ` set xs \<Longrightarrow> AList.update k v xs = xs @ [(k, v)]"
  by (induction xs) auto

lemma gm_get_None_iff: "gm_get m k = None \<longleftrightarrow> k \<notin> fst ` set (gm_list m)"
  by (simp add: gm_get_def map_of_eq_None_iff)

lemma gm_put_fresh:
  "gm_get m k = None \<Longrightarrow> gm_put m k v = Some m' \<Longrightarrow> gm_list m' = gm_list m @ [(k, v)]"
  by (auto simp: gm_put_def gm_get_None_iff gm_list_def update_fresh split: option.splits)

lemma gm_list_delete: "gm_list (gm_delete m k) = filter (\<lambda>(k', _). k' \<noteq> k) (gm_list m)"
  by (auto simp: gm_delete_def gm_list_def AList.delete_eq split: option.split intro!: filter_cong)

lemma gm_put_make [simp]: "gm_put (gm_make m) k v \<noteq> None"
  by (simp add: gm_put_def gm_make_def split: option.split)

lemma gm_put_Some_neq [simp]: "gm_put (Some xs) k v \<noteq> None"
  by (simp add: gm_put_def)

lemma gm_list_make [simp]: "gm_list (gm_make m) = gm_list m"
  by (simp add: gm_make_def gm_list_def split: option.split)

lemma map_snd_filter_subseq: "set (map snd (filter P xs)) \<subseteq> set (map snd xs)"
  by auto

lemma distinct_map_snd_filter: "distinct (map snd xs) \<Longrightarrow> distinct (map snd (filter P xs))"
  by (induction xs) auto

lemma unat_sum_list:
  "sum_list (map (\<lambda>w. unat (w :: u64)) ws) < 2 ^ 64 \<Longrightarrow> unat (sum_list ws) = sum_list (map unat ws)"
proof (induction ws)
  case (Cons w ws)
  then have "unat (sum_list ws) = sum_list (map unat ws)" by simp
  with Cons.prems have "unat w + unat (sum_list ws) < 2 ^ LENGTH(64)" by simp
  then have "unat (w + sum_list ws) = unat w + unat (sum_list ws)" by (simp add: unat_word_ariths)
  with \<open>unat (sum_list ws) = _\<close> show ?case by simp
qed simp

subsection \<open>Loading what was stored\<close>

definition nil_empty :: "('k, 'v) gomap \<Rightarrow> ('k, 'v) gomap" where
  "nil_empty m = (if gm_list m = [] then None else m)"

definition drop_empty :: "registryState \<Rightarrow> registryState" where
  "drop_empty st = st\<lparr>rUsed := nil_empty (rUsed st), rDerived := nil_empty (rDerived st), rReserved := nil_empty (rReserved st)\<rparr>"

lemma gm_list_nil_empty [simp]: "gm_list (nil_empty m) = gm_list m"
  by (simp add: nil_empty_def gm_list_def)

lemma gm_get_nil_empty [simp]: "gm_get (nil_empty m) k = gm_get m k"
  by (simp add: gm_get_def)

lemma gm_ok_nil_empty [simp]: "gm_ok (nil_empty m) = gm_ok m"
  by (simp add: gm_ok_def)

lemma unmarshal_present [simp]: "unmarshal_field d (Some v) = v"
  by (simp add: unmarshal_field_def)

lemma omitempty_made: "m \<noteq> None \<Longrightarrow> gm_make (unmarshal_field (Some []) (omitempty m)) = m"
  by (auto simp: omitempty_def unmarshal_field_def gm_make_def gm_list_def split: option.split)

lemma omitempty_nil: "unmarshal_field None (omitempty m) = nil_empty m"
  by (simp add: omitempty_def unmarshal_field_def nil_empty_def)

lemma load_marshal:
  assumes "maps_made st" and "1 \<le> rNextID st"
  shows "load (Stored (marshal st)) = Inr (drop_empty st)"
proof -
  have "\<not> rNextID st < firstDeviceID" using assms(2) unfolding firstDeviceID_def by (rule leD)
  then show ?thesis
    using assms(1)
    by (auto simp: load_def marshal_def Let_def omitempty_made omitempty_nil maps_made_def drop_empty_def)
qed

lemma reg_inv_drop_empty [simp]: "reg_inv (drop_empty st) = reg_inv st"
  by (simp add: reg_inv_def drop_empty_def maps_made_def maps_ok_def ids_ok_def all_ids_def claims_total_def ready_known_def)

lemma rNextID_drop_empty [simp]: "rNextID (drop_empty st) = rNextID st"
  by (simp add: drop_empty_def)

definition file_ok :: "regfile \<Rightarrow> bool" where
  "file_ok f \<longleftrightarrow> (\<exists>st. load f = Inr st \<and> reg_inv st)"

definition next_id :: "regfile \<Rightarrow> u32" where
  "next_id f = (case load f of Inr st \<Rightarrow> rNextID st | Inl _ \<Rightarrow> 0)"

lemma file_ok_Absent: "file_ok Absent"
  by (simp add: file_ok_def load_def reg_inv_def maps_made_def maps_ok_def ids_ok_def all_ids_def claims_total_def
      ready_known_def firstDeviceID_def gm_list_def gm_bool_def)

lemma reg_inv_made: "reg_inv st \<Longrightarrow> maps_made st" "reg_inv st \<Longrightarrow> 1 \<le> rNextID st"
  by (simp_all add: reg_inv_def)

lemma file_ok_Stored:
  "reg_inv st \<Longrightarrow> file_ok (Stored (marshal st)) \<and> next_id (Stored (marshal st)) = rNextID st"
  using load_marshal [OF reg_inv_made] by (simp add: file_ok_def next_id_def)

section \<open>Locked sections\<close>

text \<open>
  The contract of a locked section: on a well-formed state that satisfies its guard it does
  not panic, and if it reports a change, the state is well-formed and the next id has not
  moved back.
\<close>

locale locked_section =
  fixes mutate :: "'a locked" and guard :: "registryState \<Rightarrow> bool"
  assumes total: "reg_inv st \<Longrightarrow> guard st \<Longrightarrow> mutate st \<noteq> None"
    and keeps: "reg_inv st \<Longrightarrow> guard st \<Longrightarrow> mutate st = Some (Inr (x, True), st') \<Longrightarrow>
                reg_inv st' \<and> rNextID st \<le> rNextID st'"
begin

lemma withLock_safe:
  assumes "file_ok f" and "\<And>st. load f = Inr st \<Longrightarrow> guard st"
  shows "\<exists>r f'. withLock io mutate f = Some (r, f') \<and> file_ok f' \<and> next_id f \<le> next_id f'"
proof -
  from assms(1) obtain st where st: "load f = Inr st" "reg_inv st" by (auto simp: file_ok_def)
  with assms(2) have g: "guard st" by blast
  from total [OF st(2) g] obtain r st' where m: "mutate st = Some (r, st')" by fastforce
  have nx: "next_id f = rNextID st" by (simp add: next_id_def st)
  consider (quiet) "\<exists>r f'. withLock io mutate f = Some (r, f') \<and> f' = f"
    | (change) x where "r = Inr (x, True)"
        "\<exists>r f'. withLock io mutate f = Some (r, f') \<and> (f' = f \<or> f' = Stored (marshal st'))"
  proof (cases "\<exists>x. r = Inr (x, True)")
    case True
    then obtain x where "r = Inr (x, True)" by blast
    moreover from this m st(1) have "\<exists>r f'. withLock io mutate f = Some (r, f') \<and> (f' = f \<or> f' = Stored (marshal st'))"
      by (cases "ioLock io"; cases "ioStore io") (auto simp: withLock_def store_def)
    ultimately show ?thesis by (rule change)
  next
    case False
    then have "\<exists>r f'. withLock io mutate f = Some (r, f') \<and> f' = f"
      using m st(1) by (cases "ioLock io"; cases r) (auto simp: withLock_def split: bool.splits)
    then show ?thesis by (rule quiet)
  qed
  then show ?thesis
  proof cases
    case quiet
    with assms(1) show ?thesis by auto
  next
    case change
    from keeps [OF st(2) g] m change(1) have k: "reg_inv st'" "rNextID st \<le> rNextID st'" by blast+
    from change(2) show ?thesis using assms(1) file_ok_Stored [OF k(1)] k(2) nx by auto
  qed
qed

end

subsection \<open>The sections satisfy the contract\<close>

definition ids_left :: "registryState \<Rightarrow> bool" where
  "ids_left st \<longleftrightarrow> rNextID st < - 1"

lemma next_grows: "ids_left st \<Longrightarrow> rNextID st < rNextID st + 1"
  unfolding ids_left_def word_less_nat_alt
  by (simp add: unat_word_ariths unsigned_minus_1_eq_mask mask_eq_exp_minus_1)

lemma reading_section: "locked_section (reading g) (\<lambda>_. True)"
  by unfold_locales (simp_all add: reading_def)

lemma all_ids_fresh:
  assumes "ids_ok st" and "ids_left st"
  shows "distinct (all_ids st @ [rNextID st])" and "\<forall>i \<in> set (all_ids st @ [rNextID st]). i < rNextID st + 1"
  using assms next_grows [OF assms(2)] by (auto simp: ids_ok_def)

lemma ids_ok_fresh:
  assumes "ids_ok st" and "ids_left st" and "distinct (all_ids st) \<Longrightarrow> rNextID st \<notin> set (all_ids st) \<Longrightarrow> distinct (all_ids st')"
    and "set (all_ids st') = insert (rNextID st) (set (all_ids st))" and "rNextID st' = rNextID st + 1"
  shows "ids_ok st'"
  using all_ids_fresh [OF assms(1,2)] assms(3-5) by (auto simp: ids_ok_def)

lemma claims_same: "rReserved st' = rReserved st \<Longrightarrow> claims_total st' = claims_total st"
  by (simp add: claims_total_def)

lemma allocate_base_section:
  "locked_section (allocate_section rBases (\<lambda>m st. st\<lparr>rBases := m\<rparr>) key) ids_left"
proof
  fix st
  assume inv: "reg_inv st" and left: "ids_left st"
  show "allocate_section rBases (\<lambda>m st. st\<lparr>rBases := m\<rparr>) key st \<noteq> None"
    by (auto simp: allocate_section_def Let_def simp del: not_None_eq split: option.split)
  fix x st'
  assume "allocate_section rBases (\<lambda>m st. st\<lparr>rBases := m\<rparr>) key st = Some (Inr (x, True), st')"
  then obtain m where m: "gm_get (rBases st) key = None" "gm_put (gm_make (rBases st)) key (rNextID st) = Some m"
    and st': "st' = st\<lparr>rNextID := rNextID st + 1, rBases := m\<rparr>"
    by (auto simp: allocate_section_def Let_def split: option.splits)
  have l: "gm_list m = gm_list (rBases st) @ [(key, rNextID st)]"
    using gm_put_fresh [OF _ m(2)] m(1) by simp
  have ids: "ids_ok st'"
  proof (rule ids_ok_fresh [of st])
    show "ids_ok st" using inv by (simp add: reg_inv_def)
    show "ids_left st" by (rule left)
    show "set (all_ids st') = insert (rNextID st) (set (all_ids st))" by (auto simp: all_ids_def st' l)
    show "rNextID st' = rNextID st + 1" by (simp add: st')
    show "distinct (all_ids st')" if "distinct (all_ids st)" "rNextID st \<notin> set (all_ids st)"
      using that by (simp add: all_ids_def st' l)
  qed
  have get: "gm_get m k = (if k = key then Some (rNextID st) else gm_get (rBases st) k)" for k
    using gm_get_put [OF m(2)] by simp
  have "gm_ok m" using gm_ok_put [OF _ m(2)] inv by (simp add: reg_inv_def maps_ok_def)
  then have "maps_ok st'" "maps_made st'"
    using inv gm_put_not_None [OF m(2)] by (simp_all add: reg_inv_def maps_ok_def maps_made_def st')
  moreover have "ready_known st'"
    using inv by (simp add: reg_inv_def ready_known_def st' get)
  moreover note grow = less_imp_le [OF next_grows [OF left]]
  moreover have "1 \<le> rNextID st + 1"
    using reg_inv_made(2) [OF inv] grow by (rule order_trans)
  ultimately show "reg_inv st' \<and> rNextID st \<le> rNextID st'"
    using inv ids by (simp add: reg_inv_def claims_total_def st')
qed

lemma allocate_guest_section:
  "locked_section (allocate_section rGuests (\<lambda>m st. st\<lparr>rGuests := m\<rparr>) key) ids_left"
proof
  fix st
  assume inv: "reg_inv st" and left: "ids_left st"
  show "allocate_section rGuests (\<lambda>m st. st\<lparr>rGuests := m\<rparr>) key st \<noteq> None"
    by (auto simp: allocate_section_def Let_def simp del: not_None_eq split: option.split)
  fix x st'
  assume "allocate_section rGuests (\<lambda>m st. st\<lparr>rGuests := m\<rparr>) key st = Some (Inr (x, True), st')"
  then obtain m where m: "gm_get (rGuests st) key = None" "gm_put (gm_make (rGuests st)) key (rNextID st) = Some m"
    and st': "st' = st\<lparr>rNextID := rNextID st + 1, rGuests := m\<rparr>"
    by (auto simp: allocate_section_def Let_def split: option.splits)
  have l: "gm_list m = gm_list (rGuests st) @ [(key, rNextID st)]"
    using gm_put_fresh [OF _ m(2)] m(1) by simp
  have ids: "ids_ok st'"
  proof (rule ids_ok_fresh [of st])
    show "ids_ok st" using inv by (simp add: reg_inv_def)
    show "ids_left st" by (rule left)
    show "set (all_ids st') = insert (rNextID st) (set (all_ids st))" by (auto simp: all_ids_def st' l)
    show "rNextID st' = rNextID st + 1" by (simp add: st')
    show "distinct (all_ids st')" if "distinct (all_ids st)" "rNextID st \<notin> set (all_ids st)"
      using that by (simp add: all_ids_def st' l)
  qed
  have get: "gm_get m k = (if k = key then Some (rNextID st) else gm_get (rGuests st) k)" for k
    using gm_get_put [OF m(2)] by simp
  have "gm_ok m" using gm_ok_put [OF _ m(2)] inv by (simp add: reg_inv_def maps_ok_def)
  then have "maps_ok st'" "maps_made st'"
    using inv gm_put_not_None [OF m(2)] by (simp_all add: reg_inv_def maps_ok_def maps_made_def st')
  moreover have "ready_known st'"
    using inv by (simp add: reg_inv_def ready_known_def st' get)
  moreover note grow = less_imp_le [OF next_grows [OF left]]
  moreover have "1 \<le> rNextID st + 1"
    using reg_inv_made(2) [OF inv] grow by (rule order_trans)
  ultimately show "reg_inv st' \<and> rNextID st \<le> rNextID st'"
    using inv ids by (simp add: reg_inv_def claims_total_def st')
qed

lemma Advance_locked: "locked_section (Advance_section past) (\<lambda>_. past < - 1)"
proof
  fix st
  assume inv: "reg_inv st" and p: "past < - 1"
  show "Advance_section past st \<noteq> None" by (simp add: Advance_section_def)
  fix x st'
  assume "Advance_section past st = Some (Inr (x, True), st')"
  then have st': "st' = st\<lparr>rNextID := past + 1\<rparr>" and le: "rNextID st \<le> past"
    by (auto simp: Advance_section_def split: if_splits)
  have "past < past + 1" using next_grows [of "st\<lparr>rNextID := past\<rparr>"] p by (simp add: ids_left_def)
  with le have lt: "rNextID st < past + 1" by (rule le_less_trans)
  have "ids_ok st'" using inv lt by (auto simp: reg_inv_def ids_ok_def all_ids_def st' intro: less_trans)
  moreover have "1 \<le> past + 1" using reg_inv_made(2) [OF inv] less_imp_le [OF lt] by (rule order_trans)
  ultimately show "reg_inv st' \<and> rNextID st \<le> rNextID st'"
    using inv lt
    by (simp add: reg_inv_def st' maps_made_def maps_ok_def claims_total_def ready_known_def less_imp_le)
qed

lemma ids_ok_delete:
  assumes "ids_ok st" and "rNextID st' = rNextID st"
    and "gm_list (rBases st') = filter P (gm_list (rBases st))" and "gm_list (rGuests st') = filter Q (gm_list (rGuests st))"
  shows "ids_ok st'"
proof -
  have "set (map snd (filter P (gm_list (rBases st)))) \<subseteq> set (map snd (gm_list (rBases st)))"
    "set (map snd (filter Q (gm_list (rGuests st)))) \<subseteq> set (map snd (gm_list (rGuests st)))"
    by (rule map_snd_filter_subseq)+
  moreover have "distinct (map snd (filter P (gm_list (rBases st))))" "distinct (map snd (filter Q (gm_list (rGuests st))))"
    using assms(1) by (simp_all add: ids_ok_def all_ids_def distinct_map_snd_filter)
  ultimately show ?thesis
    using assms unfolding ids_ok_def all_ids_def by (simp only: distinct_append set_append) blast
qed

lemma ids_ok_same:
  "ids_ok st \<Longrightarrow> rNextID st' = rNextID st \<Longrightarrow> rBases st' = rBases st \<Longrightarrow> rGuests st' = rGuests st \<Longrightarrow> ids_ok st'"
  by (simp add: ids_ok_def all_ids_def)

lemma Forget_locked: "locked_section (Forget_section key) (\<lambda>_. True)"
proof
  fix st
  assume inv: "reg_inv st"
  show "Forget_section key st \<noteq> None" by (simp add: Forget_section_def)
  fix x st'
  assume "Forget_section key st = Some (Inr (x, True), st')"
  then have st': "st' = st\<lparr>rGuests := gm_delete (rGuests st) key, rCreated := gm_delete (rCreated st) key,
      rDerived := gm_delete (rDerived st) key\<rparr>"
    by (auto simp: Forget_section_def split: if_splits)
  have "ids_ok st'"
    using inv by (intro ids_ok_delete [of st st' "\<lambda>_. True" "\<lambda>(k', _). k' \<noteq> key"]) (simp_all add: reg_inv_def st' gm_list_delete)
  moreover have "ready_known st'" using inv by (auto simp: reg_inv_def ready_known_def st' gm_bool_delete gm_get_delete)
  ultimately show "reg_inv st' \<and> rNextID st \<le> rNextID st'"
    using inv by (simp add: reg_inv_def maps_made_def maps_ok_def claims_total_def st')
qed

lemma ForgetBase_locked: "locked_section (ForgetBase_section digest) (\<lambda>_. True)"
proof
  fix st
  assume inv: "reg_inv st"
  show "ForgetBase_section digest st \<noteq> None" by (simp add: ForgetBase_section_def)
  fix x st'
  assume "ForgetBase_section digest st = Some (Inr (x, True), st')"
  then have st': "st' = st\<lparr>rBases := gm_delete (rBases st) digest, rUsed := gm_delete (rUsed st) digest,
      rReady := gm_delete (rReady st) digest\<rparr>"
    by (auto simp: ForgetBase_section_def split: if_splits)
  have "ids_ok st'"
    using inv by (intro ids_ok_delete [of st st' "\<lambda>(k', _). k' \<noteq> digest" "\<lambda>_. True"]) (simp_all add: reg_inv_def st' gm_list_delete)
  moreover have "ready_known st'" using inv by (auto simp: reg_inv_def ready_known_def st' gm_bool_delete gm_get_delete)
  ultimately show "reg_inv st' \<and> rNextID st \<le> rNextID st'"
    using inv by (simp add: reg_inv_def maps_made_def maps_ok_def claims_total_def st')
qed

lemma MarkBaseReady_locked: "locked_section (MarkBaseReady_section digest) (\<lambda>_. True)"
proof
  fix st
  assume inv: "reg_inv st"
  have "rReady st \<noteq> None" using inv by (simp add: reg_inv_def maps_made_def)
  then obtain r where "gm_put (rReady st) digest True = Some r" by (rule gm_put_defined)
  then show "MarkBaseReady_section digest st \<noteq> None" by (simp add: MarkBaseReady_section_def)
  fix x st'
  assume "MarkBaseReady_section digest st = Some (Inr (x, True), st')"
  then obtain r where r: "gm_get (rBases st) digest \<noteq> None" "gm_put (rReady st) digest True = Some r" and st': "st' = st\<lparr>rReady := r\<rparr>"
    unfolding MarkBaseReady_section_def by (cases "gm_put (rReady st) digest True") (simp_all split: if_splits)
  have "ids_ok st'" by (rule ids_ok_same [of st]) (use inv in \<open>simp_all add: reg_inv_def st'\<close>)
  moreover have "ready_known st'"
    using inv r(1) by (simp add: reg_inv_def ready_known_def st' gm_bool_put [OF r(2)])
  moreover have "gm_ok r" using gm_ok_put [OF _ r(2)] inv by (simp add: reg_inv_def maps_ok_def)
  ultimately show "reg_inv st' \<and> rNextID st \<le> rNextID st'"
    using inv gm_put_not_None [OF r(2)] by (simp add: reg_inv_def maps_made_def maps_ok_def claims_total_def st')
qed

lemma MarkGuestCreated_locked: "locked_section (MarkGuestCreated_section key baseID) (\<lambda>_. True)"
proof
  fix st
  assume inv: "reg_inv st"
  have "rCreated st \<noteq> None" using inv by (simp add: reg_inv_def maps_made_def)
  then obtain c where "gm_put (rCreated st) key True = Some c" by (rule gm_put_defined)
  moreover obtain d where "gm_put (gm_make (rDerived st)) key baseID = Some d" using gm_make_neq_None by (rule gm_put_defined)
  ultimately show "MarkGuestCreated_section key baseID st \<noteq> None" by (simp add: MarkGuestCreated_section_def)
  fix x st'
  assume "MarkGuestCreated_section key baseID st = Some (Inr (x, True), st')"
  then obtain c d where c: "gm_get (rGuests st) key \<noteq> None" "gm_put (rCreated st) key True = Some c"
    and d: "gm_put (gm_make (rDerived st)) key baseID = Some d" and st': "st' = st\<lparr>rCreated := c, rDerived := d\<rparr>"
    unfolding MarkGuestCreated_section_def
    by (cases "gm_put (rCreated st) key True"; cases "gm_put (gm_make (rDerived st)) key baseID") (simp_all split: if_splits)
  have "ids_ok st'" by (rule ids_ok_same [of st]) (use inv in \<open>simp_all add: reg_inv_def st'\<close>)
  moreover have "ready_known st'"
    using inv c(1) by (simp add: reg_inv_def ready_known_def st' gm_bool_put [OF c(2)])
  moreover have "gm_ok c" "gm_ok d" using gm_ok_put [OF _ c(2)] gm_ok_put [OF _ d] inv by (simp_all add: reg_inv_def maps_ok_def)
  ultimately show "reg_inv st' \<and> rNextID st \<le> rNextID st'"
    using inv gm_put_not_None [OF c(2)] by (simp add: reg_inv_def maps_made_def maps_ok_def claims_total_def st')
qed

lemma TouchBase_locked: "locked_section (TouchBase_section digest now) (\<lambda>_. True)"
proof
  fix st
  assume inv: "reg_inv st"
  obtain u where "gm_put (gm_make (rUsed st)) digest (Some now) = Some u" using gm_make_neq_None by (rule gm_put_defined)
  then show "TouchBase_section digest now st \<noteq> None" by (simp add: TouchBase_section_def)
  fix x st'
  assume "TouchBase_section digest now st = Some (Inr (x, True), st')"
  then obtain u where u: "gm_put (gm_make (rUsed st)) digest (Some now) = Some u" and st': "st' = st\<lparr>rUsed := u\<rparr>"
    by (auto simp: TouchBase_section_def split: if_splits option.splits)
  have "gm_ok u" using gm_ok_put [OF _ u] inv by (simp add: reg_inv_def maps_ok_def)
  then show "reg_inv st' \<and> rNextID st \<le> rNextID st'"
    using inv ids_ok_same [of st st'] by (simp add: reg_inv_def maps_made_def maps_ok_def claims_total_def ready_known_def st')
qed

subsection \<open>Claims\<close>

lemma sum_list_filter_le: "sum_list (map f (filter P xs)) \<le> sum_list (map (f :: 'a \<Rightarrow> nat) xs)"
  by (induction xs) auto

lemma Unreserve_locked: "locked_section (Unreserve_section key) (\<lambda>_. True)"
proof
  fix st
  assume inv: "reg_inv st"
  show "Unreserve_section key st \<noteq> None" by (simp add: Unreserve_section_def)
  fix x st'
  assume "Unreserve_section key st = Some (Inr (x, True), st')"
  then have st': "st' = st\<lparr>rReserved := gm_delete (rReserved st) key\<rparr>"
    by (auto simp: Unreserve_section_def split: if_splits)
  have "claims_total st' \<le> claims_total st"
    unfolding claims_total_def st' by (simp add: gm_list_delete sum_list_filter_le)
  then show "reg_inv st' \<and> rNextID st \<le> rNextID st'"
    using inv ids_ok_same [of st st'] by (simp add: reg_inv_def maps_made_def maps_ok_def ready_known_def st')
qed

lemma filter_other_key: "key \<notin> fst ` set xs \<Longrightarrow> filter (\<lambda>x. fst x \<noteq> key) xs = xs"
  by (induction xs) auto

lemma sum_update_claims:
  assumes "distinct (map fst xs)"
  shows "sum_list (map (\<lambda>x. unat (resBytes (snd x))) (AList.update key r xs)) =
         sum_list (map (\<lambda>x. unat (resBytes (snd x))) (filter (\<lambda>x. fst x \<noteq> key) xs)) + unat (resBytes r)"
  using assms by (induction xs) (auto simp: filter_other_key)

text \<open>The claims of other keys that a reservation takes into account.\<close>

definition other_claims :: "string \<Rightarrow> int \<Rightarrow> registryState \<Rightarrow> (string \<times> reservation) list" where
  "other_claims key now st = filter (\<lambda>x. fst x \<noteq> key \<and> \<not> lapsed now (snd x)) (gm_list (rReserved st))"

lemma other_claims_kept:
  "filter (\<lambda>x. fst x \<noteq> key) (filter (\<lambda>x. fst x = key \<or> \<not> lapsed now (snd x)) (gm_list (rReserved st))) =
   other_claims key now st"
  by (auto simp: other_claims_def intro!: filter_cong)

lemma other_claims_sum:
  assumes "claims_total st < 2 ^ 64"
  shows "unat (sum_list (map (\<lambda>x. resBytes (snd x)) (other_claims key now st))) =
         sum_list (map (\<lambda>x. unat (resBytes (snd x))) (other_claims key now st))"
proof -
  have "sum_list (map (\<lambda>x. unat (resBytes (snd x))) (other_claims key now st)) \<le> claims_total st"
    by (simp add: other_claims_def claims_total_def sum_list_filter_le)
  with assms have "sum_list (map unat (map (\<lambda>x. resBytes (snd x)) (other_claims key now st))) < 2 ^ 64"
    by (simp add: comp_def)
  from unat_sum_list [OF this] show ?thesis by (simp add: comp_def)
qed

text \<open>A granted reservation: what is claimed afterwards, with this claim, is at most what was free.\<close>

lemma Reserve_granted:
  assumes inv: "reg_inv st" and run: "Reserve_section key bytes (Inr f) now st = Some (Inr ((True, available), ch), st')"
  shows "claims_total st' = sum_list (map (\<lambda>x. unat (resBytes (snd x))) (other_claims key now st)) + unat bytes"
    and "0 < bytes \<Longrightarrow> claims_total st' \<le> unat f" and "claims_total st' < 2 ^ 64" and "gm_get (rReserved st') key = Some \<lparr>resBytes = bytes, resSince = Some now\<rparr>"
    and "gm_ok (rReserved st')" and "\<exists>m. st' = st\<lparr>rReserved := m\<rparr>" and "ch"
proof -
  let ?kept = "filter (\<lambda>x. fst x = key \<or> \<not> lapsed now (snd x)) (gm_list (rReserved st))"
  let ?held = "sum_list (map (\<lambda>x. resBytes (snd x)) (other_claims key now st))"
  let ?r = "\<lparr>resBytes = bytes, resSince = Some now\<rparr>"
  from run obtain m where av: "available = (if f > ?held then f - ?held else 0)" "\<not> available < bytes" and ch
    and m: "gm_put (gm_make (map_option (\<lambda>_. ?kept) (rReserved st))) key ?r = Some m" and st': "st' = st\<lparr>rReserved := m\<rparr>"
    by (auto simp: Reserve_section_def Let_def other_claims_kept simp del: filter_filter split: if_splits option.splits)
  have ok: "gm_ok (rReserved st)" using inv by (simp add: reg_inv_def maps_ok_def)
  have kept: "gm_list (map_option (\<lambda>_. ?kept) (rReserved st)) = ?kept"
    by (cases "rReserved st") (simp_all add: gm_list_def)
  have d: "distinct (map fst ?kept)" using ok by (simp add: gm_ok_def distinct_map_filter)
  have gm: "gm_list m = AList.update key ?r ?kept"
    using m kept by (auto simp: gm_put_def gm_make_def gm_list_def split: option.splits)
  have total: "claims_total st' = sum_list (map (\<lambda>x. unat (resBytes (snd x))) (other_claims key now st)) + unat bytes"
    unfolding claims_total_def st' by (simp add: gm sum_update_claims [OF d] other_claims_kept del: filter_filter)
  then show "claims_total st' = sum_list (map (\<lambda>x. unat (resBytes (snd x))) (other_claims key now st)) + unat bytes" .
  have held: "unat ?held = sum_list (map (\<lambda>x. unat (resBytes (snd x))) (other_claims key now st))"
    using inv by (intro other_claims_sum) (simp add: reg_inv_def)
  have le: "claims_total st' \<le> unat f" if "f > ?held"
  proof -
    have "unat bytes \<le> unat (f - ?held)" using av that by (simp add: word_le_nat_alt not_less)
    moreover have "unat (f - ?held) = unat f - unat ?held" using that by (simp add: unat_sub less_imp_le)
    moreover have "unat ?held < unat f" using that by (simp add: word_less_nat_alt)
    ultimately show ?thesis using total held by simp
  qed
  have zero: "bytes = 0" if "\<not> f > ?held" using av that by (simp add: word_gt_0)
  from le zero show "claims_total st' \<le> unat f" if "0 < bytes" using that by (cases "f > ?held") auto
  have "unat f < 2 ^ 64" using unsigned_less [where ?'a = nat and w = f] by simp
  moreover have "claims_total st' \<le> claims_total st" if "bytes = 0"
    using that total by (simp add: other_claims_def claims_total_def sum_list_filter_le)
  ultimately show "claims_total st' < 2 ^ 64"
    using le zero inv by (cases "f > ?held") (auto simp: reg_inv_def)
  show "gm_get (rReserved st') key = Some ?r" using gm_get_put [OF m, of key] by (simp add: st')
  show "gm_ok (rReserved st')" using d by (simp add: st' gm_ok_def gm distinct_update)
  show "\<exists>m. st' = st\<lparr>rReserved := m\<rparr>" using st' by blast
  show ch by fact
qed

lemma Reserve_refused:
  assumes inv: "reg_inv st" and run: "Reserve_section key bytes free now st = Some (Inr ((False, available), ch), st')"
  shows "claims_total st' \<le> claims_total st \<and> gm_ok (rReserved st') \<and> (\<exists>m. st' = st\<lparr>rReserved := m\<rparr>)"
proof -
  let ?kept = "filter (\<lambda>x. fst x = key \<or> \<not> lapsed now (snd x)) (gm_list (rReserved st))"
  from run have st': "st' = st\<lparr>rReserved := map_option (\<lambda>_. ?kept) (rReserved st)\<rparr>"
    by (auto simp: Reserve_section_def Let_def split: sum.splits if_splits option.splits)
  have kept: "gm_list (map_option (\<lambda>_. ?kept) (rReserved st)) = ?kept"
    by (cases "rReserved st") (simp_all add: gm_list_def)
  have "claims_total st' \<le> claims_total st"
    unfolding claims_total_def st' by (simp add: kept sum_list_filter_le)
  moreover have "gm_ok (rReserved st')"
    using inv by (simp add: st' gm_ok_def kept reg_inv_def maps_ok_def distinct_map_filter)
  ultimately show ?thesis using st' by blast
qed

lemma Reserve_locked: "locked_section (Reserve_section key bytes free now) (\<lambda>_. True)"
proof
  fix st
  assume inv: "reg_inv st"
  show "Reserve_section key bytes free now st \<noteq> None"
    by (auto simp: Reserve_section_def Let_def simp del: not_None_eq split: sum.split option.split)
  fix x st'
  assume run: "Reserve_section key bytes free now st = Some (Inr (x, True), st')"
  then obtain f where f: "free = Inr f" by (auto simp: Reserve_section_def split: sum.splits)
  obtain b av where x: "x = (b, av)" by fastforce
  have "claims_total st' < 2 ^ 64 \<and> gm_ok (rReserved st') \<and> (\<exists>m. st' = st\<lparr>rReserved := m\<rparr>)"
  proof (cases b)
    case True
    with run x f have "Reserve_section key bytes (Inr f) now st = Some (Inr ((True, av), True), st')" by simp
    from Reserve_granted [OF inv this] show ?thesis by blast
  next
    case False
    with run x have "Reserve_section key bytes free now st = Some (Inr ((False, av), True), st')" by simp
    from Reserve_refused [OF inv this] inv show ?thesis by (auto simp: reg_inv_def)
  qed
  then obtain m where m: "st' = st\<lparr>rReserved := m\<rparr>" "claims_total st' < 2 ^ 64" "gm_ok m" by auto
  show "reg_inv st' \<and> rNextID st \<le> rNextID st'"
    using inv m(2,3) ids_ok_same [of st st'] by (simp add: reg_inv_def maps_made_def maps_ok_def ready_known_def m(1))
qed

interpretation alloc_base: locked_section "allocate_section rBases (\<lambda>m st. st\<lparr>rBases := m\<rparr>) key" ids_left for key
  by (rule allocate_base_section)

interpretation alloc_guest: locked_section "allocate_section rGuests (\<lambda>m st. st\<lparr>rGuests := m\<rparr>) key" ids_left for key
  by (rule allocate_guest_section)

interpretation advance: locked_section "Advance_section past" "\<lambda>_. past < - 1" for past
  by (rule Advance_locked)

interpretation forget: locked_section "Forget_section key" "\<lambda>_. True" for key
  by (rule Forget_locked)

interpretation forget_base: locked_section "ForgetBase_section digest" "\<lambda>_. True" for digest
  by (rule ForgetBase_locked)

interpretation mark_created: locked_section "MarkGuestCreated_section key base" "\<lambda>_. True" for key base
  by (rule MarkGuestCreated_locked)

interpretation mark_ready: locked_section "MarkBaseReady_section digest" "\<lambda>_. True" for digest
  by (rule MarkBaseReady_locked)

interpretation touch: locked_section "TouchBase_section digest now" "\<lambda>_. True" for digest now
  by (rule TouchBase_locked)

interpretation claim: locked_section "Reserve_section key bytes free now" "\<lambda>_. True" for key bytes free now
  by (rule Reserve_locked)

interpretation unclaim: locked_section "Unreserve_section key" "\<lambda>_. True" for key
  by (rule Unreserve_locked)

interpretation query: locked_section "reading g" "\<lambda>_. True" for g
  by (rule reading_section)

section \<open>Histories of a registry\<close>

text \<open>
  One call of any operation by any process of the node, under any I/O outcome. The 32 bit
  counter is assumed not to be exhausted.
\<close>

inductive reg_step :: "regfile \<Rightarrow> regfile \<Rightarrow> bool" where
  "next_id f < - 1 \<Longrightarrow> AllocateBase io key f = Some (r, f') \<Longrightarrow> reg_step f f'"
| "next_id f < - 1 \<Longrightarrow> AllocateGuest io key f = Some (r, f') \<Longrightarrow> reg_step f f'"
| "past < - 1 \<Longrightarrow> Advance io past f = Some (u, f') \<Longrightarrow> reg_step f f'"
| "Forget io key f = Some (u, f') \<Longrightarrow> reg_step f f'"
| "ForgetBase io key f = Some (u, f') \<Longrightarrow> reg_step f f'"
| "MarkGuestCreated io key base f = Some (u, f') \<Longrightarrow> reg_step f f'"
| "MarkBaseReady io key f = Some (u, f') \<Longrightarrow> reg_step f f'"
| "TouchBase io key now f = Some (u, f') \<Longrightarrow> reg_step f f'"
| "Reserve io key bytes free now f = Some (v, f') \<Longrightarrow> reg_step f f'"
| "Unreserve io key f = Some (u, f') \<Longrightarrow> reg_step f f'"

inductive reg_history :: "regfile \<Rightarrow> regfile \<Rightarrow> bool" where
  refl: "reg_history f f"
| step: "reg_history f f' \<Longrightarrow> reg_step f' f'' \<Longrightarrow> reg_history f f''"

lemma ids_left_file: "next_id f < - 1 \<Longrightarrow> load f = Inr st \<Longrightarrow> ids_left st"
  by (simp add: next_id_def ids_left_def)

lemma safe_result:
  assumes "\<exists>r f'. g = Some (r, f') \<and> file_ok f' \<and> next_id f \<le> next_id f'" and "g = Some (r, f')"
  shows "file_ok f' \<and> next_id f \<le> next_id f'"
  using assms by auto

lemma reg_step_safe:
  assumes "reg_step f f'" and ok: "file_ok f"
  shows "file_ok f' \<and> next_id f \<le> next_id f'"
  using assms(1)
proof cases
  case (1 io key r)
  then show ?thesis
    using ok safe_result [OF alloc_base.withLock_safe [OF ok ids_left_file]]
    by (auto simp: AllocateBase_def allocate_def split: if_splits)
next
  case (2 io key r)
  then show ?thesis
    using ok safe_result [OF alloc_guest.withLock_safe [OF ok ids_left_file]]
    by (auto simp: AllocateGuest_def allocate_def split: if_splits)
next
  case (3 past io u)
  then show ?thesis using safe_result [OF advance.withLock_safe [OF ok]] by (auto simp: Advance_def)
next
  case (4 io key u)
  then show ?thesis using safe_result [OF forget.withLock_safe [OF ok]] by (auto simp: Forget_def)
next
  case (5 io key u)
  then show ?thesis using safe_result [OF forget_base.withLock_safe [OF ok]] by (auto simp: ForgetBase_def)
next
  case (6 io key base u)
  then show ?thesis using safe_result [OF mark_created.withLock_safe [OF ok]] by (auto simp: MarkGuestCreated_def)
next
  case (7 io key u)
  then show ?thesis using safe_result [OF mark_ready.withLock_safe [OF ok]] by (auto simp: MarkBaseReady_def)
next
  case (8 io key now u)
  then show ?thesis using safe_result [OF touch.withLock_safe [OF ok]] by (auto simp: TouchBase_def)
next
  case (9 io key bytes free now v)
  then show ?thesis using safe_result [OF claim.withLock_safe [OF ok]] by (auto simp: Reserve_def)
next
  case (10 io key u)
  then show ?thesis using safe_result [OF unclaim.withLock_safe [OF ok]] by (auto simp: Unreserve_def)
qed

lemma reg_history_safe:
  "reg_history f f' \<Longrightarrow> file_ok f \<Longrightarrow> file_ok f' \<and> next_id f \<le> next_id f'"
proof (induction rule: reg_history.induct)
  case (step f f' f'')
  from reg_step_safe [OF step(2)] step(3,4) show ?case by (auto intro: order_trans)
qed simp

lemma allocate_fresh:
  assumes ok: "file_ok f" and left: "next_id f < - 1"
    and run: "allocate io get put key f = Some (Inr (n, True), f')"
    and keep: "\<And>m st. rNextID (put m st) = rNextID st" and inv: "file_ok f'"
  shows "n = next_id f" and "n < next_id f'"
proof -
  from ok obtain st where st: "load f = Inr st" "reg_inv st" by (auto simp: file_ok_def)
  from run have w: "withLock io (allocate_section get put key) f = Some (Inr (n, True), f')"
    by (auto simp: allocate_def split: if_splits)
  then obtain st' where m: "allocate_section get put key st = Some (Inr ((n, True), True), st')" and f': "f' = Stored (marshal st')"
    using st(1)
    by (auto simp: withLock_def store_def allocate_section_def Let_def split: option.splits store_outcome.splits)
  then have id: "n = rNextID st" and n': "rNextID st' = rNextID st + 1"
    using keep by (auto simp: allocate_section_def Let_def split: option.splits)
  have nx: "next_id f = rNextID st" using st by (simp add: next_id_def)
  with id show "n = next_id f" by simp
  have "next_id f' = (if rNextID st' < firstDeviceID then firstDeviceID else rNextID st')"
    using inv by (auto simp: f' next_id_def load_def marshal_def Let_def)
  moreover have "rNextID st < rNextID st + 1" using left nx next_grows [of st] by (simp add: ids_left_def)
  ultimately show "n < next_id f'" using id n' by (auto simp: firstDeviceID_def intro: less_trans)
qed

lemma AllocateBase_safe:
  "file_ok f \<Longrightarrow> next_id f < - 1 \<Longrightarrow> AllocateBase io key f = Some (r, f') \<Longrightarrow> file_ok f'"
  by (blast dest: reg_step_safe reg_step.intros(1))

lemma AllocateGuest_safe:
  "file_ok f \<Longrightarrow> next_id f < - 1 \<Longrightarrow> AllocateGuest io key f = Some (r, f') \<Longrightarrow> file_ok f'"
  by (blast dest: reg_step_safe reg_step.intros(2))

lemma fresh_base:
  assumes "file_ok f" and "next_id f < - 1" and "AllocateBase io key f = Some (Inr (n, True), f')"
  shows "n = next_id f" "n < next_id f'"
  using allocate_fresh [OF assms(1,2), of io rBases "\<lambda>m st. st\<lparr>rBases := m\<rparr>" key n f'] assms AllocateBase_safe [OF assms]
  by (simp_all add: AllocateBase_def)

lemma fresh_guest:
  assumes "file_ok f" and "next_id f < - 1" and "AllocateGuest io key f = Some (Inr (n, True), f')"
  shows "n = next_id f" "n < next_id f'"
  using allocate_fresh [OF assms(1,2), of io rGuests "\<lambda>m st. st\<lparr>rGuests := m\<rparr>" key n f'] assms AllocateGuest_safe [OF assms]
  by (simp_all add: AllocateGuest_def)

lemma file_ok_history: "reg_history Absent f \<Longrightarrow> file_ok f"
  using reg_history_safe [OF _ file_ok_Absent] by blast

text \<open>
  C11. A device id is handed out once. Over any history of the node's registry, from an
  absent file, with any mix of allocations, forgets, claims and failed writes, an id newly
  handed out to a guest or a base is larger than every id newly handed out before it, even
  when the earlier entry has been forgotten since.\<close>

theorem device_ids_never_reused:
  assumes "reg_history Absent f" and "next_id f < - 1"
    and "AllocateGuest io key f = Some (Inr (n, True), f1) \<or> AllocateBase io key f = Some (Inr (n, True), f1)"
    and "reg_history f1 f2" and "next_id f2 < - 1"
    and "AllocateGuest io' key' f2 = Some (Inr (n', True), f3) \<or> AllocateBase io' key' f2 = Some (Inr (n', True), f3)"
  shows "n < n'"
proof -
  have f: "file_ok f" by (rule file_ok_history) fact
  have f1: "file_ok f1" "n < next_id f1"
    using assms(2,3) f fresh_guest(2) fresh_base(2) AllocateGuest_safe AllocateBase_safe by blast+
  have f2: "file_ok f2" "next_id f1 \<le> next_id f2" using reg_history_safe [OF assms(4) f1(1)] by blast+
  have "n' = next_id f2" using assms(5,6) f2(1) fresh_guest(1) fresh_base(1) by blast
  with f1(2) f2(2) show ?thesis by simp
qed

definition ex_reg1 :: regfile where
  "ex_reg1 = Stored (marshal \<lparr>rNextID = 2, rBases = Some [], rGuests = Some [(''ns/a'', 1)], rReady = Some [], rUsed = None,
     rCreated = Some [], rDerived = None, rReserved = None\<rparr>)"

definition ex_reg2 :: regfile where
  "ex_reg2 = Stored (marshal \<lparr>rNextID = 2, rBases = Some [], rGuests = Some [], rReady = Some [], rUsed = None,
     rCreated = Some [], rDerived = None, rReserved = None\<rparr>)"

lemmas reg_run = AllocateGuest_def AllocateBase_def allocate_def allocate_section_def withLock_def reg_ok_def load_def
  store_def marshal_def omitempty_def unmarshal_field_def gm_make_def gm_get_def gm_put_def gm_list_def gm_delete_def
  firstDeviceID_def next_id_def

theorem device_ids_never_reused_witness:
  "AllocateGuest reg_ok ''ns/a'' Absent = Some (Inr (1, True), ex_reg1) \<and>
   Forget reg_ok ''ns/a'' ex_reg1 = Some (Inr (), ex_reg2) \<and>
   fst (the (AllocateGuest reg_ok ''ns/a'' ex_reg2)) = Inr (2, True) \<and> (1 :: u32) < 2"
proof -
  have a: "AllocateGuest reg_ok ''ns/a'' Absent = Some (Inr (1, True), ex_reg1)"
    by (simp add: reg_run ex_reg1_def)
  have b: "Forget reg_ok ''ns/a'' ex_reg1 = Some (Inr (), ex_reg2)"
    by (simp add: reg_run ex_reg1_def ex_reg2_def Forget_def Forget_section_def)
  obtain f3 where c: "AllocateGuest reg_ok ''ns/a'' ex_reg2 = Some (Inr (2, True), f3)"
    by (simp add: reg_run ex_reg2_def)
  have "reg_history ex_reg1 ex_reg2"
    using reg_history.step [OF reg_history.refl reg_step.intros(4) [OF b]] .
  moreover have "next_id Absent < - 1" "next_id ex_reg2 < - 1"
    by code_simp+
  ultimately have "(1 :: u32) < 2"
    using device_ids_never_reused [of Absent reg_ok "''ns/a''" 1 ex_reg1 ex_reg2 reg_ok "''ns/a''" 2 f3] a c reg_history.refl
    by blast
  with a b c show ?thesis by simp
qed

text \<open>
  C25. A granted reservation never oversubscribes the pool: after \<open>Reserve\<close> reports success
  for a claim of at least one byte, all claims in the stored registry together, in unbounded
  arithmetic, are at most the free space the probe returned under the lock, and the new
  claim is among them.\<close>

theorem reservations_never_oversubscribe:
  assumes "reg_history Absent f" and "Reserve io key bytes (Inr free) now f = Some (Inr (True, available), f')" and "0 < bytes"
  shows "\<exists>st'. load f' = Inr st' \<and> claims_total st' \<le> unat free \<and>
    gm_get (rReserved st') key = Some \<lparr>resBytes = bytes, resSince = Some now\<rparr>"
proof -
  from file_ok_history [OF assms(1)] obtain st where st: "load f = Inr st" "reg_inv st" by (auto simp: file_ok_def)
  from assms(2) st(1) obtain st' ch where run: "Reserve_section key bytes (Inr free) now st = Some (Inr ((True, available), ch), st')"
    and w: "ch \<longrightarrow> f' = Stored (marshal st')"
    by (auto simp: Reserve_def withLock_def store_def split: option.splits sum.splits prod.splits bool.splits store_outcome.splits)
  note g = Reserve_granted [OF st(2) run]
  from g(7) run have "reg_inv st'" using claim.keeps [OF st(2)] by auto
  then have "load (Stored (marshal st')) = Inr (drop_empty st')" by (auto intro!: load_marshal simp: reg_inv_made)
  with w g(2,4,7) assms(3) show ?thesis by (simp add: drop_empty_def claims_total_def)
qed

theorem reservations_never_oversubscribe_witness:
  "fst (the (Reserve reg_ok ''d1'' 70 (Inr 100) 0 Absent)) = Inr (True, 100) \<and>
   fst (the (Reserve reg_ok ''d2'' 40 (Inr 100) 0 (snd (the (Reserve reg_ok ''d1'' 70 (Inr 100) 0 Absent))))) = Inr (False, 30) \<and>
   (\<exists>st'. load (snd (the (Reserve reg_ok ''d1'' 70 (Inr 100) 0 Absent))) = Inr st' \<and> claims_total st' \<le> unat (100 :: u64))"
proof -
  obtain f1 where a: "Reserve reg_ok ''d1'' 70 (Inr 100) 0 Absent = Some (Inr (True, 100), f1)"
    and b: "fst (the (Reserve reg_ok ''d2'' 40 (Inr 100) 0 f1)) = Inr (False, 30)"
    by (simp add: reg_run Reserve_def Reserve_section_def lapsed_def reservationTTL_def)
  show ?thesis
    using reservations_never_oversubscribe [OF reg_history.refl a] a b by auto
qed

text \<open>
  What is stored is what is loaded: reading back a stored well-formed registry yields
  the same counter and the same lookups in every map. In particular a guest whose snapshot
  was not created is not taken for a legacy guest, although its registry has an empty
  created map.\<close>

theorem stored_registry_reads_back:
  assumes "reg_inv st"
  shows "\<exists>st'. load (snd (store reg_ok st f)) = Inr st' \<and> reg_inv st' \<and> rNextID st' = rNextID st \<and>
    (\<forall>k. gm_get (rBases st') k = gm_get (rBases st) k \<and> gm_get (rGuests st') k = gm_get (rGuests st) k \<and>
         gm_get (rReady st') k = gm_get (rReady st) k \<and> gm_get (rUsed st') k = gm_get (rUsed st) k \<and>
         gm_get (rCreated st') k = gm_get (rCreated st) k \<and> gm_get (rDerived st') k = gm_get (rDerived st) k \<and>
         gm_get (rReserved st') k = gm_get (rReserved st) k)"
proof -
  have "load (snd (store reg_ok st f)) = Inr (drop_empty st)"
    using load_marshal [OF reg_inv_made [OF assms]] by (simp add: store_def reg_ok_def)
  moreover have "reg_inv (drop_empty st)" using assms by simp
  ultimately show ?thesis by (auto simp: drop_empty_def)
qed

definition ex_pending :: registryState where
  "ex_pending = \<lparr>rNextID = 3, rBases = Some [(''sha256:a'', 1)], rGuests = Some [(''ns/a'', 2)], rReady = Some [(''sha256:a'', True)],
     rUsed = None, rCreated = Some [], rDerived = None, rReserved = None\<rparr>"

theorem stored_registry_reads_back_witness:
  "\<exists>st'. load (snd (store reg_ok ex_pending Absent)) = Inr st' \<and> rNextID st' = 3 \<and>
     gm_get (rGuests st') ''ns/a'' = Some 2 \<and> gm_get (rCreated st') ''ns/a'' = None"
proof -
  have "reg_inv ex_pending"
    by (simp add: ex_pending_def reg_inv_def maps_made_def maps_ok_def gm_ok_def ids_ok_def all_ids_def claims_total_def
        ready_known_def gm_bool_def gm_list_def gm_get_def)
  from stored_registry_reads_back [OF this, of Absent] show ?thesis
    by (auto simp: ex_pending_def gm_get_def gm_list_def)
qed

section \<open>Eviction order\<close>

lemma set_inUse:
  assumes "gm_ok (rDerived st)"
  shows "i \<in> set (inUse st) \<longleftrightarrow> (\<exists>g. gm_get (rGuests st) g \<noteq> None \<and> gm_get (rDerived st) g = Some i)"
  using assms by (force simp: inUse_def gm_get_def gm_ok_def dest: map_of_SomeD intro: map_of_is_SomeI)

lemma set_base_digests: "d \<in> set (base_digests st) \<longleftrightarrow> gm_get (rBases st) d \<noteq> None"
  by (simp add: base_digests_def gm_get_None_iff)

lemma lruOrder_sorted: "sorted (map (\<lambda>d. (used_at st d, d)) (lruOrder st ds))"
  by (simp add: lruOrder_def)

lemma sorted_fst: "sorted (map (\<lambda>d. (f d, d)) ds) \<Longrightarrow> sorted (map f ds)"
  by (induction ds) (force simp: less_eq_prod_def)+

lemma length_lruOrder [simp]: "length (lruOrder st ds) = length ds"
  by (simp add: lruOrder_def)

lemma set_lruOrder [simp]: "set (lruOrder st ds) = set ds"
  by (simp add: lruOrder_def)

lemma distinct_lruOrder [simp]: "distinct (lruOrder st ds) = distinct ds"
  by (simp add: lruOrder_def)

lemma distinct_keys_filter: "distinct (map fst xs) \<Longrightarrow> distinct (map fst (filter P xs))"
  by (rule distinct_map_filter)

lemma keys_filter:
  assumes "gm_ok m"
  shows "d \<in> set (map fst (filter (\<lambda>(d, i). P i) (gm_list m))) \<longleftrightarrow> (\<exists>i. gm_get m d = Some i \<and> P i)"
  using assms by (force simp: gm_get_def gm_ok_def dest: map_of_SomeD intro: map_of_is_SomeI)

definition shared_base :: "registryState \<Rightarrow> string \<Rightarrow> bool" where
  "shared_base st d \<longleftrightarrow> (\<exists>g. gm_get (rGuests st) g \<noteq> None \<and> gm_get (rDerived st) g \<noteq> None \<and> gm_get (rDerived st) g = gm_get (rBases st) d)"

text \<open>
  \<open>EvictionOrder\<close> lists every base of the node exactly once. First come the bases no
  recorded guest was snapshotted from, then, as many as the returned count says, the bases a
  recorded guest shares blocks with; each group is sorted by last use, oldest first.\<close>

theorem eviction_order_spares_shared:
  assumes "reg_inv st" and "EvictionOrder_of st = (order, shared)"
  shows "distinct order \<and> set order = {d. gm_get (rBases st) d \<noteq> None} \<and> shared \<le> length order \<and>
    set (take (length order - shared) order) = {d. gm_get (rBases st) d \<noteq> None \<and> \<not> shared_base st d} \<and>
    set (drop (length order - shared) order) = {d. gm_get (rBases st) d \<noteq> None \<and> shared_base st d} \<and>
    sorted (map (used_at st) (take (length order - shared) order)) \<and>
    sorted (map (used_at st) (drop (length order - shared) order))"
proof -
  define free held where "free = map fst (filter (\<lambda>(d, i). i \<notin> set (inUse st)) (gm_list (rBases st)))"
    and "held = map fst (filter (\<lambda>(d, i). i \<in> set (inUse st)) (gm_list (rBases st)))"
  have o: "order = lruOrder st free @ lruOrder st held" "shared = length held"
    using assms(2) by (auto simp: EvictionOrder_of_def Let_def free_def held_def)
  have ok: "gm_ok (rBases st)" "gm_ok (rDerived st)" using assms(1) by (simp_all add: reg_inv_def maps_ok_def)
  have h: "set held = {d. gm_get (rBases st) d \<noteq> None \<and> shared_base st d}"
    and f: "set free = {d. gm_get (rBases st) d \<noteq> None \<and> \<not> shared_base st d}"
    unfolding held_def free_def
    by (auto simp only: keys_filter [OF ok(1)] set_inUse [OF ok(2)] set_eq_iff mem_Collect_eq shared_base_def) fastforce+
  have d: "distinct free" "distinct held"
    using ok(1) by (auto simp: free_def held_def gm_ok_def intro: distinct_keys_filter)
  have "length order - shared = length (lruOrder st free)" by (simp add: o)
  then have tk: "take (length order - shared) order = lruOrder st free" "drop (length order - shared) order = lruOrder st held"
    by (simp_all add: o)
  have "sorted (map (used_at st) (lruOrder st ds))" for ds by (rule sorted_fst [OF lruOrder_sorted])
  moreover have "distinct order" using d h f by (auto simp: o)
  moreover have "set order = {d. gm_get (rBases st) d \<noteq> None}" using h f by (auto simp: o)
  ultimately show ?thesis unfolding tk using h f by (simp add: o)
qed

definition ex_bases :: registryState where
  "ex_bases = \<lparr>rNextID = 6, rBases = Some [(''a'', 1), (''b'', 2), (''c'', 3)], rGuests = Some [(''ns/g'', 5)],
     rReady = Some [(''a'', True)], rUsed = Some [(''a'', Some 10), (''b'', Some 30), (''c'', Some 20)],
     rCreated = Some [(''ns/g'', True)], rDerived = Some [(''ns/g'', 1), (''ns/gone'', 2)], rReserved = None\<rparr>"

theorem eviction_order_spares_shared_witness:
  "EvictionOrder_of ex_bases = ([''c'', ''b'', ''a''], 1) \<and> shared_base ex_bases ''a'' \<and> \<not> shared_base ex_bases ''b''"
proof -
  have "reg_inv ex_bases"
    by (simp add: ex_bases_def reg_inv_def maps_made_def maps_ok_def gm_ok_def ids_ok_def all_ids_def claims_total_def
        ready_known_def gm_bool_def gm_list_def gm_get_def)
  moreover have e: "EvictionOrder_of ex_bases = ([''c'', ''b'', ''a''], 1)" by code_simp
  ultimately show ?thesis
    using eviction_order_spares_shared [of ex_bases "[''c'', ''b'', ''a'']" 1]
    by (auto simp: set_eq_iff)
qed

section \<open>No operation panics\<close>

text \<open>
  A loaded state has every map that a section assigns to, whatever the file held. So no
  operation assigns to a nil map, on any file.
\<close>

lemma gm_make_Ex [simp]: "\<exists>y. gm_make m = Some y"
  by (simp add: gm_make_def split: option.split)

lemma load_made: "load f = Inr st \<Longrightarrow> maps_made st"
  by (auto simp: load_def maps_made_def Let_def simp del: not_None_eq split: regfile.splits option.splits)

lemma withLock_total:
  assumes "\<And>st. maps_made st \<Longrightarrow> mutate st \<noteq> None"
  shows "withLock io mutate f \<noteq> None"
proof (cases "load f")
  case (Inr st)
  then obtain r st' where "mutate st = Some (r, st')" using assms [OF load_made [OF Inr]] by auto
  then show ?thesis using Inr
    by (auto simp: withLock_def split: option.split sum.split prod.split bool.split simp del: not_None_eq)
qed (auto simp: withLock_def split: option.split)

text \<open>What the file is after an operation: unchanged, or the state its section left.\<close>

lemma withLock_file:
  assumes "withLock io mutate f = Some (r, f')"
  shows "f' = f \<or> (\<exists>st x st'. load f = Inr st \<and> mutate st = Some (Inr (x, True), st') \<and> f' = Stored (marshal st'))"
  using assms
  by (auto simp: withLock_def store_def split: option.splits sum.splits prod.splits bool.splits store_outcome.splits)

lemma withLock_result:
  assumes "withLock io mutate f = Some (Inr x, f')"
  shows "\<exists>st ch st'. load f = Inr st \<and> mutate st = Some (Inr (x, ch), st') \<and> f' = (if ch then Stored (marshal st') else f)"
  using assms
  by (auto simp: withLock_def store_def split: option.splits sum.splits prod.splits bool.splits store_outcome.splits)

definition empty_registry :: registryState where
  "empty_registry = \<lparr>rNextID = 1, rBases = Some [], rGuests = Some [], rReady = Some [], rUsed = None,
     rCreated = Some [], rDerived = None, rReserved = None\<rparr>"

text \<open>The registry in a file; an unreadable file names nothing.\<close>

definition reg_at :: "regfile \<Rightarrow> registryState" where
  "reg_at f = (case load f of Inr st \<Rightarrow> st | Inl _ \<Rightarrow> empty_registry)"

definition base_ready :: "string \<Rightarrow> regfile \<Rightarrow> bool" where
  "base_ready d f \<longleftrightarrow> gm_bool (rReady (reg_at f)) d"

definition base_id :: "string \<Rightarrow> regfile \<Rightarrow> u32 option" where
  "base_id d f = gm_get (rBases (reg_at f)) d"

definition guest_id :: "string \<Rightarrow> regfile \<Rightarrow> u32 option" where
  "guest_id g f = gm_get (rGuests (reg_at f)) g"

definition guest_created :: "string \<Rightarrow> regfile \<Rightarrow> bool" where
  "guest_created g f \<longleftrightarrow> gm_bool (rCreated (reg_at f)) g"

lemmas reg_views = base_ready_def base_id_def guest_id_def guest_created_def

lemma gm_get_stored: "gm_get (unmarshal_field (Some []) (omitempty m)) k = gm_get m k"
  by (cases "gm_list m = []") (simp_all add: omitempty_def unmarshal_field_def gm_get_def gm_list_def [of "Some []"])

lemma reg_at_stored:
  assumes "maps_made st"
  shows "gm_get (rBases (reg_at (Stored (marshal st)))) k = gm_get (rBases st) k"
    and "gm_get (rGuests (reg_at (Stored (marshal st)))) k = gm_get (rGuests st) k"
    and "gm_get (rReady (reg_at (Stored (marshal st)))) k = gm_get (rReady st) k"
    and "gm_get (rCreated (reg_at (Stored (marshal st)))) k = gm_get (rCreated st) k"
  using assms
  by (auto simp: reg_at_def load_def marshal_def Let_def gm_get_stored maps_made_def simp del: not_None_eq split: option.splits)

lemma withLock_frame:
  assumes "withLock io mutate f = Some (r, f')"
    and "\<And>st x st'. maps_made st \<Longrightarrow> mutate st = Some (Inr (x, True), st') \<Longrightarrow> maps_made st' \<and> P st st'"
  shows "f' = f \<or> (\<exists>st'. f' = Stored (marshal st') \<and> maps_made st' \<and> P (reg_at f) st')"
  using withLock_file [OF assms(1)] assms(2) load_made by (fastforce simp: reg_at_def)

text \<open>Entries of bases outside \<open>B\<close> and of guests outside \<open>G\<close> stay as they are.\<close>

definition entries_kept :: "string set \<Rightarrow> string set \<Rightarrow> regfile \<Rightarrow> regfile \<Rightarrow> bool" where
  "entries_kept B G f f' \<longleftrightarrow>
     (\<forall>d. d \<notin> B \<longrightarrow> base_ready d f' = base_ready d f \<and> base_id d f' = base_id d f) \<and>
     (\<forall>g. g \<notin> G \<longrightarrow> guest_id g f' = guest_id g f \<and> guest_created g f' = guest_created g f)"

definition ready_not_set :: "regfile \<Rightarrow> regfile \<Rightarrow> bool" where
  "ready_not_set f f' \<longleftrightarrow> (\<forall>d. base_ready d f' \<longrightarrow> base_ready d f)"

definition entries_keep :: "string set \<Rightarrow> string set \<Rightarrow> registryState \<Rightarrow> registryState \<Rightarrow> bool" where
  "entries_keep B G st st' \<longleftrightarrow>
     (\<forall>d. d \<notin> B \<longrightarrow> gm_get (rReady st') d = gm_get (rReady st) d \<and> gm_get (rBases st') d = gm_get (rBases st) d) \<and>
     (\<forall>g. g \<notin> G \<longrightarrow> gm_get (rGuests st') g = gm_get (rGuests st) g \<and> gm_get (rCreated st') g = gm_get (rCreated st) g)"

lemma entries_kept_refl [simp]: "entries_kept B G f f"
  by (simp add: entries_kept_def)

lemma ready_not_set_refl [simp]: "ready_not_set f f"
  by (simp add: ready_not_set_def)

lemma withLock_entries:
  assumes "withLock io mutate f = Some (r, f')"
    and "\<And>st x st'. maps_made st \<Longrightarrow> mutate st = Some (Inr (x, True), st') \<Longrightarrow> maps_made st' \<and> entries_keep B G st st'"
  shows "entries_kept B G f f'"
proof -
  have "f' = f \<or> (\<exists>st'. f' = Stored (marshal st') \<and> maps_made st' \<and> entries_keep B G (reg_at f) st')"
    by (rule withLock_frame [OF assms(1)]) (rule assms(2))
  then show ?thesis by (auto simp: entries_kept_def entries_keep_def reg_views gm_bool_def reg_at_stored)
qed

lemma withLock_ready:
  assumes "withLock io mutate f = Some (r, f')"
    and "\<And>st x st'. maps_made st \<Longrightarrow> mutate st = Some (Inr (x, True), st') \<Longrightarrow>
           maps_made st' \<and> (\<forall>d. gm_bool (rReady st') d \<longrightarrow> gm_bool (rReady st) d)"
  shows "ready_not_set f f'"
proof -
  have "f' = f \<or> (\<exists>st'. f' = Stored (marshal st') \<and> maps_made st' \<and> (\<forall>d. gm_bool (rReady st') d \<longrightarrow> gm_bool (rReady (reg_at f)) d))"
    by (rule withLock_frame [OF assms(1)]) (rule assms(2))
  then show ?thesis by (auto simp: ready_not_set_def reg_views gm_bool_def reg_at_stored)
qed

lemma reading_kept: "withLock io (reading g) f = Some (r, f') \<Longrightarrow> f' = f"
  using withLock_file [of io "reading g" f r f'] by (auto simp: reading_def)

lemma reading_result: "withLock io (reading g) f = Some (Inr x, f') \<Longrightarrow> x = g (reg_at f)"
  using withLock_result [of io "reading g" f x f'] by (auto simp: reading_def reg_at_def)

lemmas reading_ops = BaseID_def GuestID_def GuestCreated_def BaseReady_def EvictionOrder_def

lemma reading_ops_total [simp]:
  "BaseID io key f \<noteq> None" "GuestID io key f \<noteq> None" "GuestCreated io key f \<noteq> None" "BaseReady io key f \<noteq> None"
  "EvictionOrder io f \<noteq> None"
  unfolding reading_ops by (rule withLock_total, simp add: reading_def)+

lemma changing_ops_total [simp]:
  "Advance io past f \<noteq> None" "Forget io key f \<noteq> None" "ForgetBase io key f \<noteq> None" "TouchBase io key now f \<noteq> None"
  "Unreserve io key f \<noteq> None" "Reserve io key bytes free now f \<noteq> None"
  "MarkGuestCreated io key b f \<noteq> None" "MarkBaseReady io key f \<noteq> None"
  unfolding Advance_def Forget_def ForgetBase_def TouchBase_def Unreserve_def Reserve_def MarkGuestCreated_def MarkBaseReady_def
  by (rule withLock_total, (auto simp: Advance_section_def Forget_section_def ForgetBase_section_def TouchBase_section_def
      Unreserve_section_def Reserve_section_def MarkGuestCreated_section_def MarkBaseReady_section_def maps_made_def Let_def
      split: option.split sum.split)[1])+

lemma allocating_ops_total [simp]: "AllocateBase io key f \<noteq> None" "AllocateGuest io key f \<noteq> None"
  unfolding AllocateBase_def AllocateGuest_def allocate_def
  by (auto simp: allocate_section_def Let_def simp del: not_None_eq split: option.split intro!: withLock_total)

lemmas section_defs = Advance_section_def Forget_section_def ForgetBase_section_def TouchBase_section_def
  Unreserve_section_def Reserve_section_def MarkGuestCreated_section_def MarkBaseReady_section_def allocate_section_def

lemma gm_put_Some: "gm_put m k v = Some m' \<Longrightarrow> \<exists>y. m' = Some y"
  by (auto simp: gm_put_def split: option.splits)

subsection \<open>What each operation changes\<close>

lemma gm_delete_Ex [simp]: "(\<exists>y. gm_delete m k = Some y) = (\<exists>y. m = Some y)"
  by (auto simp: gm_delete_def)

lemma Advance_kept: "Advance io past f = Some (r, f') \<Longrightarrow> entries_kept {} {} f f'"
  unfolding Advance_def
  by (erule withLock_entries) (auto simp: Advance_section_def entries_keep_def maps_made_def split: if_splits)

lemma TouchBase_kept: "TouchBase io key now f = Some (r, f') \<Longrightarrow> entries_kept {} {} f f'"
  unfolding TouchBase_def
  by (erule withLock_entries) (auto simp: TouchBase_section_def entries_keep_def maps_made_def split: if_splits option.splits)

lemma Unreserve_kept: "Unreserve io key f = Some (r, f') \<Longrightarrow> entries_kept {} {} f f'"
  unfolding Unreserve_def
  by (erule withLock_entries) (auto simp: Unreserve_section_def entries_keep_def maps_made_def split: if_splits)

lemma Reserve_kept: "Reserve io key bytes free now f = Some (r, f') \<Longrightarrow> entries_kept {} {} f f'"
  unfolding Reserve_def
  by (erule withLock_entries)
    (auto simp: Reserve_section_def entries_keep_def maps_made_def Let_def split: if_splits option.splits sum.splits)

lemma Forget_kept: "Forget io key f = Some (r, f') \<Longrightarrow> entries_kept {} {key} f f'"
  unfolding Forget_def
  by (erule withLock_entries)
    (auto simp: Forget_section_def entries_keep_def maps_made_def gm_get_delete split: if_splits)

lemma ForgetBase_kept: "ForgetBase io key f = Some (r, f') \<Longrightarrow> entries_kept {key} {} f f'"
  unfolding ForgetBase_def
  by (erule withLock_entries)
    (auto simp: ForgetBase_section_def entries_keep_def maps_made_def gm_get_delete split: if_splits)

lemma ForgetBase_ready: "ForgetBase io key f = Some (r, f') \<Longrightarrow> ready_not_set f f'"
  unfolding ForgetBase_def
  by (erule withLock_ready)
    (auto simp: ForgetBase_section_def maps_made_def gm_bool_delete split: if_splits)

lemma allocate_file:
  assumes "allocate io get put key f = Some (r, f')"
  shows "f' = f \<or> withLock io (allocate_section get put key) f = Some (r, f')"
  using assms by (auto simp: allocate_def split: if_splits)

lemma AllocateBase_kept: "AllocateBase io key f = Some (r, f') \<Longrightarrow> entries_kept {key} {} f f'"
  unfolding AllocateBase_def
  by (drule allocate_file, elim disjE, simp, erule withLock_entries)
    (auto simp: allocate_section_def entries_keep_def maps_made_def Let_def gm_get_put dest: gm_put_Some split: option.splits)

lemma AllocateBase_ready: "AllocateBase io key f = Some (r, f') \<Longrightarrow> ready_not_set f f'"
  unfolding AllocateBase_def
  by (drule allocate_file, elim disjE, simp, erule withLock_ready)
    (auto simp: allocate_section_def maps_made_def Let_def dest: gm_put_Some split: option.splits)

lemma AllocateGuest_kept: "AllocateGuest io key f = Some (r, f') \<Longrightarrow> entries_kept {} {key} f f'"
  unfolding AllocateGuest_def
  by (drule allocate_file, elim disjE, simp, erule withLock_entries)
    (auto simp: allocate_section_def entries_keep_def maps_made_def Let_def gm_get_put dest: gm_put_Some split: option.splits)

lemma MarkBaseReady_kept: "MarkBaseReady io key f = Some (r, f') \<Longrightarrow> entries_kept {key} {} f f'"
  unfolding MarkBaseReady_def
  by (erule withLock_entries)
    (auto simp: MarkBaseReady_section_def entries_keep_def maps_made_def gm_get_put dest: gm_put_Some split: if_splits option.splits)

lemma MarkGuestCreated_kept: "MarkGuestCreated io key b f = Some (r, f') \<Longrightarrow> entries_kept {} {key} f f'"
  unfolding MarkGuestCreated_def
  by (erule withLock_entries)
    (auto simp: MarkGuestCreated_section_def entries_keep_def maps_made_def gm_get_put dest: gm_put_Some split: if_splits option.splits)

lemma kept_ready: "entries_kept {} G f f' \<Longrightarrow> ready_not_set f f'"
  by (simp add: entries_kept_def ready_not_set_def)

lemma AllocateGuest_fresh:
  assumes "AllocateGuest io key f = Some (Inr (i, True), f')"
  shows "guest_id key f = None" and "guest_id key f' = Some i"
proof -
  from assms have "withLock io (allocate_section rGuests (\<lambda>m st. st\<lparr>rGuests := m\<rparr>) key) f = Some (Inr (i, True), f')"
    by (auto simp: AllocateGuest_def allocate_def split: if_splits)
  from withLock_result [OF this] obtain st m where "load f = Inr st" "gm_get (rGuests st) key = None"
      "gm_put (gm_make (rGuests st)) key i = Some m" "f' = Stored (marshal (st\<lparr>rNextID := rNextID st + 1, rGuests := m\<rparr>))"
    by (auto simp: allocate_section_def Let_def split: option.splits if_splits)
  note r = this
  then show "guest_id key f = None" by (simp add: guest_id_def reg_at_def)
  have "maps_made (st\<lparr>rNextID := rNextID st + 1, rGuests := m\<rparr>)"
    using load_made [OF r(1)] gm_put_not_None [OF r(3)] by (simp add: maps_made_def)
  from reg_at_stored(2) [OF this] show "guest_id key f' = Some i"
    using gm_get_put [OF r(3)] by (simp add: guest_id_def r(4))
qed

end
