(* ===== verification/Thin_Status.thy ===== *)
theory Thin_Status
  imports Prelude
begin

text \<open>
  Reading the pool: \<open>internal/thinpool/status.go\<close>, the block arithmetic of
  \<open>internal/thinpool/thinpool.go\<close> and the space bound of \<open>internal/thinpool/extents.go\<close>.

  The two used-fraction methods of \<open>Status\<close> compute floating point numbers for display and
  are not modelled.
\<close>

section \<open>Status lines\<close>

definition ModeReadWrite :: string where
  "ModeReadWrite = ''rw''"

definition ModeOutOfDataSpace :: string where
  "ModeOutOfDataSpace = ''out_of_data_space''"

definition ModeReadOnly :: string where
  "ModeReadOnly = ''ro''"

record Status =
  TransactionID :: u64
  UsedMetadata :: u64
  TotalMetadata :: u64
  UsedData :: u64
  TotalData :: u64
  PoolMode :: string
  DiscardPassdown :: bool
  QueueIfNoSpace :: bool
  NeedsCheck :: bool

definition no_Status :: Status where
  "no_Status = \<lparr>TransactionID = 0, UsedMetadata = 0, TotalMetadata = 0, UsedData = 0, TotalData = 0, PoolMode = [],
     DiscardPassdown = False, QueueIfNoSpace = False, NeedsCheck = False\<rparr>"

definition Healthy :: "Status \<Rightarrow> bool" where
  "Healthy s \<longleftrightarrow> PoolMode s = ModeReadWrite \<and> \<not> NeedsCheck s"

definition parseRatio :: "string \<Rightarrow> (u64 \<times> u64) res" where
  "parseRatio s =
     (case Cut (CHR ''/'') s of
        None \<Rightarrow> Inl (Errorf (''want used/total, got '' @ Quote s))
      | Some (a, b) \<Rightarrow>
          (case ParseUint64 a of
             Inl e \<Rightarrow> Inl (Errorw (''used '' @ Quote a @ '': '') e)
           | Inr used \<Rightarrow>
               (case ParseUint64 b of
                  Inl e \<Rightarrow> Inl (Errorw (''total '' @ Quote b @ '': '') e)
                | Inr tot \<Rightarrow> Inr (used, tot))))"

definition is_mode :: "string \<Rightarrow> bool" where
  "is_mode w \<longleftrightarrow> w \<in> {ModeReadWrite, ModeReadOnly, ModeOutOfDataSpace}"

text \<open>One word of the loop over the flag words, with whether a mode has been seen.\<close>

definition scan_word :: "string \<Rightarrow> Status \<times> bool \<Rightarrow> Status \<times> bool" where
  "scan_word w acc =
     (let s = fst acc; sawMode = snd acc
      in if is_mode w then (s\<lparr>PoolMode := w\<rparr>, True)
         else if w = ''discard_passdown'' then (s\<lparr>DiscardPassdown := True\<rparr>, sawMode)
         else if w = ''no_discard_passdown'' then (s\<lparr>DiscardPassdown := False\<rparr>, sawMode)
         else if w = ''queue_if_no_space'' then (s\<lparr>QueueIfNoSpace := True\<rparr>, sawMode)
         else if w = ''error_if_no_space'' then (s\<lparr>QueueIfNoSpace := False\<rparr>, sawMode)
         else if w = ''needs_check'' then (s\<lparr>NeedsCheck := True\<rparr>, sawMode)
         else (s, sawMode))"

definition ParseStatus :: "string \<Rightarrow> Status res" where
  "ParseStatus line =
     (let f = Fields (TrimSpace line)
      in if length f < 10 then
           Inl (Errorf (''thin-pool status needs at least 10 fields, got '' @ dec (length f) @ '': '' @ Quote line))
         else if f ! 2 \<noteq> ''thin-pool'' then
           Inl (Errorf (''not a thin-pool target (field 3 = '' @ Quote (f ! 2) @ ''): '' @ Quote line))
         else case ParseUint64 (f ! 3) of
             Inl e \<Rightarrow> Inl (Errorw (''transaction id '' @ Quote (f ! 3) @ '': '') e)
           | Inr txn \<Rightarrow>
               (case parseRatio (f ! 4) of
                  Inl e \<Rightarrow> Inl (Errorw ''metadata usage: '' e)
                | Inr (um, tm) \<Rightarrow>
                    (case parseRatio (f ! 5) of
                       Inl e \<Rightarrow> Inl (Errorw ''data usage: '' e)
                     | Inr (ud, td) \<Rightarrow>
                         let r = fold scan_word (drop 7 f)
                               (no_Status\<lparr>TransactionID := txn, UsedMetadata := um, TotalMetadata := tm,
                                  UsedData := ud, TotalData := td\<rparr>, False)
                         in if snd r then Inr (fst r)
                            else Inl (Errorf (''no pool mode (rw/ro/out_of_data_space) in status: '' @ Quote line)))))"

section \<open>Sizes\<close>

definition BlockSectors :: u64 where
  "BlockSectors = 128"

definition MetadataBytesPerMapping :: u64 where
  "MetadataBytesPerMapping = 48"

definition lowWaterBlocks :: nat where
  "lowWaterBlocks = 16384"

definition MetadataSectorsFor :: "u64 \<Rightarrow> u64" where
  "MetadataSectorsFor dataBytes =
     (let mappings = dataBytes div (BlockSectors * 512);
          bytes = mappings * MetadataBytesPerMapping;
          bytes' = bytes * 2 + 64 * 1024 * 1024
      in (bytes' + 511) div 512)"

definition bytesToSectors :: "u64 \<Rightarrow> u64" where
  "bytesToSectors b = (b + 511) div 512"

section \<open>Space an image needs\<close>

text \<open>
  \<open>lseek\<close> with \<open>SEEK_DATA\<close> or \<open>SEEK_HOLE\<close>, the kernel's answer for an open file: an offset,
  \<open>ENXIO\<close>, or another error.
\<close>

datatype seek_result = At int | ENXIO | SeekErr

definition block_bytes :: int where
  "block_bytes = 128 * 512"

text \<open>
  The loop over the data extents: \<open>off\<close>, the blocks counted and the index of the last one.
  The outer option is \<open>None\<close> when the loop does not end, the inner one when extents
  are not reported.
\<close>

partial_function (option) count_blocks ::
  "(int \<Rightarrow> seek_result) \<Rightarrow> (int \<Rightarrow> seek_result) \<Rightarrow> int \<Rightarrow> u64 \<Rightarrow> int \<Rightarrow> u64 option option" where
  "count_blocks seekData seekHole off blocks lastCounted =
     (case seekData off of
        ENXIO \<Rightarrow> Some (Some blocks)
      | SeekErr \<Rightarrow> Some None
      | At data \<Rightarrow>
          (case seekHole data of
             ENXIO \<Rightarrow> Some None
           | SeekErr \<Rightarrow> Some None
           | At hole \<Rightarrow>
               let first = quot data block_bytes;
                   last = quot (hole - 1) block_bytes;
                   first' = (if first \<le> lastCounted then lastCounted + 1 else first)
               in if last \<ge> first'
                  then count_blocks seekData seekHole hole (blocks + of_int (last - first' + 1)) last
                  else count_blocks seekData seekHole hole blocks lastCounted))"

definition PoolBytesForFile ::
  "goerr option \<Rightarrow> (int \<Rightarrow> seek_result) \<Rightarrow> (int \<Rightarrow> seek_result) \<Rightarrow> u64 \<Rightarrow> u64 res option" where
  "PoolBytesForFile openErr seekData seekHole sizeBytes =
     (case openErr of
        Some e \<Rightarrow> Some (Inl e)
      | None \<Rightarrow>
          map_option (\<lambda>r. case r of
               None \<Rightarrow> Inr sizeBytes
             | Some blocks \<Rightarrow>
                 let need = blocks * (BlockSectors * 512)
                 in Inr (if need > sizeBytes then sizeBytes else need))
            (count_blocks seekData seekHole 0 0 (- 1)))"

section \<open>Lemmas\<close>

subsection \<open>Words of a line\<close>

lemma Fields_spaces_before: "Fields (dropWhile is_space s) = Fields s"
  unfolding Fields_def by (induction s) auto

lemma Fields_from_spaces: "list_all is_space t \<Longrightarrow> Fields_from [] t = []"
  by (induction t) auto

lemma Fields_from_spaces_after: "list_all is_space t \<Longrightarrow> Fields_from cur (s @ t) = Fields_from cur s"
proof (induction s arbitrary: cur)
  case Nil
  then show ?case by (cases t) (auto simp: Fields_from_spaces)
qed simp

lemma Fields_TrimSpace: "Fields (TrimSpace s) = Fields s"
proof -
  let ?u = "dropWhile is_space s"
  have "?u = rev (dropWhile is_space (rev ?u)) @ rev (takeWhile is_space (rev ?u))"
    by (metis rev_append rev_rev_ident takeWhile_dropWhile_id)
  then have "Fields ?u = Fields (TrimSpace s)"
    unfolding TrimSpace_def Fields_def
    by (metis Fields_from_spaces_after list_all_rev set_takeWhileD Ball_set)
  then show ?thesis by (simp add: Fields_spaces_before)
qed

definition plain_word :: "string \<Rightarrow> bool" where
  "plain_word w \<longleftrightarrow> w \<noteq> [] \<and> list_all (\<lambda>c. \<not> is_space c) w"

lemma Fields_from_word: "list_all (\<lambda>c. \<not> is_space c) w \<Longrightarrow> Fields_from cur (w @ s) = Fields_from (cur @ w) s"
  by (induction w arbitrary: cur) auto

lemma Fields_Join: "list_all plain_word ws \<Longrightarrow> Fields (Join '' '' ws) = ws"
proof (induction "'' ''" ws rule: Join.induct)
  case (2 x)
  then show ?case using Fields_from_word [of x "[]" "[]"] by (simp add: Fields_def plain_word_def)
next
  case (3 x y xs)
  then show ?case
    using Fields_from_word [of x "[]" "'' '' @ Join '' '' (y # xs)"] by (simp add: Fields_def plain_word_def is_space_def)
qed (simp_all add: Fields_def)

lemma dec_plain [simp]: "plain_word (dec n)"
  using dec_no_space by (auto simp: plain_word_def list_all_iff)

lemma ratio_plain: "plain_word (dec m @ ''/'' @ dec n)"
  using dec_no_space by (auto simp: plain_word_def list_all_iff is_space_def)

subsection \<open>Ratios\<close>

lemma Cut_before: "c \<notin> set a \<Longrightarrow> Cut c (a @ c # b) = Some (a, b)"
  by (induction a) auto

lemma slash_not_digit: "CHR ''/'' \<notin> set (dec n)"
  using dec_digits [of n] by (auto simp: list_all_iff is_digit_def)

lemma parseRatio_dec: "parseRatio (dec (unat u) @ ''/'' @ dec (unat t)) = Inr (u, t)"
  by (simp add: parseRatio_def Cut_before slash_not_digit ParseUint64_dec)

subsection \<open>Flag words\<close>

lemma not_modes [simp]:
  "\<not> is_mode ''discard_passdown''" "\<not> is_mode ''no_discard_passdown''" "\<not> is_mode ''queue_if_no_space''"
  "\<not> is_mode ''error_if_no_space''" "\<not> is_mode ''needs_check''"
  by code_simp+

lemma snd_scan_word: "snd (scan_word w acc) = (snd acc \<or> is_mode w)"
  by (simp add: scan_word_def Let_def)

lemma PoolMode_scan_word: "PoolMode (fst (scan_word w acc)) = (if is_mode w then w else PoolMode (fst acc))"
  by (simp add: scan_word_def Let_def)

lemma NeedsCheck_scan_word: "NeedsCheck (fst (scan_word w acc)) = (NeedsCheck (fst acc) \<or> w = ''needs_check'')"
  by (cases "w = ''needs_check''") (simp_all add: scan_word_def Let_def)

lemmas scan_word_facts = snd_scan_word PoolMode_scan_word NeedsCheck_scan_word

lemma scan_flags:
  "(snd (fold scan_word ws acc) \<longleftrightarrow> snd acc \<or> filter is_mode ws \<noteq> []) \<and>
   PoolMode (fst (fold scan_word ws acc)) = (if filter is_mode ws = [] then PoolMode (fst acc) else last (filter is_mode ws)) \<and>
   (NeedsCheck (fst (fold scan_word ws acc)) \<longleftrightarrow> NeedsCheck (fst acc) \<or> ''needs_check'' \<in> set ws)"
proof (induction ws arbitrary: acc)
  case (Cons w ws)
  from Cons.IH [of "scan_word w acc"] show ?case
    by (simp only: fold_Cons_rev fold.simps comp_def scan_word_facts filter.simps list.set insert_iff split: if_split) auto
qed simp

lemma ParseStatus_scan:
  assumes "ParseStatus line = Inr s"
  shows "\<exists>s0. s = fst (fold scan_word (drop 7 (Fields line)) (s0, False)) \<and>
    snd (fold scan_word (drop 7 (Fields line)) (s0, False)) \<and> NeedsCheck s0 = False"
proof -
  from assms obtain txn um tm ud td where
    "snd (fold scan_word (drop 7 (Fields line)) (no_Status\<lparr>TransactionID := txn, UsedMetadata := um, TotalMetadata := tm,
       UsedData := ud, TotalData := td\<rparr>, False))" and
    "s = fst (fold scan_word (drop 7 (Fields line)) (no_Status\<lparr>TransactionID := txn, UsedMetadata := um, TotalMetadata := tm,
       UsedData := ud, TotalData := td\<rparr>, False))"
    unfolding ParseStatus_def Let_def Fields_TrimSpace by (force split: if_splits sum.splits prod.splits)
  then show ?thesis by (intro exI conjI) (assumption, assumption, simp add: no_Status_def)
qed

section \<open>Round trip of the kernel's line\<close>

text \<open>The line the kernel documents for a pool; later kernels append further words.\<close>

definition status_words :: "nat \<Rightarrow> nat \<Rightarrow> Status \<Rightarrow> string \<Rightarrow> string list \<Rightarrow> string list" where
  "status_words start len s root extra =
     [dec start, dec len, ''thin-pool'', dec (unat (TransactionID s)),
      dec (unat (UsedMetadata s)) @ ''/'' @ dec (unat (TotalMetadata s)),
      dec (unat (UsedData s)) @ ''/'' @ dec (unat (TotalData s)), root, PoolMode s,
      (if DiscardPassdown s then ''discard_passdown'' else ''no_discard_passdown''),
      (if QueueIfNoSpace s then ''queue_if_no_space'' else ''error_if_no_space''),
      (if NeedsCheck s then ''needs_check'' else ''-'')] @ extra"

definition known_words :: "string list" where
  "known_words = [''rw'', ''ro'', ''out_of_data_space'', ''discard_passdown'', ''no_discard_passdown'',
     ''queue_if_no_space'', ''error_if_no_space'', ''needs_check'']"

lemma scan_unknown: "w \<notin> set known_words \<Longrightarrow> scan_word w acc = acc"
  by (simp add: scan_word_def known_words_def is_mode_def ModeReadWrite_def ModeReadOnly_def ModeOutOfDataSpace_def)

lemma fold_scan_unknown: "\<forall>w \<in> set ws. w \<notin> set known_words \<Longrightarrow> fold scan_word ws acc = acc"
  by (induction ws) (simp_all add: scan_unknown)

lemma mode_plain: "is_mode m \<Longrightarrow> plain_word m"
  by (auto simp: is_mode_def ModeReadWrite_def ModeReadOnly_def ModeOutOfDataSpace_def plain_word_def is_space_def)

lemma status_words_plain:
  assumes "is_mode (PoolMode s)" and "plain_word root" and "list_all plain_word extra"
  shows "list_all plain_word (status_words start len s root extra)"
  using assms mode_plain ratio_plain by (simp add: status_words_def) (simp add: plain_word_def is_space_def)

lemma ParseStatus_words:
  assumes "is_mode (PoolMode s)" and "plain_word root" and "list_all plain_word extra"
    and "list_all (\<lambda>w. w \<notin> set known_words) extra"
  shows "ParseStatus (Join '' '' (status_words start len s root extra)) = Inr s"
proof -
  let ?ws = "status_words start len s root extra"
  have f: "Fields (TrimSpace (Join '' '' ?ws)) = ?ws"
    by (simp only: Fields_TrimSpace Fields_Join [OF status_words_plain [OF assms(1-3)]])
  have un: "fold scan_word extra acc = acc" for acc
    using assms(4) by (intro fold_scan_unknown) (simp add: list_all_iff)
  have m: "PoolMode s \<noteq> ''needs_check''" "scan_word (PoolMode s) acc = ((fst acc)\<lparr>PoolMode := PoolMode s\<rparr>, True)" for acc
    using assms(1) by (auto simp: scan_word_def is_mode_def ModeReadWrite_def ModeReadOnly_def ModeOutOfDataSpace_def)
  have fl: "fold scan_word (drop 7 ?ws) (s0, False) =
      (s0\<lparr>PoolMode := PoolMode s, DiscardPassdown := DiscardPassdown s, QueueIfNoSpace := QueueIfNoSpace s,
          NeedsCheck := NeedsCheck s \<or> NeedsCheck s0\<rparr>, True)" for s0
    by (simp add: status_words_def un m) (auto simp: scan_word_def is_mode_def ModeReadWrite_def ModeReadOnly_def ModeOutOfDataSpace_def)
  show ?thesis
    unfolding ParseStatus_def f Let_def fl
    by (simp add: status_words_def parseRatio_dec [simplified] ParseUint64_dec no_Status_def)
qed

definition ex_status :: Status where
  "ex_status = \<lparr>TransactionID = 7, UsedMetadata = 42, TotalMetadata = 1024, UsedData = 16, TotalData = 16384,
     PoolMode = ''ro'', DiscardPassdown = True, QueueIfNoSpace = False, NeedsCheck = True\<rparr>"

lemma ex_words [simp]:
  "is_mode (PoolMode ex_status)" "plain_word ''-''" "list_all plain_word [''1024'']" "list_all (\<lambda>w. w \<notin> set known_words) [''1024'']"
  by (simp_all add: ex_status_def is_mode_def ModeReadOnly_def plain_word_def is_space_def known_words_def)

text \<open>
  Parsing inverts the kernel's format: for every pool status, whatever the held metadata
  root and whatever unknown words a later kernel appends, \<open>ParseStatus\<close> returns exactly the
  status that was printed.\<close>

theorem status_line_roundtrip:
  assumes "is_mode (PoolMode s)" and "plain_word root" and "list_all plain_word extra"
    and "list_all (\<lambda>w. w \<notin> set known_words) extra"
  shows "ParseStatus (Join '' '' (status_words start len s root extra)) = Inr s"
  using assms by (rule ParseStatus_words)

theorem status_line_roundtrip_witness:
  "ParseStatus (Join '' '' (status_words 0 2097152 ex_status ''-'' [''1024''])) = Inr ex_status"
  by (rule status_line_roundtrip) (simp_all only: ex_words)

text \<open>
  The mode is read, never guessed: an accepted status line has a mode word among its flag
  words, the reported mode is the last of them, and the pool is reported healthy exactly
  when that word is \<open>rw\<close> and no \<open>needs_check\<close> word is present.\<close>

theorem mode_never_guessed:
  assumes "ParseStatus line = Inr s"
  shows "filter is_mode (drop 7 (Fields line)) \<noteq> [] \<and> PoolMode s = last (filter is_mode (drop 7 (Fields line))) \<and>
    (Healthy s \<longleftrightarrow> last (filter is_mode (drop 7 (Fields line))) = ''rw'' \<and> ''needs_check'' \<notin> set (drop 7 (Fields line)))"
proof -
  from ParseStatus_scan [OF assms] obtain s0 where "NeedsCheck s0 = False"
    "s = fst (fold scan_word (drop 7 (Fields line)) (s0, False))" "snd (fold scan_word (drop 7 (Fields line)) (s0, False))"
    by blast
  with scan_flags [of "drop 7 (Fields line)" "(s0, False)"] show ?thesis by (simp add: Healthy_def ModeReadWrite_def)
qed

theorem mode_never_guessed_witness:
  "\<exists>s. ParseStatus (Join '' '' (status_words 0 2097152 ex_status ''-'' [''1024''])) = Inr s \<and>
     PoolMode s = ''ro'' \<and> \<not> Healthy s"
proof -
  let ?ws = "status_words 0 2097152 ex_status ''-'' [''1024'']"
  have p: "ParseStatus (Join '' '' ?ws) = Inr ex_status" and q: "list_all plain_word ?ws"
    by (rule ParseStatus_words status_words_plain, simp_all only: ex_words)+
  have "filter is_mode (drop 7 (Fields (Join '' '' ?ws))) = [''ro'']"
    unfolding Fields_Join [OF q] by (simp add: status_words_def ex_status_def is_mode_def ModeReadWrite_def ModeReadOnly_def ModeOutOfDataSpace_def)
  with mode_never_guessed [OF p] p show ?thesis by auto
qed

section \<open>Metadata size\<close>

lemma unat_u64_less: "unat (w :: u64) < 2 ^ 64"
  using unsigned_less [where ?'a = nat and w = w] by simp

text \<open>
  The metadata device size is computed without overflow for every data size: it is the
  exact number of sectors for twice 48 bytes per 64 KiB mapping plus 64 MiB, which is
  never less than 48 bytes per mapping.\<close>

theorem metadata_size_exact:
  "unat (MetadataSectorsFor dataBytes) = ((unat dataBytes div 65536) * 96 + 67108864 + 511) div 512 \<and>
   (unat dataBytes div 65536) * 48 \<le> unat (MetadataSectorsFor dataBytes) * 512"
proof -
  define m where "m = unat dataBytes div 65536"
  have m: "m < 2 ^ 48" using unat_u64_less [of dataBytes] by (simp add: m_def)
  have a: "unat (dataBytes div (BlockSectors * 512)) = m"
    by (simp add: m_def BlockSectors_def unat_div_distrib)
  have b: "unat (dataBytes div (BlockSectors * 512) * MetadataBytesPerMapping * 2 + 64 * 1024 * 1024 + 511) = m * 96 + 67108864 + 511"
    using m a by (simp add: MetadataBytesPerMapping_def unat_word_ariths)
  have c: "unat (MetadataSectorsFor dataBytes) = (m * 96 + 67108864 + 511) div 512"
    using b by (simp add: MetadataSectorsFor_def Let_def unat_div_distrib)
  have "m * 48 \<le> (m * 96 + 67108864 + 511) div 512 * 512" by linarith
  with c show ?thesis by (simp add: m_def)
qed

section \<open>The space bound of an image\<close>

text \<open>
  What \<open>lseek\<close> documents about a file whose data lies at the offsets \<open>D\<close>: \<open>SEEK_DATA\<close> finds the
  next offset with data, or \<open>ENXIO\<close> when there is none; from an offset with data \<open>SEEK_HOLE\<close> finds
  an offset behind it up to which everything is data.
\<close>

definition lseek_contract :: "int set \<Rightarrow> (int \<Rightarrow> seek_result) \<Rightarrow> (int \<Rightarrow> seek_result) \<Rightarrow> bool" where
  "lseek_contract D seekData seekHole \<longleftrightarrow>
     (\<forall>off \<ge> 0. case seekData off of
          At d \<Rightarrow> off \<le> d \<and> d \<in> D \<and> {off..<d} \<inter> D = {}
        | ENXIO \<Rightarrow> {off..} \<inter> D = {}
        | SeekErr \<Rightarrow> False) \<and>
     (\<forall>off \<in> D. \<exists>h. seekHole off = At h \<and> off < h \<and> {off..<h} \<subseteq> D)"

definition blocks_of :: "int set \<Rightarrow> int set" where
  "blocks_of D = (\<lambda>x. x div block_bytes) ` D"

lemma blocks_of_interval:
  assumes "a < b"
  shows "blocks_of {a..<b} = {a div block_bytes..(b - 1) div block_bytes}"
proof (intro equalityI subsetI)
  fix k
  assume "k \<in> {a div block_bytes..(b - 1) div block_bytes}"
  then have k: "a div block_bytes \<le> k" "k \<le> (b - 1) div block_bytes" by auto
  let ?x = "max a (k * block_bytes)"
  have "?x div block_bytes = k" using k by (auto simp: block_bytes_def max_def) 
  moreover have "?x \<in> {a..<b}" using k assms by (auto simp: block_bytes_def max_def)
  ultimately show "k \<in> blocks_of {a..<b}" unfolding blocks_of_def by (metis imageI)
qed (auto simp: blocks_of_def block_bytes_def intro: zdiv_mono1)

lemma blocks_of_Un: "blocks_of (A \<union> B) = blocks_of A \<union> blocks_of B"
  by (auto simp: blocks_of_def)

text \<open>One extent: which blocks it adds to those counted so far.\<close>

lemma blocks_step:
  fixes D :: "int set"
  assumes data: "{off..<data} \<inter> D = {}" "{data..<hole} \<subseteq> D" "0 \<le> off" "off \<le> data" "data < hole" "D \<subseteq> {0..}"
    and last: "\<forall>b \<in> blocks_of (D \<inter> {..<off}). b \<le> l" "l = - 1 \<or> l \<in> blocks_of (D \<inter> {..<off})"
    and first: "f = (if data div block_bytes \<le> l then l + 1 else data div block_bytes)"
  shows "blocks_of (D \<inter> {..<hole}) = blocks_of (D \<inter> {..<off}) \<union> {f..(hole - 1) div block_bytes}"
    and "blocks_of (D \<inter> {..<off}) \<inter> {f..} = {}" and "l \<le> data div block_bytes"
proof -
  show le: "l \<le> data div block_bytes"
  proof (cases "l = - 1")
    case False
    with last(2) obtain x where "x < off" "l = x div block_bytes" by (auto simp: blocks_of_def)
    with data(4) show ?thesis by (auto simp: block_bytes_def intro: zdiv_mono1)
  qed (use data(3,4) in \<open>auto simp: block_bytes_def div_int_pos_iff\<close>)
  have "D \<inter> {..<hole} = (D \<inter> {..<off}) \<union> {data..<hole}"
    using data by (auto simp: disjoint_iff) (meson atLeastLessThan_iff linorder_not_less)+
  then have u: "blocks_of (D \<inter> {..<hole}) = blocks_of (D \<inter> {..<off}) \<union> {data div block_bytes..(hole - 1) div block_bytes}"
    by (simp only: blocks_of_Un blocks_of_interval [OF data(5)])
  show "blocks_of (D \<inter> {..<hole}) = blocks_of (D \<inter> {..<off}) \<union> {f..(hole - 1) div block_bytes}"
  proof (cases "data div block_bytes \<le> l")
    case True
    with le have eq: "l = data div block_bytes" by simp
    have "l \<noteq> - 1" using data(3,4) eq by (simp add: block_bytes_def div_int_pos_iff)
    with last(2) have "l \<in> blocks_of (D \<inter> {..<off})" by simp
    then have "blocks_of (D \<inter> {..<off}) \<union> {l..t} = blocks_of (D \<inter> {..<off}) \<union> {l + 1..t}" for t
      by (auto simp: le_less)
    with u show ?thesis by (simp add: eq [symmetric] first)
  qed (use u first in simp)
  have "l < f" using first by (simp split: if_splits)
  with last(1) show "blocks_of (D \<inter> {..<off}) \<inter> {f..} = {}" by force
qed

lemma block_quot: "0 \<le> a \<Longrightarrow> quot a block_bytes = a div block_bytes"
  by (simp add: quot_def)

lemma blocks_of_bounded: "D \<subseteq> {0..<2 ^ 63} \<Longrightarrow> blocks_of D \<subseteq> {0..<2 ^ 47}"
proof
  fix k
  assume D: "D \<subseteq> {0..<2 ^ 63}" and "k \<in> blocks_of D"
  then obtain x where "x \<in> D" "k = x div 65536" by (auto simp: blocks_of_def block_bytes_def)
  moreover from this D have "0 \<le> x" "x < 2 ^ 63" by auto
  ultimately show "k \<in> {0..<2 ^ 47}" by (simp add: div_int_pos_iff)
qed

lemma card_blocks: "D \<subseteq> {0..<2 ^ 63} \<Longrightarrow> finite (blocks_of D) \<and> card (blocks_of D) \<le> 2 ^ 47"
proof -
  assume "D \<subseteq> {0..<2 ^ 63}"
  then have b: "blocks_of D \<subseteq> {0..<2 ^ 47}" by (rule blocks_of_bounded)
  then have "card (blocks_of D) \<le> card {0..<2 ^ 47 :: int}" by (intro card_mono) (rule finite_atLeastLessThan_int)
  also have "\<dots> = 2 ^ 47" by (simp only: card_atLeastLessThan_int) simp
  finally show ?thesis using finite_subset [OF b finite_atLeastLessThan_int] by blast
qed

lemma count_blocks_exact:
  assumes c: "lseek_contract D sd sh" and D: "D \<subseteq> {0..<2 ^ 63}" and off: "0 \<le> off"
    and last: "\<forall>b \<in> blocks_of (D \<inter> {..<off}). b \<le> l" "l = - 1 \<or> l \<in> blocks_of (D \<inter> {..<off})"
  shows "count_blocks sd sh off (of_nat (card (blocks_of (D \<inter> {..<off})))) l = Some (Some (of_nat (card (blocks_of D))))"
  using off last
proof (induction "nat (2 ^ 63 - off)" arbitrary: off l rule: less_induct)
  case less
  show ?case
  proof (cases "sd off")
    case (At data)
    with c less.prems(1) have d: "off \<le> data" "data \<in> D" "{off..<data} \<inter> D = {}"
      unfolding lseek_contract_def by fastforce+
    with c obtain hole where h: "sh data = At hole" "data < hole" "{data..<hole} \<subseteq> D" unfolding lseek_contract_def by blast
    define f t where "f = (if data div block_bytes \<le> l then l + 1 else data div block_bytes)" and "t = (hole - 1) div block_bytes"
    have pos: "D \<subseteq> {0..}" using D by auto
    note st = blocks_step [OF d(3) h(3) less.prems(1) d(1) h(2) pos less.prems(2,3) f_def]
    have hole: "0 \<le> hole" "off < hole" "off < 2 ^ 63" using d h less.prems(1) D by auto
    have fin: "finite (blocks_of (D \<inter> {..<off}))" using card_blocks [of "D \<inter> {..<off}"] D by blast
    have card: "card (blocks_of (D \<inter> {..<hole})) = card (blocks_of (D \<inter> {..<off})) + card {f..t}"
      unfolding st(1) t_def [symmetric] using st(2) fin by (intro card_Un_disjoint) auto
    have IH: "\<forall>b \<in> blocks_of (D \<inter> {..<hole}). b \<le> l' \<Longrightarrow> l' = - 1 \<or> l' \<in> blocks_of (D \<inter> {..<hole}) \<Longrightarrow>
        count_blocks sd sh hole (of_nat (card (blocks_of (D \<inter> {..<hole})))) l' = Some (Some (of_nat (card (blocks_of D))))" for l'
      using hole by (intro less.hyps) auto
    have q: "quot data block_bytes = data div block_bytes" "quot (hole - 1) block_bytes = t"
      using d h less.prems(1) by (simp_all add: block_quot t_def)
    have one: "count_blocks sd sh off b l =
        (if f \<le> t then count_blocks sd sh hole (b + of_int (t - f + 1)) t else count_blocks sd sh hole b l)" for b
      by (subst count_blocks.simps) (simp only: At h(1) q Let_def seek_result.case f_def)
    have all: "\<forall>b \<in> blocks_of (D \<inter> {..<hole}). b \<le> max l t" using less.prems(2) by (auto simp: st(1) t_def)
    show ?thesis
    proof (cases "f \<le> t")
      case True
      have "of_nat (card (blocks_of (D \<inter> {..<off}))) + of_int (t - f + 1) = (of_nat (card (blocks_of (D \<inter> {..<hole}))) :: u64)"
        using True by (simp add: card of_nat_nat)
      moreover have "max l t = t" using st(3) True by (simp add: f_def split: if_splits)
      moreover have "t \<in> blocks_of (D \<inter> {..<hole})" using True by (simp add: st(1) t_def)
      ultimately show ?thesis using True one IH [of t] all by simp
    next
      case False
      then have same: "blocks_of (D \<inter> {..<hole}) = blocks_of (D \<inter> {..<off})" by (simp add: st(1) t_def)
      with False one IH [of l] less.prems(2,3) show ?thesis by simp
    qed
  next
    case ENXIO
    with c less.prems(1) have "{off..} \<inter> D = {}" unfolding lseek_contract_def by fastforce
    then have "D \<inter> {..<off} = D" by (auto simp: disjoint_iff) (meson atLeast_iff linorder_not_less)
    with ENXIO show ?thesis by (subst count_blocks.simps) simp
  next
    case SeekErr
    with c less.prems(1) show ?thesis unfolding lseek_contract_def by fastforce
  qed
qed

text \<open>
  C34. The loop over the extents ends and counts every pool block that holds data exactly
  once: for a file that follows the \<open>lseek\<close> contract \<open>PoolBytesForFile\<close> returns 64 KiB for each such
  block, but at most the size it was given. The cut at the size is the only way the
  result can be below the space the blocks occupy.\<close>

theorem pool_bytes_counts_blocks:
  assumes "lseek_contract D seekData seekHole" and "D \<subseteq> {0..<2 ^ 63}"
  shows "\<exists>need. PoolBytesForFile None seekData seekHole sizeBytes = Some (Inr need) \<and>
    unat need = min (card (blocks_of D) * 65536) (unat sizeBytes)"
proof -
  have e: "blocks_of (D \<inter> {..<0}) = {}" using assms(2) by (auto simp: blocks_of_def)
  have r: "count_blocks seekData seekHole 0 0 (- 1) = Some (Some (of_nat (card (blocks_of D))))"
    using count_blocks_exact [OF assms, of 0 "- 1"] by (simp add: e)
  have b: "card (blocks_of D) \<le> 2 ^ 47" using card_blocks [OF assms(2)] by blast
  have "unat (of_nat (card (blocks_of D)) * (BlockSectors * 512)) = card (blocks_of D) * 65536"
    using b by (simp add: BlockSectors_def unat_word_ariths unat_of_nat)
  then show ?thesis
    by (auto simp: PoolBytesForFile_def r Let_def word_less_nat_alt min_def)
qed

text \<open>A file with one byte of data at the start of each of two blocks.\<close>

definition ex_seekData :: "int \<Rightarrow> seek_result" where
  "ex_seekData off = (if off \<le> 0 then At 0 else if off \<le> 65536 then At 65536 else ENXIO)"

definition ex_seekHole :: "int \<Rightarrow> seek_result" where
  "ex_seekHole off = At (off + 1)"

theorem pool_bytes_counts_blocks_witness:
  "PoolBytesForFile None ex_seekData ex_seekHole 1048576 = Some (Inr 131072) \<and>
   PoolBytesForFile None ex_seekData ex_seekHole 65537 = Some (Inr 65537)"
proof -
  have c: "lseek_contract {0, 65536} ex_seekData ex_seekHole"
    by (auto simp: lseek_contract_def ex_seekData_def ex_seekHole_def)
  have b: "blocks_of {0, 65536} = {0, 1}" by (simp add: blocks_of_def block_bytes_def)
  have d: "{0, 65536 :: int} \<subseteq> {0..<2 ^ 63}" by simp
  from pool_bytes_counts_blocks [OF c d, of 1048576] pool_bytes_counts_blocks [OF c d, of 65537]
  show ?thesis by (auto simp: b intro!: word_unat_eq_iff [THEN iffD2])
qed

end
