(* ===== verification/Thin_Manager.thy ===== *)
theory Thin_Manager
  imports Programs Thin_Registry Thin_Status
begin

text \<open>
  Driving device-mapper: \<open>internal/thinpool/thinpool.go\<close>, and the programs of the thin pool in
  general.

  A program of a node process runs in a world: the trace of what it has done so far and
  the registry file. Everything outside the repository is a field of the environment \<open>env\<close> and
  answers from the whole history: device-mapper (\<open>eDm\<close>), the failures of registry I/O, locks
  and device writes, the clock, and the other processes of the node (\<open>eOthers\<close>), which may
  replace the registry file before each operation on it. A theorem without a hypothesis on
  the environment therefore holds for every device-mapper, every failure and every
  interleaving with other processes.
\<close>

section \<open>Worlds and programs\<close>

type_synonym u8 = "8 word"

datatype event =
    Dm "string list" string "goerr option"
  | RegOp regfile regfile
  | Locked string
  | Unlocked string
  | WroteAt string nat "u8 list" "goerr option"
  | Synced string "goerr option"

record world =
  wTrace :: "event list"
  wReg :: regfile

record env =
  eDm :: "event list \<Rightarrow> string list \<Rightarrow> string \<times> goerr option"
  eReg :: "event list \<Rightarrow> regio"
  eOthers :: "event list \<Rightarrow> regfile \<Rightarrow> regfile"
  eNow :: "event list \<Rightarrow> int"
  eLock :: "event list \<Rightarrow> string \<Rightarrow> goerr option"
  eTryLock :: "event list \<Rightarrow> string \<Rightarrow> bool res"
  eCtx :: "event list \<Rightarrow> goerr option"
  eOpenDev :: "event list \<Rightarrow> string \<Rightarrow> goerr option"
  eWrite :: "event list \<Rightarrow> goerr option"
  eSync :: "event list \<Rightarrow> goerr option"

type_synonym 'a prog = "(world, 'a) program"

definition emit :: "event \<Rightarrow> unit prog" where
  "emit e w = Some (Inr (), w\<lparr>wTrace := wTrace w @ [e]\<rparr>)"

text \<open>An operation on the registry, after whatever other processes have done to the file.\<close>

definition regop :: "env \<Rightarrow> (regio \<Rightarrow> regfile \<Rightarrow> ('a res \<times> regfile) option) \<Rightarrow> 'a prog" where
  "regop E p w =
     (let f = eOthers E (wTrace w) (wReg w)
      in map_option (\<lambda>(r, f'). (r, w\<lparr>wReg := f', wTrace := wTrace w @ [RegOp f f']\<rparr>)) (p (eReg E (wTrace w)) f))"

section \<open>The manager\<close>

record Manager =
  Pool :: string
  DataDev :: string
  MetaDev :: string

definition dmsetup :: "env \<Rightarrow> string list \<Rightarrow> (string \<times> goerr option) prog" where
  "dmsetup E args w =
     (let a = ''--noudevsync'' # args;
          r = eDm E (wTrace w) a
      in Some (Inr r, w\<lparr>wTrace := wTrace w @ [Dm a (fst r) (snd r)]\<rparr>))"

definition checked :: "(string \<times> goerr option) prog \<Rightarrow> string prog" where
  "checked m = andThen m (\<lambda>r. case snd r of None \<Rightarrow> ret (fst r) | Some e \<Rightarrow> raise e)"

definition poolTable :: "Manager \<Rightarrow> u64 \<Rightarrow> string" where
  "poolTable M lengthSectors =
     ''0 '' @ dec (unat lengthSectors) @ '' thin-pool '' @ MetaDev M @ '' '' @ DataDev M @ '' '' @
     dec (unat BlockSectors) @ '' '' @ dec lowWaterBlocks"

definition line_names :: "string \<Rightarrow> string \<Rightarrow> bool" where
  "line_names name line \<longleftrightarrow> (case Fields line of [] \<Rightarrow> False | f # _ \<Rightarrow> f = name)"

definition exists :: "env \<Rightarrow> string \<Rightarrow> bool prog" where
  "exists E name =
     andThen (checked (dmsetup E [''ls'']))
       (\<lambda>out. ret (list_ex (line_names name) (Split (char_of (10 :: nat)) out)))"

definition EnsurePool :: "env \<Rightarrow> Manager \<Rightarrow> u64 \<Rightarrow> unit prog" where
  "EnsurePool E M lengthSectors =
     andThen (exists E (Pool M))
       (\<lambda>ok. if ok then ret ()
             else ignoring (checked (dmsetup E [''create'', Pool M, ''--table'', poolTable M lengthSectors])))"

definition Manager_Status :: "env \<Rightarrow> Manager \<Rightarrow> Status prog" where
  "Manager_Status E M =
     andThen (checked (dmsetup E [''status'', Pool M]))
       (\<lambda>out. case ParseStatus out of Inl e \<Rightarrow> raise e | Inr s \<Rightarrow> ret s)"

definition poolDevRef :: "env \<Rightarrow> Manager \<Rightarrow> string prog" where
  "poolDevRef E M =
     andThen (wrapErr (''resolving pool '' @ Pool M @ '': '')
                (checked (dmsetup E [''info'', ''-c'', ''--noheadings'', ''-o'', ''major,minor'', Pool M])))
       (\<lambda>out. let ref = TrimSpace out
              in if ref = [] \<or> \<not> Contains ref '':''
                 then raise (Errorf (''pool '' @ Pool M @ '': unexpected major,minor '' @ Quote ref))
                 else ret ref)"

definition thin_table :: "u64 \<Rightarrow> string \<Rightarrow> u32 \<Rightarrow> string" where
  "thin_table sizeSectors pool deviceID =
     ''0 '' @ dec (unat sizeSectors) @ '' thin '' @ pool @ '' '' @ dec (unat deviceID)"

definition activate :: "env \<Rightarrow> Manager \<Rightarrow> string \<Rightarrow> u32 \<Rightarrow> u64 \<Rightarrow> unit prog" where
  "activate E M name deviceID sizeSectors =
     andThen (poolDevRef E M)
       (\<lambda>pool. andThen (checked (dmsetup E [''create'', name, ''--table'', thin_table sizeSectors pool deviceID]))
          (\<lambda>_. ignoring (checked (dmsetup E [''mknodes'', name]))))"

definition create_thin_msg :: "u32 \<Rightarrow> string" where
  "create_thin_msg deviceID = ''create_thin '' @ dec (unat deviceID)"

definition create_snap_msg :: "u32 \<Rightarrow> u32 \<Rightarrow> string" where
  "create_snap_msg deviceID baseID = ''create_snap '' @ dec (unat deviceID) @ '' '' @ dec (unat baseID)"

definition delete_msg :: "u32 \<Rightarrow> string" where
  "delete_msg deviceID = ''delete '' @ dec (unat deviceID)"

definition CreateBase :: "env \<Rightarrow> Manager \<Rightarrow> u32 \<Rightarrow> string \<Rightarrow> u64 \<Rightarrow> unit prog" where
  "CreateBase E M deviceID name sizeSectors =
     andThen (wrapErr (''create_thin '' @ dec (unat deviceID) @ '': '')
                (checked (dmsetup E [''message'', Pool M, ''0'', create_thin_msg deviceID])))
       (\<lambda>_. activate E M name deviceID sizeSectors)"

definition SnapshotBase :: "env \<Rightarrow> Manager \<Rightarrow> u32 \<Rightarrow> u32 \<Rightarrow> string \<Rightarrow> u64 \<Rightarrow> unit prog" where
  "SnapshotBase E M baseID deviceID name sizeSectors =
     andThen (wrapErr (''create_snap '' @ dec (unat deviceID) @ '' from '' @ dec (unat baseID) @ '': '')
                (checked (dmsetup E [''message'', Pool M, ''0'', create_snap_msg deviceID baseID])))
       (\<lambda>_. activate E M name deviceID sizeSectors)"

definition Activate :: "env \<Rightarrow> Manager \<Rightarrow> u32 \<Rightarrow> string \<Rightarrow> u64 \<Rightarrow> unit prog" where
  "Activate E M deviceID name sizeSectors = activate E M name deviceID sizeSectors"

definition Active :: "env \<Rightarrow> string \<Rightarrow> bool prog" where
  "Active E name = exists E name"

definition DevicePath :: "string \<Rightarrow> string" where
  "DevicePath name = ''/dev/mapper/'' @ name"

definition RemoveDevice :: "env \<Rightarrow> string \<Rightarrow> unit prog" where
  "RemoveDevice E name =
     andThen (checked (dmsetup E [''remove'', ''--retry'', name]))
       (\<lambda>_. ignoring (checked (dmsetup E [''mknodes'', name])))"

definition ErrNoSuchThin_text :: string where
  "ErrNoSuchThin_text = ''the pool holds no thin device with that id''"

definition DeleteThin :: "env \<Rightarrow> Manager \<Rightarrow> u32 \<Rightarrow> unit prog" where
  "DeleteThin E M deviceID =
     andThen (dmsetup E [''message'', Pool M, ''0'', delete_msg deviceID])
       (\<lambda>r. case snd r of
              None \<Rightarrow> ret ()
            | Some e \<Rightarrow>
                if Contains (fst r) ''No data available''
                then raise (GoErr (ErrNoSuchThin_text @ '': id '' @ dec (unat deviceID) @ '': '' @ err_msg e)
                              (ErrNoSuchThin # err_wraps e))
                else raise e)"

definition reload :: "env \<Rightarrow> Manager \<Rightarrow> u64 \<Rightarrow> unit prog" where
  "reload E M lengthSectors =
     andThen (checked (dmsetup E [''suspend'', Pool M]))
       (\<lambda>_. andThen (dmsetup E [''reload'', Pool M, ''--table'', poolTable M lengthSectors])
          (\<lambda>r. case snd r of
                 Some e \<Rightarrow> andThen (dmsetup E [''resume'', Pool M]) (\<lambda>_. raise e)
               | None \<Rightarrow> ignoring (checked (dmsetup E [''resume'', Pool M]))))"

definition GrowData :: "env \<Rightarrow> Manager \<Rightarrow> u64 \<Rightarrow> unit prog" where
  "GrowData E M newLengthSectors = reload E M newLengthSectors"

definition GrowMetadata :: "env \<Rightarrow> Manager \<Rightarrow> u64 \<Rightarrow> unit prog" where
  "GrowMetadata E M lengthSectors = reload E M lengthSectors"

section \<open>Reasoning about programs\<close>

lemma wp_emit [wp_rules]: "wp (emit e) Q w = Q (Inr ()) (w\<lparr>wTrace := wTrace w @ [e]\<rparr>)"
  by (simp add: wp_def emit_def)

lemma wp_dmsetup [wp_rules]:
  "wp (dmsetup E args) Q w =
   (let r = eDm E (wTrace w) (''--noudevsync'' # args)
    in Q (Inr r) (w\<lparr>wTrace := wTrace w @ [Dm (''--noudevsync'' # args) (fst r) (snd r)]\<rparr>))"
  by (simp add: wp_def dmsetup_def Let_def)

lemma wp_checked [wp_rules]:
  "wp (checked m) Q w =
   wp m (\<lambda>r w'. case r of Inl e \<Rightarrow> Q (Inl e) w' | Inr x \<Rightarrow> Q (case snd x of None \<Rightarrow> Inr (fst x) | Some e \<Rightarrow> Inl e) w') w"
  by (simp add: checked_def wp_andThen) (auto simp: wp_ret wp_raise intro!: arg_cong2 [where f = "\<lambda>Q. wp m Q"] split: sum.split option.split)

lemma wp_regop:
  assumes "\<And>r f'. p (eReg E (wTrace w)) (eOthers E (wTrace w) (wReg w)) = Some (r, f') \<Longrightarrow>
      Q r (w\<lparr>wReg := f', wTrace := wTrace w @ [RegOp (eOthers E (wTrace w) (wReg w)) f']\<rparr>)"
    and "\<And>io f. p io f \<noteq> None"
  shows "wp (regop E p) Q w"
proof -
  obtain r f' where "p (eReg E (wTrace w)) (eOthers E (wTrace w) (wReg w)) = Some (r, f')"
    using assms(2) [of "eReg E (wTrace w)" "eOthers E (wTrace w) (wReg w)"] by fastforce
  with assms(1) [OF this] show ?thesis by (simp add: wp_def regop_def Let_def)
qed

abbreviation emits :: "(event list \<Rightarrow> event \<Rightarrow> bool) \<Rightarrow> 'a prog \<Rightarrow> bool" where
  "emits \<equiv> emits_via wTrace"

lemmas emits_def = emits_via_def [where tr = wTrace]
lemmas emitsD = emits_viaD [where tr = wTrace]
lemmas emits_total = emits_via_total [where tr = wTrace]
lemmas emits_mono = emits_via_mono [where tr = wTrace]
lemmas wp_emits = wp_emits_via [where tr = wTrace]

lemma emits_checked [emits_rules]: "emits P m \<Longrightarrow> emits P (checked m)"
  unfolding checked_def by (intro emits_rules) (auto intro: emits_rules split: option.split)

lemma emits_emit [emits_rules]: "(\<And>tr. P tr e) \<Longrightarrow> emits P (emit e)"
  by (simp add: emits_def wp_rules grows_one)

lemma emits_dmsetup [emits_rules]:
  "(\<And>tr out err. P tr (Dm (''--noudevsync'' # args) out err)) \<Longrightarrow> emits P (dmsetup E args)"
  by (simp add: emits_def wp_rules Let_def grows_one)

lemma emits_regop:
  assumes "\<And>io f. p io f \<noteq> None" and "\<And>tr io f r f'. p io f = Some (r, f') \<Longrightarrow> P tr (RegOp f f')"
  shows "emits P (regop E p)"
  unfolding emits_def by (intro allI wp_regop) (auto simp: assms(1) intro: grows_one assms(2) simp del: not_None_eq)

lemma wp_command:
  assumes "grows P a (wTrace w)" and "\<And>out err. P (wTrace w) (Dm (''--noudevsync'' # args) out err)"
    and "\<And>r w'. grows P a (wTrace w') \<Longrightarrow> Q r w'"
  shows "wp (checked (dmsetup E args)) Q w"
proof -
  have "grows P a (wTrace (w\<lparr>wTrace := wTrace w @ [Dm (''--noudevsync'' # args) out err]\<rparr>))" for out err
    using grows_snoc [OF assms(2,1)] by simp
  then show ?thesis by (simp only: wp_checked wp_dmsetup Let_def sum.case) (rule assms(3), simp)
qed

section \<open>Resizing\<close>

text \<open>
  A resize never leaves the pool suspended on purpose: whatever device-mapper answers,
  once the suspend has succeeded the last command issued is a resume, and success is
  reported only when both the reload and the resume succeeded.\<close>

theorem reload_always_resumes:
  "\<exists>r w' new. reload E M lengthSectors w = Some (r, w') \<and> wTrace w' = wTrace w @ new \<and>
     ((\<exists>out. Dm [''--noudevsync'', ''suspend'', Pool M] out None \<in> set new) \<longrightarrow>
      (\<exists>out err. last new = Dm [''--noudevsync'', ''resume'', Pool M] out err)) \<and>
     (r = Inr () \<longrightarrow>
      (\<exists>out out'. Dm [''--noudevsync'', ''reload'', Pool M, ''--table'', poolTable M lengthSectors] out None \<in> set new \<and>
        Dm [''--noudevsync'', ''resume'', Pool M] out' None \<in> set new))"
  by (auto simp: reload_def andThen_def checked_def ignoring_def dmsetup_def Let_def ret_def raise_def
      split: option.split)

definition ex_env :: env where
  "ex_env = \<lparr>eDm = \<lambda>_ _. ('''', None), eReg = \<lambda>_. reg_ok, eOthers = \<lambda>_ f. f, eNow = \<lambda>_. 0, eLock = \<lambda>_ _. None,
     eTryLock = \<lambda>_ _. Inr True, eCtx = \<lambda>_. None, eOpenDev = \<lambda>_ _. None, eWrite = \<lambda>_. None, eSync = \<lambda>_. None\<rparr>"

definition ex_manager :: Manager where
  "ex_manager = \<lparr>Pool = ''pool'', DataDev = ''/dev/loop0'', MetaDev = ''/dev/loop1''\<rparr>"

definition ex_world :: world where
  "ex_world = \<lparr>wTrace = [], wReg = Absent\<rparr>"

theorem reload_always_resumes_witness:
  "fst (the (GrowData ex_env ex_manager 4096 ex_world)) = Inr () \<and>
   (\<exists>r w' out. reload ex_env ex_manager 4096 ex_world = Some (r, w') \<and>
      Dm [''--noudevsync'', ''resume'', ''pool''] out None \<in> set (wTrace w'))"
proof -
  have a: "fst (the (reload ex_env ex_manager 4096 ex_world)) = Inr ()"
    by (simp add: reload_def andThen_def checked_def ignoring_def dmsetup_def ex_env_def ret_def Let_def)
  with reload_always_resumes [of ex_env ex_manager 4096 ex_world] show ?thesis
    by (auto simp: ex_manager_def GrowData_def)
qed

end
