(* ===== verification/Thin_Materialize.thy ===== *)
theory Thin_Materialize
  imports Thin_Manager
begin

text \<open>
  Bases and guest disks: \<open>internal/thinpool/materialize.go\<close>.

  The digest behind lock and device names (\<open>keyHash\<close>) is an argument: nothing below depends on
  which function it is. An image is what its reader yields: bytes, and the error that ends
  them if it is not the end of the file. Log lines are not modelled.
\<close>

section \<open>Definitions\<close>

record Materializer =
  xM :: Manager
  xHash :: "string \<Rightarrow> string"

definition maxIDRetries :: nat where
  "maxIDRetries = 8"

definition baseDeviceName :: "Materializer \<Rightarrow> string \<Rightarrow> string" where
  "baseDeviceName X key = ''ks-base-'' @ take 16 (xHash X key)"

definition isFileExists :: "goerr \<Rightarrow> bool" where
  "isFileExists e \<longleftrightarrow> Contains (err_msg e) ''File exists''"

subsection \<open>Locks\<close>

definition lockKey :: "env \<Rightarrow> string \<Rightarrow> unit prog" where
  "lockKey E key w =
     (case eLock E (wTrace w) key of
        Some e \<Rightarrow> raise e w
      | None \<Rightarrow> emit (Locked key) w)"

definition tryLockKey :: "env \<Rightarrow> string \<Rightarrow> bool prog" where
  "tryLockKey E key w =
     (case eTryLock E (wTrace w) key of
        Inl e \<Rightarrow> raise e w
      | Inr False \<Rightarrow> ret False w
      | Inr True \<Rightarrow> andThen (emit (Locked key)) (\<lambda>_. ret True) w)"

definition unlockKey :: "string \<Rightarrow> unit prog" where
  "unlockKey key = emit (Unlocked key)"

subsection \<open>Copying an image\<close>

text \<open>
  Reading with \<open>io.ReadFull\<close> into a buffer of one block: full blocks, then the rest with the
  end of the file or with the error of the reader.
\<close>

record reader =
  rdBytes :: "u8 list"
  rdErr :: "goerr option"

datatype read_end = ReadOK | ReadEOF | ReadErr goerr

definition chunk :: nat where
  "chunk = 128 * 512"

function reads :: "u8 list \<Rightarrow> goerr option \<Rightarrow> (u8 list \<times> read_end) list" where
  "reads bs err =
     (if length bs < chunk then [(bs, case err of None \<Rightarrow> ReadEOF | Some e \<Rightarrow> ReadErr e)]
      else (take chunk bs, ReadOK) # reads (drop chunk bs) err)"
  by pat_completeness auto
termination
  by (relation "measure (\<lambda>(bs, _). length bs)") (auto simp: chunk_def)

declare reads.simps [simp del]

definition WriteAt :: "env \<Rightarrow> string \<Rightarrow> nat \<Rightarrow> u8 list \<Rightarrow> unit prog" where
  "WriteAt E path off buf w =
     (let err = eWrite E (wTrace w)
      in andThen (emit (WroteAt path off buf err)) (\<lambda>_. case err of None \<Rightarrow> ret () | Some e \<Rightarrow> raise e) w)"

definition checkCtx :: "env \<Rightarrow> unit prog" where
  "checkCtx E w = (case eCtx E (wTrace w) of None \<Rightarrow> ret () w | Some e \<Rightarrow> raise e w)"

definition copy_block :: "env \<Rightarrow> string \<Rightarrow> int \<Rightarrow> nat \<Rightarrow> u8 list \<Rightarrow> unit prog" where
  "copy_block E path limit off buf =
     (if buf = [] then ret ()
      else if int (off + length buf) > limit then
        raise (Errorf (''image continues past its declared '' @ dec_int limit @ '' bytes''))
      else if list_all (\<lambda>b. b = 0) buf then ret ()
      else wrapErr (''writing at offset '' @ dec off @ '': '') (WriteAt E path off buf))"

fun copy_loop :: "env \<Rightarrow> string \<Rightarrow> int \<Rightarrow> nat \<Rightarrow> (u8 list \<times> read_end) list \<Rightarrow> nat prog" where
  "copy_loop E path limit off [] = ret off"
| "copy_loop E path limit off ((buf, rend) # rs) =
     andThen (checkCtx E)
       (\<lambda>_. andThen (copy_block E path limit off buf)
          (\<lambda>_. case rend of
                 ReadEOF \<Rightarrow> ret (off + length buf)
               | ReadErr e \<Rightarrow> raise e
               | ReadOK \<Rightarrow> copy_loop E path limit (off + length buf) rs))"

definition copySkippingZeros :: "env \<Rightarrow> string \<Rightarrow> reader \<Rightarrow> int \<Rightarrow> nat prog" where
  "copySkippingZeros E path src limit = copy_loop E path limit 0 (reads (rdBytes src) (rdErr src))"

definition openDev :: "env \<Rightarrow> string \<Rightarrow> unit prog" where
  "openDev E path w = (case eOpenDev E (wTrace w) path of None \<Rightarrow> ret () w | Some e \<Rightarrow> raise e w)"

definition syncDev :: "env \<Rightarrow> string \<Rightarrow> unit prog" where
  "syncDev E path w =
     (let err = eSync E (wTrace w)
      in andThen (emit (Synced path err)) (\<lambda>_. case err of None \<Rightarrow> ret () | Some e \<Rightarrow> raise e) w)"

definition populate :: "env \<Rightarrow> string \<Rightarrow> u64 \<Rightarrow> reader res \<Rightarrow> unit prog" where
  "populate E name sizeBytes opened =
     (case opened of
        Inl e \<Rightarrow> raise (Errorw ''opening the image: '' e)
      | Inr src \<Rightarrow>
          andThen (openDev E (DevicePath name))
            (\<lambda>_. andThen (copySkippingZeros E (DevicePath name) src (sint sizeBytes))
               (\<lambda>written. if int written > sint sizeBytes
                          then raise (Errorf (''image is larger than the '' @ dec (unat sizeBytes) @ '' bytes it was declared as''))
                          else syncDev E (DevicePath name))))"

subsection \<open>Room in the pool\<close>

definition freeBytes :: "env \<Rightarrow> Materializer \<Rightarrow> u64 prog" where
  "freeBytes E X =
     andThen (wrapErr (''reading pool '' @ Pool (xM X) @ '': '') (Manager_Status E (xM X)))
       (\<lambda>st. if TotalData st < UsedData st then ret 0
             else ret ((TotalData st - UsedData st) * BlockSectors * 512))"

text \<open>\<open>Registry.Reserve\<close> with the probe: the probe runs under the lock, once the file is loaded.\<close>

definition ReserveProbing :: "env \<Rightarrow> Materializer \<Rightarrow> string \<Rightarrow> u64 \<Rightarrow> (bool \<times> u64) prog" where
  "ReserveProbing E X key bytes w =
     (let f = eOthers E (wTrace w) (wReg w);
          io = eReg E (wTrace w)
      in if ioLock io \<noteq> None \<or> (case load f of Inl _ \<Rightarrow> True | Inr _ \<Rightarrow> False)
         then map_option (\<lambda>(r, f'). (r, w\<lparr>wReg := f', wTrace := wTrace w @ [RegOp f f']\<rparr>)) (Reserve io key bytes (Inr 0) (eNow E (wTrace w)) f)
         else case freeBytes E X (w\<lparr>wReg := f\<rparr>) of
                None \<Rightarrow> None
              | Some (free, w') \<Rightarrow>
                  map_option (\<lambda>(r, f'). (r, w'\<lparr>wReg := f', wTrace := wTrace w' @ [RegOp f f']\<rparr>)) (Reserve io key bytes free (eNow E (wTrace w')) f))"

definition ignoreNoSuchThin :: "unit prog \<Rightarrow> unit prog" where
  "ignoreNoSuchThin m =
     andThen (attempt m)
       (\<lambda>r. case r of
              Inr _ \<Rightarrow> ret ()
            | Inl e \<Rightarrow> if errors_Is e ErrNoSuchThin then ret () else raise e)"

definition removeIfActive :: "env \<Rightarrow> string \<Rightarrow> string \<Rightarrow> unit prog" where
  "removeIfActive E name what =
     andThen (Active E name)
       (\<lambda>active. if active then wrapErr (''unmapping '' @ what @ '': '') (RemoveDevice E name) else ret ())"

definition evictBase :: "env \<Rightarrow> Materializer \<Rightarrow> string \<Rightarrow> bool prog" where
  "evictBase E X key =
     andThen (tryLockKey E key)
       (\<lambda>ok. if \<not> ok then ret False
             else deferring (unlockKey key)
               (andThen (regop E (\<lambda>io. BaseID io key))
                  (\<lambda>known. case known of
                       None \<Rightarrow> ret False
                     | Some i \<Rightarrow>
                         andThen (removeIfActive E (baseDeviceName X key) (''base '' @ key))
                           (\<lambda>_. andThen (wrapErr (''deleting base '' @ key @ '': '') (ignoreNoSuchThin (DeleteThin E (xM X) i)))
                              (\<lambda>_. andThen (regop E (\<lambda>io. ForgetBase io key)) (\<lambda>_. ret True))))))"

text \<open>
  The eviction loop over the keys that are left: another attempt to reserve, then the
  eviction of the next base that is not the one to keep.
\<close>

definition no_room_err :: "u64 \<Rightarrow> u64 \<Rightarrow> nat \<Rightarrow> nat \<Rightarrow> nat \<Rightarrow> goerr" where
  "no_room_err available sizeBytes evicted others shared =
     Errorf (''the pool has '' @ dec (unat available) @
       '' bytes available (free, less what other base builds on this node have reserved) and this base needs '' @
       dec (unat sizeBytes) @ ''; evicted '' @ dec evicted @ '' of '' @ dec others @ '' other bases ('' @ dec shared @
       '' of them shared by running guests, whose blocks those guests still hold) and it still does not fit. Give the pool a larger data device, or use a smaller image'')"

fun evict_loop :: "env \<Rightarrow> Materializer \<Rightarrow> u64 \<Rightarrow> string \<Rightarrow> nat \<Rightarrow> nat \<Rightarrow> string list \<Rightarrow> nat \<Rightarrow> u64 \<Rightarrow> unit prog" where
  "evict_loop E X sizeBytes keep others shared [] evicted available =
     raise (no_room_err available sizeBytes evicted others shared)"
| "evict_loop E X sizeBytes keep others shared (k # ks) evicted available =
     (if k = keep then evict_loop E X sizeBytes keep others shared ks evicted available
      else andThen (evictBase E X k)
        (\<lambda>gone. andThen (ReserveProbing E X keep sizeBytes)
           (\<lambda>r. if fst r then ret ()
                else evict_loop E X sizeBytes keep others shared ks (if gone then evicted + 1 else evicted) (snd r))))"

definition makeRoomFor :: "env \<Rightarrow> Materializer \<Rightarrow> u64 \<Rightarrow> string \<Rightarrow> unit prog" where
  "makeRoomFor E X sizeBytes keep =
     andThen (ReserveProbing E X keep sizeBytes)
       (\<lambda>r. if fst r then ret ()
            else andThen (regop E EvictionOrder)
              (\<lambda>order. evict_loop E X sizeBytes keep (length (filter (\<lambda>k. k \<noteq> keep) (fst order))) (snd order) (fst order) 0 (snd r)))"

subsection \<open>Bases\<close>

definition discardUnfinished :: "env \<Rightarrow> Materializer \<Rightarrow> string \<Rightarrow> string \<Rightarrow> u32 \<Rightarrow> unit prog" where
  "discardUnfinished E X key name i =
     andThen (removeIfActive E name (''the unfinished base '' @ key))
       (\<lambda>_. wrapErr (''deleting the unfinished base '' @ key @ '': '') (ignoreNoSuchThin (DeleteThin E (xM X) i)))"

text \<open>What follows one attempt to create the volume; \<open>again\<close> is the rest of the loop.\<close>

definition createBase_result :: "env \<Rightarrow> string \<Rightarrow> u32 \<Rightarrow> u32 prog \<Rightarrow> unit res \<Rightarrow> u32 prog" where
  "createBase_result E key i again r =
     (case r of
        Inr _ \<Rightarrow> ret i
      | Inl e \<Rightarrow>
          if \<not> isFileExists e then raise e
          else andThen (regop E (\<lambda>io. ForgetBase io key))
            (\<lambda>_. andThen (regop E (\<lambda>io. Advance io i)) (\<lambda>_. again)))"

fun createBase_loop :: "env \<Rightarrow> Materializer \<Rightarrow> string \<Rightarrow> string \<Rightarrow> u64 \<Rightarrow> nat \<Rightarrow> u32 prog" where
  "createBase_loop E X key name sectors 0 =
     raise (Errorf (''base '' @ key @ '': '' @ dec maxIDRetries @
       '' consecutive device ids already in the pool; the registry is badly out of step with it''))"
| "createBase_loop E X key name sectors (Suc n) =
     andThen (regop E (\<lambda>io. AllocateBase io key))
       (\<lambda>a. andThen (if snd a then ret () else discardUnfinished E X key name (fst a))
          (\<lambda>_. andThen (attempt (CreateBase E (xM X) (fst a) name sectors))
             (createBase_result E key (fst a) (createBase_loop E X key name sectors n))))"

definition createBase :: "env \<Rightarrow> Materializer \<Rightarrow> string \<Rightarrow> string \<Rightarrow> u64 \<Rightarrow> u32 prog" where
  "createBase E X key name sectors = createBase_loop E X key name sectors maxIDRetries"

definition zero_id :: "u32 option \<Rightarrow> u32" where
  "zero_id x = (case x of None \<Rightarrow> 0 | Some i \<Rightarrow> i)"

definition touchBase :: "env \<Rightarrow> string \<Rightarrow> unit prog" where
  "touchBase E key w = regop E (\<lambda>io. TouchBase io key (eNow E (wTrace w))) w"

definition writeBase :: "env \<Rightarrow> Materializer \<Rightarrow> string \<Rightarrow> u64 \<Rightarrow> reader res \<Rightarrow> u32 prog" where
  "writeBase E X key sizeBytes opened =
     andThen (createBase E X key (baseDeviceName X key) (bytesToSectors sizeBytes))
       (\<lambda>i. andThen (attempt (populate E (baseDeviceName X key) sizeBytes opened))
          (\<lambda>writeErr. andThen (attempt (RemoveDevice E (baseDeviceName X key)))
             (\<lambda>rmErr. case writeErr of
                  Inl e \<Rightarrow> raise (Errorw (''writing base '' @ key @ '': '') e)
                | Inr _ \<Rightarrow>
                    (case rmErr of
                       Inl e \<Rightarrow> raise (Errorw (''deactivating base '' @ key @ '' after writing it: '') e)
                     | Inr _ \<Rightarrow>
                         andThen (regop E (\<lambda>io. MarkBaseReady io key))
                           (\<lambda>_. andThen (touchBase E key) (\<lambda>_. ret i))))))"

definition EnsureBaseNeeding :: "env \<Rightarrow> Materializer \<Rightarrow> string \<Rightarrow> u64 \<Rightarrow> u64 \<Rightarrow> reader res \<Rightarrow> u32 prog" where
  "EnsureBaseNeeding E X key sizeBytes needBytes opened =
     (if key = '''' then raise (Errorf ''thinpool: empty base key'')
      else andThen (lockKey E key)
        (\<lambda>_. deferring (unlockKey key)
           (andThen (regop E (\<lambda>io. BaseReady io key))
              (\<lambda>ready. if ready
                 then andThen (regop E (\<lambda>io. BaseID io key))
                        (\<lambda>i. andThen (touchBase E key) (\<lambda>_. ret (zero_id i)))
                 else andThen (makeRoomFor E X needBytes key)
                        (\<lambda>_. deferring (regop E (\<lambda>io. Unreserve io key))
                               (writeBase E X key sizeBytes opened))))))"

definition EnsureBase :: "env \<Rightarrow> Materializer \<Rightarrow> string \<Rightarrow> u64 \<Rightarrow> reader res \<Rightarrow> u32 prog" where
  "EnsureBase E X key sizeBytes opened = EnsureBaseNeeding E X key sizeBytes sizeBytes opened"

subsection \<open>Guests\<close>

definition reactivate :: "env \<Rightarrow> Materializer \<Rightarrow> string \<Rightarrow> string \<Rightarrow> u32 \<Rightarrow> u64 \<Rightarrow> string prog" where
  "reactivate E X guestKey devName i sectors =
     andThen (wrapErr (''reactivating the disk of guest '' @ guestKey @ '' (device '' @ dec (unat i) @ ''): '')
                (Activate E (xM X) i devName sectors))
       (\<lambda>_. ret (DevicePath devName))"

definition forget_failed :: "env \<Rightarrow> string \<Rightarrow> goerr \<Rightarrow> string prog" where
  "forget_failed E guestKey e =
     andThen (attempt (regop E (\<lambda>io. Forget io guestKey)))
       (\<lambda>r. case r of
              Inl ferr \<Rightarrow> raise (GoErr (err_msg e @ '' (and forgetting the failed allocation: '' @ err_msg ferr @ '')'') (err_wraps e))
            | Inr _ \<Rightarrow> raise e)"

text \<open>What follows one attempt to take the snapshot; \<open>again\<close> is the rest of the loop.\<close>

definition snapshot_result :: "env \<Rightarrow> u32 \<Rightarrow> string \<Rightarrow> string \<Rightarrow> u32 \<Rightarrow> string prog \<Rightarrow> unit res \<Rightarrow> string prog" where
  "snapshot_result E baseID guestKey devName i again r =
     (case r of
        Inr _ \<Rightarrow> andThen (regop E (\<lambda>io. MarkGuestCreated io guestKey baseID)) (\<lambda>_. ret (DevicePath devName))
      | Inl e \<Rightarrow>
          if \<not> isFileExists e then forget_failed E guestKey e
          else andThen (regop E (\<lambda>io. Forget io guestKey))
            (\<lambda>_. andThen (regop E (\<lambda>io. Advance io i)) (\<lambda>_. again)))"

fun snapshot_loop :: "env \<Rightarrow> Materializer \<Rightarrow> u32 \<Rightarrow> string \<Rightarrow> string \<Rightarrow> u64 \<Rightarrow> nat \<Rightarrow> string prog" where
  "snapshot_loop E X baseID guestKey devName sectors 0 =
     raise (Errorf (''guest '' @ guestKey @ '': '' @ dec maxIDRetries @
       '' consecutive device ids already in the pool; the registry is badly out of step with it''))"
| "snapshot_loop E X baseID guestKey devName sectors (Suc n) =
     andThen (regop E (\<lambda>io. AllocateGuest io guestKey))
       (\<lambda>a. if \<not> snd a then reactivate E X guestKey devName (fst a) sectors
            else andThen (attempt (SnapshotBase E (xM X) baseID (fst a) devName sectors))
              (snapshot_result E baseID guestKey devName (fst a) (snapshot_loop E X baseID guestKey devName sectors n)))"

definition newGuest_locked :: "env \<Rightarrow> Materializer \<Rightarrow> string \<Rightarrow> string \<Rightarrow> string \<Rightarrow> u64 \<Rightarrow> string prog" where
  "newGuest_locked E X baseKey guestKey devName sectors =
     andThen (regop E (\<lambda>io. BaseReady io baseKey))
       (\<lambda>ready. if \<not> ready
          then raise (Errorf (''base '' @ baseKey @ '' is not ready; it must be fully written before any guest is snapshotted from it''))
          else andThen (regop E (\<lambda>io. BaseID io baseKey))
            (\<lambda>base. case base of
                None \<Rightarrow> raise (Errorf (''base '' @ baseKey @ '' is marked ready but has no device id''))
              | Some baseID \<Rightarrow> snapshot_loop E X baseID guestKey devName sectors maxIDRetries))"

definition newGuest :: "env \<Rightarrow> Materializer \<Rightarrow> string \<Rightarrow> string \<Rightarrow> string \<Rightarrow> u64 \<Rightarrow> string prog" where
  "newGuest E X baseKey guestKey devName sectors =
     (if baseKey = '''' then newGuest_locked E X baseKey guestKey devName sectors
      else andThen (lockKey E baseKey)
        (\<lambda>_. deferring (unlockKey baseKey) (newGuest_locked E X baseKey guestKey devName sectors)))"

definition EnsureGuest :: "env \<Rightarrow> Materializer \<Rightarrow> string \<Rightarrow> string \<Rightarrow> string \<Rightarrow> u64 \<Rightarrow> string prog" where
  "EnsureGuest E X baseKey guestKey devName sizeBytes =
     andThen (Active E devName)
       (\<lambda>active. if active then ret (DevicePath devName)
          else andThen (regop E (\<lambda>io. GuestID io guestKey))
            (\<lambda>known. case known of
                None \<Rightarrow> newGuest E X baseKey guestKey devName (bytesToSectors sizeBytes)
              | Some i \<Rightarrow>
                  andThen (regop E (\<lambda>io. GuestCreated io guestKey))
                    (\<lambda>created. if created then reactivate E X guestKey devName i (bytesToSectors sizeBytes)
                       else andThen (regop E (\<lambda>io. Forget io guestKey))
                         (\<lambda>_. newGuest E X baseKey guestKey devName (bytesToSectors sizeBytes)))))"

definition HasGuest :: "env \<Rightarrow> string \<Rightarrow> bool prog" where
  "HasGuest E guestKey = andThen (regop E (\<lambda>io. GuestID io guestKey)) (\<lambda>known. ret (known \<noteq> None))"

definition read_only_err :: "Manager \<Rightarrow> goerr" where
  "read_only_err M =
     Errorf (''pool '' @ Pool M @ '' is read-only (its metadata device is full, or it needs a check), and a read-only pool cannot delete devices; grow the metadata device and reload the pool, then retry'')"

definition ReleaseGuest :: "env \<Rightarrow> Materializer \<Rightarrow> string \<Rightarrow> string \<Rightarrow> unit prog" where
  "ReleaseGuest E X guestKey devName =
     andThen (regop E (\<lambda>io. GuestID io guestKey))
       (\<lambda>known. andThen (removeIfActive E devName devName)
          (\<lambda>_. case known of
                 None \<Rightarrow> ret ()
               | Some i \<Rightarrow>
                   andThen (wrapErr (''reading pool '' @ Pool (xM X) @ '': '') (Manager_Status E (xM X)))
                     (\<lambda>st. if PoolMode st = ModeReadOnly then raise (read_only_err (xM X))
                        else andThen (wrapErr (''deleting the thin device of guest '' @ guestKey @ '': '')
                                        (ignoreNoSuchThin (DeleteThin E (xM X) i)))
                          (\<lambda>_. regop E (\<lambda>io. Forget io guestKey)))))"

section \<open>A created disk is reactivated\<close>

text \<open>The commands that only look at the pool or map the guest's own device.\<close>

definition maps_only :: "string \<Rightarrow> u32 \<Rightarrow> event \<Rightarrow> bool" where
  "maps_only devName i e \<longleftrightarrow>
     (case e of
        Dm args _ _ \<Rightarrow>
          args = [''--noudevsync'', ''ls''] \<or> take 2 args = [''--noudevsync'', ''info''] \<or>
          args = [''--noudevsync'', ''mknodes'', devName] \<or>
          (\<exists>n pool. args = [''--noudevsync'', ''create'', devName, ''--table'', thin_table n pool i])
      | RegOp f f' \<Rightarrow> f' = f
      | _ \<Rightarrow> False)"

definition has_disk :: "string \<Rightarrow> u32 \<Rightarrow> regfile \<Rightarrow> bool" where
  "has_disk g i f \<longleftrightarrow> guest_id g f = Some i \<and> guest_created g f"

lemma reading_file:
  "BaseID io k f = Some (r, f') \<Longrightarrow> f' = f" "GuestID io k f = Some (r, f') \<Longrightarrow> f' = f"
  "GuestCreated io k f = Some (c, f') \<Longrightarrow> f' = f" "BaseReady io k f = Some (c, f') \<Longrightarrow> f' = f"
  "EvictionOrder io f = Some (ord, f') \<Longrightarrow> f' = f"
  unfolding reading_ops by (erule reading_kept)+

lemma reading_value:
  "BaseID io k f = Some (Inr i, f') \<Longrightarrow> i = base_id k f" "GuestID io k f = Some (Inr i, f') \<Longrightarrow> i = guest_id k f"
  "GuestCreated io k f = Some (Inr c, f') \<Longrightarrow> c = guest_created k f" "BaseReady io k f = Some (Inr c, f') \<Longrightarrow> c = base_ready k f"
  unfolding reading_ops reg_views by (erule reading_result)+

lemma emits_exists: "(\<And>tr out err. P tr (Dm [''--noudevsync'', ''ls''] out err)) \<Longrightarrow> emits P (exists E name)"
  unfolding exists_def by (intro emits_rules)

lemma emits_activate:
  assumes "\<And>tr out err. P tr (Dm [''--noudevsync'', ''info'', ''-c'', ''--noheadings'', ''-o'', ''major,minor'', Pool M] out err)"
    and "\<And>tr out err pool. P tr (Dm [''--noudevsync'', ''create'', name, ''--table'', thin_table n pool i] out err)"
    and "\<And>tr out err. P tr (Dm [''--noudevsync'', ''mknodes'', name] out err)"
  shows "emits P (activate E M name i n)"
  unfolding activate_def poolDevRef_def Let_def by (intro emits_rules assms)

lemma emits_reactivate: "emits (\<lambda>_. maps_only devName i) (reactivate E X g devName i n)"
  unfolding reactivate_def Activate_def by (intro emits_rules emits_activate) (auto simp: maps_only_def)

text \<open>One read of the registry: the value of what other processes left in the file, or an error.\<close>

abbreviation seen :: "env \<Rightarrow> world \<Rightarrow> regfile" where
  "seen E w \<equiv> eOthers E (wTrace w) (wReg w)"

abbreviation after_read :: "env \<Rightarrow> world \<Rightarrow> world" where
  "after_read E w \<equiv> w\<lparr>wReg := seen E w, wTrace := wTrace w @ [RegOp (seen E w) (seen E w)]\<rparr>"

lemma wp_read:
  assumes "\<And>io f. p io f \<noteq> None" and "\<And>io f r f'. p io f = Some (r, f') \<Longrightarrow> f' = f"
    and "\<And>io f x f'. p io f = Some (Inr x, f') \<Longrightarrow> x = v f"
    and "Q (Inr (v (seen E w))) (after_read E w)" and "\<And>e. Q (Inl e) (after_read E w)"
  shows "wp (regop E p) Q w"
proof (rule wp_regop)
  fix r f'
  assume p: "p (eReg E (wTrace w)) (seen E w) = Some (r, f')"
  show "Q r (w\<lparr>wReg := f', wTrace := wTrace w @ [RegOp (seen E w) f']\<rparr>)"
    using p assms(2) [OF p] assms(3-5) by (cases r) auto
qed (rule assms(1))

lemmas wp_GuestID = wp_read [where p = "\<lambda>io. GuestID io k" and v = "guest_id k" for k,
    OF reading_ops_total(2) reading_file(2) reading_value(2)]
lemmas wp_GuestCreated = wp_read [where p = "\<lambda>io. GuestCreated io k" and v = "guest_created k" for k,
    OF reading_ops_total(3) reading_file(3) reading_value(3)]
lemmas wp_BaseID = wp_read [where p = "\<lambda>io. BaseID io k" and v = "base_id k" for k,
    OF reading_ops_total(1) reading_file(1) reading_value(1)]
lemmas wp_BaseReady = wp_read [where p = "\<lambda>io. BaseReady io k" and v = "base_ready k" for k,
    OF reading_ops_total(4) reading_file(4) reading_value(4)]

lemma wp_exists:
  assumes "\<And>r out err. Q r (w\<lparr>wTrace := wTrace w @ [Dm [''--noudevsync'', ''ls''] out err]\<rparr>)"
  shows "wp (exists E name) Q w"
  unfolding exists_def by (auto simp: wp_rules Let_def assms split: option.split)

text \<open>
  C7. A guest that has a disk gets that disk and no other: when the registry records a
  created disk \<open>i\<close> for the guest and the other processes keep that entry, \<open>EnsureGuest\<close> issues, under
  every behaviour of device-mapper and every I/O failure, only commands that look at the
  pool or map device \<open>i\<close>, and leaves the registry unchanged. No snapshot is taken, no device
  created or deleted.\<close>

theorem created_disk_never_resnapshotted:
  assumes disk: "has_disk g i (wReg w)" and others: "\<And>h f. has_disk g i f \<Longrightarrow> has_disk g i (eOthers E h f)"
  shows "\<exists>r w'. EnsureGuest E X baseKey g devName sizeBytes w = Some (r, w') \<and>
    grows (\<lambda>_. maps_only devName i) (wTrace w) (wTrace w')"
proof -
  let ?G = "\<lambda>w'. grows (\<lambda>_. maps_only devName i) (wTrace w) (wTrace w')"
  have "wp (EnsureGuest E X baseKey g devName sizeBytes) (\<lambda>_. ?G) w"
    unfolding EnsureGuest_def Active_def wp_andThen
  proof (rule wp_exists)
    fix r :: "bool res" and out err
    let ?w = "w\<lparr>wTrace := wTrace w @ [Dm [''--noudevsync'', ''ls''] out err]\<rparr>"
    let ?w1 = "after_read E ?w"
    let ?w2 = "after_read E ?w1"
    have g0: "?G ?w" by (simp add: grows_one maps_only_def)
    have g1: "?G ?w1" using grows.more [OF g0] by (simp add: maps_only_def)
    have g2: "?G ?w2" using grows.more [OF g1] by (simp add: maps_only_def)
    have d1: "has_disk g i (seen E ?w)" and d2: "has_disk g i (seen E ?w1)" using disk others by simp_all
    have re: "wp (reactivate E X g devName i n) (\<lambda>_. ?G) ?w2" for n
      by (rule wp_emits [OF emits_reactivate g2])
    have c: "wp (regop E (\<lambda>io. GuestCreated io g)) (\<lambda>r w'. case r of Inl e \<Rightarrow> ?G w'
        | Inr c \<Rightarrow> wp (if c then reactivate E X g devName i (bytesToSectors sizeBytes) else other) (\<lambda>_. ?G) w') ?w1" for other
      using d2 re g2 by (intro wp_GuestCreated) (simp_all add: has_disk_def)
    show "case r of Inl e \<Rightarrow> ?G ?w | Inr active \<Rightarrow>
        wp (if active then ret (DevicePath devName)
          else andThen (regop E (\<lambda>io. GuestID io g))
            (\<lambda>known. case known of
                None \<Rightarrow> newGuest E X baseKey g devName (bytesToSectors sizeBytes)
              | Some i \<Rightarrow>
                  andThen (regop E (\<lambda>io. GuestCreated io g))
                    (\<lambda>created. if created then reactivate E X g devName i (bytesToSectors sizeBytes)
                       else andThen (regop E (\<lambda>io. Forget io g))
                         (\<lambda>_. newGuest E X baseKey g devName (bytesToSectors sizeBytes))))) (\<lambda>_. ?G) ?w"
    proof (cases "r = Inr False")
      case True
      have "guest_id g (seen E ?w) = Some i" using d1 by (simp add: has_disk_def)
      with True g1 c show ?thesis
        by (simp add: wp_andThen) (rule wp_GuestID, simp_all add: wp_andThen)
    qed (use g0 in \<open>auto simp: wp_ret split: sum.split\<close>)
  qed
  then show ?thesis by (auto simp: wp_def)
qed

definition ex_registry :: regfile where
  "ex_registry = Stored (marshal \<lparr>rNextID = 8, rBases = Some [(''sha256:a'', 3)], rGuests = Some [(''ns/vm/uid'', 7)],
     rReady = Some [(''sha256:a'', True)], rUsed = None, rCreated = Some [(''ns/vm/uid'', True)], rDerived = None, rReserved = None\<rparr>)"

definition ex_X :: Materializer where
  "ex_X = \<lparr>xM = ex_manager, xHash = \<lambda>k. k\<rparr>"

lemma ex_registry_entries:
  "base_ready ''sha256:a'' ex_registry" "base_id ''sha256:a'' ex_registry = Some 3" "guest_id ''ns/vm/uid'' ex_registry = Some 7"
  "guest_created ''ns/vm/uid'' ex_registry" "guest_id ''ns/new/uid'' ex_registry = None"
  by (simp_all add: ex_registry_def reg_views gm_bool_def reg_at_stored maps_made_def)

theorem created_disk_never_resnapshotted_witness:
  "\<exists>r w'. EnsureGuest ex_env ex_X ''sha256:a'' ''ns/vm/uid'' ''vm'' 1048576 \<lparr>wTrace = [], wReg = ex_registry\<rparr> = Some (r, w') \<and>
     grows (\<lambda>_. maps_only ''vm'' 7) [] (wTrace w')"
  using created_disk_never_resnapshotted [of "''ns/vm/uid''" 7 "\<lparr>wTrace = [], wReg = ex_registry\<rparr>" ex_env]
  by (simp add: has_disk_def ex_registry_entries ex_env_def)

section \<open>Snapshots are taken under the lock of a ready base\<close>

definition is_snap :: "event \<Rightarrow> bool" where
  "is_snap e \<longleftrightarrow> (\<exists>pool msg out err. e = Dm [''--noudevsync'', ''message'', pool, ''0'', msg] out err \<and> HasPrefix msg ''create_snap'')"

definition is_unlock :: "event \<Rightarrow> bool" where
  "is_unlock e \<longleftrightarrow> (\<exists>k. e = Unlocked k)"

text \<open>A snapshot command takes its id from the allocation right before it.\<close>

definition snaps_fresh :: "Manager \<Rightarrow> string \<Rightarrow> u32 \<Rightarrow> event list \<Rightarrow> event \<Rightarrow> bool" where
  "snaps_fresh M g b tr e \<longleftrightarrow>
     (is_snap e \<longrightarrow> (\<exists>i out err f f'. e = Dm [''--noudevsync'', ''message'', Pool M, ''0'', create_snap_msg i b] out err \<and>
        last tr = RegOp f f' \<and> guest_id g f = None \<and> guest_id g f' = Some i)) \<and>
     \<not> is_unlock e"

lemma not_snap [simp]:
  "\<not> is_snap (RegOp f f')" "\<not> is_snap (Locked k)" "\<not> is_snap (Unlocked k)" "\<not> is_snap (Dm [''--noudevsync'', ''ls''] out err)"
  "\<not> is_snap (Dm [''--noudevsync'', ''mknodes'', n] out err)"
  "\<not> is_snap (Dm [''--noudevsync'', ''create'', n, ''--table'', t] out err)"
  "\<not> is_snap (Dm [''--noudevsync'', ''info'', a, a1, a2, a3, a4] out err)"
  by (simp_all add: is_snap_def)

lemma not_unlock [simp]: "\<not> is_unlock (RegOp f f')" "\<not> is_unlock (Dm args out err)" "\<not> is_unlock (Locked k)" "is_unlock (Unlocked k)"
  by (simp_all add: is_unlock_def)

lemma snaps_fresh_trivial: "\<not> is_snap e \<Longrightarrow> \<not> is_unlock e \<Longrightarrow> snaps_fresh M g b tr e"
  by (simp add: snaps_fresh_def)

lemma emits_fresh_activate: "emits (snaps_fresh M g b) (activate E M' name i n)"
  by (intro emits_activate snaps_fresh_trivial) simp_all

lemma emits_fresh_regop: "(\<And>io f. p io f \<noteq> None) \<Longrightarrow> emits (snaps_fresh M g b) (regop E p)"
  by (rule emits_regop) (simp_all add: snaps_fresh_trivial)

lemma wp_SnapshotBase:
  assumes g: "grows (snaps_fresh M g b) a (wTrace w)" and l: "last (wTrace w) = RegOp f f'"
    and fresh: "guest_id g f = None" "guest_id g f' = Some i"
    and Q: "\<And>r w'. grows (snaps_fresh M g b) a (wTrace w') \<Longrightarrow> Q r w'"
  shows "wp (SnapshotBase E M b i name n) Q w"
  unfolding SnapshotBase_def wp_andThen wp_wrapErr
proof (rule wp_command [OF g])
  show "snaps_fresh M g b (wTrace w) (Dm [''--noudevsync'', ''message'', Pool M, ''0'', create_snap_msg i b] out err)" for out err
    using l fresh by (simp add: snaps_fresh_def)
qed (auto split: sum.split intro: Q wp_emits [OF emits_fresh_activate])

lemma emits_snapshot_loop: "emits (snaps_fresh (xM X) g b) (snapshot_loop E X b g devName sectors n)"
proof (induction n)
  case 0
  then show ?case by (simp add: emits_rules)
next
  case (Suc n)
  let ?P = "snaps_fresh (xM X) g b"
  have fail: "emits ?P (forget_failed E g e)" for e
    unfolding forget_failed_def by (intro emits_rules emits_fresh_regop) simp_all
  have re: "emits ?P (reactivate E X g devName i sectors)" for i
    unfolding reactivate_def Activate_def by (intro emits_rules emits_fresh_activate)
  have af: "emits ?P (snapshot_result E b g devName i (snapshot_loop E X b g devName sectors n) r)" for i r
    unfolding snapshot_result_def by (intro emits_rules emits_fresh_regop fail Suc.IH) simp_all
  show ?case
    unfolding emits_def
  proof
    fix w :: world
    let ?Q = "\<lambda>(_ :: string res) w'. grows ?P (wTrace w) (wTrace w')"
    show "wp (snapshot_loop E X b g devName sectors (Suc n)) ?Q w"
      unfolding snapshot_loop.simps wp_andThen
    proof (rule wp_regop)
      fix r f'
      assume p: "AllocateGuest (eReg E (wTrace w)) g (seen E w) = Some (r, f')"
      let ?w = "w\<lparr>wReg := f', wTrace := wTrace w @ [RegOp (seen E w) f']\<rparr>"
      have g1: "grows ?P (wTrace w) (wTrace ?w)" by (simp add: grows_one snaps_fresh_trivial)
      have snap: "wp (andThen (attempt (SnapshotBase E (xM X) b i devName sectors))
          (snapshot_result E b g devName i (snapshot_loop E X b g devName sectors n))) ?Q ?w" if "r = Inr (i, True)" for i
        unfolding wp_andThen wp_attempt
        by (rule wp_SnapshotBase [where f = "seen E w" and f' = f', OF g1])
          (use p that AllocateGuest_fresh in \<open>auto intro: wp_emits [OF af]\<close>)
      show "case r of Inl e \<Rightarrow> ?Q (Inl e) ?w | Inr a \<Rightarrow>
          wp (if \<not> snd a then reactivate E X g devName (fst a) sectors
              else andThen (attempt (SnapshotBase E (xM X) b (fst a) devName sectors))
                (snapshot_result E b g devName (fst a) (snapshot_loop E X b g devName sectors n))) ?Q ?w"
        using g1 snap by (cases r) (auto intro: wp_emits [OF re g1])
    qed simp
  qed
qed

text \<open>
  The condition on a snapshot command: before it the base's lock was taken, its readiness and
  then its id were read from the registry, the lock was not released since, and the event
  right before is the allocation of a new id to a guest that had none.
\<close>

definition snap_guarded :: "Manager \<Rightarrow> string \<Rightarrow> string \<Rightarrow> event list \<Rightarrow> event \<Rightarrow> bool" where
  "snap_guarded M baseKey g tr e \<longleftrightarrow>
     (is_snap e \<longrightarrow> (\<exists>h f f1 h2 i b out err f2 f3.
        tr = h @ [Locked baseKey, RegOp f f, RegOp f1 f1] @ h2 \<and> list_all (\<lambda>e. \<not> is_unlock e) h2 \<and>
        base_ready baseKey f \<and> base_id baseKey f1 = Some b \<and>
        e = Dm [''--noudevsync'', ''message'', Pool M, ''0'', create_snap_msg i b] out err \<and>
        last tr = RegOp f2 f3 \<and> guest_id g f2 = None \<and> guest_id g f3 = Some i))"

lemma snap_guarded_trivial: "\<not> is_snap e \<Longrightarrow> snap_guarded M k g tr e"
  by (simp add: snap_guarded_def)

lemma emits_guarded_regop: "(\<And>io f. p io f \<noteq> None) \<Longrightarrow> emits (snap_guarded M k g) (regop E p)"
  by (rule emits_regop) (simp_all add: snap_guarded_trivial)

lemma fresh_no_unlock: "grows (snaps_fresh M g b) a tr \<Longrightarrow> \<exists>h2. tr = a @ h2 \<and> list_all (\<lambda>e. \<not> is_unlock e) h2"
  by (induction rule: grows.induct) (auto simp: snaps_fresh_def)

lemma fresh_guarded:
  assumes "grows (snaps_fresh M g b) (h @ [Locked k, RegOp f f, RegOp f1 f1]) tr" and "base_ready k f" and "base_id k f1 = Some b"
  shows "grows (snap_guarded M k g) (h @ [Locked k, RegOp f f, RegOp f1 f1]) tr"
proof (rule grows_mono [OF assms(1)])
  fix tr e
  assume "grows (snaps_fresh M g b) (h @ [Locked k, RegOp f f, RegOp f1 f1]) tr" and e: "snaps_fresh M g b tr e"
  then obtain h2 where "tr = (h @ [Locked k, RegOp f f, RegOp f1 f1]) @ h2" "list_all (\<lambda>e. \<not> is_unlock e) h2"
    using fresh_no_unlock by blast
  with e assms(2,3) show "snap_guarded M k g tr e"
    unfolding snaps_fresh_def snap_guarded_def by (metis append.assoc)
qed

lemma wp_newGuest_locked:
  assumes g: "grows (snap_guarded (xM X) k g) a (wTrace w)" and w: "wTrace w = h @ [Locked k]"
  shows "wp (newGuest_locked E X k g devName sectors) (\<lambda>_ w'. grows (snap_guarded (xM X) k g) a (wTrace w')) w"
proof -
  let ?G = "\<lambda>w'. grows (snap_guarded (xM X) k g) a (wTrace w')"
  let ?w1 = "after_read E w"
  let ?w2 = "after_read E ?w1"
  have g1: "?G ?w1" using grows.more [OF g] by (simp add: snap_guarded_trivial)
  have g2: "?G ?w2" using grows.more [OF g1] by (simp add: snap_guarded_trivial)
  have loop: "wp (snapshot_loop E X b g devName sectors n) (\<lambda>_. ?G) ?w2"
    if "base_ready k (seen E w)" "base_id k (seen E ?w1) = Some b" for b n
  proof (rule wp_mono [OF emitsD [OF emits_snapshot_loop]])
    fix r w'
    assume "grows (snaps_fresh (xM X) g b) (wTrace ?w2) (wTrace w')"
    then have "grows (snap_guarded (xM X) k g) (wTrace ?w2) (wTrace w')"
      using fresh_guarded [of "xM X" g b h k "seen E w" "seen E ?w1" "wTrace w'"] that w by simp
    with g2 show "?G w'" by (rule grows_trans)
  qed
  have inner: "wp (regop E (\<lambda>io. BaseID io k)) (\<lambda>r w'. case r of Inl e \<Rightarrow> ?G w' | Inr base \<Rightarrow>
      wp (case base of None \<Rightarrow> raise e0 | Some baseID \<Rightarrow> snapshot_loop E X baseID g devName sectors maxIDRetries) (\<lambda>_. ?G) w') ?w1"
    if "base_ready k (seen E w)" for e0
    by (rule wp_BaseID) (use loop [OF that] g2 in \<open>auto simp: wp_raise split: option.split\<close>)
  show ?thesis
    unfolding newGuest_locked_def wp_andThen
    by (rule wp_BaseReady) (use inner g1 in \<open>auto simp: wp_raise wp_andThen\<close>)
qed

lemma emits_newGuest: "k \<noteq> '''' \<Longrightarrow> emits (snap_guarded (xM X) k g) (newGuest E X k g devName sectors)"
  unfolding emits_def
proof
  fix w :: world
  assume k: "k \<noteq> ''''"
  let ?G = "\<lambda>w'. grows (snap_guarded (xM X) k g) (wTrace w) (wTrace w')"
  have "wp (deferring (unlockKey k) (newGuest_locked E X k g devName sectors)) (\<lambda>_. ?G) (w\<lparr>wTrace := wTrace w @ [Locked k]\<rparr>)"
    unfolding wp_deferring
  proof (rule wp_mono [OF wp_newGuest_locked])
    show "?G (w\<lparr>wTrace := wTrace w @ [Locked k]\<rparr>)" by (simp add: grows_one snap_guarded_trivial)
    show "wp (unlockKey k) (\<lambda>_. ?G) w'" if "?G w'" for w'
      using grows.more [OF that] by (simp add: unlockKey_def wp_emit snap_guarded_trivial)
  qed simp
  moreover have "wp (lockKey E k) (\<lambda>r w'. w' = (case r of Inl _ \<Rightarrow> w | Inr _ \<Rightarrow> w\<lparr>wTrace := wTrace w @ [Locked k]\<rparr>)) w"
    by (simp add: wp_def lockKey_def raise_def emit_def split: option.split)
  ultimately show "wp (newGuest E X k g devName sectors) (\<lambda>_. ?G) w"
    unfolding newGuest_def using k by (simp add: wp_andThen) (erule wp_mono, auto simp: grows.same split: sum.splits)
qed

text \<open>
  C19. A guest is only ever snapshotted from a finished base that nobody can evict meanwhile.
  For every environment, each \<open>create_snap\<close> that \<open>EnsureGuest\<close> issues names the id the registry had
  for the base when it was read under the base's lock, after the base was read as ready
  under the same lock; the lock has not been released since, and the new device's id was
  allocated by the event right before, to a guest the registry had no disk for.\<close>

theorem snapshot_only_of_locked_ready_base:
  assumes "baseKey \<noteq> ''''"
  shows "\<exists>r w'. EnsureGuest E X baseKey g devName sizeBytes w = Some (r, w') \<and>
    grows (snap_guarded (xM X) baseKey g) (wTrace w) (wTrace w')"
proof -
  let ?P = "snap_guarded (xM X) baseKey g"
  have "emits ?P (reactivate E X g devName i n)" for i n
    unfolding reactivate_def Activate_def by (intro emits_rules emits_activate snap_guarded_trivial) simp_all
  then have "emits ?P (EnsureGuest E X baseKey g devName sizeBytes)"
    unfolding EnsureGuest_def Active_def
    by (intro emits_rules emits_guarded_regop emits_exists emits_newGuest assms) (simp_all add: snap_guarded_trivial)
  then show ?thesis by (rule emits_total)
qed

theorem snapshot_only_of_locked_ready_base_witness:
  "\<exists>r w'. EnsureGuest ex_env ex_X ''sha256:a'' ''ns/new/uid'' ''new'' 1048576 \<lparr>wTrace = [], wReg = ex_registry\<rparr> = Some (r, w') \<and>
     grows (snap_guarded ex_manager ''sha256:a'' ''ns/new/uid'') [] (wTrace w') \<and>
     Dm [''--noudevsync'', ''message'', ''pool'', ''0'', create_snap_msg 8 3] '''' None \<in> set (wTrace w')"
proof -
  let ?run = "EnsureGuest ex_env ex_X ''sha256:a'' ''ns/new/uid'' ''new'' 1048576 \<lparr>wTrace = [], wReg = ex_registry\<rparr>"
  have "case ?run of None \<Rightarrow> False
    | Some (r, w') \<Rightarrow> Dm [''--noudevsync'', ''message'', ''pool'', ''0'', create_snap_msg 8 3] '''' None \<in> set (wTrace w')"
    by code_simp
  with snapshot_only_of_locked_ready_base [of "''sha256:a''" ex_env ex_X "''ns/new/uid''" "''new''" 1048576
      "\<lparr>wTrace = [], wReg = ex_registry\<rparr>"]
  show ?thesis by (auto simp: ex_X_def)
qed

section \<open>A disk is deleted before it is forgotten\<close>

text \<open>
  When the registry loses the guest's entry, its device was deleted before: after the entry
  was read, the pool answered the delete of that id with success or with no data.
\<close>

definition gone :: "string \<Rightarrow> goerr option \<Rightarrow> bool" where
  "gone out err \<longleftrightarrow> err = None \<or> Contains out ''No data available''"

definition forget_guarded :: "Manager \<Rightarrow> string \<Rightarrow> event list \<Rightarrow> event \<Rightarrow> bool" where
  "forget_guarded M g tr e \<longleftrightarrow>
     (\<forall>f f'. e = RegOp f f' \<and> guest_id g f \<noteq> None \<and> guest_id g f' = None \<longrightarrow>
        (\<exists>h f0 h2 i out err. tr = h @ [RegOp f0 f0] @ h2 @ [Dm [''--noudevsync'', ''message'', Pool M, ''0'', delete_msg i] out err] \<and>
           guest_id g f0 = Some i \<and> gone out err))"

lemma forget_guarded_Dm [simp]: "forget_guarded M g tr (Dm args out err)"
  by (simp add: forget_guarded_def)

lemma forget_guarded_same [simp]: "forget_guarded M g tr (RegOp f f)"
  by (auto simp: forget_guarded_def)

text \<open>The errors of the command runner do not wrap the sentinel of \<open>DeleteThin\<close>.\<close>

definition plain_errors :: "env \<Rightarrow> bool" where
  "plain_errors E \<longleftrightarrow> (\<forall>h args e. snd (eDm E h args) = Some e \<longrightarrow> \<not> errors_Is e ErrNoSuchThin)"

lemma wp_delete:
  assumes "plain_errors E"
    and "\<And>out err. gone out err \<Longrightarrow> Q (Inr ()) (w\<lparr>wTrace := wTrace w @ [Dm [''--noudevsync'', ''message'', Pool M, ''0'', delete_msg i] out err]\<rparr>)"
    and "\<And>e out err. Q (Inl e) (w\<lparr>wTrace := wTrace w @ [Dm [''--noudevsync'', ''message'', Pool M, ''0'', delete_msg i] out err]\<rparr>)"
  shows "wp (ignoreNoSuchThin (DeleteThin E M i)) Q w"
proof -
  let ?a = "[''--noudevsync'', ''message'', Pool M, ''0'', delete_msg i]"
  obtain out err where r: "eDm E (wTrace w) ?a = (out, err)" by fastforce
  show ?thesis
  proof (cases err)
    case None
    then show ?thesis using r assms(2) [of out None]
      by (simp add: ignoreNoSuchThin_def DeleteThin_def wp_rules Let_def gone_def)
  next
    case (Some e)
    then have "\<not> errors_Is e ErrNoSuchThin" using assms(1) r unfolding plain_errors_def by (metis snd_conv)
    then show ?thesis using Some r assms(2) [of out err] assms(3)
      by (simp add: ignoreNoSuchThin_def DeleteThin_def wp_rules Let_def gone_def errors_Is_def)
  qed
qed

lemma emits_removeIfActive:
  "(\<And>tr args out err. P tr (Dm args out err)) \<Longrightarrow> emits P (removeIfActive E name what)"
  unfolding removeIfActive_def Active_def RemoveDevice_def by (intro emits_rules emits_exists)

lemma emits_Status: "(\<And>tr args out err. P tr (Dm args out err)) \<Longrightarrow> emits P (Manager_Status E M)"
  unfolding Manager_Status_def by (intro emits_rules)

text \<open>
  C20. A disk is deleted before it is forgotten: for every device-mapper, failure and
  interleaving, whenever a step of \<open>ReleaseGuest\<close> removes the guest's entry from the registry, the
  command right before it deleted the device id that was read from that entry, and the pool
  reported success or that it holds no such device. So an interrupted or failed release
  leaves the entry in place for a retry.\<close>

theorem release_deletes_before_forgetting:
  assumes "plain_errors E"
  shows "\<exists>r w'. ReleaseGuest E X g devName w = Some (r, w') \<and> grows (forget_guarded (xM X) g) (wTrace w) (wTrace w')"
proof -
  let ?P = "forget_guarded (xM X) g"
  let ?G = "\<lambda>(_ :: unit res) w'. grows ?P (wTrace w) (wTrace w')"
  let ?w = "after_read E w"
  have g0: "grows ?P (wTrace w) (wTrace ?w)" by (simp add: grows_one)
  let ?L = "\<lambda>w'. grows ?P (wTrace w) (wTrace w') \<and> (\<exists>h2. wTrace w' = wTrace ?w @ h2)"
  have L: "wp m (\<lambda>_. ?L) w1" if "emits ?P m" "?L w1" for m :: "'b prog" and w1
    by (rule wp_mono [OF emitsD [OF that(1)]]) (use that(2) grows_trans grows_prefix in fastforce)
  have fin: "wp (regop E (\<lambda>io. Forget io g)) ?G w2"
    if "?L w1" "gone out err" "guest_id g (seen E w) = Some i"
      "w2 = w1\<lparr>wTrace := wTrace w1 @ [Dm [''--noudevsync'', ''message'', Pool (xM X), ''0'', delete_msg i] out err]\<rparr>" for w1 w2 i out err
  proof (rule wp_regop)
    fix r f'
    have g2: "grows ?P (wTrace w) (wTrace w2)" using grows.more [of ?P "wTrace w" "wTrace w1"] that(1,4) by simp
    have "?P (wTrace w2) (RegOp (seen E w2) f')"
      using that by (auto simp: forget_guarded_def)
    from grows_snoc [OF this g2] show "?G r (w2\<lparr>wReg := f', wTrace := wTrace w2 @ [RegOp (seen E w2) f']\<rparr>)" by simp
  qed simp
  have del: "wp (andThen (wrapErr s (ignoreNoSuchThin (DeleteThin E (xM X) i))) (\<lambda>_. regop E (\<lambda>io. Forget io g))) ?G w1"
    if "?L w1" "guest_id g (seen E w) = Some i" for w1 i s
    unfolding wp_andThen wp_wrapErr
    by (rule wp_delete [OF assms]) (use that fin grows.more [of ?P "wTrace w" "wTrace w1"] in auto)
  have st: "wp (andThen (wrapErr s (Manager_Status E (xM X))) (\<lambda>st. if PoolMode st = ModeReadOnly then raise e0
      else andThen (wrapErr s' (ignoreNoSuchThin (DeleteThin E (xM X) i))) (\<lambda>_. regop E (\<lambda>io. Forget io g)))) ?G w1"
    if "?L w1" "guest_id g (seen E w) = Some i" for w1 i s s' e0
    unfolding wp_andThen [of "wrapErr s (Manager_Status E (xM X))"] wp_wrapErr
    by (rule wp_mono [OF L [OF emits_Status that(1)]]) (use del that(2) in \<open>auto simp: wp_raise split: sum.split\<close>)
  have "wp (ReleaseGuest E X g devName) ?G w"
    unfolding ReleaseGuest_def wp_andThen [of "regop E (\<lambda>io. GuestID io g)"]
  proof (rule wp_GuestID, simp_all add: g0 [simplified] wp_andThen [of "removeIfActive E devName devName"])
    show "wp (removeIfActive E devName devName) (\<lambda>r w'. case r of Inl e \<Rightarrow> ?G (Inl e) w' | Inr _ \<Rightarrow>
       wp (case guest_id g (seen E w) of None \<Rightarrow> ret ()
         | Some i \<Rightarrow> andThen (wrapErr (''reading pool '' @ Pool (xM X) @ '': '') (Manager_Status E (xM X)))
             (\<lambda>st. if PoolMode st = ModeReadOnly then raise (read_only_err (xM X))
               else andThen (wrapErr (''deleting the thin device of guest '' @ g @ '': '') (ignoreNoSuchThin (DeleteThin E (xM X) i)))
                 (\<lambda>_. regop E (\<lambda>io. Forget io g)))) ?G w') ?w"
      by (rule wp_mono [OF L [OF emits_removeIfActive]])
        (use g0 st in \<open>auto simp: wp_ret split: sum.split option.split\<close>)
  qed
  then show ?thesis by (auto simp: wp_def)
qed

definition ex_pool_env :: env where
  "ex_pool_env = ex_env\<lparr>eDm := \<lambda>_ args. (if take 2 args = [''--noudevsync'', ''info''] then ''253:0''
      else if take 2 args = [''--noudevsync'', ''status''] then ''0 9 thin-pool 1 1/9 1/9 - rw x y'' else '''', None)\<rparr>"

theorem release_deletes_before_forgetting_witness:
  "\<exists>w'. ReleaseGuest ex_pool_env ex_X ''ns/vm/uid'' ''vm'' \<lparr>wTrace = [], wReg = ex_registry\<rparr> = Some (Inr (), w') \<and>
     guest_id ''ns/vm/uid'' (wReg w') = None \<and> grows (forget_guarded ex_manager ''ns/vm/uid'') [] (wTrace w')"
proof -
  let ?run = "ReleaseGuest ex_pool_env ex_X ''ns/vm/uid'' ''vm'' \<lparr>wTrace = [], wReg = ex_registry\<rparr>"
  have c: "case ?run of Some (Inr _, w') \<Rightarrow> guest_id ''ns/vm/uid'' (wReg w') = None | _ \<Rightarrow> False" by code_simp
  have "plain_errors ex_pool_env" by (simp add: plain_errors_def ex_pool_env_def)
  from release_deletes_before_forgetting [OF this, of ex_X "''ns/vm/uid''" "''vm''" "\<lparr>wTrace = [], wReg = ex_registry\<rparr>"]
  obtain r w' where "?run = Some (r, w')" "grows (forget_guarded ex_manager ''ns/vm/uid'') [] (wTrace w')"
    by (auto simp: ex_X_def)
  with c show ?thesis by (cases r) auto
qed

section \<open>Copying an image\<close>

text \<open>The blocks of an image with their offsets, and those that hold a non-zero byte.\<close>

function image_blocks :: "nat \<Rightarrow> u8 list \<Rightarrow> (nat \<times> u8 list) list" where
  "image_blocks off bs = (if bs = [] then [] else (off, take chunk bs) # image_blocks (off + chunk) (drop chunk bs))"
  by pat_completeness auto
termination
  by (relation "measure (\<lambda>(_, bs). length bs)") (auto simp: chunk_def)

declare image_blocks.simps [simp del]

definition nonzero_blocks :: "nat \<Rightarrow> u8 list \<Rightarrow> (nat \<times> u8 list) list" where
  "nonzero_blocks off bs = filter (\<lambda>(_, b). \<not> list_all (\<lambda>x. x = 0) b) (image_blocks off bs)"

definition overlay :: "nat \<Rightarrow> u8 list \<Rightarrow> (nat \<Rightarrow> u8) \<Rightarrow> nat \<Rightarrow> u8" where
  "overlay off bs dev i = (if off \<le> i \<and> i < off + length bs then bs ! (i - off) else dev i)"

text \<open>The bytes of a device after the successful writes of a trace.\<close>

fun dev_after :: "string \<Rightarrow> event list \<Rightarrow> (nat \<Rightarrow> u8) \<Rightarrow> nat \<Rightarrow> u8" where
  "dev_after path [] dev = dev"
| "dev_after path (WroteAt p off bs None # tr) dev = dev_after path tr (if p = path then overlay off bs dev else dev)"
| "dev_after path (_ # tr) dev = dev_after path tr dev"

definition block_write :: "string \<Rightarrow> nat \<times> u8 list \<Rightarrow> event" where
  "block_write path b = WroteAt path (fst b) (snd b) None"

lemma nonzero_blocks_step:
  "bs \<noteq> [] \<Longrightarrow> nonzero_blocks off bs =
     (if list_all (\<lambda>x. x = 0) (take chunk bs) then [] else [(off, take chunk bs)]) @ nonzero_blocks (off + chunk) (drop chunk bs)"
  by (simp add: nonzero_blocks_def image_blocks.simps [of off bs])

lemma nonzero_blocks_Nil [simp]: "nonzero_blocks off [] = []"
  by (simp add: nonzero_blocks_def image_blocks.simps)

lemma overlay_head:
  assumes "\<And>j. off \<le> j \<Longrightarrow> dev j = 0"
  shows "(if list_all (\<lambda>x. x = 0) h then dev else overlay off h dev) i =
    (if i < off then dev i else if i < off + length h then h ! (i - off) else 0)"
  using assms by (auto simp: overlay_def list_all_length)

lemma dev_after_blocks:
  assumes "\<And>j. off \<le> j \<Longrightarrow> dev j = 0"
  shows "dev_after path (map (block_write path) (nonzero_blocks off bs)) dev i =
    (if i < off then dev i else if i < off + length bs then bs ! (i - off) else 0)"
  using assms
proof (induction off bs arbitrary: dev rule: image_blocks.induct)
  case (1 off bs)
  show ?case
  proof (cases "bs = []")
    case False
    define dev' where "dev' = (if list_all (\<lambda>x. x = 0) (take chunk bs) then dev else overlay off (take chunk bs) dev)"
    have dev': "dev' j = (if j < off then dev j else if j < off + length (take chunk bs) then take chunk bs ! (j - off) else 0)" for j
      unfolding dev'_def by (rule overlay_head) (rule 1(2))
    have "dev_after path (map (block_write path) (nonzero_blocks off bs)) dev i =
        dev_after path (map (block_write path) (nonzero_blocks (off + chunk) (drop chunk bs))) dev' i"
      by (simp add: nonzero_blocks_step [OF False] dev'_def block_write_def)
    also have "\<dots> = (if i < off + chunk then dev' i else if i < off + chunk + length (drop chunk bs) then drop chunk bs ! (i - (off + chunk)) else 0)"
      by (rule 1(1) [OF False]) (auto simp: dev')
    also have "\<dots> = (if i < off then dev i else if i < off + length bs then bs ! (i - off) else 0)"
      by (auto simp: dev' min_def)
    finally show ?thesis .
  qed (use 1(2) in simp)
qed

text \<open>
  The copy: its outcome, and exactly what it writes when it succeeds.
\<close>

definition copies :: "string \<Rightarrow> int \<Rightarrow> nat \<Rightarrow> u8 list \<Rightarrow> goerr option \<Rightarrow> env \<Rightarrow> world \<Rightarrow> nat res \<Rightarrow> world \<Rightarrow> bool" where
  "copies path limit off bs err E w r w' \<longleftrightarrow>
     (\<forall>n. r = Inr n \<longrightarrow> n = off + length bs \<and> err = None \<and> (bs \<noteq> [] \<longrightarrow> int n \<le> limit) \<and>
        wTrace w' = wTrace w @ map (block_write path) (nonzero_blocks off bs)) \<and>
     ((\<forall>h. eCtx E h = None) \<and> (\<forall>h. eWrite E h = None) \<and> err = None \<and> int (off + length bs) \<le> limit \<longrightarrow> (\<exists>n. r = Inr n)) \<and>
     (\<exists>new. wTrace w' = wTrace w @ new)"

lemma wp_copy_block:
  assumes ok: "\<And>w'. (buf \<noteq> [] \<longrightarrow> int (off + length buf) \<le> limit) \<Longrightarrow>
      wTrace w' = wTrace w @ (if list_all (\<lambda>x. x = 0) buf then [] else [block_write path (off, buf)]) \<Longrightarrow> Q (Inr ()) w'"
    and fail: "\<And>e w' new. (\<exists>h. eWrite E h \<noteq> None) \<or> int (off + length buf) > limit \<Longrightarrow> wTrace w' = wTrace w @ new \<Longrightarrow> Q (Inl e) w'"
  shows "wp (copy_block E path limit off buf) Q w"
proof -
  have "Q (Inr ()) w" if "list_all (\<lambda>x. x = 0) buf" "buf \<noteq> [] \<longrightarrow> int (off + length buf) \<le> limit" by (rule ok) (use that in auto)
  moreover have "Q (Inl e) w" if "int (off + length buf) > limit" for e by (rule fail [of _ "[]"]) (use that in auto)
  ultimately show ?thesis
    unfolding copy_block_def
    by (auto simp: wp_rules wp_def WriteAt_def Let_def andThen_def emit_def wrapErr_def ret_def raise_def block_write_def
        split: option.split intro!: ok fail)
qed

lemma copies_step:
  assumes "copies path limit (off + chunk) (drop chunk bs) err E w1 r w2" and "int (off + chunk) \<le> limit" and "chunk \<le> length bs" and "bs \<noteq> []"
    and "wTrace w1 = wTrace w @ (if list_all (\<lambda>x. x = 0) (take chunk bs) then [] else [block_write path (off, take chunk bs)])"
  shows "copies path limit off bs err E w r w2"
proof -
  have len: "off + chunk + length (drop chunk bs) = off + length bs" using assms(3) by simp
  note c = assms(1) [unfolded copies_def len]
  have tr: "wTrace w1 @ map (block_write path) (nonzero_blocks (off + chunk) (drop chunk bs)) =
      wTrace w @ map (block_write path) (nonzero_blocks off bs)"
    by (simp add: assms(5) nonzero_blocks_step [OF assms(4)])
  have lim: "int (off + length bs) \<le> limit" if "drop chunk bs \<noteq> [] \<longrightarrow> int (off + length bs) \<le> limit"
    using that assms(2,3) by (cases "drop chunk bs = []") auto
  show ?thesis
    unfolding copies_def
  proof (intro conjI)
    show "\<forall>n. r = Inr n \<longrightarrow> n = off + length bs \<and> err = None \<and> (bs \<noteq> [] \<longrightarrow> int n \<le> limit) \<and>
        wTrace w2 = wTrace w @ map (block_write path) (nonzero_blocks off bs)"
    proof (intro allI impI)
      fix n
      assume "r = Inr n"
      from c [THEN conjunct1, rule_format, OF this]
      have "n = off + length bs" "err = None" "drop chunk bs \<noteq> [] \<longrightarrow> int n \<le> limit"
        "wTrace w2 = wTrace w1 @ map (block_write path) (nonzero_blocks (off + chunk) (drop chunk bs))" by blast+
      with tr lim show "n = off + length bs \<and> err = None \<and> (bs \<noteq> [] \<longrightarrow> int n \<le> limit) \<and>
          wTrace w2 = wTrace w @ map (block_write path) (nonzero_blocks off bs)" by simp
    qed
    show "(\<forall>h. eCtx E h = None) \<and> (\<forall>h. eWrite E h = None) \<and> err = None \<and> int (off + length bs) \<le> limit \<longrightarrow> (\<exists>n. r = Inr n)"
      by (rule c [THEN conjunct2, THEN conjunct1])
    obtain new where "wTrace w2 = wTrace w1 @ new" using c [THEN conjunct2, THEN conjunct2] by (rule exE)
    then show "\<exists>new. wTrace w2 = wTrace w @ new" by (simp add: assms(5))
  qed
qed

lemma copies_fail:
  assumes "(\<exists>h. eCtx E h \<noteq> None) \<or> (\<exists>h. eWrite E h \<noteq> None) \<or> err \<noteq> None \<or> int (off + length bs) > limit" and "wTrace w' = wTrace w @ new"
  shows "copies path limit off bs err E w (Inl e) w'"
  using assms by (simp add: copies_def) auto

lemma copies_last:
  assumes "length bs < chunk" and "bs \<noteq> [] \<longrightarrow> int (off + length bs) \<le> limit"
    and "wTrace w' = wTrace w @ (if list_all (\<lambda>x. x = 0) bs then [] else [block_write path (off, bs)])"
  shows "copies path limit off bs None E w (Inr (off + length bs)) w'"
  using assms nonzero_blocks_step [of bs off] by (cases "bs = []") (simp_all add: copies_def)

lemma wp_checkCtx:
  assumes "Q (Inr ()) w" and "\<And>e. \<exists>h. eCtx E h \<noteq> None \<Longrightarrow> Q (Inl e) w"
  shows "wp (checkCtx E) Q w"
  using assms by (auto simp: wp_def checkCtx_def ret_def raise_def simp del: not_None_eq split: option.split)

lemma wp_copy_loop: "wp (copy_loop E path limit off (reads bs err)) (copies path limit off bs err E w) w"
proof (induction bs err arbitrary: off w rule: reads.induct)
  case (1 bs err)
  show ?case
  proof (cases "length bs < chunk")
    case True
    have err: "wp (case err of None \<Rightarrow> ret (off + length bs) | Some e \<Rightarrow> raise e) (copies path limit off bs err E w) w'"
      if "bs \<noteq> [] \<longrightarrow> int (off + length bs) \<le> limit"
        "wTrace w' = wTrace w @ (if list_all (\<lambda>x. x = 0) bs then [] else [block_write path (off, bs)])" for w'
      using copies_last [OF True that] that(2) copies_fail [of E err] by (cases err) (auto simp: wp_ret wp_raise)
    have case_eq: "(case (case err of None \<Rightarrow> ReadEOF | Some e \<Rightarrow> ReadErr e) of ReadEOF \<Rightarrow> ret (off + length bs)
        | ReadErr e \<Rightarrow> raise e | ReadOK \<Rightarrow> k) = (case err of None \<Rightarrow> ret (off + length bs) | Some e \<Rightarrow> raise e)" for k :: "nat prog"
      by (cases err) simp_all
    show ?thesis
      unfolding reads.simps [of bs err] if_P [OF True] copy_loop.simps wp_andThen case_eq
    proof (rule wp_checkCtx, simp_all only: sum.case)
      show "wp (copy_block E path limit off bs) (\<lambda>r w'. case r of Inl e \<Rightarrow> copies path limit off bs err E w (Inl e) w'
          | Inr _ \<Rightarrow> wp (case err of None \<Rightarrow> ret (off + length bs) | Some e \<Rightarrow> raise e) (copies path limit off bs err E w) w') w"
        by (rule wp_copy_block) (simp_all only: sum.case err, auto intro!: copies_fail)
    qed (auto intro!: copies_fail [where new = "[]"])
  next
    case False
    then have ne: "bs \<noteq> []" "length (take chunk bs) = chunk" "chunk \<le> length bs" "chunk \<noteq> 0" by (auto simp: chunk_def)
    have next_block: "wp (copy_loop E path limit (off + chunk) (reads (drop chunk bs) err)) (copies path limit off bs err E w) w1"
      if "int (off + chunk) \<le> limit"
        "wTrace w1 = wTrace w @ (if list_all (\<lambda>x. x = 0) (take chunk bs) then [] else [block_write path (off, take chunk bs)])" for w1
      by (rule wp_mono [OF 1 [OF False]]) (rule copies_step [OF _ that(1) ne(3,1) that(2)])
    show ?thesis
      unfolding reads.simps [of bs err] if_not_P [OF False] copy_loop.simps wp_andThen read_end.case ne(2)
    proof (rule wp_checkCtx, simp_all only: sum.case)
      show "wp (copy_block E path limit off (take chunk bs)) (\<lambda>r w'. case r of Inl e \<Rightarrow> copies path limit off bs err E w (Inl e) w'
          | Inr _ \<Rightarrow> wp (copy_loop E path limit (off + chunk) (reads (drop chunk bs) err)) (copies path limit off bs err E w) w') w"
        by (rule wp_copy_block) (use ne next_block in \<open>auto intro!: copies_fail\<close>)
    qed (auto intro!: copies_fail [where new = "[]"])
  qed
qed



section \<open>A failed activation leaks its snapshot\<close>

definition is_delete :: "event \<Rightarrow> bool" where
  "is_delete e \<longleftrightarrow> (case e of Dm args _ _ \<Rightarrow> length args = 5 \<and> HasPrefix (args ! 4) ''delete '' | _ \<Rightarrow> False)"

definition ex_leak_env :: env where
  "ex_leak_env = ex_env\<lparr>eDm := \<lambda>_ args. ('''', if take 2 args = [''--noudevsync'', ''info''] then Some (Errorf ''busy'') else None)\<rparr>"


end
