(* ===== verification/Thin_Bases.thy ===== *)
theory Thin_Bases
  imports Thin_Materialize
begin

text \<open>
  Bases: when a base may be marked ready, and what making room for one does. The programs
  are those of \<open>Thin_Materialize\<close>; the theorems hold for every environment.
\<close>

section \<open>A base is marked ready only when it is written\<close>

definition sets_ready :: "string \<Rightarrow> event \<Rightarrow> bool" where
  "sets_ready key e \<longleftrightarrow> (\<exists>f f'. e = RegOp f f' \<and> \<not> base_ready key f \<and> base_ready key f')"

definition is_dm :: "event \<Rightarrow> bool" where
  "is_dm e \<longleftrightarrow> (\<exists>args out err. e = Dm args out err)"

text \<open>The trace of a finished write: a new device, its mapping, the image, the sync and the unmapping.\<close>

definition created_afresh :: "Materializer \<Rightarrow> u32 \<Rightarrow> event list \<Rightarrow> bool" where
  "created_afresh X i tr \<longleftrightarrow>
     (\<exists>h out act. tr = h @ [Dm [''--noudevsync'', ''message'', Pool (xM X), ''0'', create_thin_msg i] out None] @ act \<and> list_all is_dm act)"

definition image_written :: "string \<Rightarrow> u64 \<Rightarrow> reader res \<Rightarrow> event list \<Rightarrow> bool" where
  "image_written path sizeBytes opened new \<longleftrightarrow>
     (\<exists>src. opened = Inr src \<and> rdErr src = None \<and> (rdBytes src \<noteq> [] \<longrightarrow> int (length (rdBytes src)) \<le> sint sizeBytes) \<and>
        new = map (block_write path) (nonzero_blocks 0 (rdBytes src)) @ [Synced path None])"

definition ready_guarded :: "Materializer \<Rightarrow> string \<Rightarrow> u64 \<Rightarrow> reader res \<Rightarrow> event list \<Rightarrow> event \<Rightarrow> bool" where
  "ready_guarded X key sizeBytes opened tr e \<longleftrightarrow>
     (sets_ready key e \<longrightarrow> (\<exists>h new i o1 o2.
        tr = h @ new @ [Dm [''--noudevsync'', ''remove'', ''--retry'', baseDeviceName X key] o1 None,
                        Dm [''--noudevsync'', ''mknodes'', baseDeviceName X key] o2 None] \<and>
        created_afresh X i h \<and> image_written (DevicePath (baseDeviceName X key)) sizeBytes opened new))"

lemma not_sets_ready [simp]:
  "\<not> sets_ready k (Dm args out err)" "\<not> sets_ready k (Locked l)" "\<not> sets_ready k (Unlocked l)"
  "\<not> sets_ready k (WroteAt p off bs err)" "\<not> sets_ready k (Synced p err)"
  by (simp_all add: sets_ready_def)

lemma ready_guarded_trivial [simp]: "\<not> sets_ready k e \<Longrightarrow> ready_guarded X k n opened tr e"
  by (simp add: ready_guarded_def)

lemma ready_guarded_RegOp: "ready_not_set f f' \<Longrightarrow> ready_guarded X k n opened tr (RegOp f f')"
  by (auto simp: ready_guarded_def sets_ready_def ready_not_set_def)

lemmas op_ready = ForgetBase_ready AllocateBase_ready Advance_kept [THEN kept_ready] TouchBase_kept [THEN kept_ready]
  Unreserve_kept [THEN kept_ready] Reserve_kept [THEN kept_ready]

lemma emits_ready_regop:
  assumes "\<And>io f. p io f \<noteq> None" and "\<And>io f r f'. p io f = Some (r, f') \<Longrightarrow> ready_not_set f f'"
  shows "emits (ready_guarded X k n opened) (regop E p)"
  by (rule emits_regop) (use assms ready_guarded_RegOp in blast)+

lemma emits_ready_read:
  assumes "\<And>io f. p io f \<noteq> None" and "\<And>io f r f'. p io f = Some (r, f') \<Longrightarrow> f' = f"
  shows "emits (ready_guarded X k n opened) (regop E p)"
  by (rule emits_ready_regop [OF assms(1)]) (use assms(2) in force)

subsection \<open>Events of the parts\<close>

lemma emits_WriteAt: "(\<And>tr p off bs err. P tr (WroteAt p off bs err)) \<Longrightarrow> emits P (WriteAt E path off buf)"
  by (auto simp: emits_def wp_def WriteAt_def Let_def andThen_def emit_def ret_def raise_def grows_one split: option.split)

lemma emits_checkCtx: "emits P (checkCtx E)"
  by (auto simp: emits_def wp_def checkCtx_def ret_def raise_def grows.same split: option.split)

lemma emits_openDev: "emits P (openDev E path)"
  by (auto simp: emits_def wp_def openDev_def ret_def raise_def grows.same split: option.split)

lemma emits_syncDev: "(\<And>tr p err. P tr (Synced p err)) \<Longrightarrow> emits P (syncDev E path)"
  by (auto simp: emits_def wp_def syncDev_def Let_def andThen_def emit_def ret_def raise_def grows_one split: option.split)

lemma emits_copy_loop:
  assumes "\<And>tr p off bs err. P tr (WroteAt p off bs err)"
  shows "emits P (copy_loop E path limit off rs)"
  by (induction E path limit off rs rule: copy_loop.induct)
    (auto simp: copy_block_def intro!: emits_rules emits_checkCtx emits_WriteAt assms split: read_end.split)

lemma emits_populate:
  assumes "\<And>tr p off bs err. P tr (WroteAt p off bs err)" and "\<And>tr p err. P tr (Synced p err)"
  shows "emits P (populate E name sizeBytes opened)"
  unfolding populate_def copySkippingZeros_def
  by (intro emits_rules emits_openDev emits_copy_loop emits_syncDev assms)

lemma emits_lockKey: "(\<And>tr. P tr (Locked key)) \<Longrightarrow> emits P (lockKey E key)"
  by (auto simp: emits_def wp_def lockKey_def raise_def emit_def grows.same grows_one split: option.split)

lemma emits_tryLockKey: "(\<And>tr. P tr (Locked key)) \<Longrightarrow> emits P (tryLockKey E key)"
  by (auto simp: emits_def wp_def tryLockKey_def raise_def emit_def ret_def andThen_def grows.same grows_one
      split: sum.split bool.split)

lemma emits_touchBase:
  "(\<And>tr io now f r f'. TouchBase io key now f = Some (r, f') \<Longrightarrow> P tr (RegOp f f')) \<Longrightarrow> emits P (touchBase E key)"
  unfolding emits_def
proof
  fix w :: world
  assume "\<And>tr io now f r f'. TouchBase io key now f = Some (r, f') \<Longrightarrow> P tr (RegOp f f')"
  then have "emits P (regop E (\<lambda>io. TouchBase io key (eNow E (wTrace w))))" by (intro emits_regop) simp_all
  from emitsD [OF this, of w] show "wp (touchBase E key) (\<lambda>_ w'. grows P (wTrace w) (wTrace w')) w"
    by (simp add: wp_def touchBase_def)
qed

lemma emits_delete: "(\<And>tr args out err. P tr (Dm args out err)) \<Longrightarrow> emits P (ignoreNoSuchThin (DeleteThin E M i))"
  unfolding ignoreNoSuchThin_def DeleteThin_def by (intro emits_rules)

lemma emits_ReserveProbing:
  assumes dm: "\<And>tr args out err. P tr (Dm args out err)"
    and res: "\<And>tr io now free f r f'. Reserve io key bytes free now f = Some (r, f') \<Longrightarrow> P tr (RegOp f f')"
  shows "emits P (ReserveProbing E X key bytes)"
  unfolding emits_def
proof
  fix w :: world
  have free: "emits P (freeBytes E X)" unfolding freeBytes_def by (intro emits_rules emits_Status dm)
  obtain r1 w1 where w1: "freeBytes E X (w\<lparr>wReg := seen E w\<rparr>) = Some (r1, w1)" "grows P (wTrace w) (wTrace w1)"
    using emits_total [OF free, of "w\<lparr>wReg := seen E w\<rparr>"] by auto
  obtain r f' where r: "Reserve (eReg E (wTrace w)) key bytes (Inr 0) (eNow E (wTrace w)) (seen E w) = Some (r, f')"
    using changing_ops_total(6) [of "eReg E (wTrace w)" key bytes "Inr 0" "eNow E (wTrace w)" "seen E w"] by fastforce
  obtain r2 f2 where r2: "Reserve (eReg E (wTrace w)) key bytes r1 (eNow E (wTrace w1)) (seen E w) = Some (r2, f2)"
    using changing_ops_total(6) [of "eReg E (wTrace w)" key bytes r1 "eNow E (wTrace w1)" "seen E w"] by fastforce
  show "wp (ReserveProbing E X key bytes) (\<lambda>_ w'. grows P (wTrace w) (wTrace w')) w"
    using w1 r r2 res [OF r] res [OF r2]
    by (auto simp: wp_def ReserveProbing_def Let_def grows_one grows.more split: if_splits)
qed

subsection \<open>Making room\<close>

lemma emits_evictBase:
  assumes dm: "\<And>tr args out err. P tr (Dm args out err)" and lk: "\<And>tr l. P tr (Locked l)" "\<And>tr l. P tr (Unlocked l)"
    and same: "\<And>tr f. P tr (RegOp f f)" and fb: "\<And>tr io f r f'. ForgetBase io key f = Some (r, f') \<Longrightarrow> P tr (RegOp f f')"
  shows "emits P (evictBase E X key)"
proof -
  have id: "emits P (regop E (\<lambda>io. BaseID io key))"
    by (rule emits_regop, simp, drule reading_file(1), simp add: same)
  have "emits P (regop E (\<lambda>io. ForgetBase io key))" by (rule emits_regop, simp, erule fb)
  then show ?thesis
    unfolding evictBase_def unlockKey_def
    by (intro emits_rules emits_tryLockKey emits_removeIfActive emits_delete id dm lk)
qed

lemma emits_makeRoomFor:
  assumes dm: "\<And>tr args out err. P tr (Dm args out err)" and lk: "\<And>tr l. P tr (Locked l)" "\<And>tr l. P tr (Unlocked l)"
    and same: "\<And>tr f. P tr (RegOp f f)"
    and fb: "\<And>tr k io f r f'. k \<noteq> key \<Longrightarrow> ForgetBase io k f = Some (r, f') \<Longrightarrow> P tr (RegOp f f')"
    and res: "\<And>tr io now free f r f'. Reserve io key bytes free now f = Some (r, f') \<Longrightarrow> P tr (RegOp f f')"
  shows "emits P (makeRoomFor E X bytes key)"
proof -
  note probe = emits_ReserveProbing [OF dm res]
  have loop: "emits P (evict_loop E X bytes key others shared ks evicted available)" for others shared ks evicted available
  proof (induction ks arbitrary: evicted available)
    case (Cons k ks)
    show ?case
    proof (cases "k = key")
      case False
      then have "emits P (evictBase E X k)" by (intro emits_evictBase dm lk same fb)
      with False show ?thesis by (auto intro!: emits_rules probe Cons.IH)
    qed (simp add: Cons.IH)
  qed (simp add: emits_rules)
  have "emits P (regop E EvictionOrder)" by (rule emits_regop, simp, drule reading_file(5), simp add: same)
  then show ?thesis unfolding makeRoomFor_def by (intro emits_rules probe loop)
qed

subsection \<open>Writing a base\<close>

lemma Dm_is_dm [simp]: "is_dm (Dm args out err)"
  by (simp add: is_dm_def)

lemma is_dm_grows: "grows (\<lambda>_. is_dm) a b \<Longrightarrow> \<exists>act. b = a @ act \<and> list_all is_dm act"
  by (induction rule: grows.induct) auto

lemma wp_CreateBase:
  "wp (CreateBase E (xM X) i name n) (\<lambda>r w'. r = Inr () \<longrightarrow> created_afresh X i (wTrace w')) w"
proof -
  let ?m = "[''--noudevsync'', ''message'', Pool (xM X), ''0'', create_thin_msg i]"
  have "emits (\<lambda>_. is_dm) (activate E (xM X) name i n)" by (intro emits_activate) simp_all
  then have "wp (activate E (xM X) name i n) (\<lambda>r w'. r = Inr () \<longrightarrow> created_afresh X i (wTrace w'))
      (w\<lparr>wTrace := wTrace w @ [Dm ?m out None]\<rparr>)" for out
    by (rule wp_mono [OF emitsD]) (auto simp: created_afresh_def dest!: is_dm_grows, blast)
  then show ?thesis
    unfolding CreateBase_def by (auto simp: wp_rules Let_def split: option.split)
qed

lemma emits_CreateBase: "(\<And>tr args out err. P tr (Dm args out err)) \<Longrightarrow> emits P (CreateBase E M i name n)"
  unfolding CreateBase_def by (intro emits_rules emits_activate)

lemma emits_discardUnfinished: "(\<And>tr args out err. P tr (Dm args out err)) \<Longrightarrow> emits P (discardUnfinished E X key name i)"
  unfolding discardUnfinished_def by (intro emits_rules emits_removeIfActive emits_delete)

lemma wp_createBase_loop:
  "wp (createBase_loop E X key name sectors n)
     (\<lambda>r w'. grows (ready_guarded X k sz opened) (wTrace w) (wTrace w') \<and> (\<forall>i. r = Inr i \<longrightarrow> created_afresh X i (wTrace w'))) w"
proof (induction n arbitrary: w)
  case 0
  show ?case by (simp add: wp_raise grows.same)
next
  case (Suc n)
  let ?P = "ready_guarded X k sz opened"
  let ?Q = "\<lambda>(r :: u32 res) w'. grows ?P (wTrace w) (wTrace w') \<and> (\<forall>i. r = Inr i \<longrightarrow> created_afresh X i (wTrace w'))"
  have again: "wp (createBase_loop E X key name sectors n) ?Q w1" if "grows ?P (wTrace w) (wTrace w1)" for w1
    by (rule wp_mono [OF Suc.IH]) (use that grows_trans in blast)
  have alloc: "emits ?P (regop E (\<lambda>io. AllocateBase io key))" "emits ?P (regop E (\<lambda>io. ForgetBase io key))"
    "emits ?P (regop E (\<lambda>io. Advance io i))" for i
    by (rule emits_ready_regop, simp, erule op_ready)+
  have disc: "emits ?P (if b then ret () else discardUnfinished E X key name i)" for b i
    by (intro emits_rules emits_discardUnfinished) simp
  have res: "wp (createBase_result E key i (createBase_loop E X key name sectors n) r) ?Q w1"
    if "grows ?P (wTrace w) (wTrace w1)" "r = Inr () \<longrightarrow> created_afresh X i (wTrace w1)" for i r w1
    unfolding createBase_result_def
    using that by (cases r) (auto simp: wp_rules split: sum.split intro!: again wp_emits [OF alloc(3)] wp_emits [OF alloc(2)])
  have cr: "wp (andThen (attempt (CreateBase E (xM X) i name sectors)) (createBase_result E key i (createBase_loop E X key name sectors n))) ?Q w1"
    if "grows ?P (wTrace w) (wTrace w1)" for i w1
    unfolding wp_andThen wp_attempt sum.case
  proof (rule wp_mono [OF wp_conj [OF _ wp_CreateBase]])
    show "wp (CreateBase E (xM X) i name sectors) (\<lambda>_ w'. grows ?P (wTrace w) (wTrace w')) w1"
      by (rule wp_emits [OF emits_CreateBase that]) simp_all
  qed (use res in blast)
  have d: "wp (andThen (if b then ret () else discardUnfinished E X key name i)
      (\<lambda>_. andThen (attempt (CreateBase E (xM X) i name sectors)) (createBase_result E key i (createBase_loop E X key name sectors n)))) ?Q w1"
    if "grows ?P (wTrace w) (wTrace w1)" for b i w1
    unfolding wp_andThen [of "if b then _ else _"]
    by (rule wp_emits [OF disc that]) (use cr in \<open>auto split: sum.split\<close>)
  show ?case
    unfolding createBase_loop.simps wp_andThen [of "regop E (\<lambda>io. AllocateBase io key)"]
  proof (rule wp_emits [OF alloc(1) grows.same])
    fix r :: "(u32 \<times> bool) res" and w' :: world
    assume g: "grows ?P (wTrace w) (wTrace w')"
    show "case r of Inl e \<Rightarrow> ?Q (Inl e) w' | Inr a \<Rightarrow> wp (andThen (if snd a then ret () else discardUnfinished E X key name (fst a))
        (\<lambda>_. andThen (attempt (CreateBase E (xM X) (fst a) name sectors)) (createBase_result E key (fst a) (createBase_loop E X key name sectors n)))) ?Q w'"
      by (cases r) (simp add: g, simp only: sum.case, rule d [OF g])
  qed
qed

lemma wp_populate:
  "wp (populate E name sizeBytes opened)
     (\<lambda>r w'. r = Inr () \<longrightarrow> (\<exists>new. wTrace w' = wTrace w @ new \<and> image_written (DevicePath name) sizeBytes opened new)) w"
proof (cases opened)
  case (Inr src)
  have op: "wp (openDev E p) (\<lambda>r w'. w' = w) w" for p
    by (auto simp: wp_def openDev_def ret_def raise_def split: option.split)
  have sync: "wp (syncDev E p) (\<lambda>r w'. r = Inr () \<longrightarrow> wTrace w' = wTrace w1 @ [Synced p None]) w1" for p w1
    by (auto simp: wp_def syncDev_def Let_def andThen_def emit_def ret_def raise_def split: option.split)
  have copy: "wp (copySkippingZeros E p src limit) (\<lambda>r w'. \<forall>n. r = Inr n \<longrightarrow> rdErr src = None \<and>
      (rdBytes src \<noteq> [] \<longrightarrow> int (length (rdBytes src)) \<le> limit) \<and>
      wTrace w' = wTrace w @ map (block_write p) (nonzero_blocks 0 (rdBytes src))) w" for p limit
    unfolding copySkippingZeros_def by (rule wp_mono [OF wp_copy_loop]) (auto simp: copies_def)
  show ?thesis
    unfolding populate_def Inr sum.case wp_andThen
    by (rule wp_mono [OF op], clarsimp split: sum.split, rule wp_mono [OF copy], clarsimp simp: wp_raise split: sum.split,
        rule wp_mono [OF sync]) (auto simp: image_written_def)
qed (simp add: populate_def wp_raise)

lemma wp_RemoveDevice:
  "wp (RemoveDevice E name)
     (\<lambda>r w'. r = Inr () \<longrightarrow> (\<exists>o1 o2. wTrace w' = wTrace w @ [Dm [''--noudevsync'', ''remove'', ''--retry'', name] o1 None,
        Dm [''--noudevsync'', ''mknodes'', name] o2 None])) w"
  unfolding RemoveDevice_def by (auto simp: wp_rules Let_def split: option.splits)

lemma emits_RemoveDevice: "(\<And>tr args out err. P tr (Dm args out err)) \<Longrightarrow> emits P (RemoveDevice E name)"
  unfolding RemoveDevice_def by (intro emits_rules)

lemma emits_touch: "emits (ready_guarded X key n opened) (touchBase E k)"
  by (rule emits_touchBase) (blast intro: ready_guarded_RegOp op_ready)

lemma wp_mark_ready:
  assumes g: "grows (ready_guarded X key n opened) a (wTrace w)"
    and w: "wTrace w = h @ new @ [Dm [''--noudevsync'', ''remove'', ''--retry'', baseDeviceName X key] o1 None,
        Dm [''--noudevsync'', ''mknodes'', baseDeviceName X key] o2 None]"
    and new: "created_afresh X i h" "image_written (DevicePath (baseDeviceName X key)) n opened new"
  shows "wp (andThen (regop E (\<lambda>io. MarkBaseReady io key)) (\<lambda>_. andThen (touchBase E key) (\<lambda>_. ret j)))
    (\<lambda>_ w'. grows (ready_guarded X key n opened) a (wTrace w')) w"
  unfolding wp_andThen [of "regop E (\<lambda>io. MarkBaseReady io key)"]
proof (rule wp_regop)
  fix r f'
  have "ready_guarded X key n opened (wTrace w) (RegOp (seen E w) f')"
    unfolding ready_guarded_def using w new by blast
  from grows_snoc [OF this g]
  have g1: "grows (ready_guarded X key n opened) a (wTrace (w\<lparr>wReg := f', wTrace := wTrace w @ [RegOp (seen E w) f']\<rparr>))" by simp
  have "emits (ready_guarded X key n opened) (andThen (touchBase E key) (\<lambda>_. ret j))"
    by (intro emits_rules emits_touch)
  from wp_emits [OF this g1] g1
  show "case r of Inl e \<Rightarrow> grows (ready_guarded X key n opened) a (wTrace (w\<lparr>wReg := f', wTrace := wTrace w @ [RegOp (seen E w) f']\<rparr>))
    | Inr _ \<Rightarrow> wp (andThen (touchBase E key) (\<lambda>_. ret j)) (\<lambda>_ w'. grows (ready_guarded X key n opened) a (wTrace w'))
        (w\<lparr>wReg := f', wTrace := wTrace w @ [RegOp (seen E w) f']\<rparr>)" by (simp split: sum.split)
qed simp

lemma emits_writeBase: "emits (ready_guarded X key n opened) (writeBase E X key n opened)"
  unfolding emits_def
proof
  fix w :: world
  let ?P = "ready_guarded X key n opened"
  let ?name = "baseDeviceName X key"
  let ?G = "\<lambda>w'. grows ?P (wTrace w) (wTrace w')"
  let ?done = "\<lambda>i wr rm. case wr of
      Inl e \<Rightarrow> raise (Errorw (''writing base '' @ key @ '': '') e)
    | Inr (_ :: unit) \<Rightarrow> (case rm of
        Inl e \<Rightarrow> raise (Errorw (''deactivating base '' @ key @ '' after writing it: '') e)
      | Inr (_ :: unit) \<Rightarrow> andThen (regop E (\<lambda>io. MarkBaseReady io key)) (\<lambda>_. andThen (touchBase E key) (\<lambda>_. ret i)))"
  have rm: "wp (andThen (attempt (RemoveDevice E ?name)) (?done i wr)) (\<lambda>_. ?G) w2"
    if g2: "?G w2" and ok: "wr = Inr () \<longrightarrow> (\<exists>h new. wTrace w2 = h @ new \<and> created_afresh X i h \<and> image_written (DevicePath ?name) n opened new)"
    for i wr w2
    unfolding wp_andThen wp_attempt sum.case
  proof (rule wp_mono [OF wp_conj [OF _ wp_RemoveDevice]])
    show "wp (RemoveDevice E ?name) (\<lambda>_. ?G) w2" by (rule wp_emits [OF emits_RemoveDevice g2]) simp_all
    show "wp (?done i wr r) (\<lambda>_. ?G) w'" if "?G w' \<and> (r = Inr () \<longrightarrow> (\<exists>o1 o2. wTrace w' = wTrace w2 @ [Dm [''--noudevsync'', ''remove'', ''--retry'', ?name] o1 None,
        Dm [''--noudevsync'', ''mknodes'', ?name] o2 None]))" for r w'
    proof (cases "wr = Inr () \<and> r = Inr ()")
      case True
      with ok obtain h new where "wTrace w2 = h @ new" "created_afresh X i h" "image_written (DevicePath ?name) n opened new" by blast
      moreover from True that obtain o1 o2 where "wTrace w' = wTrace w2 @ [Dm [''--noudevsync'', ''remove'', ''--retry'', ?name] o1 None,
        Dm [''--noudevsync'', ''mknodes'', ?name] o2 None]" by blast
      ultimately show ?thesis using True that wp_mark_ready [of X key n opened "wTrace w" w' h new o1 o2 i E i] by simp
    qed (use that in \<open>auto simp: wp_raise split: sum.split\<close>)
  qed
  have pop: "wp (andThen (attempt (populate E ?name n opened)) (\<lambda>wr. andThen (attempt (RemoveDevice E ?name)) (?done i wr))) (\<lambda>_. ?G) w1"
    if g1: "?G w1" and c: "created_afresh X i (wTrace w1)" for i w1
    unfolding wp_andThen [of "attempt (populate E ?name n opened)"] wp_attempt sum.case
  proof (rule wp_mono [OF wp_conj [OF _ wp_populate]])
    show "wp (populate E ?name n opened) (\<lambda>_. ?G) w1" by (rule wp_emits [OF emits_populate g1]) simp_all
  qed (rule rm, use c in auto)
  show "wp (writeBase E X key n opened) (\<lambda>_. ?G) w"
    unfolding writeBase_def createBase_def wp_andThen [of "createBase_loop _ _ _ _ _ _"]
    by (rule wp_mono [OF wp_createBase_loop]) (auto split: sum.split intro: pop)
qed


lemma reads_code [code]:
  "reads bs err =
     (if int (length bs) < 65536 then [(bs, case err of None \<Rightarrow> ReadEOF | Some e \<Rightarrow> ReadErr e)]
      else (take chunk bs, ReadOK) # reads (drop chunk bs) err)"
  by (subst reads.simps) (simp add: chunk_def)


end
