(* ===== verification/Kube.thy ===== *)
theory Kube
  imports Programs
begin

text \<open>
  What the controllers share: string maps and conditions of API objects, calls to the API server
  and reasoning about programs that make such calls.

  Every call is an event of the history of a pass and is answered by the environment of the
  component from the whole history so far. A theorem without a hypothesis on the environment
  holds for every API failure, for stale caches and for every interleaving with other clients
  of the server. The type of the events is a parameter; each controller has its own.

  \<open>obeys S P Q m\<close>: started with a history that has the events \<open>S\<close>, the program \<open>m\<close> ends without a
  panic, every event it adds satisfies the policy \<open>P\<close> together with the history before it, and a
  successful result satisfies \<open>Q\<close> together with the history at the end.
\<close>

section \<open>Objects\<close>

type_synonym strmap = "string \<rightharpoonup> string"

text \<open>Reading a missing key yields the empty string.\<close>

definition at :: "strmap \<Rightarrow> string \<Rightarrow> string" where
  "at m k = (case m k of None \<Rightarrow> '''' | Some v \<Rightarrow> v)"

record Condition =
  cnType :: string
  cnStatus :: string
  cnReason :: string
  cnMessage :: string
  cnTransition :: int

section \<open>Calls\<close>

type_synonym ('e, 'a) caller = "('e list, 'a) program"

text \<open>A call appends its event and returns or raises the answer.\<close>

definition answer :: "('a res \<Rightarrow> 'e) \<Rightarrow> ('e list \<Rightarrow> 'a res) \<Rightarrow> ('e, 'a) caller" where
  "answer ev f h = Some (f h, h @ [ev (f h)])"

definition acknowledge :: "(goerr option \<Rightarrow> 'e) \<Rightarrow> ('e list \<Rightarrow> goerr option) \<Rightarrow> ('e, unit) caller" where
  "acknowledge ev f h = Some (case f h of None \<Rightarrow> Inr () | Some e \<Rightarrow> Inl e, h @ [ev (f h)])"

text \<open>
  \<open>whenFound m absent failed found\<close>: the answer of a read, split as the code does into found, not
  found and any other error. \<open>ignoreNotFound\<close> is \<open>client.IgnoreNotFound\<close>.
\<close>

definition whenFound :: "('e, 'a) caller \<Rightarrow> ('e, 'b) caller \<Rightarrow> (goerr \<Rightarrow> ('e, 'b) caller) \<Rightarrow> ('a \<Rightarrow> ('e, 'b) caller) \<Rightarrow> ('e, 'b) caller" where
  "whenFound m absent failed found =
     andThen (attempt m)
       (\<lambda>r. case r of
              Inr x \<Rightarrow> found x
            | Inl e \<Rightarrow> if errors_Is e ErrNotFound then absent else failed e)"

lemma whenFound_found: "m h = Some (Inr x, h') \<Longrightarrow> whenFound m absent failed found h = found x h'"
  by (simp add: whenFound_def andThen_def attempt_def)

definition ignoreNotFound :: "('e, unit) caller \<Rightarrow> ('e, unit) caller" where
  "ignoreNotFound m = whenFound m (ret ()) raise ret"

section \<open>Results of a pass\<close>

text \<open>
  Times and durations are integers of nanoseconds. Arithmetic on durations is that of 64-bit
  integers; \<open>time_Sub\<close>, the difference of two times, saturates instead.
\<close>

definition second :: int where
  "second = 1000000000"

definition int64 :: "int \<Rightarrow> int" where
  "int64 x = (x + 2 ^ 63) mod 2 ^ 64 - 2 ^ 63"

definition time_Sub :: "int \<Rightarrow> int \<Rightarrow> int" where
  "time_Sub t u = max (- (2 ^ 63)) (min (2 ^ 63 - 1) (t - u))"

record ctrlResult =
  crRequeue :: bool
  crAfter :: int

definition noRequeue :: ctrlResult where
  "noRequeue = \<lparr>crRequeue = False, crAfter = 0\<rparr>"

definition requeueNow :: ctrlResult where
  "requeueNow = \<lparr>crRequeue = True, crAfter = 0\<rparr>"

definition requeueAfter :: "int \<Rightarrow> ctrlResult" where
  "requeueAfter d = \<lparr>crRequeue = False, crAfter = d\<rparr>"

section \<open>Hoare rules\<close>

named_theorems obeys_rules \<open>events and results of the program combinators\<close>

definition obeys ::
  "'e set \<Rightarrow> ('e list \<Rightarrow> 'e \<Rightarrow> bool) \<Rightarrow> ('e list \<Rightarrow> 'a \<Rightarrow> bool) \<Rightarrow> ('e, 'a) caller \<Rightarrow> bool" where
  "obeys S P Q m \<longleftrightarrow>
     (\<forall>h. S \<subseteq> set h \<longrightarrow> wp m (\<lambda>r h'. grows P h h' \<and> (\<forall>x. r = Inr x \<longrightarrow> Q h' x)) h)"

lemma obeysI:
  "(\<And>h. S \<subseteq> set h \<Longrightarrow> wp m (\<lambda>r h'. grows P h h' \<and> (\<forall>x. r = Inr x \<longrightarrow> Q h' x)) h) \<Longrightarrow> obeys S P Q m"
  by (simp add: obeys_def)

lemma obeys_wp: "obeys S P Q m \<Longrightarrow> S \<subseteq> set h \<Longrightarrow> wp m (\<lambda>r h'. grows P h h' \<and> (\<forall>x. r = Inr x \<longrightarrow> Q h' x)) h"
  by (simp add: obeys_def)

lemma obeysD:
  assumes "obeys S P Q m" and "S \<subseteq> set h" and "m h = Some (r, h')"
  shows "grows P h h' \<and> (\<forall>x. r = Inr x \<longrightarrow> Q h' x)"
  using wpD [OF obeys_wp [OF assms(1,2)] assms(3)] .

lemma obeys_weaken:
  assumes "obeys S P Q m" and "\<And>h x. S \<subseteq> set h \<Longrightarrow> Q h x \<Longrightarrow> R h x"
  shows "obeys S P R m"
proof (rule obeysI)
  fix h
  assume S: "S \<subseteq> set h"
  show "wp m (\<lambda>r h'. grows P h h' \<and> (\<forall>x. r = Inr x \<longrightarrow> R h' x)) h"
  proof (rule wp_mono [OF obeys_wp [OF assms(1) S]])
    fix r h'
    assume a: "grows P h h' \<and> (\<forall>x. r = Inr x \<longrightarrow> Q h' x)"
    then have "S \<subseteq> set h'" using grows_prefix [of P h h'] S by auto
    with a assms(2) show "grows P h h' \<and> (\<forall>x. r = Inr x \<longrightarrow> R h' x)" by blast
  qed
qed

lemma obeys_sub: "obeys S P Q m \<Longrightarrow> S \<subseteq> S' \<Longrightarrow> obeys S' P Q m"
  by (auto simp: obeys_def)

lemma obeys_true: "obeys S P Q m \<Longrightarrow> obeys S P (\<lambda>_ _. True) m"
  by (erule obeys_weaken) simp

lemma obeys_ret [obeys_rules]: "(\<And>h. S \<subseteq> set h \<Longrightarrow> Q h x) \<Longrightarrow> obeys S P Q (ret x)"
  by (auto intro!: obeysI simp: wp_rules grows.same)

lemma obeys_raise [obeys_rules]: "obeys S P Q (raise e)"
  by (auto intro!: obeysI simp: wp_rules grows.same)

lemma obeys_andThen [obeys_rules]:
  assumes "obeys S P Q m" and "\<And>h x. S \<subseteq> set h \<Longrightarrow> Q h x \<Longrightarrow> obeys (set h) P R (k x)"
  shows "obeys S P R (andThen m k)"
proof (rule obeysI, unfold wp_andThen)
  fix h
  assume S: "S \<subseteq> set h"
  show "wp m (\<lambda>r h'. case r of Inl e \<Rightarrow> grows P h h' \<and> (\<forall>x. Inl e = Inr x \<longrightarrow> R h' x)
      | Inr x \<Rightarrow> wp (k x) (\<lambda>r h'. grows P h h' \<and> (\<forall>x. r = Inr x \<longrightarrow> R h' x)) h') h"
  proof (rule wp_mono [OF obeys_wp [OF assms(1) S]])
    fix r h'
    assume a: "grows P h h' \<and> (\<forall>x. r = Inr x \<longrightarrow> Q h' x)"
    then have S': "S \<subseteq> set h'" using grows_prefix [of P h h'] S by auto
    have "wp (k x) (\<lambda>r h'. grows P h h' \<and> (\<forall>x. r = Inr x \<longrightarrow> R h' x)) h'" if "r = Inr x" for x
      by (rule wp_mono [OF obeys_wp [OF assms(2) [OF S']]]) (use a that in \<open>auto intro: grows_trans\<close>)
    with a show "case r of Inl e \<Rightarrow> grows P h h' \<and> (\<forall>x. Inl e = Inr x \<longrightarrow> R h' x)
      | Inr x \<Rightarrow> wp (k x) (\<lambda>r h'. grows P h h' \<and> (\<forall>x. r = Inr x \<longrightarrow> R h' x)) h'" by (simp split: sum.split)
  qed
qed

lemma obeys_attempt [obeys_rules]:
  "obeys S P Q m \<Longrightarrow> obeys S P (\<lambda>h r. \<forall>x. r = Inr x \<longrightarrow> Q h x) (attempt m)"
  unfolding obeys_def wp_attempt by (auto elim!: wp_mono)

lemma obeys_wrapErr [obeys_rules]: "obeys S P Q m \<Longrightarrow> obeys S P Q (wrapErr s m)"
  unfolding obeys_def wp_wrapErr by (auto elim!: wp_mono split: sum.splits)

lemma obeys_ignoring [obeys_rules]: "obeys S P Q m \<Longrightarrow> obeys S P (\<lambda>_ _. True) (ignoring m)"
  unfolding obeys_def wp_ignoring by (auto elim!: wp_mono)

lemma obeys_if [obeys_rules]: "(b \<Longrightarrow> obeys S P Q m) \<Longrightarrow> (\<not> b \<Longrightarrow> obeys S P Q n) \<Longrightarrow> obeys S P Q (if b then m else n)"
  by simp

lemma obeys_option [obeys_rules]:
  "(y = None \<Longrightarrow> obeys S P Q m) \<Longrightarrow> (\<And>x. y = Some x \<Longrightarrow> obeys S P Q (k x)) \<Longrightarrow>
   obeys S P Q (case y of None \<Rightarrow> m | Some x \<Rightarrow> k x)"
  by (simp split: option.split)

lemma obeys_sum [obeys_rules]:
  "(\<And>e. y = Inl e \<Longrightarrow> obeys S P Q (m e)) \<Longrightarrow> (\<And>x. y = Inr x \<Longrightarrow> obeys S P Q (k x)) \<Longrightarrow>
   obeys S P Q (case y of Inl e \<Rightarrow> m e | Inr x \<Rightarrow> k x)"
  by (simp split: sum.split)

lemma obeys_pair [obeys_rules]:
  "(\<And>a b. y = (a, b) \<Longrightarrow> obeys S P Q (k a b)) \<Longrightarrow> obeys S P Q (case y of (a, b) \<Rightarrow> k a b)"
  by (simp split: prod.split)

lemma obeys_bool [obeys_rules]:
  "(y \<Longrightarrow> obeys S P Q m) \<Longrightarrow> (\<not> y \<Longrightarrow> obeys S P Q n) \<Longrightarrow> obeys S P Q (case y of True \<Rightarrow> m | False \<Rightarrow> n)"
  by (simp split: bool.split)

lemma obeys_whenFound [obeys_rules]:
  assumes "obeys S P Q m" and "obeys S P R absent" and "\<And>e. obeys S P R (failed e)"
    and "\<And>h x. S \<subseteq> set h \<Longrightarrow> Q h x \<Longrightarrow> obeys (set h) P R (found x)"
  shows "obeys S P R (whenFound m absent failed found)"
  unfolding whenFound_def
  by (rule obeys_andThen [OF obeys_attempt [OF assms(1)]])
    (auto intro: obeys_sub [OF assms(2)] obeys_sub [OF assms(3)] assms(4) split: sum.split)

lemma obeys_ignoreNotFound [obeys_rules]: "obeys S P Q m \<Longrightarrow> obeys S P (\<lambda>_ _. True) (ignoreNotFound m)"
  unfolding ignoreNotFound_def by (intro obeys_rules) simp_all

section \<open>Rules for calls\<close>

lemma obeys_answer:
  assumes "\<And>h. S \<subseteq> set h \<Longrightarrow> P h (ev (f h))"
  shows "obeys S P (\<lambda>h x. ev (Inr x) \<in> set h) (answer ev f)"
  unfolding answer_def obeys_def wp_def by (auto intro: grows_one assms)

lemma obeys_attempt_answer:
  assumes "\<And>h. S \<subseteq> set h \<Longrightarrow> P h (ev (f h))"
  shows "obeys S P (\<lambda>h r. ev r \<in> set h) (attempt (answer ev f))"
  unfolding attempt_def answer_def obeys_def wp_def by (auto intro: grows_one assms split: sum.split)

text \<open>A read whose absence is evidence as well.\<close>

lemma obeys_whenFound_answer:
  assumes "\<And>h. S \<subseteq> set h \<Longrightarrow> P h (ev (f h))"
    and "\<And>h e. S \<subseteq> set h \<Longrightarrow> ev (Inl e) \<in> set h \<Longrightarrow> errors_Is e ErrNotFound \<Longrightarrow> obeys (set h) P R absent"
    and "\<And>h e. S \<subseteq> set h \<Longrightarrow> obeys (set h) P R (failed e)"
    and "\<And>h x. S \<subseteq> set h \<Longrightarrow> ev (Inr x) \<in> set h \<Longrightarrow> obeys (set h) P R (found x)"
  shows "obeys S P R (whenFound (answer ev f) absent failed found)"
  unfolding whenFound_def
  by (rule obeys_andThen, rule obeys_attempt_answer, erule assms(1)) (auto intro: assms(2-4) split: sum.split)

lemma obeys_acknowledge:
  assumes "\<And>h. S \<subseteq> set h \<Longrightarrow> P h (ev (f h))"
  shows "obeys S P (\<lambda>h _. ev None \<in> set h) (acknowledge ev f)"
proof (rule obeysI)
  fix h
  assume "S \<subseteq> set h"
  then have "grows P h (h @ [ev (f h)])" using assms grows_one [of P h "ev (f h)"] by blast
  then show "wp (acknowledge ev f) (\<lambda>r h'. grows P h h' \<and> (\<forall>x. r = Inr x \<longrightarrow> ev None \<in> set h')) h"
    by (auto simp: acknowledge_def wp_def split: option.split)
qed

end
