(* ===== verification/Migration_Types.thy ===== *)
theory Migration_Types
  imports Kube
begin

text \<open>
  The API objects of the migration controller and the API server it talks to:
  \<open>api/migration/v1alpha1/swiftmigration_types.go\<close>, the fields of \<open>SwiftGuest\<close>, \<open>SwiftGuestClass\<close>, pods,
  nodes, claims and volume attachments that \<open>internal/controller/swiftmigration\<close> reads or writes.

  Every call is an event of the history of a pass and is answered by the environment \<open>kenv\<close> from
  the whole history so far. The environment of a working API server is in \<open>Migration_Server\<close>.

  \<open>kFormat\<close> and \<open>kParse\<close> print and parse times in RFC 3339, \<open>kQuantity\<close> and \<open>kShowPodRef\<close> print a
  resource quantity and a pod reference in messages, \<open>kStunnelImage\<close> is the configured image
  of the TLS sidecar, and \<open>kMTLS\<close> is the flag \<open>MigrationMTLSEnabled\<close> of the controller.
  Resource quantities are integers in thousandths of the unit.

  Objects live in the namespace of the migration, the only one the controller reads
  namespaced objects of its own from. The clock is read once per pass. Kubernetes events,
  metrics and log lines are not modelled.
\<close>

section \<open>Objects\<close>

record SwiftMigrationStatus =
  sPhase :: string
  sConditions :: "Condition list"
  sMode :: string
  sSourceNode :: string
  sDestinationNode :: string
  sSourcePodRef :: "string option"
  sDestinationPodRef :: "string option"
  sPhaseDetail :: string
  sStartedAt :: "int option"
  sPreparingStartedAt :: "int option"
  sCutoverStep1At :: "int option"
  sCutoverStep2DispatchedAt :: "int option"
  sTerminalAt :: "int option"
  sResumingStartedAt :: "int option"
  sCompletedAt :: "int option"
  sObservedDowntime :: "int option"
  sFailureMessage :: string
  sFailureReason :: string
  sSourcePodUID :: string
  sRecvAttempts :: int
  sSendAttempts :: int
  sObservedTransferDuration :: "int option"
  sAppliedDowntimeMs :: "int option"
  sTransferProgress :: "int option"
  sTargetIP :: string

record SwiftMigration =
  mName :: string
  mNamespace :: string
  mUID :: string
  mResourceVersion :: nat
  mDeleting :: bool
  mFinalizers :: "string list"
  mGuestRef :: string
  mTargetNode :: string
  mMode :: string
  mDowntimeTarget :: "int option"
  mParallelConnections :: int
  mTimeout :: "int option"
  mTimeoutStrategy :: string
  mTTL :: "int option"
  mAllowIPChange :: bool
  mCancelRequested :: bool
  mStatus :: SwiftMigrationStatus

text \<open>The status of a migration the controller has not seen yet.\<close>

definition no_status :: SwiftMigrationStatus where
  "no_status = \<lparr>sPhase = '''', sConditions = [], sMode = '''', sSourceNode = '''', sDestinationNode = '''',
     sSourcePodRef = None, sDestinationPodRef = None, sPhaseDetail = '''', sStartedAt = None, sPreparingStartedAt = None,
     sCutoverStep1At = None, sCutoverStep2DispatchedAt = None, sTerminalAt = None, sResumingStartedAt = None,
     sCompletedAt = None, sObservedDowntime = None, sFailureMessage = '''', sFailureReason = '''', sSourcePodUID = '''',
     sRecvAttempts = 0, sSendAttempts = 0, sObservedTransferDuration = None, sAppliedDowntimeMs = None,
     sTransferProgress = None, sTargetIP = ''''\<rparr>"

record OwnerReference =
  orKind :: string
  orName :: string
  orUID :: string
  orController :: "bool option"

record Container =
  coName :: string
  coImage :: string
  coEnv :: "(string \<times> string) list"
  coCPU :: "int option"
  coMemory :: "int option"

record ContainerStatus =
  csName :: string
  csImage :: string
  csReady :: bool
  csRestartCount :: int
  csTerminated :: "(int \<times> string) option"

record Volume =
  voName :: string
  voClaim :: "string option"
  voConfigMap :: "string option"
  voSecret :: "string option"

record Pod =
  pName :: string
  pUID :: string
  pGeneration :: int
  pDeleting :: bool
  pLabels :: strmap
  pAnnotations :: strmap
  pOwners :: "OwnerReference list"
  pNodeName :: string
  pNodeSelector :: strmap
  pInitContainers :: "Container list"
  pContainers :: "Container list"
  pVolumes :: "Volume list"
  pPhase :: string
  pPodIP :: string
  pReady :: bool
  pInitContainerStatuses :: "ContainerStatus list"
  pContainerStatuses :: "ContainerStatus list"

record Interface =
  ifType :: string
  ifNetworkRef :: bool
  ifPrimary :: bool

text \<open>
  A volume of a guest besides the root disk: the guest's own claim of an image-backed or
  blank data disk, or a named claim, which is attached as a disk or mounted as a directory.
\<close>

datatype DataDisk = OwnDisk string | ClaimDisk string string bool | NoDisk

record PodReference =
  prName :: string
  prUID :: string

record GuestGPU =
  ggDevices :: "string list"
  ggPartitionID :: int
  ggNUMANodes :: "int list"
  ggHypervisor :: string
  ggNodeName :: string

record SwiftGuest =
  gName :: string
  gUID :: string
  gAnnotations :: strmap
  gRunPolicy :: string
  gNodeName :: string
  gGuestClassRef :: string
  gKernelRef :: bool
  gMigrationEnabled :: "bool option"
  gGPUProfileRef :: "string option"
  gGPUResourceClaim :: bool
  gInterfaces :: "Interface list"
  gFilesystems :: "(string \<times> string option) list"
  gVhostUserDevices :: nat
  gDataDiskRef :: bool
  gDataDiskRefs :: "DataDisk list"
  gStorage :: "(string \<times> string) option"
  gStatusNodeName :: string
  gPodRef :: "PodReference option"
  gConditions :: "(string \<times> string) list"
  gPrimaryIP :: "string option"
  gGPU :: "GuestGPU option"

record SwiftGuestClass =
  gcCPU :: int
  gcMemory :: int
  gcStorage :: "(string \<times> string) option"
  gcSharedBaseDisk :: bool

record Node =
  noName :: string
  noUnschedulable :: bool
  noConditions :: "(string \<times> string) list"
  noAllocatableCPU :: "int option"
  noAllocatableMemory :: "int option"

record PVC =
  pvVolumeName :: string
  pvStatusAccessModes :: "string list"
  pvSpecAccessModes :: "string list"
  pvVolumeMode :: "string option"

record VolumeAttachment =
  vaName :: string
  vaNodeName :: string
  vaPersistentVolume :: "string option"

record Secret =
  seComponent :: string
  seManagedBy :: string

section \<open>Calls\<close>

text \<open>
  The calls of a pass with their answers. A patch carries the object the controller had read
  and the object it wants, and is answered with the object as stored, or an error. \<open>Called\<close> is
  a call into another part of the code that changes objects this model does not have; the last
  four are such calls that answer with a value: the name of the frozen intent of a
  destination (\<open>ensureFrozenDstIntent\<close>), the network annotations of a destination
  (\<open>OVNMigrationDstAnnotations\<close>), why a pod is not ready (\<open>podNotReadyCause\<close>, which has no error) and the
  devices, NUMA nodes and partition of a GPU reservation (\<open>swiftgpu.ReserveOnNode\<close>).
\<close>

datatype kevent =
    GetMig string "SwiftMigration res"
  | ListMigs "SwiftMigration list res"
  | GetGuest string "SwiftGuest res"
  | GetPod string "Pod res"
  | GetNode string "Node res"
  | GetClass string "SwiftGuestClass res"
  | GetPVC string "PVC res"
  | GetSecret string "Secret res"
  | GetNamespace string "strmap res"
  | ListPods "(Pod list) res"
  | ListAttachments "(VolumeAttachment list) res"
  | PatchMig SwiftMigration "string list" "SwiftMigration res"
  | PatchMigStatus SwiftMigration SwiftMigrationStatus bool "SwiftMigration res"
  | PatchGuest SwiftGuest SwiftGuest "SwiftGuest res"
  | PatchGuestStatus SwiftGuest SwiftGuest "SwiftGuest res"
  | PatchPod Pod Pod "Pod res"
  | CreatePod Pod "goerr option"
  | DeletePod string "int option" "goerr option"
  | DeleteMig string "goerr option"
  | DeleteSecret string "goerr option"
  | Called string "string list" "goerr option"
  | FreezeIntent string "string res"
  | OVNAnnotations string "((string \<times> string) list) res"
  | NotReadyCause string "string res"
  | ReserveOnNode string string "(string list \<times> int list \<times> int) res"

record kenv =
  kGetMig :: "kevent list \<Rightarrow> string \<Rightarrow> SwiftMigration res"
  kListMigs :: "kevent list \<Rightarrow> SwiftMigration list res"
  kGetGuest :: "kevent list \<Rightarrow> string \<Rightarrow> SwiftGuest res"
  kGetPod :: "kevent list \<Rightarrow> string \<Rightarrow> Pod res"
  kGetNode :: "kevent list \<Rightarrow> string \<Rightarrow> Node res"
  kGetClass :: "kevent list \<Rightarrow> string \<Rightarrow> SwiftGuestClass res"
  kGetPVC :: "kevent list \<Rightarrow> string \<Rightarrow> PVC res"
  kGetSecret :: "kevent list \<Rightarrow> string \<Rightarrow> Secret res"
  kGetNamespace :: "kevent list \<Rightarrow> string \<Rightarrow> strmap res"
  kListPods :: "kevent list \<Rightarrow> Pod list res"
  kListAttachments :: "kevent list \<Rightarrow> VolumeAttachment list res"
  kPatchMig :: "kevent list \<Rightarrow> SwiftMigration \<Rightarrow> string list \<Rightarrow> SwiftMigration res"
  kPatchMigStatus :: "kevent list \<Rightarrow> SwiftMigration \<Rightarrow> SwiftMigrationStatus \<Rightarrow> bool \<Rightarrow> SwiftMigration res"
  kPatchGuest :: "kevent list \<Rightarrow> SwiftGuest \<Rightarrow> SwiftGuest \<Rightarrow> SwiftGuest res"
  kPatchGuestStatus :: "kevent list \<Rightarrow> SwiftGuest \<Rightarrow> SwiftGuest \<Rightarrow> SwiftGuest res"
  kPatchPod :: "kevent list \<Rightarrow> Pod \<Rightarrow> Pod \<Rightarrow> Pod res"
  kWrite :: "kevent list \<Rightarrow> goerr option"
  kCall :: "kevent list \<Rightarrow> string \<Rightarrow> string list \<Rightarrow> goerr option"
  kFreezeIntent :: "kevent list \<Rightarrow> string \<Rightarrow> string res"
  kOVNAnnotations :: "kevent list \<Rightarrow> string \<Rightarrow> (string \<times> string) list res"
  kNotReadyCause :: "kevent list \<Rightarrow> string \<Rightarrow> string"
  kReserveOnNode :: "kevent list \<Rightarrow> string \<Rightarrow> string \<Rightarrow> (string list \<times> int list \<times> int) res"
  kFormat :: "int \<Rightarrow> string"
  kParse :: "string \<Rightarrow> int res"
  kQuantity :: "int \<Rightarrow> string"
  kShowPodRef :: "PodReference option \<Rightarrow> string"
  kStunnelImage :: string
  kMTLS :: bool

type_synonym 'a kprog = "(kevent list, 'a) program"

definition getMig :: "kenv \<Rightarrow> string \<Rightarrow> SwiftMigration kprog" where
  "getMig E n = answer (GetMig n) (\<lambda>h. kGetMig E h n)"

definition listMigs :: "kenv \<Rightarrow> SwiftMigration list kprog" where
  "listMigs E = answer ListMigs (kListMigs E)"

definition getGuest :: "kenv \<Rightarrow> string \<Rightarrow> SwiftGuest kprog" where
  "getGuest E n = answer (GetGuest n) (\<lambda>h. kGetGuest E h n)"

definition getPod :: "kenv \<Rightarrow> string \<Rightarrow> Pod kprog" where
  "getPod E n = answer (GetPod n) (\<lambda>h. kGetPod E h n)"

definition getNode :: "kenv \<Rightarrow> string \<Rightarrow> Node kprog" where
  "getNode E n = answer (GetNode n) (\<lambda>h. kGetNode E h n)"

definition getClass :: "kenv \<Rightarrow> string \<Rightarrow> SwiftGuestClass kprog" where
  "getClass E n = answer (GetClass n) (\<lambda>h. kGetClass E h n)"

definition getPVC :: "kenv \<Rightarrow> string \<Rightarrow> PVC kprog" where
  "getPVC E n = answer (GetPVC n) (\<lambda>h. kGetPVC E h n)"

definition getSecret :: "kenv \<Rightarrow> string \<Rightarrow> Secret kprog" where
  "getSecret E n = answer (GetSecret n) (\<lambda>h. kGetSecret E h n)"

definition getNamespace :: "kenv \<Rightarrow> string \<Rightarrow> strmap kprog" where
  "getNamespace E n = answer (GetNamespace n) (\<lambda>h. kGetNamespace E h n)"

definition listPods :: "kenv \<Rightarrow> Pod list kprog" where
  "listPods E = answer ListPods (kListPods E)"

definition listAttachments :: "kenv \<Rightarrow> VolumeAttachment list kprog" where
  "listAttachments E = answer ListAttachments (kListAttachments E)"

definition patchMig :: "kenv \<Rightarrow> SwiftMigration \<Rightarrow> string list \<Rightarrow> SwiftMigration kprog" where
  "patchMig E m fs = answer (PatchMig m fs) (\<lambda>h. kPatchMig E h m fs)"

definition patchMigStatus :: "kenv \<Rightarrow> SwiftMigration \<Rightarrow> SwiftMigrationStatus \<Rightarrow> bool \<Rightarrow> SwiftMigration kprog" where
  "patchMigStatus E m st locked = answer (PatchMigStatus m st locked) (\<lambda>h. kPatchMigStatus E h m st locked)"

definition patchGuest :: "kenv \<Rightarrow> SwiftGuest \<Rightarrow> SwiftGuest \<Rightarrow> SwiftGuest kprog" where
  "patchGuest E g g' = answer (PatchGuest g g') (\<lambda>h. kPatchGuest E h g g')"

definition patchGuestStatus :: "kenv \<Rightarrow> SwiftGuest \<Rightarrow> SwiftGuest \<Rightarrow> SwiftGuest kprog" where
  "patchGuestStatus E g g' = answer (PatchGuestStatus g g') (\<lambda>h. kPatchGuestStatus E h g g')"

definition patchPod :: "kenv \<Rightarrow> Pod \<Rightarrow> Pod \<Rightarrow> Pod kprog" where
  "patchPod E p p' = answer (PatchPod p p') (\<lambda>h. kPatchPod E h p p')"

definition createPod :: "kenv \<Rightarrow> Pod \<Rightarrow> unit kprog" where
  "createPod E p = acknowledge (CreatePod p) (kWrite E)"

definition deletePod :: "kenv \<Rightarrow> string \<Rightarrow> int option \<Rightarrow> unit kprog" where
  "deletePod E n grace = acknowledge (DeletePod n grace) (kWrite E)"

definition deleteMig :: "kenv \<Rightarrow> string \<Rightarrow> unit kprog" where
  "deleteMig E n = acknowledge (DeleteMig n) (kWrite E)"

definition deleteSecret :: "kenv \<Rightarrow> string \<Rightarrow> unit kprog" where
  "deleteSecret E n = acknowledge (DeleteSecret n) (kWrite E)"

definition called :: "kenv \<Rightarrow> string \<Rightarrow> string list \<Rightarrow> unit kprog" where
  "called E f args = acknowledge (Called f args) (\<lambda>h. kCall E h f args)"

definition freezeIntent :: "kenv \<Rightarrow> string \<Rightarrow> string kprog" where
  "freezeIntent E n = answer (FreezeIntent n) (\<lambda>h. kFreezeIntent E h n)"

definition ovnAnnotations :: "kenv \<Rightarrow> string \<Rightarrow> (string \<times> string) list kprog" where
  "ovnAnnotations E n = answer (OVNAnnotations n) (\<lambda>h. kOVNAnnotations E h n)"

definition notReadyCause :: "kenv \<Rightarrow> string \<Rightarrow> string kprog" where
  "notReadyCause E n = answer (NotReadyCause n) (\<lambda>h. Inr (kNotReadyCause E h n))"

definition reserveOnNode :: "kenv \<Rightarrow> string \<Rightarrow> string \<Rightarrow> (string list \<times> int list \<times> int) kprog" where
  "reserveOnNode E g n = answer (ReserveOnNode g n) (\<lambda>h. kReserveOnNode E h g n)"

text \<open>A pod or nothing, when a missing pod is not an error.\<close>

definition findPod :: "kenv \<Rightarrow> string \<Rightarrow> Pod option kprog" where
  "findPod E n = whenFound (getPod E n) (ret None) raise (\<lambda>p. ret (Some p))"

end
