(* ===== verification/Migration_Status.thy ===== *)
theory Migration_Status
  imports Migration_Types
begin

text \<open>
  The decisions of the migration controller that read objects and write none:
  \<open>stopandcopy_substate.go\<close>, \<open>commitpoint.go\<close>, \<open>source_pod_uid.go\<close>, \<open>live_dispatch.go\<close>,
  \<open>stopandcopy_failure.go\<close>, the helpers of \<open>controller.go\<close>, \<open>cutover.go\<close>, \<open>cancel_source.go\<close>,
  \<open>abort_live.go\<close>, \<open>source_mtls.go\<close>, \<open>dst_pod.go\<close>, \<open>stopandcopy_live.go\<close> and \<open>validating_live.go\<close>.

  The theorems relate the derived sub-state to the commit point, show that the action ids and
  the destination's name identify a migration, and that the classification of a finished
  send cannot turn a committed migration into a failed one.
\<close>

section \<open>Vocabulary\<close>

abbreviation PhasePending :: string where "PhasePending \<equiv> ''Pending''"
abbreviation PhaseValidating :: string where "PhaseValidating \<equiv> ''Validating''"
abbreviation PhasePreparing :: string where "PhasePreparing \<equiv> ''Preparing''"
abbreviation PhaseStopAndCopy :: string where "PhaseStopAndCopy \<equiv> ''StopAndCopy''"
abbreviation PhaseResuming :: string where "PhaseResuming \<equiv> ''Resuming''"
abbreviation PhaseCompleted :: string where "PhaseCompleted \<equiv> ''Completed''"
abbreviation PhaseFailed :: string where "PhaseFailed \<equiv> ''Failed''"
abbreviation PhaseCancelled :: string where "PhaseCancelled \<equiv> ''Cancelled''"

definition AnnotationMigrationAction :: string where
  "AnnotationMigrationAction = ''kubeswift.io/migration-action''"

definition AnnotationMigrationActionID :: string where
  "AnnotationMigrationActionID = ''kubeswift.io/migration-action-id''"

definition AnnotationMigrationActionArgs :: string where
  "AnnotationMigrationActionArgs = ''kubeswift.io/migration-action-args''"

definition AnnotationMigrationStatus :: string where
  "AnnotationMigrationStatus = ''kubeswift.io/migration-status''"

definition AnnotationMigrationStatusID :: string where
  "AnnotationMigrationStatusID = ''kubeswift.io/migration-status-id''"

definition AnnotationMigrationStatusDtl :: string where
  "AnnotationMigrationStatusDtl = ''kubeswift.io/migration-status-detail''"

definition AnnotationMigrationPauseWindowMs :: string where
  "AnnotationMigrationPauseWindowMs = ''kubeswift.io/migration-pause-window-ms''"

definition AnnotationMigrationProgressEstimate :: string where
  "AnnotationMigrationProgressEstimate = ''kubeswift.io/migration-progress-estimate''"

definition AnnotationMigrationProgressEstimateID :: string where
  "AnnotationMigrationProgressEstimateID = ''kubeswift.io/migration-progress-estimate-id''"

definition AnnotationMigrationCancelIssuedAt :: string where
  "AnnotationMigrationCancelIssuedAt = ''kubeswift.io/migration-cancel-issued-at''"

definition AnnotationMigrationCancelResult :: string where
  "AnnotationMigrationCancelResult = ''kubeswift.io/migration-cancel-result''"

definition AnnotationMigrationCancelResultID :: string where
  "AnnotationMigrationCancelResultID = ''kubeswift.io/migration-cancel-result-id''"

definition AnnotationMigrationCancelResultDetail :: string where
  "AnnotationMigrationCancelResultDetail = ''kubeswift.io/migration-cancel-result-detail''"

definition AnnotationLauncherFeatures :: string where
  "AnnotationLauncherFeatures = ''kubeswift.io/launcher-features''"

definition AnnotationGuestIP :: string where
  "AnnotationGuestIP = ''kubeswift.io/guest-ip''"

definition AnnotationMigrationInProgress :: string where
  "AnnotationMigrationInProgress = ''kubeswift.io/migration-in-progress''"

lemmas annotation_keys =
  AnnotationMigrationAction_def AnnotationMigrationActionID_def AnnotationMigrationActionArgs_def
  AnnotationMigrationStatus_def AnnotationMigrationStatusID_def AnnotationMigrationStatusDtl_def
  AnnotationMigrationPauseWindowMs_def AnnotationMigrationProgressEstimate_def
  AnnotationMigrationProgressEstimateID_def AnnotationMigrationCancelIssuedAt_def
  AnnotationMigrationCancelResult_def AnnotationMigrationCancelResultID_def
  AnnotationMigrationCancelResultDetail_def AnnotationLauncherFeatures_def AnnotationGuestIP_def
  AnnotationMigrationInProgress_def

section \<open>Durations\<close>

text \<open>\<open>Duration.String\<close>: hours, minutes and seconds without trailing zeros of the fraction.\<close>

definition fraction :: "int \<Rightarrow> nat \<Rightarrow> string" where
  "fraction u prec =
     (let r = nat (u mod 10 ^ prec);
          ds = rev (dropWhile (\<lambda>c. c = CHR ''0'') (rev (replicate (prec - length (dec r)) (CHR ''0'') @ dec r)))
      in if r = 0 then '''' else ''.'' @ ds)"

definition duration_abs :: "int \<Rightarrow> string" where
  "duration_abs u =
     (if u = 0 then ''0s''
      else if u < 1000 then dec (nat u) @ ''ns''
      else if u < 1000000 then dec (nat (u div 1000)) @ fraction u 3 @ [char_of (194 :: nat), char_of (181 :: nat), CHR ''s'']
      else if u < second then dec (nat (u div 1000000)) @ fraction u 6 @ ''ms''
      else let s = u div second
           in (if 3600 \<le> s then dec (nat (s div 3600)) @ ''h'' else '''') @
              (if 60 \<le> s then dec (nat (s div 60 mod 60)) @ ''m'' else '''') @
              dec (nat (s mod 60)) @ fraction u 9 @ ''s'')"

definition duration :: "int \<Rightarrow> string" where
  "duration d = (if d < 0 then ''-'' @ duration_abs (- d) else duration_abs d)"

section \<open>Phase results and the status\<close>

record phaseResult =
  prAdvanced :: bool
  prRequeue :: int
  prErr :: "goerr option"
  prFailureMsg :: string
  prFailureReason :: string
  prReported :: bool

definition phaseAdvance :: phaseResult where
  "phaseAdvance = \<lparr>prAdvanced = True, prRequeue = 0, prErr = None, prFailureMsg = '''', prFailureReason = '''', prReported = False\<rparr>"

definition phaseRequeue :: "int \<Rightarrow> phaseResult" where
  "phaseRequeue d = \<lparr>prAdvanced = False, prRequeue = d, prErr = None, prFailureMsg = '''', prFailureReason = '''', prReported = False\<rparr>"

definition phaseFailure :: "string \<Rightarrow> string \<Rightarrow> phaseResult" where
  "phaseFailure msg reason = \<lparr>prAdvanced = False, prRequeue = 0, prErr = None, prFailureMsg = msg, prFailureReason = reason, prReported = False\<rparr>"

definition phaseTransient :: "goerr \<Rightarrow> phaseResult" where
  "phaseTransient e = \<lparr>prAdvanced = False, prRequeue = 0, prErr = Some e, prFailureMsg = '''', prFailureReason = '''', prReported = False\<rparr>"

definition isTerminalPhase :: "string \<Rightarrow> bool" where
  "isTerminalPhase p \<longleftrightarrow> p = PhaseCompleted \<or> p = PhaseFailed \<or> p = PhaseCancelled"

definition FinalizerName :: string where
  "FinalizerName = ''migration.kubeswift.io/cleanup''"

definition hasFinalizer :: "SwiftMigration \<Rightarrow> bool" where
  "hasFinalizer mig = list_ex (\<lambda>f. f = FinalizerName) (mFinalizers mig)"

definition setPhase :: "string \<Rightarrow> SwiftMigrationStatus \<Rightarrow> SwiftMigrationStatus" where
  "setPhase p st = st\<lparr>sPhase := p\<rparr>"

definition setPhaseDetail :: "string \<Rightarrow> SwiftMigrationStatus \<Rightarrow> SwiftMigrationStatus" where
  "setPhaseDetail d st = (if sPhaseDetail st = d then st else st\<lparr>sPhaseDetail := d\<rparr>)"

fun set_condition :: "int \<Rightarrow> string \<Rightarrow> string \<Rightarrow> string \<Rightarrow> string \<Rightarrow> Condition list \<Rightarrow> Condition list" where
  "set_condition now ty s reason msg [] =
     [\<lparr>cnType = ty, cnStatus = s, cnReason = reason, cnMessage = msg, cnTransition = now\<rparr>]"
| "set_condition now ty s reason msg (c # cs) =
     (if cnType c \<noteq> ty then c # set_condition now ty s reason msg cs
      else c\<lparr>cnTransition := (if cnStatus c \<noteq> s then now else cnTransition c), cnStatus := s, cnReason := reason,
             cnMessage := msg\<rparr> # cs)"

definition setCondition :: "int \<Rightarrow> string \<Rightarrow> string \<Rightarrow> string \<Rightarrow> string \<Rightarrow> SwiftMigrationStatus \<Rightarrow> SwiftMigrationStatus" where
  "setCondition now ty s reason msg st = st\<lparr>sConditions := set_condition now ty s reason msg (sConditions st)\<rparr>"

definition setReadyCondition :: "int \<Rightarrow> string \<Rightarrow> string \<Rightarrow> string \<Rightarrow> SwiftMigrationStatus \<Rightarrow> SwiftMigrationStatus" where
  "setReadyCondition now s reason msg st = setCondition now ''Ready'' s reason msg st"

text \<open>\<open>apimeta.FindStatusCondition\<close> and \<open>RemoveStatusCondition\<close>.\<close>

definition findCondition :: "Condition list \<Rightarrow> string \<Rightarrow> Condition option" where
  "findCondition cs ty = find (\<lambda>c. cnType c = ty) cs"

definition removeCondition :: "string \<Rightarrow> SwiftMigrationStatus \<Rightarrow> SwiftMigrationStatus" where
  "removeCondition ty st = st\<lparr>sConditions := filter (\<lambda>c. cnType c \<noteq> ty) (sConditions st)\<rparr>"

definition isLiveMode :: "SwiftMigration \<Rightarrow> SwiftMigrationStatus \<Rightarrow> bool" where
  "isLiveMode mig st \<longleftrightarrow> sMode st = ''live'' \<or> sMode st = '''' \<and> mMode mig = ''live''"

definition isPostCutover :: "SwiftMigration \<Rightarrow> bool" where
  "isPostCutover mig = list_ex (\<lambda>c. cnType c = ''PodRefSwapped'' \<and> cnStatus c = ''True'') (sConditions (mStatus mig))"

definition PhaseDetailLiveIssuingRecv :: string where
  "PhaseDetailLiveIssuingRecv = ''issuing receive on destination''"

definition PhaseDetailLiveDestReceiving :: string where
  "PhaseDetailLiveDestReceiving = ''destination receiving''"

definition PhaseDetailLiveIssuingSend :: string where
  "PhaseDetailLiveIssuingSend = ''issuing send on source''"

definition PhaseDetailLiveTransferring :: string where
  "PhaseDetailLiveTransferring = ''transferring guest state''"

definition PhaseDetailLiveSourceBusy :: string where
  "PhaseDetailLiveSourceBusy = ''waiting for the source launcher to finish a previous send''"

definition PhaseDetailLiveSrcCompleted :: string where
  "PhaseDetailLiveSrcCompleted = ''src migration complete; preparing cutover''"

definition isPreCutoverPhaseDetail :: "string \<Rightarrow> bool" where
  "isPreCutoverPhaseDetail d \<longleftrightarrow>
     d = PhaseDetailLiveIssuingRecv \<or> d = PhaseDetailLiveDestReceiving \<or> d = PhaseDetailLiveIssuingSend \<or>
     d = PhaseDetailLiveTransferring \<or> d = PhaseDetailLiveSourceBusy \<or> d = PhaseDetailLiveSrcCompleted"

definition shouldCheckSourcePodUID :: "SwiftMigration \<Rightarrow> bool" where
  "shouldCheckSourcePodUID mig =
     (let p = sPhase (mStatus mig)
      in if p = PhasePending \<or> p = PhaseValidating \<or> p = PhasePreparing then True
         else if p = PhaseStopAndCopy then \<not> isPostCutover mig \<and> isPreCutoverPhaseDetail (sPhaseDetail (mStatus mig))
         else False)"

definition timeoutExceeded :: "int \<Rightarrow> SwiftMigration \<Rightarrow> SwiftMigrationStatus \<Rightarrow> bool" where
  "timeoutExceeded now mig st =
     (if mTimeoutStrategy mig = ''ignore'' then False
      else case (mTimeout mig, sStartedAt st) of
             (Some d, Some started) \<Rightarrow> 0 < d \<and> now - started > d
           | _ \<Rightarrow> False)"

definition timeoutFailure :: "SwiftMigration \<Rightarrow> phaseResult" where
  "timeoutFailure mig =
     phaseFailure (''spec.timeout='' @ duration (case mTimeout mig of None \<Rightarrow> 0 | Some d \<Rightarrow> d) @
                   '' exceeded since StartedAt; migration did not complete in time'') ''Timeout''"

section \<open>Names and action ids\<close>

definition recvActionID :: "SwiftMigration \<Rightarrow> string" where
  "recvActionID mig =
     mName mig @ '':recv:'' @ dec_int (if sRecvAttempts (mStatus mig) > 1 then sRecvAttempts (mStatus mig) else 1)"

definition sendAttemptNumber :: "SwiftMigration \<Rightarrow> int" where
  "sendAttemptNumber mig = (if sSendAttempts (mStatus mig) > 1 then sSendAttempts (mStatus mig) else 1)"

definition sendActionID :: "SwiftMigration \<Rightarrow> string" where
  "sendActionID mig = mName mig @ '':send:'' @ dec_int (sendAttemptNumber mig)"

definition cancelID :: "SwiftMigration \<Rightarrow> string" where
  "cancelID mig = mName mig @ '':cancel:0''"

definition cancelSendID :: "SwiftMigration \<Rightarrow> string" where
  "cancelSendID mig = mName mig @ '':cancel-send:0''"

definition shortUIDLength :: nat where
  "shortUIDLength = 6"

definition dstPodNameMaxLength :: nat where
  "dstPodNameMaxLength = 64"

definition dstPodName :: "SwiftMigration \<Rightarrow> string \<Rightarrow> string res" where
  "dstPodName mig guestName =
     (if mUID mig = ''''
      then Inl (Errorf (''SwiftMigration '' @ Quote (mName mig) @ '' has empty UID; dst pod name cannot be derived''))
      else if length (mUID mig) < shortUIDLength
      then Inl (Errorf (''SwiftMigration '' @ Quote (mName mig) @ '' UID '' @ Quote (mUID mig) @ '' shorter than '' @
                        dec shortUIDLength @ '' chars; cannot derive short-uid''))
      else let name = guestName @ ''-mig-'' @ take shortUIDLength (mUID mig)
           in if length name > dstPodNameMaxLength
              then Inl (Errorf (''dst pod name '' @ Quote name @ '' exceeds DNS-1123 limit ('' @ dec (length name) @
                     '' chars > '' @ dec dstPodNameMaxLength @
                     ''); guest.Name should have been capped at admission for mode=live''))
              else Inr name)"

definition canonicalPodNameForGuest :: "SwiftGuest \<Rightarrow> string" where
  "canonicalPodNameForGuest g =
     (case gPodRef g of None \<Rightarrow> gName g | Some r \<Rightarrow> if prName r \<noteq> '''' then prName r else gName g)"

definition srcPodLookupName :: "SwiftMigration \<Rightarrow> SwiftGuest \<Rightarrow> string" where
  "srcPodLookupName mig g =
     (case sSourcePodRef (mStatus mig) of
        None \<Rightarrow> canonicalPodNameForGuest g
      | Some n \<Rightarrow> if n \<noteq> '''' then n else canonicalPodNameForGuest g)"

section \<open>Sub-states and the commit point\<close>

definition annotation :: "Pod \<Rightarrow> string \<Rightarrow> string" where
  "annotation p k = at (pAnnotations p) k"

definition podActionMatches :: "Pod option \<Rightarrow> string \<Rightarrow> string \<Rightarrow> bool" where
  "podActionMatches pod action i =
     (case pod of
        None \<Rightarrow> False
      | Some p \<Rightarrow> annotation p AnnotationMigrationAction = action \<and> annotation p AnnotationMigrationActionID = i)"

definition podStatusMatches :: "Pod option \<Rightarrow> string \<Rightarrow> string \<Rightarrow> bool" where
  "podStatusMatches pod s i =
     (case pod of
        None \<Rightarrow> False
      | Some p \<Rightarrow> annotation p AnnotationMigrationStatus = s \<and> annotation p AnnotationMigrationStatusID = i)"

datatype stopAndCopySubstate =
    substatePreRecv
  | substateRecvPending
  | substatePreSend
  | substateSendPending
  | substateSrcCompleted
  | substateDstFailed
  | substateSrcFailed
  | substateDstRejected
  | substateSrcRejected
  | substateDstRunning

definition deriveSubstate :: "SwiftMigration \<Rightarrow> Pod option \<Rightarrow> Pod option \<Rightarrow> stopAndCopySubstate" where
  "deriveSubstate mig src dst =
     (let rid = recvActionID mig; sid = sendActionID mig
      in if podStatusMatches src ''complete'' sid then substateSrcCompleted
         else if podStatusMatches dst ''running'' rid then substateDstRunning
         else if podStatusMatches src ''failed'' sid then substateSrcFailed
         else if podStatusMatches src ''rejected'' sid then substateSrcRejected
         else if podStatusMatches dst ''failed'' rid then substateDstFailed
         else if podStatusMatches dst ''rejected'' rid then substateDstRejected
         else if podActionMatches src ''send'' sid then substateSendPending
         else if podStatusMatches dst ''receive-ready'' rid then substatePreSend
         else if podActionMatches dst ''receive'' rid then substateRecvPending
         else substatePreRecv)"

definition srcReportedComplete :: "SwiftMigration \<Rightarrow> Pod option \<Rightarrow> bool" where
  "srcReportedComplete mig src = podStatusMatches src ''complete'' (sendActionID mig)"

definition dstReportedRunning :: "SwiftMigration \<Rightarrow> Pod option \<Rightarrow> bool" where
  "dstReportedRunning mig dst = podStatusMatches dst ''running'' (recvActionID mig)"

definition passedCommitPoint :: "SwiftMigration \<Rightarrow> Pod option \<Rightarrow> Pod option \<Rightarrow> bool" where
  "passedCommitPoint mig src dst \<longleftrightarrow> srcReportedComplete mig src \<or> dstReportedRunning mig dst"

datatype cutoverStep = cutoverStep1Pending | cutoverStep1TimestampOnly | cutoverStep2Pending | cutoverStep3Pending

definition deriveCutoverStep :: "SwiftMigration \<Rightarrow> SwiftGuest \<Rightarrow> bool \<Rightarrow> string \<Rightarrow> cutoverStep" where
  "deriveCutoverStep mig g srcPodPresent dstName =
     (if \<not> (\<exists>r \<in> set_option (gPodRef g). prName r = dstName) then cutoverStep1Pending
      else if sCutoverStep1At (mStatus mig) = None then cutoverStep1TimestampOnly
      else if srcPodPresent then cutoverStep2Pending
      else cutoverStep3Pending)"

section \<open>Reports of the launchers\<close>

definition srcReportedSendEnded :: "SwiftMigration \<Rightarrow> Pod \<Rightarrow> bool" where
  "srcReportedSendEnded mig src \<longleftrightarrow>
     annotation src AnnotationMigrationStatusID = sendActionID mig \<and>
     (annotation src AnnotationMigrationStatus = ''failed'' \<or> annotation src AnnotationMigrationStatus = ''rejected'')"

definition sourceCancelIssued :: "SwiftMigration \<Rightarrow> Pod \<Rightarrow> bool" where
  "sourceCancelIssued mig src \<longleftrightarrow>
     annotation src AnnotationMigrationAction = ''cancel-send'' \<and> annotation src AnnotationMigrationActionID = cancelSendID mig"

definition sendMayHaveStarted :: "SwiftMigration \<Rightarrow> Pod \<Rightarrow> bool" where
  "sendMayHaveStarted mig src \<longleftrightarrow>
     HasPrefix (annotation src AnnotationMigrationActionID) (mName mig @ '':send:'') \<or>
     HasPrefix (annotation src AnnotationMigrationStatusID) (mName mig @ '':send:'') \<or>
     sourceCancelIssued mig src \<or>
     annotation src AnnotationMigrationCancelResultID = cancelSendID mig"

definition launcherHasFeature :: "Pod \<Rightarrow> string \<Rightarrow> bool" where
  "launcherHasFeature p feature = list_ex (\<lambda>f. f = feature) (Fields (annotation p AnnotationLauncherFeatures))"

definition sourceCanCancel :: "SwiftMigration \<Rightarrow> Pod \<Rightarrow> bool" where
  "sourceCanCancel mig src =
     (let cid = cancelSendID mig
      in if annotation src AnnotationMigrationCancelResultID = cid \<and>
            annotation src AnnotationMigrationCancelResult = ''failed'' \<and> \<not> sourceCancelIssued mig src then False
         else if sourceCancelIssued mig src \<or> annotation src AnnotationMigrationCancelResultID = cid then True
         else launcherHasFeature src ''migration-cancel'' \<and> \<not> pDeleting src)"

definition destinationCancelIssued :: "SwiftMigration \<Rightarrow> Pod \<Rightarrow> bool" where
  "destinationCancelIssued mig dst \<longleftrightarrow>
     annotation dst AnnotationMigrationAction = ''cancel'' \<and> annotation dst AnnotationMigrationActionID = cancelID mig"

definition normalizeStatusDetail :: "string \<Rightarrow> string" where
  "normalizeStatusDetail s =
     (if s = '''' then ''(no detail)''
      else let s' = map (\<lambda>c. if c = CHR 0x0A \<or> c = CHR 0x09 then CHR '' '' else c) s
           in if length s' > 256 then take 256 s' @ ''...'' else s')"

definition TrimPrefix :: "string \<Rightarrow> string \<Rightarrow> string" where
  "TrimPrefix s p = (if HasPrefix s p then drop (length p) s else s)"

definition classifyFailureFromDetail :: "string \<Rightarrow> string" where
  "classifyFailureFromDetail detail =
     (let d = ToLower (TrimSpace detail)
      in if d = '''' then ''Other''
         else if Contains d ''destination listener exited abnormally'' \<or> Contains d ''abnormal ch exit'' \<or>
                 Contains d ''ch process killed'' \<or> Contains d ''destination not reachable'' then ''PodTerminated''
         else if d = ''cancelled'' \<or> Contains d ''cancelled by operator'' then ''Cancelled''
         else if HasPrefix d ''w1_violation'' \<or> Contains d ''w1 violation'' \<or>
                 Contains d ''destination not running post-receive'' then ''RpcError''
         else if HasPrefix d ''send_migration:'' \<or> HasPrefix d ''receive_migration:'' then
           (if Contains d ''transport_error'' \<or> Contains d ''connection_refused'' then ''ReceiveDisconnect'' else ''RpcError'')
         else ''Other'')"

definition isConnectionNeverEstablished :: "string \<Rightarrow> bool" where
  "isConnectionNeverEstablished detail = Contains (ToLower detail) ''before its connection to the destination was established''"

definition isLocalStunnelNotReady :: "string \<Rightarrow> bool" where
  "isLocalStunnelNotReady detail =
     (let d = ToLower (TrimSpace detail)
      in if HasPrefix d ''send_migration:'' \<and> Contains d ''connection_refused'' then True
         else if Contains d ''migration connection to 127.0.0.1:'' \<and> Contains d ''never opened'' then True
         else isConnectionNeverEstablished d)"

definition isDestReceiverNotReady :: "string \<Rightarrow> bool" where
  "isDestReceiverNotReady detail =
     (let d = ToLower (TrimSpace detail)
      in HasPrefix d ''send_migration:'' \<and> Contains d ''internal_server_error'')"

definition maxMTLSSendRetries :: int where
  "maxMTLSSendRetries = 10"

definition sourceReportGrace :: int where
  "sourceReportGrace = 30 * second"

text \<open>The wait for the source's report also records the condition it is timed from.\<close>

definition awaitSourceReport :: "int \<Rightarrow> SwiftMigrationStatus \<Rightarrow> Pod option \<Rightarrow> bool \<times> SwiftMigrationStatus" where
  "awaitSourceReport now st src =
     (case src of
        None \<Rightarrow> (False, st)
      | Some p \<Rightarrow>
          if pDeleting p \<or> pPhase p = ''Succeeded'' \<or> pPhase p = ''Failed'' then (False, st)
          else let st' = setCondition now ''DestinationRunning'' ''True'' ''DestinationRunning''
                           ''the destination reports the guest running; waiting briefly for the source's report'' st
               in (case findCondition (sConditions st') ''DestinationRunning'' of
                     None \<Rightarrow> False
                   | Some c \<Rightarrow> now - cnTransition c < sourceReportGrace, st'))"

definition stampTransferProgress :: "Pod option \<Rightarrow> string \<Rightarrow> SwiftMigrationStatus \<Rightarrow> SwiftMigrationStatus" where
  "stampTransferProgress src sendID st =
     (case src of
        None \<Rightarrow> st
      | Some p \<Rightarrow>
          if \<exists>i \<in> set_option (pAnnotations p AnnotationMigrationProgressEstimateID). i \<noteq> sendID then st
          else let v = annotation p AnnotationMigrationProgressEstimate
               in if v = '''' then st
                  else case Atoi v of
                         Inl _ \<Rightarrow> st
                       | Inr pct \<Rightarrow> st\<lparr>sTransferProgress := Some (if pct < 0 then 0 else if pct > 100 then 100 else pct)\<rparr>)"

text \<open>
  \<open>strconv.ParseInt(v, 10, 64)\<close> is \<open>Atoi\<close> on a 64-bit platform. The duration is a 64-bit count of
  nanoseconds, so the product of the milliseconds wraps.
\<close>

definition wrap64 :: "int \<Rightarrow> int" where
  "wrap64 x = (x + 2 ^ 63) mod 2 ^ 64 - 2 ^ 63"

definition stampTransferDuration :: "Pod option \<Rightarrow> SwiftMigrationStatus \<Rightarrow> SwiftMigrationStatus" where
  "stampTransferDuration src st =
     (case src of
        None \<Rightarrow> st
      | Some p \<Rightarrow>
          let v = annotation p AnnotationMigrationPauseWindowMs
          in if v = '''' then st
             else case Atoi v of
                    Inl _ \<Rightarrow> st
                  | Inr ms \<Rightarrow> if ms < 0 then st else st\<lparr>sObservedTransferDuration := Some (wrap64 (ms * 1000000))\<rparr>)"

definition stampCutoverStep2DispatchedAt :: "int \<Rightarrow> SwiftMigrationStatus \<Rightarrow> SwiftMigrationStatus" where
  "stampCutoverStep2DispatchedAt now st =
     (if sCutoverStep2DispatchedAt st = None then st\<lparr>sCutoverStep2DispatchedAt := Some now\<rparr> else st)"

definition downtimeMs :: "SwiftMigration \<Rightarrow> int option" where
  "downtimeMs mig =
     (case mDowntimeTarget mig of
        None \<Rightarrow> None
      | Some d \<Rightarrow> let ms = quot d 1000000 in if ms \<le> 0 then None else Some ms)"

definition parallelConnections :: "SwiftMigration \<Rightarrow> int option" where
  "parallelConnections mig = (if mParallelConnections mig < 2 then None else Some (mParallelConnections mig))"

end
