(* ===== verification/Migration_Abort.thy ===== *)
theory Migration_Abort
  imports Migration_Status
begin

text \<open>
  Giving up a migration: \<open>abort_live.go\<close>, \<open>cancel_live.go\<close>, \<open>cancel_source.go\<close>, \<open>source_send.go\<close>, the
  readers of the commit point in \<open>commitpoint.go\<close> and the clean-up of \<open>failure.go\<close>.

  Every path that abandons a live migration deletes the destination launcher. The theorems
  show that none does so before the ownership of the guest has been resolved in the same
  pass. What the code reads only for an event or a metric label is left out.
\<close>

section \<open>The commit point\<close>

definition liveCommitted :: "kenv \<Rightarrow> SwiftMigration \<Rightarrow> bool kprog" where
  "liveCommitted E mig =
     (if isPostCutover mig then ret True
      else if sMode (mStatus mig) \<noteq> ''live'' then ret False
      else whenFound (getGuest E (mGuestRef mig)) (ret False) raise
             (\<lambda>guest. andThen (findPod E (srcPodLookupName mig guest))
                (\<lambda>src. if srcReportedComplete mig src then ret True
                   else case dstPodName mig (gName guest) of
                          Inl _ \<Rightarrow> ret False
                        | Inr dstName \<Rightarrow>
                            andThen (findPod E dstName) (\<lambda>dst. ret (dstReportedRunning mig dst)))))"

definition deletionCommitted :: "kenv \<Rightarrow> SwiftMigration \<Rightarrow> bool kprog" where
  "deletionCommitted E mig =
     (if sMode (mStatus mig) = ''live'' then liveCommitted E mig
      else if sDestinationNode (mStatus mig) = '''' then ret False
      else whenFound (getGuest E (mGuestRef mig)) (ret False) raise
             (\<lambda>guest. ret (gNodeName guest = sDestinationNode (mStatus mig))))"

definition finishCutoverBeforeDeletion :: "kenv \<Rightarrow> SwiftMigration \<Rightarrow> bool kprog" where
  "finishCutoverBeforeDeletion E mig =
     (if \<not> hasFinalizer mig \<or> isTerminalPhase (sPhase (mStatus mig)) \<or> sMode (mStatus mig) \<noteq> ''live'' then ret False
      else liveCommitted E mig)"

section \<open>Actions on the launchers\<close>

definition drop_action :: "Pod \<Rightarrow> Pod" where
  "drop_action p =
     p\<lparr>pAnnotations := (pAnnotations p)(AnnotationMigrationAction := None, AnnotationMigrationActionID := None,
                                       AnnotationMigrationActionArgs := None)\<rparr>"

definition clearSourceSend :: "kenv \<Rightarrow> SwiftMigration \<Rightarrow> unit kprog" where
  "clearSourceSend E mig =
     whenFound (getGuest E (mGuestRef mig)) (ret ()) raise
       (\<lambda>guest. whenFound (getPod E (srcPodLookupName mig guest)) (ret ()) raise
          (\<lambda>src. if \<not> HasPrefix (annotation src AnnotationMigrationActionID) (mName mig @ '':send:'') then ret ()
             else ignoreNotFound (ignoring (patchPod E src (drop_action src)))))"

definition clearSourceCancel :: "kenv \<Rightarrow> SwiftMigration \<Rightarrow> Pod \<Rightarrow> unit kprog" where
  "clearSourceCancel E mig pod =
     (if \<not> sourceCancelIssued mig pod then ret ()
      else ignoreNotFound (ignoring (patchPod E pod (drop_action pod))))"

definition clearLauncherCancel :: "kenv \<Rightarrow> SwiftMigration \<Rightarrow> unit kprog" where
  "clearLauncherCancel E mig =
     whenFound (getGuest E (mGuestRef mig)) (ret ()) raise
       (\<lambda>guest. whenFound (getPod E (srcPodLookupName mig guest)) (ret ()) raise (clearSourceCancel E mig))"

text \<open>The controller reference of an object, and \<open>metav1.IsControlledBy\<close>.\<close>

definition isControlledBy :: "Pod \<Rightarrow> SwiftGuest \<Rightarrow> bool" where
  "isControlledBy p g =
     (case find (\<lambda>r. orController r = Some True) (pOwners p) of None \<Rightarrow> False | Some r \<Rightarrow> orUID r = gUID g)"

definition LauncherPod :: "kenv \<Rightarrow> SwiftGuest \<Rightarrow> Pod option kprog" where
  "LauncherPod E guest =
     whenFound (getPod E (canonicalPodNameForGuest guest)) (ret None) raise
       (\<lambda>p. ret (if isControlledBy p guest then Some p else None))"

definition clearDestinationReceive :: "kenv \<Rightarrow> SwiftMigration \<Rightarrow> unit kprog" where
  "clearDestinationReceive E mig =
     (if sPhase (mStatus mig) \<noteq> PhaseCompleted then ret ()
      else whenFound (getGuest E (mGuestRef mig)) (ret ()) raise
             (\<lambda>guest. andThen (LauncherPod E guest)
                (\<lambda>pod. case pod of
                         None \<Rightarrow> ret ()
                       | Some p \<Rightarrow>
                           if \<not> HasPrefix (annotation p AnnotationMigrationActionID) (mName mig @ '':recv:'') then ret ()
                           else ignoreNotFound (ignoring (patchPod E p (drop_action p))))))"

section \<open>Resolving who owns the guest\<close>

datatype abortOutcome =
    abortPending
  | abortNoSend
  | abortSourceRetained
  | abortDestinationDead
  | abortCommitted
  | abortUnresolved

datatype abortTrigger = abortExplicit | abortDeadline | abortDeletion | abortFailure

record abortResolution =
  arOutcome :: abortOutcome
  arPath :: string
  arDetail :: string
  arRequeue :: ctrlResult

definition resolution :: "abortOutcome \<Rightarrow> string \<Rightarrow> string \<Rightarrow> abortResolution" where
  "resolution o' path detail = \<lparr>arOutcome = o', arPath = path, arDetail = detail, arRequeue = noRequeue\<rparr>"

definition settled :: "abortResolution \<Rightarrow> bool" where
  "settled a \<longleftrightarrow> arOutcome a \<noteq> abortPending \<and> arOutcome a \<noteq> abortCommitted"

definition cancelPollInterval :: int where
  "cancelPollInterval = 2 * second"

definition cancelAckTimeout :: int where
  "cancelAckTimeout = 30 * second"

definition sourceCancelTimeout :: int where
  "sourceCancelTimeout = 60 * second"

definition pending :: "string \<Rightarrow> string \<Rightarrow> abortResolution" where
  "pending path detail = \<lparr>arOutcome = abortPending, arPath = path, arDetail = detail, arRequeue = requeueAfter cancelPollInterval\<rparr>"

definition triggerText :: "abortTrigger \<Rightarrow> string" where
  "triggerText t =
     (case t of
        abortDeadline \<Rightarrow> ''spec.timeout expired''
      | abortDeletion \<Rightarrow> ''SwiftMigration deleted''
      | abortFailure \<Rightarrow> ''migration failed''
      | abortExplicit \<Rightarrow> ''cancel requested'')"

definition abortTriggerFor :: "phaseResult \<Rightarrow> abortTrigger" where
  "abortTriggerFor r = (if prFailureReason r = ''Timeout'' then abortDeadline else abortFailure)"

definition sendEndedDetail :: "Pod \<Rightarrow> string" where
  "sendEndedDetail src = TrimPrefix (normalizeStatusDetail (annotation src AnnotationMigrationStatusDtl)) ''cancelled: ''"

text \<open>The source launcher with this migration's cancel-send in place of any other action.\<close>

definition issue_cancel_send :: "kenv \<Rightarrow> int \<Rightarrow> SwiftMigration \<Rightarrow> Pod \<Rightarrow> Pod" where
  "issue_cancel_send E now mig src =
     src\<lparr>pAnnotations := (pAnnotations src)(AnnotationMigrationAction \<mapsto> ''cancel-send'',
           AnnotationMigrationActionID \<mapsto> cancelSendID mig, AnnotationMigrationActionArgs := None,
           AnnotationMigrationCancelIssuedAt \<mapsto> kFormat E now)\<rparr>"

definition stamp_cancel :: "kenv \<Rightarrow> int \<Rightarrow> Pod \<Rightarrow> Pod" where
  "stamp_cancel E now p = p\<lparr>pAnnotations := (pAnnotations p)(AnnotationMigrationCancelIssuedAt \<mapsto> kFormat E now)\<rparr>"

definition record_fallback :: "SwiftMigration \<Rightarrow> string \<Rightarrow> Pod \<Rightarrow> Pod" where
  "record_fallback mig reason src =
     (let src1 = (if annotation src AnnotationMigrationCancelResultID \<noteq> cancelSendID mig
                  then src\<lparr>pAnnotations := (pAnnotations src)(AnnotationMigrationCancelResultID \<mapsto> cancelSendID mig,
                             AnnotationMigrationCancelResult \<mapsto> ''failed'',
                             AnnotationMigrationCancelResultDetail \<mapsto> reason)\<rparr>
                  else src)
      in if sourceCancelIssued mig src1 then drop_action src1 else src1)"

text \<open>\<open>None\<close> hands the abort to the destination cancel.\<close>

definition fallBackToDestinationCancel :: "kenv \<Rightarrow> SwiftMigration \<Rightarrow> Pod \<Rightarrow> string \<Rightarrow> abortResolution option kprog" where
  "fallBackToDestinationCancel E mig src reason =
     andThen (wrapErr (''record cancel fallback on source pod '' @ Quote (pName src) @ '': '')
                (ignoreNotFound (ignoring (patchPod E src (record_fallback mig reason src)))))
       (\<lambda>_. ret None)"

definition phaseDetailCancelSourceWaiting :: string where
  "phaseDetailCancelSourceWaiting = ''waiting for the source to report the cancelled transfer''"

text \<open>What the source's own annotations say once the cancel-send is out.\<close>

definition source_answer :: "SwiftMigration \<Rightarrow> Pod \<Rightarrow> Pod \<Rightarrow> (abortResolution + string) option" where
  "source_answer mig src dst =
     (let sid = sendActionID mig;
          status = annotation src AnnotationMigrationStatus;
          statusID = annotation src AnnotationMigrationStatusID;
          answered = (annotation src AnnotationMigrationCancelResultID = cancelSendID mig);
          cancelResult = annotation src AnnotationMigrationCancelResult;
          sending = (status = ''sending'' \<and> statusID = sid);
          sendEnded = (statusID = sid \<and> (status = ''failed'' \<or> status = ''rejected''))
      in if srcReportedComplete mig (Some src) \<or> dstReportedRunning mig (Some dst)
         then Some (Inl (resolution abortCommitted ''source'' ''the transfer completed before the cancel took effect''))
         else if sendEnded then Some (Inl (resolution abortSourceRetained ''source'' (sendEndedDetail src)))
         else if answered \<and> cancelResult = ''failed''
         then Some (Inr (''the source could not cancel: '' @ annotation src AnnotationMigrationCancelResultDetail))
         else if answered \<and> cancelResult = ''not-active'' \<and> \<not> sending
         then Some (Inl (resolution abortSourceRetained ''source'' ''cancelled before the source sent anything''))
         else None)"

definition resolveOnSource :: "kenv \<Rightarrow> int \<Rightarrow> SwiftMigration \<Rightarrow> Pod \<Rightarrow> Pod \<Rightarrow> abortResolution option kprog" where
  "resolveOnSource E now mig src dst =
     (if \<not> sourceCancelIssued mig src \<and> annotation src AnnotationMigrationCancelResultID \<noteq> cancelSendID mig
      then andThen (wrapErr (''write cancel-send on source pod '' @ Quote (pName src) @ '': '')
                      (patchPod E src (issue_cancel_send E now mig src)))
             (\<lambda>_. ret (Some (pending ''source'' phaseDetailCancelSourceWaiting)))
      else case source_answer mig src dst of
             Some (Inl res) \<Rightarrow> ret (Some res)
           | Some (Inr reason) \<Rightarrow> fallBackToDestinationCancel E mig src reason
           | None \<Rightarrow>
               (case kParse E (annotation src AnnotationMigrationCancelIssuedAt) of
                  Inl _ \<Rightarrow>
                    andThen (wrapErr (''stamp cancel time on source pod '' @ Quote (pName src) @ '': '')
                               (patchPod E src (stamp_cancel E now src)))
                      (\<lambda>_. ret (Some (pending ''source'' phaseDetailCancelSourceWaiting)))
                | Inr issuedAt \<Rightarrow>
                    if now - issuedAt > sourceCancelTimeout
                    then fallBackToDestinationCancel E mig src (''the source did not report within '' @ duration sourceCancelTimeout)
                    else ret (Some (pending ''source'' phaseDetailCancelSourceWaiting))))"

definition phaseDetailCancelIssuing :: string where
  "phaseDetailCancelIssuing = ''issuing cancel on destination''"

definition phaseDetailCancelWaiting :: string where
  "phaseDetailCancelWaiting = ''waiting for cancel acknowledgment''"

definition issue_cancel :: "kenv \<Rightarrow> int \<Rightarrow> SwiftMigration \<Rightarrow> Pod \<Rightarrow> Pod" where
  "issue_cancel E now mig dst =
     dst\<lparr>pAnnotations := (pAnnotations dst)(AnnotationMigrationAction \<mapsto> ''cancel'',
           AnnotationMigrationActionID \<mapsto> cancelID mig, AnnotationMigrationCancelIssuedAt \<mapsto> kFormat E now)\<rparr>"

text \<open>The destination's launcher reports that it stopped the receive.\<close>

definition cancel_acked :: "SwiftMigration \<Rightarrow> Pod \<Rightarrow> bool" where
  "cancel_acked mig dst \<longleftrightarrow>
     annotation dst AnnotationMigrationStatus = ''failed'' \<and> annotation dst AnnotationMigrationStatusID = cancelID mig \<and>
     Contains (ToLower (annotation dst AnnotationMigrationStatusDtl)) ''cancelled''"

definition resolveOnDestination :: "kenv \<Rightarrow> int \<Rightarrow> SwiftMigration \<Rightarrow> Pod \<Rightarrow> abortResolution kprog" where
  "resolveOnDestination E now mig dst =
     andThen (wrapErr ''clear send action on source pod: '' (clearSourceSend E mig))
       (\<lambda>_. if \<not> destinationCancelIssued mig dst
          then andThen (wrapErr (''write cancel annotation on dst pod '' @ Quote (pName dst) @ '': '')
                          (patchPod E dst (issue_cancel E now mig dst)))
                 (\<lambda>_. ret (pending ''destination'' phaseDetailCancelIssuing))
          else if cancel_acked mig dst
          then ret (resolution abortDestinationDead ''destination''
                      ''the receiving Cloud Hypervisor was stopped before it ran the guest'')
          else case kParse E (annotation dst AnnotationMigrationCancelIssuedAt) of
                 Inl _ \<Rightarrow>
                   andThen (wrapErr (''stamp cancel time on dst pod '' @ Quote (pName dst) @ '': '')
                              (patchPod E dst (stamp_cancel E now dst)))
                     (\<lambda>_. ret (pending ''destination'' phaseDetailCancelWaiting))
               | Inr issuedAt \<Rightarrow>
                   if now - issuedAt > cancelAckTimeout
                   then ret (resolution abortUnresolved ''destination''
                               (''swiftletd cancel ack timed out ('' @ duration cancelAckTimeout @ '' budget)''))
                   else ret (pending ''destination'' phaseDetailCancelWaiting))"

text \<open>The part of \<open>resolveSourceOwnership\<close> that has read both launchers.\<close>

definition resolveWithPods :: "kenv \<Rightarrow> int \<Rightarrow> SwiftMigration \<Rightarrow> Pod option \<Rightarrow> Pod \<Rightarrow> abortResolution kprog" where
  "resolveWithPods E now mig src dst =
     (case src of
        Some s \<Rightarrow>
          if srcReportedSendEnded mig s then ret (resolution abortSourceRetained ''source'' (sendEndedDetail s))
          else if \<not> destinationCancelIssued mig dst \<and> \<not> sendMayHaveStarted mig s
          then ret (resolution abortNoSend ''none'' ''the source never started sending'')
          else if \<not> destinationCancelIssued mig dst \<and> sourceCanCancel mig s
          then andThen (resolveOnSource E now mig s dst)
                 (\<lambda>r. case r of Some res \<Rightarrow> ret res | None \<Rightarrow> resolveOnDestination E now mig dst)
          else resolveOnDestination E now mig dst
      | None \<Rightarrow> resolveOnDestination E now mig dst)"

definition resolveSourceOwnership :: "kenv \<Rightarrow> int \<Rightarrow> SwiftMigration \<Rightarrow> abortResolution kprog" where
  "resolveSourceOwnership E now mig =
     andThen (wrapErr ''determine commit point: '' (liveCommitted E mig))
       (\<lambda>committed.
          if committed then ret (resolution abortCommitted ''none'' ''the migration had already committed'')
          else whenFound (getGuest E (mGuestRef mig))
                 (ret (resolution abortNoSend ''none'' ''the source SwiftGuest is gone''))
                 (\<lambda>e. raise (Errorw ''get source guest: '' e))
                 (\<lambda>guest. case dstPodName mig (gName guest) of
                    Inl e \<Rightarrow> ret (resolution abortNoSend ''none'' (''no destination pod name: '' @ err_msg e))
                  | Inr dstName \<Rightarrow>
                      whenFound (getPod E dstName)
                        (ret (resolution abortNoSend ''none'' ''the destination pod does not exist''))
                        (\<lambda>e. raise (Errorw ''get destination pod: '' e))
                        (\<lambda>dst. andThen (wrapErr ''get source pod: '' (findPod E (srcPodLookupName mig guest)))
                           (\<lambda>src. resolveWithPods E now mig src dst))))"

section \<open>Clean-up\<close>

definition outcome_text :: "abortOutcome \<Rightarrow> string" where
  "outcome_text o' =
     (case o' of
        abortNoSend \<Rightarrow> ''not-started''
      | abortSourceRetained \<Rightarrow> ''cancelled''
      | abortDestinationDead \<Rightarrow> ''cancelled''
      | abortCommitted \<Rightarrow> ''committed''
      | abortUnresolved \<Rightarrow> ''unresolved''
      | abortPending \<Rightarrow> ''pending'')"

definition deleteAbandonedDestination :: "kenv \<Rightarrow> SwiftMigration \<Rightarrow> abortResolution \<Rightarrow> unit kprog" where
  "deleteAbandonedDestination E mig res =
     (if \<not> settled res then raise (Errorf (''internal: destination cleanup before ownership was resolved ('' @ outcome_text (arOutcome res) @ '')''))
      else whenFound (getGuest E (mGuestRef mig)) (ret ()) raise
             (\<lambda>guest. case dstPodName mig (gName guest) of
                Inl _ \<Rightarrow> ret ()
              | Inr name \<Rightarrow>
                  wrapErr (''delete destination pod '' @ Quote name @ '': '')
                    (ignoreNotFound (deletePod E name (if arOutcome res = abortUnresolved then Some 0 else None)))))"

definition cleanupDstPod :: "kenv \<Rightarrow> SwiftMigrationStatus \<Rightarrow> unit kprog" where
  "cleanupDstPod E st =
     (case sDestinationPodRef st of
        None \<Rightarrow> ret ()
      | Some n \<Rightarrow>
          if n = '''' then ret ()
          else wrapErr (''delete destination pod '' @ Quote n @ '': '') (ignoreNotFound (deletePod E n None)))"

definition HasSRIOVInterface :: "SwiftGuest \<Rightarrow> bool" where
  "HasSRIOVInterface g = list_ex (\<lambda>i. ifType i = ''sriov'') (gInterfaces g)"

definition HasVFIODevices :: "SwiftGuest \<Rightarrow> bool" where
  "HasVFIODevices g = (if gGPUProfileRef g \<noteq> None \<or> gGPUResourceClaim g then True else HasSRIOVInterface g)"

definition releaseTargetReservation :: "kenv \<Rightarrow> SwiftMigration \<Rightarrow> SwiftGuest \<Rightarrow> unit kprog" where
  "releaseTargetReservation E mig g =
     (if \<exists>u \<in> set_option (gGPU g). ggNodeName u = mTargetNode mig then ret ()
      else ignoreNotFound (called E ''ReleaseFromNode'' [gName g, mTargetNode mig]))"

definition release_claim :: "bool \<Rightarrow> SwiftGuest \<Rightarrow> SwiftGuest" where
  "release_claim restore g =
     g\<lparr>gAnnotations := (gAnnotations g)(AnnotationMigrationInProgress := None),
       gRunPolicy := (if restore \<and> gRunPolicy g = ''Stopped'' then ''Running'' else gRunPolicy g)\<rparr>"

definition cleanupSourceGuest :: "kenv \<Rightarrow> SwiftMigration \<Rightarrow> bool \<Rightarrow> unit kprog" where
  "cleanupSourceGuest E mig restore =
     whenFound (getGuest E (mGuestRef mig)) (ret ()) raise
       (\<lambda>guest. if at (gAnnotations guest) AnnotationMigrationInProgress \<noteq> mName mig then ret ()
          else whenFound (patchGuest E guest (release_claim restore guest)) (ret ()) raise
                 (\<lambda>guest'. if restore \<and> HasVFIODevices guest' then releaseTargetReservation E mig guest' else ret ()))"

definition ensureFinalizer :: "kenv \<Rightarrow> SwiftMigration \<Rightarrow> SwiftMigration kprog" where
  "ensureFinalizer E mig =
     (if hasFinalizer mig then ret mig else patchMig E mig (mFinalizers mig @ [FinalizerName]))"

definition removeFinalizer :: "kenv \<Rightarrow> SwiftMigration \<Rightarrow> unit kprog" where
  "removeFinalizer E mig =
     (if \<not> hasFinalizer mig then ret ()
      else ignoreNotFound (ignoring (patchMig E mig (remove1 FinalizerName (mFinalizers mig)))))"

text \<open>
  The node identities of this migration that no other active migration of the namespace
  still needs. The code walks a set of the two nodes in no fixed order; here the source
  comes first.
\<close>

definition nodes_of :: "SwiftMigration \<Rightarrow> string list" where
  "nodes_of m = remdups (filter (\<lambda>n. n \<noteq> '''') [sSourceNode (mStatus m), sDestinationNode (mStatus m)])"

definition nodes_in_use :: "SwiftMigration \<Rightarrow> SwiftMigration list \<Rightarrow> string list" where
  "nodes_in_use mig migs =
     concat (map nodes_of (filter (\<lambda>m. \<not> (mName m = mName mig \<or> isTerminalPhase (sPhase (mStatus m)))) migs))"

definition MigrationNodeSecretName :: "string \<Rightarrow> string" where
  "MigrationNodeSecretName node = ''kubeswift-migration-node-'' @ node"

definition delete_identity :: "kenv \<Rightarrow> string \<Rightarrow> unit kprog" where
  "delete_identity E name =
     whenFound (getSecret E name) (ret ()) raise
       (\<lambda>sec. if seComponent sec \<noteq> ''migration-mtls'' \<or> seManagedBy sec \<noteq> ''kubeswift-controller-manager'' then ret ()
          else andThen (attempt (ignoreNotFound (deleteSecret E name)))
                 (\<lambda>r. case r of Inr _ \<Rightarrow> ret () | Inl e \<Rightarrow> if errors_Is e ErrForbidden then ret () else raise e))"

fun delete_identities :: "kenv \<Rightarrow> string list \<Rightarrow> string list \<Rightarrow> unit kprog" where
  "delete_identities E keep [] = ret ()"
| "delete_identities E keep (n # ns) =
     (if n \<in> set keep then delete_identities E keep ns
      else andThen (delete_identity E (MigrationNodeSecretName n)) (\<lambda>_. delete_identities E keep ns))"

definition cleanupCopiedNodeIdentities :: "kenv \<Rightarrow> SwiftMigration \<Rightarrow> unit kprog" where
  "cleanupCopiedNodeIdentities E mig =
     (if \<not> kMTLS E then ret ()
      else if nodes_of mig = [] then ret ()
      else andThen (listMigs E) (\<lambda>migs. delete_identities E (nodes_in_use mig migs) (nodes_of mig)))"

definition onTerminalPhase :: "kenv \<Rightarrow> SwiftMigration \<Rightarrow> SwiftMigrationStatus \<Rightarrow> unit kprog" where
  "onTerminalPhase E mig st =
     (if sPhase st \<noteq> PhaseFailed then ret ()
      else if sMode st = ''live'' then
        andThen (cleanupSourceGuest E mig (\<not> isPostCutover mig))
          (\<lambda>_. if isPostCutover mig then ret ()
             else andThen (clearSourceSend E mig) (\<lambda>_. cleanupDstPod E st))
      else whenFound (getGuest E (mGuestRef mig)) (ret ()) raise
             (\<lambda>guest. cleanupSourceGuest E mig
                (\<not> (gNodeName guest = sDestinationNode st \<and> sDestinationNode st \<noteq> ''''))))"

section \<open>Cancelling\<close>

definition cancelledDetail :: "abortResolution \<Rightarrow> string" where
  "cancelledDetail res =
     (if arOutcome res = abortSourceRetained
      then ''cancelled on the source ('' @ arDetail res @ ''); destination pod deleted''
      else if arOutcome res = abortDestinationDead then ''destination pod deleted after swiftletd cancel ack''
      else if arOutcome res = abortUnresolved
      then ''destination pod force-deleted; swiftletd cancel ack timed out ('' @ duration cancelAckTimeout @ '' budget)''
      else if arDetail res = ''the source SwiftGuest is gone''
      then ''source SwiftGuest missing at cancel-time; nothing to clean up''
      else if arDetail res = ''the destination pod does not exist''
      then ''destination pod does not exist; cancel completes without swiftletd ack''
      else arDetail res @ ''; destination pod deleted'')"

definition cancelled_status :: "int \<Rightarrow> string \<Rightarrow> SwiftMigrationStatus \<Rightarrow> SwiftMigrationStatus" where
  "cancelled_status now detail st =
     setPhaseDetail detail (setReadyCondition now ''False'' ''Cancelled'' detail
       (st\<lparr>sPhase := PhaseCancelled, sCompletedAt := Some now, sFailureReason := ''Cancelled'', sFailureMessage := detail\<rparr>))"

definition finalizeCancelled :: "kenv \<Rightarrow> int \<Rightarrow> SwiftMigration \<Rightarrow> string \<Rightarrow> ctrlResult kprog" where
  "finalizeCancelled E now mig detail =
     andThen (attempt (patchMigStatus E mig (cancelled_status now detail (mStatus mig)) True))
       (\<lambda>r. case r of
              Inr _ \<Rightarrow> ret noRequeue
            | Inl e \<Rightarrow> if errors_Is e ErrConflict then ret requeueNow
                      else raise (Errorw ''patch terminal Cancelled status: '' e))"

text \<open>The callers drop its error.\<close>

definition persistPhaseDetail :: "kenv \<Rightarrow> SwiftMigration \<Rightarrow> string \<Rightarrow> unit kprog" where
  "persistPhaseDetail E mig detail =
     (if sPhaseDetail (mStatus mig) = detail then ret ()
      else andThen (attempt (patchMigStatus E mig (setPhaseDetail detail (mStatus mig)) False)) (\<lambda>_. ret ()))"

definition transitionCancelLive :: "kenv \<Rightarrow> int \<Rightarrow> SwiftMigration \<Rightarrow> ctrlResult kprog" where
  "transitionCancelLive E now mig =
     andThen (wrapErr ''cancel: '' (resolveSourceOwnership E now mig))
       (\<lambda>res.
          if arOutcome res = abortPending then andThen (persistPhaseDetail E mig (arDetail res)) (\<lambda>_. ret (arRequeue res))
          else if arOutcome res = abortCommitted then ret requeueNow
          else andThen (deleteAbandonedDestination E mig res)
                 (\<lambda>_. andThen (wrapErr ''clear cancel action on the source launcher: '' (clearLauncherCancel E mig))
                    (\<lambda>_. finalizeCancelled E now mig (cancelledDetail res))))"

definition cancel_ignored :: "int \<Rightarrow> SwiftMigrationStatus \<Rightarrow> SwiftMigrationStatus" where
  "cancel_ignored now st =
     setCondition now ''CancelIgnored'' ''True'' ''PastCutover''
       ''spec.cancelRequested=true received post-cutover; migration cannot be reversed; continuing normal phase dispatch'' st"

text \<open>\<open>Inl\<close> is a pass the cancel has taken over; \<open>Inr\<close> the migration the dispatch goes on with.\<close>

definition markCancelIgnored :: "kenv \<Rightarrow> int \<Rightarrow> SwiftMigration \<Rightarrow> (ctrlResult + SwiftMigration) kprog" where
  "markCancelIgnored E now mig =
     (if list_ex (\<lambda>c. cnType c = ''CancelIgnored'' \<and> cnStatus c = ''True'' \<and> cnReason c = ''PastCutover'')
           (sConditions (mStatus mig))
      then ret (Inr mig)
      else andThen (wrapErr ''patch CancelIgnored condition: '' (patchMigStatus E mig (cancel_ignored now (mStatus mig)) False))
             (\<lambda>mig'. ret (Inr mig')))"

definition honorCancel :: "kenv \<Rightarrow> int \<Rightarrow> SwiftMigration \<Rightarrow> (ctrlResult + SwiftMigration) kprog" where
  "honorCancel E now mig =
     (if \<not> mCancelRequested mig then ret (Inr mig)
      else if sMode (mStatus mig) \<noteq> ''live'' then ret (Inr mig)
      else andThen (wrapErr ''cancel: determine commit point: '' (liveCommitted E mig))
             (\<lambda>committed. if committed then markCancelIgnored E now mig
                else andThen (transitionCancelLive E now mig) (\<lambda>r. ret (Inl r))))"

section \<open>Deletion of the migration\<close>

text \<open>The rest of \<open>handleCancellation\<close> once the destination of a live migration is settled or kept.\<close>

definition finish_deletion :: "kenv \<Rightarrow> SwiftMigration \<Rightarrow> bool \<Rightarrow> bool \<Rightarrow> ctrlResult kprog" where
  "finish_deletion E mig committed resolved =
     andThen (wrapErr ''cleanup source guest on cancellation: '' (cleanupSourceGuest E mig (\<not> committed)))
       (\<lambda>_. andThen (if \<not> committed \<and> sMode (mStatus mig) = ''live'' \<and> \<not> resolved
                     then wrapErr ''cleanup destination pod on cancellation: '' (cleanupDstPod E (mStatus mig))
                     else ret ())
          (\<lambda>_. andThen (wrapErr ''cleanup copied node identities on cancellation: '' (cleanupCopiedNodeIdentities E mig))
             (\<lambda>_. andThen (wrapErr ''remove finalizer: '' (removeFinalizer E mig)) (\<lambda>_. ret noRequeue))))"

definition handleCancellation :: "kenv \<Rightarrow> int \<Rightarrow> SwiftMigration \<Rightarrow> ctrlResult kprog" where
  "handleCancellation E now mig =
     (if \<not> hasFinalizer mig then ret noRequeue
      else andThen (wrapErr ''cancellation: determine commit point: '' (deletionCommitted E mig))
        (\<lambda>committed.
           if \<not> committed \<and> sMode (mStatus mig) = ''live'' \<and> \<not> isTerminalPhase (sPhase (mStatus mig))
           then andThen (wrapErr ''cancellation: '' (resolveSourceOwnership E now mig))
             (\<lambda>res.
                if arOutcome res = abortPending
                then andThen (persistPhaseDetail E mig (''SwiftMigration deleted; '' @ arDetail res)) (\<lambda>_. ret (arRequeue res))
                else if arOutcome res = abortCommitted then ret requeueNow
                else andThen (wrapErr ''cleanup destination pod on cancellation: '' (deleteAbandonedDestination E mig res))
                       (\<lambda>_. andThen (wrapErr ''clear cancel action on the source launcher: '' (clearLauncherCancel E mig))
                          (\<lambda>_. finish_deletion E mig committed True)))
           else finish_deletion E mig committed False))"

end
