(* ===== verification/Migration_Validate.thy ===== *)
theory Migration_Validate
  imports Migration_Abort
begin

text \<open>
  Whether and how a guest may move: \<open>validating.go\<close>, \<open>validating_live.go\<close>, \<open>auto_mode.go\<close>,
  \<open>volume_detach.go\<close> of the migration controller, and the rules of other packages they apply:
  \<open>internal/sharedbase\<close>, \<open>internal/resolved/livestorage.go\<close>, \<open>merge.go\<close> (storage) and \<open>udn.go\<close>, and the
  guest's predicates in \<open>api/swift/v1alpha1/swiftguest_types.go\<close>.

  A handler returns a phase result together with the status as it has changed it. Copying
  the node identities of a migration (\<open>EnsureMigrationIdentitySecret\<close>, \<open>populateSourceIdentity\<close>) and
  the GPU allocator are calls.
\<close>

section \<open>Handlers\<close>

type_synonym handled = "phaseResult \<times> SwiftMigrationStatus"

definition failWith :: "string \<Rightarrow> string \<Rightarrow> SwiftMigrationStatus \<Rightarrow> handled kprog" where
  "failWith msg reason st = ret (phaseFailure msg reason, st)"

definition failTransient :: "goerr \<Rightarrow> SwiftMigrationStatus \<Rightarrow> handled kprog" where
  "failTransient e st = ret (phaseTransient e, st)"

text \<open>The error of a call becomes a transient result.\<close>

definition orTransient :: "string \<Rightarrow> SwiftMigrationStatus \<Rightarrow> 'a kprog \<Rightarrow> ('a \<Rightarrow> handled kprog) \<Rightarrow> handled kprog" where
  "orTransient msg st m k =
     andThen (attempt m) (\<lambda>r. case r of Inl e \<Rightarrow> failTransient (Errorw msg e) st | Inr x \<Rightarrow> k x)"

text \<open>A check that stops the handler when it has a result.\<close>

definition unlessStopped :: "(phaseResult option \<times> SwiftMigrationStatus) kprog \<Rightarrow> (SwiftMigrationStatus \<Rightarrow> handled kprog) \<Rightarrow> handled kprog" where
  "unlessStopped m k = andThen m (\<lambda>(r, st). case r of Some x \<Rightarrow> ret (x, st) | None \<Rightarrow> k st)"

section \<open>The guest's devices and networks\<close>

definition HasNodeLocalVirtioBackends :: "SwiftGuest \<Rightarrow> bool" where
  "HasNodeLocalVirtioBackends g =
     (if gFilesystems g \<noteq> [] \<or> 0 < gVhostUserDevices g then True
      else list_ex (\<lambda>i. ifType i = ''vhost-user'') (gInterfaces g))"

definition is_bridge :: "Interface \<Rightarrow> bool" where
  "is_bridge i \<longleftrightarrow> ifType i = '''' \<or> ifType i = ''bridge''"

definition PrimaryInterface :: "SwiftGuest \<Rightarrow> Interface option" where
  "PrimaryInterface g =
     (case find ifPrimary (gInterfaces g) of
        Some i \<Rightarrow> Some i
      | None \<Rightarrow>
          (case find (\<lambda>i. is_bridge i \<and> \<not> ifNetworkRef i) (gInterfaces g) of
             Some i \<Rightarrow> Some i
           | None \<Rightarrow> find is_bridge (gInterfaces g)))"

definition PrimaryIPPreservedCrossNode :: "SwiftGuest \<Rightarrow> bool" where
  "PrimaryIPPreservedCrossNode g = (case PrimaryInterface g of None \<Rightarrow> False | Some i \<Rightarrow> ifNetworkRef i)"

definition isDefaultNodeLocalNetworking :: "SwiftGuest \<Rightarrow> bool" where
  "isDefaultNodeLocalNetworking g \<longleftrightarrow> \<not> PrimaryIPPreservedCrossNode g"

definition OVNPrimaryUDNNamespaceLabel :: string where
  "OVNPrimaryUDNNamespaceLabel = ''k8s.ovn.org/primary-user-defined-network''"

definition NamespaceHasPrimaryUDN :: "kenv \<Rightarrow> string \<Rightarrow> bool kprog" where
  "NamespaceHasPrimaryUDN E ns =
     whenFound (getNamespace E ns) (ret False) raise (\<lambda>labels. ret (labels OVNPrimaryUDNNamespaceLabel \<noteq> None))"

section \<open>Storage\<close>

definition ClassUsesSharedBase :: "kenv \<Rightarrow> string \<Rightarrow> bool kprog" where
  "ClassUsesSharedBase E className =
     (if className = '''' then ret False
      else whenFound (getClass E className) (ret False)
             (\<lambda>e. raise (Errorw (''getting SwiftGuestClass '' @ Quote className @ '': '') e))
             (\<lambda>class. ret (gcSharedBaseDisk class)))"

definition GuestUsesSharedBase :: "kenv \<Rightarrow> string \<Rightarrow> string \<Rightarrow> (bool \<times> string) kprog" where
  "GuestUsesSharedBase E ns guestName =
     (if guestName = '''' then ret (False, '''')
      else whenFound (getGuest E guestName) (ret (False, ''''))
             (\<lambda>e. raise (Errorw (''getting SwiftGuest '' @ ns @ ''/'' @ guestName @ '': '') e))
             (\<lambda>guest. andThen (ClassUsesSharedBase E (gGuestClassRef guest))
                (\<lambda>shared. ret (shared, gGuestClassRef guest))))"

definition MigrationRefusal :: "string \<Rightarrow> string \<Rightarrow> string" where
  "MigrationRefusal guestName className =
     ''guest '' @ Quote guestName @ '' uses SwiftGuestClass '' @ Quote className @
     '' with sharedBaseDisk: true, so its root disk is node-local and cannot be migrated in any mode: '' @
     ''live migration has no shared storage to move over, and offline migration only repins the guest, '' @
     ''which would leave its disk behind. Recreate the guest on the target node instead, or set '' @
     ''sharedBaseDisk: false on the class if this guest needs to move''"

text \<open>Access mode and volume mode; the storage class does not matter here.\<close>

definition override_mode :: "string \<Rightarrow> string \<Rightarrow> string" where
  "override_mode s out = (if s \<noteq> '''' then s else out)"

definition MergeStorage :: "SwiftGuest \<Rightarrow> SwiftGuestClass \<Rightarrow> string \<times> string" where
  "MergeStorage guest class =
     (let out = (''ReadWriteOnce'', ''Filesystem'');
          out1 = (case gcStorage class of
                    None \<Rightarrow> out
                  | Some s \<Rightarrow> (override_mode (fst s) (fst out), override_mode (snd s) (snd out)))
      in case gStorage guest of
           None \<Rightarrow> out1
         | Some s \<Rightarrow> (override_mode (fst s) (fst out1), override_mode (snd s) (snd out1)))"

definition IsLiveMigrationCapable :: "string \<times> string \<Rightarrow> bool" where
  "IsLiveMigrationCapable s \<longleftrightarrow> fst s = ''ReadWriteMany'' \<and> snd s = ''Block''"

definition LiveMigrationStorageError :: "SwiftGuest \<Rightarrow> SwiftGuestClass \<Rightarrow> goerr option" where
  "LiveMigrationStorageError guest class =
     (if gKernelRef guest then None
      else let storage = MergeStorage guest class
           in if IsLiveMigrationCapable storage then None
              else Some (Errorf (''SwiftGuest '' @ Quote (gName guest) @ '' resolved storage is accessMode='' @ fst storage @
                     '' volumeMode='' @ snd storage @
                     ''; live migration requires accessMode=ReadWriteMany AND volumeMode=Block (Filesystem RWX is not live-migration-capable). '' @
                     ''Set spec.storage on the SwiftGuest or its SwiftGuestClass to ReadWriteMany+Block, or use spec.mode=offline.'')))"

definition BlankDataDiskPVCName :: "string \<Rightarrow> string \<Rightarrow> string" where
  "BlankDataDiskPVCName guestName diskName = guestName @ ''-data-'' @ diskName"

definition refuse_volume :: "SwiftGuest \<Rightarrow> string \<Rightarrow> goerr option" where
  "refuse_volume guest what =
     Some (Errorf (''SwiftGuest '' @ Quote (gName guest) @ '' cannot be live-migrated: '' @ what @
       ''; the source and destination hold every volume at once on two nodes. Use spec.mode=offline''))"

definition check_volume :: "kenv \<Rightarrow> SwiftGuest \<Rightarrow> string \<times> string \<times> bool \<Rightarrow> goerr option kprog" where
  "check_volume E guest v =
     (case v of (what, pvcName, needBlock) \<Rightarrow>
        whenFound (getPVC E pvcName)
          (ret (refuse_volume guest (what @ '' PVC '' @ Quote pvcName @ '' does not exist'')))
          (\<lambda>e. raise (Errorw (''get '' @ what @ '' PVC '' @ Quote pvcName @ '': '') e))
          (\<lambda>pvc. let modes = (if pvStatusAccessModes pvc = [] then pvSpecAccessModes pvc else pvStatusAccessModes pvc);
                    block = (pvVolumeMode pvc = Some ''Block'')
             in if \<not> list_ex (\<lambda>m. m = ''ReadWriteMany'') modes
                then ret (refuse_volume guest (what @ '' PVC '' @ Quote pvcName @ '' is ['' @ Join '' '' modes @ ''], not ReadWriteMany''))
                else if needBlock \<and> \<not> block
                then ret (refuse_volume guest (what @ '' PVC '' @ Quote pvcName @
                       '' is volumeMode Filesystem; a disk needs ReadWriteMany+Block''))
                else ret None))"

fun check_volumes :: "kenv \<Rightarrow> SwiftGuest \<Rightarrow> (string \<times> string \<times> bool) list \<Rightarrow> goerr option kprog" where
  "check_volumes E guest [] = ret None"
| "check_volumes E guest (v # vs) =
     andThen (check_volume E guest v) (\<lambda>g. case g of Some e \<Rightarrow> ret (Some e) | None \<Rightarrow> check_volumes E guest vs)"

text \<open>The volumes in the order the code checks them: what it is, its claim, whether it must be a block device.\<close>

definition guest_volumes :: "SwiftGuest \<Rightarrow> (string \<times> string \<times> bool) list" where
  "guest_volumes guest =
     (if gDataDiskRef guest then [(''data disk '' @ Quote ''data'', BlankDataDiskPVCName (gName guest) ''data'', True)] else []) @
     concat (map (\<lambda>d. case d of
          OwnDisk n \<Rightarrow> [(''data disk '' @ Quote n, BlankDataDiskPVCName (gName guest) n, True)]
        | ClaimDisk n claim attach \<Rightarrow> [(''data disk '' @ Quote n, claim, attach)]
        | NoDisk \<Rightarrow> []) (gDataDiskRefs guest)) @
     concat (map (\<lambda>f. case snd f of None \<Rightarrow> [] | Some claim \<Rightarrow> [(''filesystem '' @ Quote (fst f), claim, False)]) (gFilesystems guest))"

definition LiveMigrationVolumesError :: "kenv \<Rightarrow> SwiftGuest \<Rightarrow> goerr option kprog" where
  "LiveMigrationVolumesError E guest = check_volumes E guest (guest_volumes guest)"

text \<open>The gate, and whether the guest's class was found.\<close>

definition liveStorageGate :: "kenv \<Rightarrow> SwiftGuest \<Rightarrow> (goerr option \<times> bool) kprog" where
  "liveStorageGate E guest =
     (let volumes = andThen (LiveMigrationVolumesError E guest) (\<lambda>g. ret (g, True))
      in if gKernelRef guest then volumes
         else whenFound (getClass E (gGuestClassRef guest)) (ret (None, False)) raise
                (\<lambda>class. case LiveMigrationStorageError guest class of
                           Some g \<Rightarrow> ret (Some g, True)
                         | None \<Rightarrow> volumes))"

section \<open>Choosing the mode\<close>

definition resolveAutoMode :: "kenv \<Rightarrow> SwiftMigration \<Rightarrow> SwiftMigrationStatus \<Rightarrow> (phaseResult option \<times> SwiftMigrationStatus) kprog" where
  "resolveAutoMode E mig st =
     whenFound (getGuest E (mGuestRef mig))
       (ret (Some (phaseFailure (''source SwiftGuest '' @ Quote (mGuestRef mig) @ '' no longer exists in namespace '' @
                      Quote (mNamespace mig)) ''''), st))
       (\<lambda>e. ret (Some (phaseTransient (Errorw ''get source SwiftGuest for auto-resolution: '' e)), st))
       (\<lambda>guest. let offline = st\<lparr>sMode := ''offline''\<rparr>
          in if HasVFIODevices guest then ret (None, offline)
             else if HasNodeLocalVirtioBackends guest then ret (None, offline)
             else if isDefaultNodeLocalNetworking guest \<and> \<not> mAllowIPChange mig then ret (None, offline)
             else andThen (attempt (NamespaceHasPrimaryUDN E (mNamespace mig)))
               (\<lambda>r. case r of
                  Inl e \<Rightarrow> ret (Some (phaseTransient (Errorw ''checking primary-UDN namespace for auto-resolution: '' e)), offline)
                | Inr modelA \<Rightarrow>
                    if modelA then ret (None, offline)
                    else andThen (attempt (liveStorageGate E guest))
                      (\<lambda>r. case r of
                         Inl e \<Rightarrow> ret (Some (phaseTransient (Errorw ''checking storage live-capability for auto-resolution: '' e)), offline)
                       | Inr (gate, classFound) \<Rightarrow>
                           if gate \<noteq> None \<or> \<not> classFound then ret (None, offline)
                           else ret (None, st\<lparr>sMode := ''live''\<rparr>))))"

section \<open>Capacity of the target\<close>

definition requests_of :: "(Container \<Rightarrow> int option) \<Rightarrow> Container list \<Rightarrow> int" where
  "requests_of f cs = sum_list (map (\<lambda>c. case f c of None \<Rightarrow> 0 | Some q \<Rightarrow> q) cs)"

definition podRequests :: "Pod \<Rightarrow> int \<times> int" where
  "podRequests p =
     (requests_of coCPU (pContainers p) + requests_of coCPU (pInitContainers p),
      requests_of coMemory (pContainers p) + requests_of coMemory (pInitContainers p))"

definition LauncherMemoryOverheadMiB :: int where
  "LauncherMemoryOverheadMiB = 512"

definition counted_pods :: "Node \<Rightarrow> Pod list \<Rightarrow> Pod list" where
  "counted_pods node pods = filter (\<lambda>p. pNodeName p = noName node \<and> pPhase p \<noteq> ''Failed'' \<and> pPhase p \<noteq> ''Succeeded'') pods"

text \<open>
  \<open>None\<close> when the guest fits; otherwise the error and whether it is a \<open>TerminatingPodsError\<close>, that
  is, the guest fits once the pods being deleted are gone.
\<close>

definition capacity_verdict :: "kenv \<Rightarrow> Node \<Rightarrow> SwiftGuestClass \<Rightarrow> int \<Rightarrow> int \<Rightarrow> Pod list \<Rightarrow> (bool \<times> goerr) option" where
  "capacity_verdict E node class allocCPU allocMem pods =
     (let counted = counted_pods node pods;
          usedCPU = sum_list (map (fst \<circ> podRequests) counted);
          usedMem = sum_list (map (snd \<circ> podRequests) counted);
          terminating = filter pDeleting counted;
          terminatingCPU = sum_list (map (fst \<circ> podRequests) terminating);
          terminatingMem = sum_list (map (snd \<circ> podRequests) terminating);
          headroomCPU = allocCPU - usedCPU;
          headroomMem = allocMem - usedMem;
          needCPU = gcCPU class;
          needMem = gcMemory class + LauncherMemoryOverheadMiB * 1024 * 1024 * 1000;
          short = (\<lambda>what need have alloc used.
             ''target node '' @ Quote (noName node) @ '' has insufficient '' @ what @ '' headroom: need '' @ kQuantity E need @
             '', have '' @ kQuantity E have @ '' (allocatable '' @ kQuantity E alloc @ '', used '' @ kQuantity E used @ '')'');
          released = (headroomCPU + terminatingCPU \<ge> needCPU \<and> headroomMem + terminatingMem \<ge> needMem)
      in if headroomCPU < needCPU then Some (released, Errorf (short ''CPU'' needCPU headroomCPU allocCPU usedCPU))
         else if headroomMem < needMem then Some (released, Errorf (short ''memory'' needMem headroomMem allocMem usedMem))
         else None)"

definition NodeHasCapacity :: "kenv \<Rightarrow> Node \<Rightarrow> SwiftGuestClass \<Rightarrow> (bool \<times> goerr) option kprog" where
  "NodeHasCapacity E node class =
     (case noAllocatableCPU node of
        None \<Rightarrow> ret (Some (False, Errorf (''target node '' @ Quote (noName node) @ '' has no Allocatable CPU reported'')))
      | Some allocCPU \<Rightarrow>
          (case noAllocatableMemory node of
             None \<Rightarrow> ret (Some (False, Errorf (''target node '' @ Quote (noName node) @ '' has no Allocatable memory reported'')))
           | Some allocMem \<Rightarrow>
               andThen (attempt (listPods E))
                 (\<lambda>r. case r of
                        Inl e \<Rightarrow> ret (Some (False, Errorw ''list pods for capacity check: '' e))
                      | Inr pods \<Rightarrow> ret (capacity_verdict E node class allocCPU allocMem pods))))"

definition terminatingPodsWait :: int where
  "terminatingPodsWait = 120 * second"

definition awaitTerminatingPods :: "int \<Rightarrow> goerr \<Rightarrow> SwiftMigrationStatus \<Rightarrow> bool \<times> SwiftMigrationStatus" where
  "awaitTerminatingPods now shortfall st =
     (let st' = setCondition now ''Compatible'' ''Unknown'' ''AwaitingTerminatingPods''
                  (''the target node fits the guest once pods being deleted there are gone: '' @ err_msg shortfall) st
      in (case findCondition (sConditions st') ''Compatible'' of
            None \<Rightarrow> False
          | Some c \<Rightarrow> now - cnTransition c < terminatingPodsWait, st'))"

definition terminatingPodsPollInterval :: int where
  "terminatingPodsPollInterval = 3 * second"

text \<open>A wait that is over leaves no \<open>Unknown\<close> condition behind.\<close>

definition clear_wait :: "string \<Rightarrow> SwiftMigrationStatus \<Rightarrow> SwiftMigrationStatus" where
  "clear_wait reason st =
     (case findCondition (sConditions st) ''Compatible'' of
        None \<Rightarrow> st
      | Some c \<Rightarrow> if cnStatus c = ''Unknown'' \<and> cnReason c = reason then removeCondition ''Compatible'' st else st)"

definition capacity_failed :: "int \<Rightarrow> goerr \<Rightarrow> string \<Rightarrow> SwiftMigrationStatus \<Rightarrow> phaseResult option \<times> SwiftMigrationStatus" where
  "capacity_failed now e reason st =
     (Some (phaseFailure (err_msg e) reason),
      case findCondition (sConditions st) ''Compatible'' of
        None \<Rightarrow> st
      | Some c \<Rightarrow> if cnStatus c = ''Unknown'' then setCondition now ''Compatible'' ''False'' ''ValidationFailed'' (err_msg e) st else st)"

definition checkNodeCapacity ::
  "kenv \<Rightarrow> int \<Rightarrow> Node \<Rightarrow> SwiftGuestClass \<Rightarrow> string \<Rightarrow> SwiftMigrationStatus \<Rightarrow> (phaseResult option \<times> SwiftMigrationStatus) kprog" where
  "checkNodeCapacity E now node class reason st =
     andThen (NodeHasCapacity E node class)
       (\<lambda>r. case r of
              None \<Rightarrow> ret (None, clear_wait ''AwaitingTerminatingPods'' st)
            | Some (terminating, e) \<Rightarrow>
                if terminating
                then (case awaitTerminatingPods now e st of
                        (True, st') \<Rightarrow>
                          ret (Some (phaseRequeue terminatingPodsPollInterval),
                               setPhaseDetail ''waiting for terminating pods on the target node to release resources'' st')
                      | (False, st') \<Rightarrow> ret (capacity_failed now e reason st'))
                else ret (capacity_failed now e reason st))"

definition nodeReady :: "Node \<Rightarrow> bool" where
  "nodeReady node = list_ex (\<lambda>c. fst c = ''Ready'' \<and> snd c = ''True'') (noConditions node)"

section \<open>Attached volumes\<close>

fun claims_of :: "kenv \<Rightarrow> (string \<times> string) list \<Rightarrow> string list \<Rightarrow> (string \<times> string) list kprog" where
  "claims_of E acc [] = ret acc"
| "claims_of E acc (claim # claims) =
     whenFound (getPVC E claim) (claims_of E acc claims) raise
       (\<lambda>pvc. claims_of E (if pvVolumeName pvc \<noteq> '''' then AList.update (pvVolumeName pvc) claim acc else acc) claims)"

definition pod_claims :: "Pod \<Rightarrow> string list" where
  "pod_claims p = List.map_filter voClaim (pVolumes p)"

definition stray_texts :: "Pod \<Rightarrow> (string \<times> string) list \<Rightarrow> VolumeAttachment list \<Rightarrow> string list" where
  "stray_texts src claimOfPV vas =
     sort (List.map_filter (\<lambda>va.
        case vaPersistentVolume va of
          None \<Rightarrow> None
        | Some pv \<Rightarrow>
            if vaNodeName va = pNodeName src then None
            else map_option (\<lambda>claim. ''PVC '' @ Quote claim @ '' on node '' @ vaNodeName va @ '' (VolumeAttachment '' @ vaName va @ '')'')
                   (map_of claimOfPV pv)) vas)"

definition strayAttachments :: "kenv \<Rightarrow> Pod \<Rightarrow> string list kprog" where
  "strayAttachments E src =
     andThen (claims_of E [] (pod_claims src))
       (\<lambda>claimOfPV. if claimOfPV = [] then ret []
          else andThen (wrapErr ''list VolumeAttachments: '' (listAttachments E)) (\<lambda>vas. ret (stray_texts src claimOfPV vas)))"

definition volumeDetachWait :: int where
  "volumeDetachWait = 300 * second"

definition volumeDetachPollInterval :: int where
  "volumeDetachPollInterval = 5 * second"

definition await_detach :: "int \<Rightarrow> string \<Rightarrow> SwiftMigrationStatus \<Rightarrow> phaseResult option \<times> SwiftMigrationStatus" where
  "await_detach now detail st =
     (let st' = setCondition now ''Compatible'' ''Unknown'' ''AwaitingVolumeDetach''
                  (''the guest's volumes are still attached to another node: '' @ detail) st;
          within = (case findCondition (sConditions st') ''Compatible'' of
                      None \<Rightarrow> False
                    | Some c \<Rightarrow> now - cnTransition c < volumeDetachWait);
          msg = ''the guest's volumes are still attached to another node after '' @ duration volumeDetachWait @ '': '' @ detail @
                ''. An earlier migration may have left them; migrate again once `kubectl get volumeattachments` no longer lists them''
      in if within
         then (Some (phaseRequeue volumeDetachPollInterval),
               setPhaseDetail ''waiting for the guest's volumes to detach from another node'' st')
         else (Some (phaseFailure msg ''Other''), setCondition now ''Compatible'' ''False'' ''ValidationFailed'' msg st'))"

definition awaitVolumeDetach :: "kenv \<Rightarrow> int \<Rightarrow> Pod \<Rightarrow> SwiftMigrationStatus \<Rightarrow> (phaseResult option \<times> SwiftMigrationStatus) kprog" where
  "awaitVolumeDetach E now src st =
     andThen (attempt (strayAttachments E src))
       (\<lambda>r. case r of
              Inl e \<Rightarrow> ret (Some (phaseTransient e), st)
            | Inr stray \<Rightarrow>
                if stray = [] then ret (None, clear_wait ''AwaitingVolumeDetach'' st)
                else ret (await_detach now (Join ''; '' stray) st))"

section \<open>The source pod\<close>

text \<open>The index of the last occurrence, -1 if there is none.\<close>

definition LastIndexByte :: "string \<Rightarrow> char \<Rightarrow> int" where
  "LastIndexByte s c = int (length s) - 1 - int (length (takeWhile (\<lambda>x. x \<noteq> c) (rev s)))"

definition imageRepository :: "string \<Rightarrow> string" where
  "imageRepository ref0 =
     (let ref1 = takeWhile (\<lambda>c. c \<noteq> CHR ''@'') ref0;
          ref = (if LastIndexByte ref1 (CHR '':'') > LastIndexByte ref1 (CHR ''/'')
                 then take (nat (LastIndexByte ref1 (CHR '':''))) ref1 else ref1);
          first = takeWhile (\<lambda>c. c \<noteq> CHR ''/'') ref
      in if CHR ''/'' \<notin> set ref then ''docker.io/library/'' @ ref
         else if CHR ''.'' \<notin> set first \<and> CHR '':'' \<notin> set first \<and> first \<noteq> ''localhost'' then ''docker.io/'' @ ref
         else ref)"

text \<open>An error and whether it is only pending.\<close>

fun check_images :: "Pod \<Rightarrow> strmap \<Rightarrow> Container list \<Rightarrow> (bool \<times> goerr) option" where
  "check_images pod runs [] = None"
| "check_images pod runs (c # cs) =
     (let image = at runs (coName c)
      in if image = ''''
         then Some (True, Errorf (''source pod '' @ Quote (pName pod) @ '': container '' @ Quote (coName c) @ '' has no reported image yet''))
         else if imageRepository (coImage c) \<noteq> imageRepository image
         then Some (False, Errorf (''source pod '' @ Quote (pName pod) @ '': container '' @ Quote (coName c) @ '' spec image '' @
                Quote (coImage c) @ '' is not from the repository it was started from ('' @ Quote image @
                ''); the pod's spec was changed after it was created, and a live migration copies it''))
         else check_images pod runs cs)"

definition images_run :: "ContainerStatus list \<Rightarrow> strmap" where
  "images_run ss = map_of (rev (map (\<lambda>s. (csName s, csImage s)) ss))"

definition checkSourcePodImages :: "Pod \<Rightarrow> (bool \<times> goerr) option" where
  "checkSourcePodImages pod =
     (case find (\<lambda>s. csRestartCount s > 0) (pContainerStatuses pod) of
        Some s \<Rightarrow> Some (False, Errorf (''source pod '' @ Quote (pName pod) @ '': container '' @ Quote (csName s) @ '' restarted '' @
                     dec_int (csRestartCount s) @
                     '' time(s); a launcher container restarts only after its spec was changed, and a live migration copies the spec''))
      | None \<Rightarrow>
          if pGeneration pod > 1
          then Some (False, Errorf (''source pod '' @ Quote (pName pod) @ '': its spec was changed after it was created (generation '' @
                 dec_int (pGeneration pod) @ ''); a live migration copies the spec''))
          else if pGeneration pod = 1 then None
          else case check_images pod (images_run (pInitContainerStatuses pod)) (pInitContainers pod) of
                 Some e \<Rightarrow> Some e
               | None \<Rightarrow> check_images pod (images_run (pContainerStatuses pod)) (pContainers pod))"

definition sourcePodCopyable :: "Pod \<Rightarrow> SwiftGuest \<Rightarrow> phaseResult option" where
  "sourcePodCopyable src guest =
     (if \<not> isControlledBy src guest
      then Some (phaseFailure (''source pod '' @ Quote (pName src) @ '' is not controlled by SwiftGuest '' @ Quote (gName guest) @
             ''; refusing to copy it to the destination'') ''Other'')
      else case checkSourcePodImages src of
             None \<Rightarrow> None
           | Some (True, e) \<Rightarrow> Some (phaseTransient e)
           | Some (False, e) \<Rightarrow> Some (phaseFailure (err_msg e) ''ImageTagMismatch''))"

definition sidecar_env :: "Pod \<Rightarrow> string \<Rightarrow> string option option" where
  "sidecar_env p name =
     map_option (\<lambda>c. map_of (coEnv c) name) (find (\<lambda>c. coName c = ''migration-stunnel'') (pContainers p))"

definition sourcePodMTLSReady :: "Pod \<Rightarrow> bool" where
  "sourcePodMTLSReady src \<longleftrightarrow> sidecar_env src ''STUNNEL_ROLE'' = Some (Some ''client'')"

definition AnnotationDstPodIP :: string where
  "AnnotationDstPodIP = ''kubeswift.io/migration-dst-ip''"

definition AnnotationPeerSAN :: string where
  "AnnotationPeerSAN = ''kubeswift.io/migration-peer-san''"

definition sourceSidecarStale :: "Pod \<Rightarrow> bool" where
  "sourceSidecarStale src =
     (if annotation src AnnotationDstPodIP = '''' then False
      else case sidecar_env src ''STUNNEL_FOLLOW_INPUTS'' of
             None \<Rightarrow> False
           | Some None \<Rightarrow> True
           | Some (Some v) \<Rightarrow> v \<noteq> ''1'')"

section \<open>Validating\<close>

definition guest_gone :: "SwiftMigration \<Rightarrow> string" where
  "guest_gone mig = ''source SwiftGuest '' @ Quote (mGuestRef mig) @ '' no longer exists in namespace '' @ Quote (mNamespace mig)"

definition ip_will_change :: "int \<Rightarrow> SwiftMigration \<Rightarrow> SwiftGuest \<Rightarrow> SwiftMigrationStatus \<Rightarrow> SwiftMigrationStatus" where
  "ip_will_change now mig guest st =
     (if mAllowIPChange mig \<and> isDefaultNodeLocalNetworking guest \<and> sSourceNode st \<noteq> '''' \<and> sSourceNode st \<noteq> sDestinationNode st
      then setCondition now ''IPWillChange'' ''True'' ''IPWillChange''
             (''guest '' @ Quote (gName guest) @ '' is on default node-local networking; will receive a fresh IP on '' @
              Quote (sDestinationNode st)) st
      else st)"

text \<open>The checks of the target node and the guest's class, shared in shape by both modes.\<close>

definition check_target ::
  "kenv \<Rightarrow> int \<Rightarrow> SwiftMigration \<Rightarrow> SwiftGuest \<Rightarrow> string \<Rightarrow> SwiftMigrationStatus \<Rightarrow> (SwiftMigrationStatus \<Rightarrow> handled kprog) \<Rightarrow> handled kprog" where
  "check_target E now mig guest reason st k =
     whenFound (getNode E (mTargetNode mig))
       (failWith (''target node '' @ Quote (mTargetNode mig) @ '' no longer exists in cluster'') reason st)
       (\<lambda>e. failTransient (Errorw ''get target node: '' e) st)
       (\<lambda>node.
          if noUnschedulable node
          then failWith (''target node '' @ Quote (mTargetNode mig) @ '' is cordoned (spec.unschedulable=true)'') reason st
          else if \<not> nodeReady node then failWith (''target node '' @ Quote (mTargetNode mig) @ '' is not Ready'') reason st
          else whenFound (getClass E (gGuestClassRef guest))
                 (failWith (''SwiftGuestClass '' @ Quote (gGuestClassRef guest) @ '' referenced by guest '' @ Quote (gName guest) @
                            '' not found'') reason st)
                 (\<lambda>e. failTransient (Errorw ''get SwiftGuestClass: '' e) st)
                 (\<lambda>class. unlessStopped (checkNodeCapacity E now node class reason st) k))"

definition resolveGPUProfile :: "kenv \<Rightarrow> SwiftGuest \<Rightarrow> unit kprog" where
  "resolveGPUProfile E guest =
     (case gGPUProfileRef guest of
        None \<Rightarrow> raise (Errorf (''guest '' @ Quote (gName guest) @ '' has no gpuProfileRef''))
      | Some n \<Rightarrow> wrapErr (''get SwiftGPUProfile '' @ Quote n @ '': '') (called E ''GetSwiftGPUProfile'' [n]))"

definition gpuPreflight :: "kenv \<Rightarrow> SwiftMigration \<Rightarrow> SwiftGuest \<Rightarrow> SwiftMigrationStatus \<Rightarrow> (phaseResult option \<times> SwiftMigrationStatus) kprog" where
  "gpuPreflight E mig guest st =
     andThen (attempt (andThen (resolveGPUProfile E guest) (\<lambda>_. called E ''GPUNodeHasCapacity'' [mTargetNode mig])))
       (\<lambda>r. case r of
              Inl e \<Rightarrow> ret (Some (phaseFailure (''GPU pre-flight: '' @ err_msg e) ''''), st)
            | Inr _ \<Rightarrow> ret (None, st))"

definition validated :: "int \<Rightarrow> string \<Rightarrow> string \<Rightarrow> string \<Rightarrow> SwiftMigrationStatus \<Rightarrow> handled kprog" where
  "validated now compatible ready detail st =
     ret (phaseAdvance,
       setPhaseDetail detail (setPhase PhasePreparing (setReadyCondition now ''False'' ''Preparing'' ready
         (setCondition now ''Compatible'' ''True'' ''Validating'' compatible st))))"

definition handleValidatingOffline :: "kenv \<Rightarrow> int \<Rightarrow> SwiftMigration \<Rightarrow> SwiftMigrationStatus \<Rightarrow> handled kprog" where
  "handleValidatingOffline E now mig st =
     whenFound (getGuest E (mGuestRef mig)) (failWith (guest_gone mig) '''' st)
       (\<lambda>e. failTransient (Errorw ''get source SwiftGuest: '' e) st)
       (\<lambda>guest.
          if gMigrationEnabled guest = Some False
          then failWith (''SwiftGuest '' @ Quote (gName guest) @ '' has spec.migration.enabled=false'') '''' st
          else let st1 = st\<lparr>sSourceNode := gStatusNodeName guest, sDestinationNode := mTargetNode mig, sMode := ''offline''\<rparr>
               in check_target E now mig guest '''' (ip_will_change now mig guest st1)
                    (\<lambda>st2. unlessStopped (if HasVFIODevices guest then gpuPreflight E mig guest st2 else ret (None, st2))
                       (validated now ''validation passed; target node has capacity'' ''stopping source guest''
                          ''stopping source SwiftGuest'')))"

definition live_ineligible :: "SwiftGuest \<Rightarrow> string option" where
  "live_ineligible guest =
     (if HasVFIODevices guest
      then Some (''SwiftGuest '' @ Quote (gName guest) @ '' has VFIO devices (gpuProfileRef or an SR-IOV interface); they cannot live-migrate. Use spec.mode=offline'')
      else if HasNodeLocalVirtioBackends guest
      then Some (''SwiftGuest '' @ Quote (gName guest) @ '' has node-local virtio backends (spec.filesystems, spec.vhostUserDevices, or a vhost-user interface); they cannot live-migrate. Use spec.mode=offline'')
      else None)"

definition validate_identity :: "kenv \<Rightarrow> SwiftGuest \<Rightarrow> Pod \<Rightarrow> SwiftMigrationStatus \<Rightarrow> (phaseResult option \<times> SwiftMigrationStatus) kprog" where
  "validate_identity E guest src st =
     (if \<not> kMTLS E then ret (None, st)
      else if \<not> sourcePodMTLSReady src
      then ret (Some (phaseFailure (''source pod '' @ Quote (pName src) @ '' is not mTLS-source-ready (no client-role migration-stunnel sidecar); it predates mTLS enablement or is a post-cutover destination pod '' @ [char_of (226 :: nat), char_of (128 :: nat), char_of (148 :: nat)] @
             '' recycle the guest's pod before live-migrating with mTLS'') ''SourceSidecarNotReady''), st)
      else if sourceSidecarStale src
      then ret (Some (phaseFailure (''source pod '' @ Quote (pName src) @ '' has an mTLS sidecar that is still tunnelling to the destination of an earlier migration ('' @
             annotation src AnnotationDstPodIP @ '') and cannot follow a new one; it was created by an earlier KubeSwift version. Restart the guest so it gets a new launcher pod, then migrate again (or use spec.mode=offline)'')
             ''SourceSidecarNotReady''), st)
      else if sSourceNode st = '''' \<or> sDestinationNode st = ''''
      then ret (Some (phaseFailure ''migration mTLS enabled but a participating node name is empty; cannot resolve per-node identity''
             ''MigrationIdentityNotReady''), st)
      else andThen (attempt (called E ''EnsureMigrationIdentitySecret'' [sDestinationNode st]))
        (\<lambda>r. case r of
               Inl e \<Rightarrow> ret (Some (phaseFailure (''migration identity Secret for node '' @ Quote (sDestinationNode st) @ '' not ready: '' @ err_msg e)
                          ''MigrationIdentityNotReady''), st)
             | Inr _ \<Rightarrow>
                 andThen (attempt (called E ''populateSourceIdentity'' [gName guest, sSourceNode st]))
                   (\<lambda>r. case r of
                          Inl e \<Rightarrow> ret (Some (phaseFailure (''populate source migration identity: '' @ err_msg e) ''MigrationIdentityNotReady''), st)
                        | Inr _ \<Rightarrow> ret (None, st))))"

text \<open>From the recorded source pod on.\<close>

definition validate_live_source :: "kenv \<Rightarrow> int \<Rightarrow> SwiftMigration \<Rightarrow> SwiftGuest \<Rightarrow> SwiftMigrationStatus \<Rightarrow> handled kprog" where
  "validate_live_source E now mig guest st =
     whenFound (getPod E (canonicalPodNameForGuest guest))
       (failWith (''source SwiftGuest '' @ Quote (gName guest) @ '' has no pod (status.podRef='' @ kShowPodRef E (gPodRef guest) @
                  ''); cannot live-migrate a non-running guest'') ''Other'' st)
       (\<lambda>e. failTransient (Errorw ''get source pod: '' e) st)
       (\<lambda>src. let st1 = st\<lparr>sSourcePodUID := pUID src, sSourcePodRef := Some (pName src)\<rparr>
          in unlessStopped (awaitVolumeDetach E now src st1)
               (\<lambda>st2. case sourcePodCopyable src guest of
                  Some res \<Rightarrow> ret (res, st2)
                | None \<Rightarrow>
                    check_target E now mig guest ''Other'' (ip_will_change now mig guest st2)
                      (\<lambda>st3. unlessStopped (validate_identity E guest src st3)
                         (validated now ''validation passed; target node has capacity (live mode)''
                            ''preparing destination launcher pod'' ''preparing destination launcher pod''))))"

definition handleValidatingLive :: "kenv \<Rightarrow> int \<Rightarrow> SwiftMigration \<Rightarrow> SwiftMigrationStatus \<Rightarrow> handled kprog" where
  "handleValidatingLive E now mig st =
     (if \<not> isLiveMode mig st then failWith ''internal: handleValidatingLive invoked without live mode'' ''Other'' st
      else whenFound (getGuest E (mGuestRef mig)) (failWith (guest_gone mig) ''Other'' st)
        (\<lambda>e. failTransient (Errorw ''get source SwiftGuest: '' e) st)
        (\<lambda>guest.
           if gMigrationEnabled guest = Some False
           then failWith (''SwiftGuest '' @ Quote (gName guest) @ '' has spec.migration.enabled=false'') ''EligibilityMismatch'' st
           else orTransient ''check live-migration storage: '' st (liveStorageGate E guest)
             (\<lambda>(gate, _). case gate of
                Some e \<Rightarrow> failWith (err_msg e) ''EligibilityMismatch'' st
              | None \<Rightarrow>
                  (case live_ineligible guest of
                     Some msg \<Rightarrow> failWith msg ''EligibilityMismatch'' st
                   | None \<Rightarrow>
                       orTransient ''check primary-UDN namespace: '' st (NamespaceHasPrimaryUDN E (mNamespace mig))
                         (\<lambda>modelA. if modelA
                            then failWith (''SwiftGuest '' @ Quote (gName guest) @ '' is on namespace '' @ Quote (mNamespace mig) @
                                   [CHR 0x27] @ ''s primary user-defined network, which cannot carry a live migration. Use spec.mode=offline'') ''EligibilityMismatch'' st
                            else validate_live_source E now mig guest
                                   (st\<lparr>sMode := ''live'', sSourceNode := gStatusNodeName guest, sDestinationNode := mTargetNode mig\<rparr>))))))"

definition handleValidating :: "kenv \<Rightarrow> int \<Rightarrow> SwiftMigration \<Rightarrow> SwiftMigrationStatus \<Rightarrow> handled kprog" where
  "handleValidating E now mig st =
     orTransient ''checking sharedBaseDisk: '' st (GuestUsesSharedBase E (mNamespace mig) (mGuestRef mig))
       (\<lambda>(shared, className).
          if shared then failWith (MigrationRefusal (mGuestRef mig) className) ''EligibilityMismatch'' st
          else unlessStopped (if mMode mig = ''auto'' \<and> sMode st = '''' then resolveAutoMode E mig st else ret (None, st))
                 (\<lambda>st1. if isLiveMode mig st1 then handleValidatingLive E now mig st1 else handleValidatingOffline E now mig st1))"

end
