(* ===== verification/Migration_Live.thy ===== *)
theory Migration_Live
  imports Migration_Validate
begin

text \<open>
  The phases of a live migration after validation: the destination pod (\<open>dst_pod.go\<close>, \<open>sidecar.go\<close>,
  \<open>frozen_intent.go\<close>), \<open>preparing_live.go\<close>, \<open>stopandcopy_live.go\<close>, \<open>cutover.go\<close> and \<open>resuming_live.go\<close>.

  The handler of StopAndCopy is one definition per sub-state. The arguments of the actions
  are the JSON text that \<open>encoding/json\<close> writes. The namespace field of a guest's pod reference is
  always the guest's and is left out.
\<close>

section \<open>JSON\<close>

definition octet :: "char \<Rightarrow> nat" where
  "octet c = of_char c"

definition cont :: "char \<Rightarrow> bool" where
  "cont c \<longleftrightarrow> 128 \<le> octet c \<and> octet c \<le> 191"

text \<open>The length of the UTF-8 sequence a string of non-ASCII start begins with, 0 if it is invalid.\<close>

definition rune_size :: "string \<Rightarrow> nat" where
  "rune_size s =
     (case s of
        [] \<Rightarrow> 0
      | a # r \<Rightarrow>
          (case r of
             [] \<Rightarrow> 0
           | b # r2 \<Rightarrow>
               if 194 \<le> octet a \<and> octet a \<le> 223 then (if cont b then 2 else 0)
               else (case r2 of
                       [] \<Rightarrow> 0
                     | c # r3 \<Rightarrow>
                         if 224 \<le> octet a \<and> octet a \<le> 239
                         then (if cont b \<and> cont c \<and> (octet a = 224 \<longrightarrow> 160 \<le> octet b) \<and> (octet a = 237 \<longrightarrow> octet b \<le> 159) then 3 else 0)
                         else (case r3 of
                                 [] \<Rightarrow> 0
                               | d # _ \<Rightarrow>
                                   if 240 \<le> octet a \<and> octet a \<le> 244 \<and> cont b \<and> cont c \<and> cont d \<and>
                                      (octet a = 240 \<longrightarrow> 144 \<le> octet b) \<and> (octet a = 244 \<longrightarrow> octet b \<le> 143) then 4 else 0))))"

definition json_ascii :: "char \<Rightarrow> string" where
  "json_ascii c =
     (if c = CHR 0x22 \<or> c = CHR 0x5C then [CHR 0x5C, c]
      else if c = CHR 0x08 then [CHR 0x5C, CHR ''b'']
      else if c = CHR 0x0C then [CHR 0x5C, CHR ''f'']
      else if c = CHR 0x0A then [CHR 0x5C, CHR ''n'']
      else if c = CHR 0x0D then [CHR 0x5C, CHR ''r'']
      else if c = CHR 0x09 then [CHR 0x5C, CHR ''t'']
      else if octet c < 32 \<or> c = CHR ''<'' \<or> c = CHR ''>'' \<or> c = CHR ''&''
      then [CHR 0x5C] @ ''u00'' @ [hex_digit (octet c div 16), hex_digit (octet c mod 16)]
      else [c])"

fun json_chars :: "string \<Rightarrow> string" where
  "json_chars [] = []"
| "json_chars (c # cs) =
     (if octet c < 128 then json_ascii c @ json_chars cs
      else let n = rune_size (c # cs)
           in if n = 0 then [CHR 0x5C] @ ''ufffd'' @ json_chars cs
              else let r = take n (c # cs)
                   in (if r = [CHR 0xE2, CHR 0x80, CHR 0xA8] then [CHR 0x5C] @ ''u2028''
                       else if r = [CHR 0xE2, CHR 0x80, CHR 0xA9] then [CHR 0x5C] @ ''u2029''
                       else r) @ json_chars (drop (n - 1) cs))"

definition json_string :: "string \<Rightarrow> string" where
  "json_string s = [CHR 0x22] @ json_chars s @ [CHR 0x22]"

definition json_object :: "(string \<times> string) list \<Rightarrow> string" where
  "json_object fs = ''{'' @ Join '','' (map (\<lambda>(k, v). json_string k @ '':'' @ v) fs) @ ''}''"

definition json_opt_int :: "string \<Rightarrow> int option \<Rightarrow> (string \<times> string) list" where
  "json_opt_int k v = (case v of None \<Rightarrow> [] | Some i \<Rightarrow> [(k, dec_int i)])"

section \<open>The destination pod\<close>

definition LabelMigrationRole :: string where
  "LabelMigrationRole = ''kubeswift.io/migration-role''"

definition LabelMigrationName :: string where
  "LabelMigrationName = ''kubeswift.io/migration''"

definition LabelGuestName :: string where
  "LabelGuestName = ''swift.kubeswift.io/guest''"

definition AnnotationMigrationPhase2Ack :: string where
  "AnnotationMigrationPhase2Ack = ''kubeswift.io/migration-phase2-unsafe-plaintext''"

definition MultusAnnotationKey :: string where
  "MultusAnnotationKey = ''k8s.v1.cni.cncf.io/networks''"

definition mergeLabelsForDst :: "strmap \<Rightarrow> string \<Rightarrow> string \<Rightarrow> strmap" where
  "mergeLabelsForDst srcLabels guestName migName =
     srcLabels(LabelGuestName \<mapsto> guestName, LabelMigrationRole \<mapsto> ''destination'', LabelMigrationName \<mapsto> migName)"

definition mergeAnnotationsForDst :: "strmap \<Rightarrow> bool \<Rightarrow> (string \<times> string) list \<Rightarrow> strmap" where
  "mergeAnnotationsForDst srcAnnotations mtls ovn =
     (let out = (if at srcAnnotations MultusAnnotationKey \<noteq> ''''
                 then [MultusAnnotationKey \<mapsto> at srcAnnotations MultusAnnotationKey] else Map.empty);
          out1 = (if \<not> mtls then out(AnnotationMigrationPhase2Ack \<mapsto> ''ack'') else out)
      in out1 ++ map_of ovn)"

text \<open>The first container named launcher gets the variable; \<open>None\<close> if there is none.\<close>

fun set_launcher_env :: "string \<Rightarrow> string \<Rightarrow> Container list \<Rightarrow> Container list option" where
  "set_launcher_env name v [] = None"
| "set_launcher_env name v (c # cs) =
     (if coName c \<noteq> ''launcher'' then map_option (\<lambda>cs'. c # cs') (set_launcher_env name v cs)
      else Some (c\<lparr>coEnv := filter (\<lambda>e. fst e \<noteq> name) (coEnv c) @ [(name, v)]\<rparr> # cs))"

definition setLauncherEnv :: "string \<Rightarrow> string \<Rightarrow> Pod \<Rightarrow> Pod res" where
  "setLauncherEnv name v pod =
     (case set_launcher_env name v (pContainers pod) of
        None \<Rightarrow> Inl (Errorf (''dst pod construction: src pod has no container named '' @ Quote ''launcher''))
      | Some cs \<Rightarrow> Inr (pod\<lparr>pContainers := cs\<rparr>))"

definition addReceiverEnvToLauncher :: "Pod \<Rightarrow> Pod res" where
  "addReceiverEnvToLauncher pod = setLauncherEnv ''KUBESWIFT_MIGRATION_ROLE'' ''receiver'' pod"

fun repoint_intent :: "string \<Rightarrow> Volume list \<Rightarrow> Volume list" where
  "repoint_intent cm [] = []"
| "repoint_intent cm (v # vs) =
     (if voName v = ''runtime-intent'' \<and> voConfigMap v \<noteq> None then v\<lparr>voConfigMap := Some cm\<rparr> # vs
      else v # repoint_intent cm vs)"

definition repointRuntimeIntentVolume :: "string \<Rightarrow> Pod \<Rightarrow> Pod" where
  "repointRuntimeIntentVolume cm pod = pod\<lparr>pVolumes := repoint_intent cm (pVolumes pod)\<rparr>"

definition MigrationNodeCertSAN :: "string \<Rightarrow> string" where
  "MigrationNodeCertSAN node = node"

definition dstStunnelSidecar :: "kenv \<Rightarrow> string \<Rightarrow> Container" where
  "dstStunnelSidecar E srcNodeSAN =
     \<lparr>coName = ''migration-stunnel'', coImage = kStunnelImage E,
      coEnv = [(''STUNNEL_ROLE'', ''server''), (''CHECK_HOST'', srcNodeSAN), (''STUNNEL_CONFIG_DIR'', ''/etc/stunnel-config'')],
      coCPU = Some 50, coMemory = Some (32 * 1024 * 1024 * 1000)\<rparr>"

definition dstStunnelVolumes :: "string \<Rightarrow> Volume list" where
  "dstStunnelVolumes dstSecretName =
     [\<lparr>voName = ''migration-stunnel-config'', voClaim = None, voConfigMap = Some ''kubeswift-migration-stunnel'', voSecret = None\<rparr>,
      \<lparr>voName = ''migration-tls'', voClaim = None, voConfigMap = None, voSecret = Some dstSecretName\<rparr>]"

definition removeContainerByName :: "string \<Rightarrow> Container list \<Rightarrow> Container list" where
  "removeContainerByName name cs = filter (\<lambda>c. coName c \<noteq> name) cs"

definition removeVolumesByName :: "string list \<Rightarrow> Volume list \<Rightarrow> Volume list" where
  "removeVolumesByName names vs = filter (\<lambda>v. voName v \<notin> set names) vs"

definition injectDstStunnelSidecar :: "kenv \<Rightarrow> string \<Rightarrow> string \<Rightarrow> Pod \<Rightarrow> Pod" where
  "injectDstStunnelSidecar E srcNode dstNode pod =
     pod\<lparr>pContainers := removeContainerByName ''migration-stunnel'' (pContainers pod) @
                         [dstStunnelSidecar E (MigrationNodeCertSAN srcNode)],
         pVolumes := removeVolumesByName [''migration-stunnel-config'', ''migration-tls'', ''migration-input''] (pVolumes pod) @
                      dstStunnelVolumes (MigrationNodeSecretName dstNode)\<rparr>"

definition new_dst_meta :: "kenv \<Rightarrow> SwiftMigration \<Rightarrow> SwiftGuest \<Rightarrow> Pod \<Rightarrow> (string \<times> string) list \<Rightarrow> string \<Rightarrow> Pod" where
  "new_dst_meta E mig guest src ovn name =
     src\<lparr>pName := name, pUID := '''', pGeneration := 0, pDeleting := False,
         pLabels := mergeLabelsForDst (pLabels src) (gName guest) (mName mig),
         pAnnotations := mergeAnnotationsForDst (pAnnotations src) (kMTLS E) ovn,
         pOwners := [\<lparr>orKind = ''SwiftGuest'', orName = gName guest, orUID = gUID guest, orController = Some True\<rparr>],
         pNodeName := mTargetNode mig\<rparr>"

definition reset_pod_status :: "Pod \<Rightarrow> Pod" where
  "reset_pod_status p =
     p\<lparr>pPhase := '''', pPodIP := '''', pReady := False, pInitContainerStatuses := [], pContainerStatuses := []\<rparr>"

text \<open>Passing an error on.\<close>

definition bind_res :: "'a res \<Rightarrow> ('a \<Rightarrow> 'b res) \<Rightarrow> 'b res" where
  "bind_res r f = (case r of Inl e \<Rightarrow> Inl e | Inr x \<Rightarrow> f x)"

definition newDstPod ::
  "kenv \<Rightarrow> SwiftMigration \<Rightarrow> SwiftGuest \<Rightarrow> Pod \<Rightarrow> string \<Rightarrow> (string \<times> string) list \<Rightarrow> Pod res" where
  "newDstPod E mig guest src frozenCM ovn =
     bind_res (dstPodName mig (gName guest)) (\<lambda>name.
     bind_res (addReceiverEnvToLauncher (new_dst_meta E mig guest src ovn name)) (\<lambda>pod1.
     bind_res (setLauncherEnv ''KUBESWIFT_GUEST_NAME'' (gName guest) pod1) (\<lambda>pod2.
       let pod3 = (if frozenCM \<noteq> '''' then repointRuntimeIntentVolume frozenCM pod2 else pod2)
       in if \<not> kMTLS E then Inr (reset_pod_status pod3)
          else if gStatusNodeName guest = '''' \<or> mTargetNode mig = ''''
          then Inl (Errorf (''dst pod construction: mTLS enabled but node names unresolved (src='' @ Quote (gStatusNodeName guest) @
                 '' dst='' @ Quote (mTargetNode mig) @ ''); cannot pin SAN / mount identity Secret''))
          else Inr (reset_pod_status (injectDstStunnelSidecar E (gStatusNodeName guest) (mTargetNode mig) pod3)))))"

definition dstPodMatches :: "Pod \<Rightarrow> SwiftMigration \<Rightarrow> SwiftGuest \<Rightarrow> bool" where
  "dstPodMatches existing mig guest =
     (if at (pLabels existing) LabelGuestName \<noteq> gName guest then False
      else if at (pLabels existing) LabelMigrationRole \<noteq> ''destination'' then False
      else if at (pLabels existing) LabelMigrationName \<noteq> mName mig then False
      else list_ex (\<lambda>o'. orKind o' = ''SwiftGuest'' \<and> orName o' = gName guest \<and> orController o' = Some True) (pOwners existing))"

fun first_image_diff :: "string \<Rightarrow> strmap \<Rightarrow> Container list \<Rightarrow> string" where
  "first_image_diff kind images [] = ''''"
| "first_image_diff kind images (c # cs) =
     (case images (coName c) of
        None \<Rightarrow> ''unexpected '' @ kind @ '' '' @ Quote (coName c)
      | Some want \<Rightarrow>
          if coImage c \<noteq> want
          then kind @ '' '' @ Quote (coName c) @ '' image '' @ Quote (coImage c) @ '', want '' @ Quote want
          else first_image_diff kind images cs)"

definition images_diff :: "string \<Rightarrow> Container list \<Rightarrow> Container list \<Rightarrow> string" where
  "images_diff kind g w =
     (if length g \<noteq> length w then dec (length g) @ '' '' @ kind @ '', want '' @ dec (length w)
      else first_image_diff kind (map_of (rev (map (\<lambda>c. (coName c, coImage c)) w))) g)"

definition podImagesDiff :: "Pod \<Rightarrow> Pod \<Rightarrow> string" where
  "podImagesDiff got want =
     (let d = images_diff ''init containers'' (pInitContainers got) (pInitContainers want)
      in if d \<noteq> '''' then d else images_diff ''containers'' (pContainers got) (pContainers want))"

definition dstPodReady :: "Pod \<Rightarrow> bool" where
  "dstPodReady pod = (if pPhase pod \<noteq> ''Running'' then False else pReady pod)"

section \<open>Preparing\<close>

definition preparingLiveReadyBudget :: int where
  "preparingLiveReadyBudget = 60 * second"

definition preparingLivePollInterval :: int where
  "preparingLivePollInterval = 2 * second"

definition phaseDetailLivePreparingCreating :: string where
  "phaseDetailLivePreparingCreating = ''creating destination pod''"

definition phaseDetailLivePreparingWaiting :: string where
  "phaseDetailLivePreparingWaiting = ''waiting for destination pod ready''"

definition stamp_inputs :: "Pod \<Rightarrow> string \<Rightarrow> string \<Rightarrow> Pod" where
  "stamp_inputs src dstIP san =
     src\<lparr>pAnnotations := (pAnnotations src)(AnnotationDstPodIP \<mapsto> dstIP, AnnotationPeerSAN \<mapsto> san)\<rparr>"

definition stampSourceMigrationInputs :: "kenv \<Rightarrow> Pod \<Rightarrow> string \<Rightarrow> string \<Rightarrow> unit kprog" where
  "stampSourceMigrationInputs E src dstIP dstNodeSAN =
     (if annotation src AnnotationDstPodIP = dstIP \<and> annotation src AnnotationPeerSAN = dstNodeSAN then ret ()
      else ignoring (patchPod E src (stamp_inputs src dstIP dstNodeSAN)))"

definition preparing_waiting :: "int \<Rightarrow> SwiftMigrationStatus \<Rightarrow> SwiftMigrationStatus" where
  "preparing_waiting now st =
     setPhaseDetail phaseDetailLivePreparingWaiting
       (setReadyCondition now ''False'' ''Preparing'' phaseDetailLivePreparingWaiting st)"

definition create_destination ::
  "kenv \<Rightarrow> int \<Rightarrow> SwiftMigration \<Rightarrow> SwiftGuest \<Rightarrow> Pod \<Rightarrow> string \<Rightarrow> SwiftMigrationStatus \<Rightarrow> handled kprog" where
  "create_destination E now mig guest src expectedDstName st =
     (case sourcePodCopyable src guest of
        Some res \<Rightarrow> ret (res, st)
      | None \<Rightarrow>
          orTransient ''ensure frozen dst intent: '' st (freezeIntent E expectedDstName)
            (\<lambda>frozenCM. orTransient ''resolve OVN dst identity: '' st (ovnAnnotations E (gName guest))
               (\<lambda>ovn. case newDstPod E mig guest src frozenCM ovn of
                  Inl e \<Rightarrow> failWith (''construct dst pod: '' @ err_msg e) ''Other'' st
                | Inr dst \<Rightarrow>
                    (let st1 = setPhaseDetail phaseDetailLivePreparingCreating st
                     in andThen (attempt (createPod E dst))
                          (\<lambda>r. case r of
                             Inl e \<Rightarrow>
                               if errors_Is e ErrAlreadyExists then ret (phaseRequeue preparingLivePollInterval, st1)
                               else failTransient (Errorw ''create dst pod: '' e) st1
                           | Inr _ \<Rightarrow>
                               ret (phaseRequeue preparingLivePollInterval,
                                    preparing_waiting now (st1\<lparr>sDestinationPodRef := Some (pName dst)\<rparr>)))))))"

definition await_destination :: "kenv \<Rightarrow> int \<Rightarrow> Pod \<Rightarrow> SwiftMigrationStatus \<Rightarrow> handled kprog" where
  "await_destination E now dst st =
     (if dstPodReady dst
      then ret (phaseAdvance,
             setPhaseDetail ''destination pod ready; advancing to StopAndCopy''
               (setReadyCondition now ''False'' ''StopAndCopy'' ''destination pod ready; starting state copy''
                  (setPhase PhaseStopAndCopy st)))
      else if \<exists>t \<in> set_option (sPreparingStartedAt st). now - t > preparingLiveReadyBudget
      then andThen (notReadyCause E (pName dst))
             (\<lambda>cause. ret ((phaseFailure (''destination pod '' @ Quote (pName dst) @ '' never reached Ready within '' @
                              duration preparingLiveReadyBudget @ '' budget'' @ (if cause \<noteq> '''' then '': '' @ cause else ''''))
                              ''DstNeverReady'')\<lparr>prReported := True\<rparr>, st))
      else ret (phaseRequeue preparingLivePollInterval, preparing_waiting now st))"

definition adopt_destination ::
  "kenv \<Rightarrow> int \<Rightarrow> SwiftMigration \<Rightarrow> SwiftGuest \<Rightarrow> Pod \<Rightarrow> Pod \<Rightarrow> SwiftMigrationStatus \<Rightarrow> handled kprog" where
  "adopt_destination E now mig guest src dst st =
     (if \<not> dstPodMatches dst mig guest
      then failWith (''destination pod '' @ Quote (pName dst) @ '' exists but does not match expected ownership/labels (possible name collision)'')
             ''DstPodConflict'' st
      else case newDstPod E mig guest src '''' [] of
             Inl e \<Rightarrow> failWith (''construct dst pod: '' @ err_msg e) ''Other'' st
           | Inr expected \<Rightarrow>
               (let diff = podImagesDiff dst expected;
                    st1 = (if sDestinationPodRef st \<noteq> Some (pName dst) then st\<lparr>sDestinationPodRef := Some (pName dst)\<rparr> else st)
                in if diff \<noteq> ''''
                   then failWith (''destination pod '' @ Quote (pName dst) @ '' does not have the source launcher's images: '' @ diff)
                          ''DstPodConflict'' st
                   else if kMTLS E \<and> pPodIP dst \<noteq> ''''
                   then orTransient ''stamp source migration inputs: '' st1
                          (stampSourceMigrationInputs E src (pPodIP dst) (MigrationNodeCertSAN (mTargetNode mig)))
                          (\<lambda>_. await_destination E now dst st1)
                   else await_destination E now dst st1))"

definition prepare_destination ::
  "kenv \<Rightarrow> int \<Rightarrow> SwiftMigration \<Rightarrow> SwiftGuest \<Rightarrow> Pod \<Rightarrow> SwiftMigrationStatus \<Rightarrow> handled kprog" where
  "prepare_destination E now mig guest src st =
     (case dstPodName mig (gName guest) of
        Inl e \<Rightarrow> failWith (err_msg e) ''Other'' st
      | Inr name \<Rightarrow>
          orTransient ''ensure scoped dst launcher RBAC: '' st (called E ''EnsureScopedLauncherRBAC'' [mName mig, name])
            (\<lambda>_. whenFound (getPod E name)
               (create_destination E now mig guest src name st)
               (\<lambda>e. failTransient (Errorw ''get dst pod: '' e) st)
               (\<lambda>dst. adopt_destination E now mig guest src dst st)))"

text \<open>The source pod is read again after its UID has been compared.\<close>

definition check_source_uid :: "kenv \<Rightarrow> SwiftMigration \<Rightarrow> SwiftGuest \<Rightarrow> SwiftMigrationStatus \<Rightarrow> (phaseResult option \<times> SwiftMigrationStatus) kprog" where
  "check_source_uid E mig guest st =
     (if shouldCheckSourcePodUID mig \<and> sSourcePodUID st \<noteq> ''''
      then whenFound (getPod E (srcPodLookupName mig guest))
             (ret (Some (phaseFailure (''source pod for SwiftGuest '' @ Quote (gName guest) @ '' no longer exists during Preparing'')
                           ''SourcePodReplaced''), st))
             (\<lambda>e. ret (Some (phaseTransient (Errorw ''get source pod for UID check: '' e)), st))
             (\<lambda>src. ret (if pUID src \<noteq> sSourcePodUID st
                then Some (phaseFailure (''source pod for SwiftGuest '' @ Quote (gName guest) @ '' was replaced (UID changed from '' @
                       Quote (sSourcePodUID st) @ '' to '' @ Quote (pUID src) @ '')'') ''SourcePodReplaced'')
                else None, st))
      else ret (None, st))"

definition handlePreparingLive :: "kenv \<Rightarrow> int \<Rightarrow> SwiftMigration \<Rightarrow> SwiftMigrationStatus \<Rightarrow> handled kprog" where
  "handlePreparingLive E now mig st =
     (if \<not> isLiveMode mig st then failWith ''internal: handlePreparingLive invoked without live mode'' ''Other'' st
      else whenFound (getGuest E (mGuestRef mig))
             (failWith (''source SwiftGuest '' @ Quote (mGuestRef mig) @ '' deleted during Preparing'') ''Other'' st)
             (\<lambda>e. failTransient (Errorw ''get source guest: '' e) st)
             (\<lambda>guest. unlessStopped (check_source_uid E mig guest st)
                (\<lambda>st0. let st1 = (if sPreparingStartedAt st0 = None then st0\<lparr>sPreparingStartedAt := Some now\<rparr> else st0)
                   in whenFound (getPod E (srcPodLookupName mig guest))
                        (failWith (''source pod for SwiftGuest '' @ Quote (gName guest) @ '' no longer exists; cannot template dst pod'')
                           ''SourcePodReplaced'' st1)
                        (\<lambda>e. failTransient (Errorw ''get source pod: '' e) st1)
                        (\<lambda>src. prepare_destination E now mig guest src st1))))"

section \<open>Cutover\<close>

definition stopAndCopyLivePollInterval :: int where
  "stopAndCopyLivePollInterval = 2 * second"

definition poll_copy :: "SwiftMigrationStatus \<Rightarrow> handled kprog" where
  "poll_copy st = ret (phaseRequeue stopAndCopyLivePollInterval, st)"

definition PhaseDetailLiveDestRunning :: string where
  "PhaseDetailLiveDestRunning = ''destination running; waiting for the source's report''"

definition PhaseDetailLiveCutoverPodRef :: string where
  "PhaseDetailLiveCutoverPodRef = ''cutover: updating canonical pod''"

definition PhaseDetailLiveCutoverDeleteSrc :: string where
  "PhaseDetailLiveCutoverDeleteSrc = ''cutover: deleting source pod''"

definition PhaseDetailLiveCutoverCompleting :: string where
  "PhaseDetailLiveCutoverCompleting = ''cutover: completing''"

definition phaseDetailLiveResumingWaiting :: string where
  "phaseDetailLiveResumingWaiting = ''waiting for guest health on destination''"

definition phaseDetailLiveResumingHealthy :: string where
  "phaseDetailLiveResumingHealthy = ''destination guest healthy''"

definition cutoverStep1Timestamp :: "int \<Rightarrow> SwiftMigrationStatus \<Rightarrow> handled" where
  "cutoverStep1Timestamp now st =
     (phaseRequeue stopAndCopyLivePollInterval,
      setPhaseDetail PhaseDetailLiveCutoverDeleteSrc
        (setCondition now ''PodRefSwapped'' ''True'' ''CutoverStep1Complete''
           ''cutover step 1 complete: SwiftGuest.status.podRef.name patched to destination pod''
           (if sCutoverStep1At st = None then st\<lparr>sCutoverStep1At := Some now\<rparr> else st)))"

definition swap_pod_ref :: "string \<Rightarrow> string \<Rightarrow> SwiftGuest \<Rightarrow> SwiftGuest" where
  "swap_pod_ref dstName dstUID g = g\<lparr>gPodRef := Some \<lparr>prName = dstName, prUID = dstUID\<rparr>\<rparr>"

definition repin :: "kenv \<Rightarrow> SwiftMigration \<Rightarrow> SwiftGuest \<Rightarrow> SwiftGuest kprog" where
  "repin E mig guest =
     (if gNodeName guest \<noteq> '''' \<and> gNodeName guest \<noteq> mTargetNode mig
      then patchGuest E guest (guest\<lparr>gNodeName := mTargetNode mig\<rparr>) else ret guest)"

definition cutoverStep1 ::
  "kenv \<Rightarrow> int \<Rightarrow> SwiftMigration \<Rightarrow> SwiftGuest \<Rightarrow> string \<Rightarrow> string \<Rightarrow> SwiftMigrationStatus \<Rightarrow> handled kprog" where
  "cutoverStep1 E now mig guest dstName dstUID st =
     (let st1 = setPhaseDetail PhaseDetailLiveCutoverPodRef st
      in orTransient ''cutover step 1 (SwiftGuest spec.nodeName repin): '' st1 (repin E mig guest)
           (\<lambda>guest1. orTransient ''cutover step 1a (SwiftGuest podRef patch): '' st1
              (patchGuestStatus E guest1 (swap_pod_ref dstName dstUID guest1))
              (\<lambda>_. ret (cutoverStep1Timestamp now st1))))"

definition cutoverStep2 :: "kenv \<Rightarrow> int \<Rightarrow> string \<Rightarrow> SwiftMigrationStatus \<Rightarrow> handled kprog" where
  "cutoverStep2 E now srcName st =
     (let st1 = setPhaseDetail PhaseDetailLiveCutoverDeleteSrc st;
          dispatched = ret (phaseRequeue stopAndCopyLivePollInterval,
                            setPhaseDetail PhaseDetailLiveCutoverCompleting (stampCutoverStep2DispatchedAt now st1))
      in whenFound (deletePod E srcName None) dispatched
           (\<lambda>e. failTransient (Errorw ''cutover step 2 (Delete src pod): '' e) st1)
           (\<lambda>_. dispatched))"

definition cutoverStep3 :: "int \<Rightarrow> SwiftMigrationStatus \<Rightarrow> handled" where
  "cutoverStep3 now st =
     (phaseAdvance,
      setPhaseDetail phaseDetailLiveResumingWaiting
        (setReadyCondition now ''False'' ''Resuming'' ''cutover complete; awaiting destination guest health'' (setPhase PhaseResuming st)))"

definition executeCutover ::
  "kenv \<Rightarrow> int \<Rightarrow> SwiftMigration \<Rightarrow> SwiftGuest \<Rightarrow> string \<Rightarrow> string \<Rightarrow> SwiftMigrationStatus \<Rightarrow> handled kprog" where
  "executeCutover E now mig guest dstName dstUID st =
     orTransient ''get src pod by guest.Name during cutover: '' st (findPod E (srcPodLookupName mig guest))
       (\<lambda>src. case deriveCutoverStep mig guest (src \<noteq> None) dstName of
          cutoverStep1Pending \<Rightarrow> cutoverStep1 E now mig guest dstName dstUID st
        | cutoverStep1TimestampOnly \<Rightarrow> ret (cutoverStep1Timestamp now st)
        | cutoverStep2Pending \<Rightarrow> cutoverStep2 E now (srcPodLookupName mig guest) st
        | cutoverStep3Pending \<Rightarrow> ret (cutoverStep3 now st))"

section \<open>StopAndCopy\<close>

definition migrationActionTimeoutSeconds :: int where
  "migrationActionTimeoutSeconds = 600"

definition migrationListenPort :: int where
  "migrationListenPort = 6789"

definition migrationLocalPlaintextPort :: int where
  "migrationLocalPlaintextPort = 6790"

definition migrationReceiveArgs :: "string \<Rightarrow> string \<Rightarrow> string" where
  "migrationReceiveArgs listenURL guestIP =
     json_object ([(''listen_url'', json_string listenURL), (''timeout_seconds'', dec_int migrationActionTimeoutSeconds)] @
                  (if guestIP \<noteq> '''' then [(''guest_ip'', json_string guestIP)] else []))"

definition migrationSendArgs :: "string \<Rightarrow> int option \<Rightarrow> int option \<Rightarrow> int option \<Rightarrow> string" where
  "migrationSendArgs targetURL ram downtime connections =
     json_object ([(''target_url'', json_string targetURL), (''timeout_seconds'', dec_int migrationActionTimeoutSeconds)] @
                  json_opt_int ''guest_ram_mib'' ram @ json_opt_int ''downtime_ms'' downtime @
                  json_opt_int ''connections'' connections)"

text \<open>\<open>Quantity.Value\<close> rounds up to whole bytes; the result is cut to 32 bits.\<close>

definition guestRAMMiB :: "kenv \<Rightarrow> SwiftGuest \<Rightarrow> int option kprog" where
  "guestRAMMiB E guest =
     andThen (attempt (getClass E (gGuestClassRef guest)))
       (\<lambda>r. case r of
              Inl _ \<Rightarrow> ret None
            | Inr class \<Rightarrow>
                let miB = (gcMemory class + 999) div 1000 div (1024 * 1024)
                in ret (if miB \<le> 0 then None else Some (miB mod 2 ^ 32)))"

definition dropFinishedSnapshotAction :: "strmap \<Rightarrow> strmap" where
  "dropFinishedSnapshotAction a =
     (let i = at a ''kubeswift.io/snapshot-action-id'';
          s = at a ''kubeswift.io/snapshot-status''
      in if i = '''' \<or> at a ''kubeswift.io/snapshot-status-id'' \<noteq> i then a
         else if s = ''ready'' \<or> s = ''failed'' \<or> s = ''rejected''
         then a(''kubeswift.io/snapshot-action'' := None, ''kubeswift.io/snapshot-action-id'' := None,
                ''kubeswift.io/snapshot-action-args'' := None)
         else a)"

definition with_action :: "string \<Rightarrow> string \<Rightarrow> string \<Rightarrow> Pod \<Rightarrow> Pod" where
  "with_action action i args pod =
     pod\<lparr>pAnnotations := dropFinishedSnapshotAction ((pAnnotations pod)(AnnotationMigrationAction \<mapsto> action,
           AnnotationMigrationActionID \<mapsto> i, AnnotationMigrationActionArgs \<mapsto> args))\<rparr>"

definition writeMigrationAction :: "kenv \<Rightarrow> Pod \<Rightarrow> string \<Rightarrow> string \<Rightarrow> string \<Rightarrow> unit kprog" where
  "writeMigrationAction E pod action i args = ignoring (patchPod E pod (with_action action i args pod))"

text \<open>The source launcher labelled and, without mTLS, acknowledged as plaintext.\<close>

definition mark_source :: "kenv \<Rightarrow> SwiftMigration \<Rightarrow> Pod \<Rightarrow> Pod kprog" where
  "mark_source E mig src =
     (let needLabel = (at (pLabels src) LabelMigrationName \<noteq> mName mig);
          needAck = (\<not> kMTLS E \<and> annotation src AnnotationMigrationPhase2Ack \<noteq> ''ack'')
      in if needLabel \<or> needAck
         then patchPod E src
                (src\<lparr>pLabels := (if needLabel then (pLabels src)(LabelMigrationName \<mapsto> mName mig) else pLabels src),
                     pAnnotations := (if needAck then (pAnnotations src)(AnnotationMigrationPhase2Ack \<mapsto> ''ack'') else pAnnotations src)\<rparr>)
         else ret src)"

definition mark_source_opt :: "kenv \<Rightarrow> SwiftMigration \<Rightarrow> Pod option \<Rightarrow> Pod option kprog" where
  "mark_source_opt E mig src =
     (case src of None \<Rightarrow> ret None | Some p \<Rightarrow> andThen (mark_source E mig p) (\<lambda>p'. ret (Some p')))"

definition listen_url :: "kenv \<Rightarrow> string" where
  "listen_url E =
     (if kMTLS E then ''tcp:127.0.0.1:'' @ dec_int migrationLocalPlaintextPort else ''tcp:0.0.0.0:'' @ dec_int migrationListenPort)"

definition target_url :: "kenv \<Rightarrow> Pod \<Rightarrow> string" where
  "target_url E dst =
     (if kMTLS E then ''tcp:127.0.0.1:'' @ dec_int migrationLocalPlaintextPort
      else ''tcp:'' @ pPodIP dst @ '':'' @ dec_int migrationListenPort)"

definition on_pre_recv :: "kenv \<Rightarrow> int \<Rightarrow> SwiftMigration \<Rightarrow> Pod option \<Rightarrow> Pod \<Rightarrow> SwiftMigrationStatus \<Rightarrow> handled kprog" where
  "on_pre_recv E now mig src dst st =
     orTransient ''patch src pod (label + phase2 ack) at StopAndCopy entry: '' st (mark_source_opt E mig src)
       (\<lambda>src1. let guestIP = (case src1 of None \<Rightarrow> '''' | Some p \<Rightarrow> annotation p AnnotationGuestIP)
          in orTransient ''write receive-action on dst pod: '' st
               (writeMigrationAction E dst ''receive'' (recvActionID mig) (migrationReceiveArgs (listen_url E) guestIP))
               (\<lambda>_. poll_copy (setReadyCondition now ''False'' ''StopAndCopy'' ''issuing receive action on destination pod''
                      (setPhaseDetail PhaseDetailLiveIssuingRecv (st\<lparr>sRecvAttempts := 1\<rparr>)))))"

definition on_pre_send :: "kenv \<Rightarrow> int \<Rightarrow> SwiftMigration \<Rightarrow> SwiftGuest \<Rightarrow> Pod option \<Rightarrow> Pod \<Rightarrow> SwiftMigrationStatus \<Rightarrow> handled kprog" where
  "on_pre_send E now mig guest src dst st =
     (let st1 = setPhaseDetail PhaseDetailLiveDestReceiving st
      in case src of
           None \<Rightarrow> failWith (''source pod '' @ Quote (gName guest) @ '' disappeared between pre-recv and pre-send'') ''SourcePodReplaced'' st1
         | Some p \<Rightarrow>
             if pPodIP dst = '''' then poll_copy st1
             else andThen (guestRAMMiB E guest)
                    (\<lambda>ram. let st2 = st1\<lparr>sAppliedDowntimeMs := downtimeMs mig\<rparr>
                       in orTransient ''write send-action on src pod: '' st2
                            (writeMigrationAction E p ''send'' (sendActionID mig)
                               (migrationSendArgs (target_url E dst) ram (downtimeMs mig) (parallelConnections mig)))
                            (\<lambda>_. poll_copy (setReadyCondition now ''False'' ''StopAndCopy'' ''issuing send action on source pod''
                                   (setPhaseDetail PhaseDetailLiveIssuingSend (st2\<lparr>sSendAttempts := sendAttemptNumber mig\<rparr>))))))"

definition on_send_pending :: "int \<Rightarrow> SwiftMigration \<Rightarrow> Pod option \<Rightarrow> SwiftMigrationStatus \<Rightarrow> SwiftMigrationStatus" where
  "on_send_pending now mig src st =
     (if \<not> podStatusMatches src ''sending'' (sendActionID mig)
      then (case src of
              None \<Rightarrow> st
            | Some p \<Rightarrow>
                if annotation p AnnotationMigrationStatus = ''sending''
                then setReadyCondition now ''False'' ''StopAndCopy''
                       (''the source launcher is still running send '' @ Quote (annotation p AnnotationMigrationStatusID) @
                        ''; this migration's send has not started'')
                       (setPhaseDetail PhaseDetailLiveSourceBusy st)
                else st)
      else stampTransferProgress src (sendActionID mig)
             (setReadyCondition now ''False'' ''StopAndCopy'' ''transferring guest state from source to destination''
                (setPhaseDetail PhaseDetailLiveTransferring st)))"

definition committed_cutover ::
  "kenv \<Rightarrow> int \<Rightarrow> SwiftMigration \<Rightarrow> SwiftGuest \<Rightarrow> Pod option \<Rightarrow> string \<Rightarrow> Pod \<Rightarrow> SwiftMigrationStatus \<Rightarrow> handled kprog" where
  "committed_cutover E now mig guest src dstName dst st =
     executeCutover E now mig guest dstName (pUID dst) ((stampTransferDuration src st)\<lparr>sTransferProgress := Some 100\<rparr>)"

definition on_dst_running ::
  "kenv \<Rightarrow> int \<Rightarrow> SwiftMigration \<Rightarrow> SwiftGuest \<Rightarrow> Pod option \<Rightarrow> string \<Rightarrow> Pod \<Rightarrow> SwiftMigrationStatus \<Rightarrow> handled kprog" where
  "on_dst_running E now mig guest src dstName dst st =
     (case awaitSourceReport now st src of
        (True, st1) \<Rightarrow> poll_copy (setPhaseDetail PhaseDetailLiveDestRunning st1)
      | (False, st1) \<Rightarrow> committed_cutover E now mig guest src dstName dst st1)"

definition status_detail :: "Pod option \<Rightarrow> string" where
  "status_detail p = (case p of None \<Rightarrow> '''' | Some q \<Rightarrow> annotation q AnnotationMigrationStatusDtl)"

definition on_src_failed :: "kenv \<Rightarrow> int \<Rightarrow> SwiftMigration \<Rightarrow> Pod option \<Rightarrow> Pod \<Rightarrow> SwiftMigrationStatus \<Rightarrow> handled kprog" where
  "on_src_failed E now mig src dst st =
     (let detail = status_detail src;
          srcNotReady = isLocalStunnelNotReady detail;
          dstNotReady = isDestReceiverNotReady detail;
          dstOnly = (dstNotReady \<and> \<not> srcNotReady)
      in if kMTLS E \<and> (srcNotReady \<or> dstNotReady) \<and> \<not> pDeleting dst \<and> sendAttemptNumber mig < maxMTLSSendRetries
         then poll_copy
                (setReadyCondition now ''False'' ''StopAndCopy''
                   (if dstOnly then ''waiting for destination CH receiver to bind its listener; retrying send''
                    else ''waiting for source mTLS sidecar to become ready; retrying send'')
                   (setPhaseDetail (if dstOnly then ''destination receiver not ready; retrying send''
                                    else ''source mTLS sidecar not ready; retrying send'')
                      (st\<lparr>sSendAttempts := sendAttemptNumber mig + 1\<rparr>)))
         else failWith (''source reported migration failure: '' @ normalizeStatusDetail detail)
                (if pDeleting dst then ''PodTerminated'' else classifyFailureFromDetail detail) st)"

definition dispatch_substate ::
  "kenv \<Rightarrow> int \<Rightarrow> SwiftMigration \<Rightarrow> SwiftGuest \<Rightarrow> Pod option \<Rightarrow> string \<Rightarrow> Pod \<Rightarrow> SwiftMigrationStatus \<Rightarrow> handled kprog" where
  "dispatch_substate E now mig guest src dstName dst st =
     (case deriveSubstate mig src (Some dst) of
        substatePreRecv \<Rightarrow> on_pre_recv E now mig src dst st
      | substateRecvPending \<Rightarrow>
          poll_copy (setReadyCondition now ''False'' ''StopAndCopy'' ''awaiting destination receive acknowledgment''
            (setPhaseDetail PhaseDetailLiveIssuingRecv st))
      | substatePreSend \<Rightarrow> on_pre_send E now mig guest src dst st
      | substateSendPending \<Rightarrow> poll_copy (on_send_pending now mig src st)
      | substateSrcCompleted \<Rightarrow> committed_cutover E now mig guest src dstName dst st
      | substateDstRunning \<Rightarrow> on_dst_running E now mig guest src dstName dst st
      | substateDstFailed \<Rightarrow>
          failWith (''destination reported migration failure: '' @ normalizeStatusDetail (status_detail (Some dst)))
            (classifyFailureFromDetail (status_detail (Some dst))) st
      | substateSrcFailed \<Rightarrow> on_src_failed E now mig src dst st
      | substateDstRejected \<Rightarrow>
          failWith (''destination rejected migration action: '' @ normalizeStatusDetail (status_detail (Some dst))) ''Other'' st
      | substateSrcRejected \<Rightarrow>
          failWith (''source rejected migration action: '' @ normalizeStatusDetail (status_detail src)) ''Other'' st)"

definition source_replaced :: "SwiftMigration \<Rightarrow> SwiftGuest \<Rightarrow> Pod option \<Rightarrow> SwiftMigrationStatus \<Rightarrow> string option" where
  "source_replaced mig guest src st =
     (if shouldCheckSourcePodUID mig \<and> sSourcePodUID st \<noteq> ''''
      then case src of
             None \<Rightarrow> Some (''source pod for SwiftGuest '' @ Quote (gName guest) @ '' no longer exists during StopAndCopy'')
           | Some p \<Rightarrow>
               if pUID p \<noteq> sSourcePodUID st
               then Some (''source pod for SwiftGuest '' @ Quote (gName guest) @ '' was replaced (UID changed from '' @
                      Quote (sSourcePodUID st) @ '' to '' @ Quote (pUID p) @ '')'')
               else None
      else None)"

text \<open>With the guest and both launchers read.\<close>

definition copy_with_pods ::
  "kenv \<Rightarrow> int \<Rightarrow> SwiftMigration \<Rightarrow> SwiftGuest \<Rightarrow> Pod option \<Rightarrow> string \<Rightarrow> Pod \<Rightarrow> SwiftMigrationStatus \<Rightarrow> handled kprog" where
  "copy_with_pods E now mig guest src dstName dst st =
     (let committed = passedCommitPoint mig src (Some dst)
      in case (if committed then None else source_replaced mig guest src st) of
           Some msg \<Rightarrow> failWith msg ''SourcePodReplaced'' st
         | None \<Rightarrow>
             if \<exists>r \<in> set_option (gPodRef guest). prName r = dstName
             then executeCutover E now mig guest dstName (pUID dst) st
             else if \<not> committed \<and> timeoutExceeded now mig st then ret (timeoutFailure mig, st)
             else dispatch_substate E now mig guest src dstName dst st)"

definition handleStopAndCopyLive :: "kenv \<Rightarrow> int \<Rightarrow> SwiftMigration \<Rightarrow> SwiftMigrationStatus \<Rightarrow> handled kprog" where
  "handleStopAndCopyLive E now mig st =
     (if \<not> isLiveMode mig st then failWith ''internal: handleStopAndCopyLive invoked without live mode'' ''Other'' st
      else whenFound (getGuest E (mGuestRef mig))
             (failWith (''source SwiftGuest '' @ Quote (mGuestRef mig) @ '' deleted during StopAndCopy'') ''Other'' st)
             (\<lambda>e. failTransient (Errorw ''get source guest: '' e) st)
             (\<lambda>guest. orTransient ''get source pod: '' st (findPod E (srcPodLookupName mig guest))
                (\<lambda>src. case dstPodName mig (gName guest) of
                   Inl e \<Rightarrow> failWith (err_msg e) ''Other'' st
                 | Inr dstName \<Rightarrow>
                     orTransient ''get destination pod: '' st (findPod E dstName)
                       (\<lambda>dst. case dst of
                          None \<Rightarrow> failWith (''destination pod '' @ Quote dstName @ '' disappeared during StopAndCopy'') ''PodTerminated'' st
                        | Some d \<Rightarrow> copy_with_pods E now mig guest src dstName d st))))"

section \<open>Resuming\<close>

definition resumingLivePollInterval :: int where
  "resumingLivePollInterval = 5 * second"

definition isGuestRunningTrue :: "SwiftGuest \<Rightarrow> bool" where
  "isGuestRunningTrue guest = list_ex (\<lambda>c. fst c = ''GuestRunning'' \<and> snd c = ''True'') (gConditions guest)"

definition resuming_wait :: "int \<Rightarrow> SwiftMigration \<Rightarrow> string \<Rightarrow> SwiftMigrationStatus \<Rightarrow> handled kprog" where
  "resuming_wait now mig msg st =
     (if timeoutExceeded now mig st then ret (timeoutFailure mig, st)
      else ret (phaseRequeue resumingLivePollInterval,
                setReadyCondition now ''False'' ''Resuming'' msg (setPhaseDetail phaseDetailLiveResumingWaiting st)))"

definition complete_live :: "int \<Rightarrow> string \<Rightarrow> Pod \<Rightarrow> SwiftMigrationStatus \<Rightarrow> SwiftMigrationStatus" where
  "complete_live now dstName dst st =
     (let ip = annotation dst AnnotationGuestIP;
          st1 = (if ip \<noteq> '''' then st\<lparr>sTargetIP := ip\<rparr> else st);
          st2 = (case sCutoverStep2DispatchedAt st1 of
                   None \<Rightarrow> st1
                 | Some t \<Rightarrow> st1\<lparr>sObservedDowntime := Some (now - t)\<rparr>);
          st3 = setReadyCondition now ''True'' ''Completed''
                  (''live migration to '' @ Quote (sDestinationNode st2) @ '' complete; guest running on destination pod '' @ Quote dstName)
                  (setPhase PhaseCompleted (st2\<lparr>sCompletedAt := Some now\<rparr>))
      in setPhaseDetail (if sTargetIP st3 \<noteq> '''' then phaseDetailLiveResumingHealthy @ '' (IP '' @ sTargetIP st3 @ '')''
                         else phaseDetailLiveResumingHealthy) st3)"

definition handleResumingLive :: "kenv \<Rightarrow> int \<Rightarrow> SwiftMigration \<Rightarrow> SwiftMigrationStatus \<Rightarrow> handled kprog" where
  "handleResumingLive E now mig st =
     (if \<not> isLiveMode mig st then failWith ''internal: handleResumingLive invoked without live mode'' ''Other'' st
      else whenFound (getGuest E (mGuestRef mig))
             (failWith (''source SwiftGuest '' @ Quote (mGuestRef mig) @ '' deleted during Resuming'') ''Other'' st)
             (\<lambda>e. failTransient (Errorw ''get source guest: '' e) st)
             (\<lambda>guest.
                if \<not> (\<exists>r \<in> set_option (gPodRef guest). prName r \<noteq> '''')
                then failWith (''Resuming entered but SwiftGuest '' @ Quote (gName guest) @
                       '' has empty status.podRef.name; cutover step 1 must run before Resuming'') ''Other'' st
                else let st1 = (if sResumingStartedAt st = None then st\<lparr>sResumingStartedAt := Some now\<rparr> else st);
                         dstName = canonicalPodNameForGuest guest
                     in whenFound (getPod E dstName)
                          (failWith (''destination pod '' @ Quote dstName @
                             '' terminated post-cutover; SwiftGuest is now orphaned and requires operator intervention'') ''PodTerminated'' st1)
                          (\<lambda>e. failTransient (Errorw ''get destination pod: '' e) st1)
                          (\<lambda>dst.
                             if pPhase dst \<noteq> ''Running''
                             then resuming_wait now mig (''destination pod '' @ Quote dstName @ '' phase='' @ pPhase dst @ ''; awaiting Running'') st1
                             else if \<not> isGuestRunningTrue guest
                             then resuming_wait now mig ''awaiting GuestRunning=True on destination (live resume + swiftletd condition write)'' st1
                             else ret (phaseAdvance, complete_live now dstName dst st1))))"

end
