(* ===== verification/Migration_Offline.thy ===== *)
theory Migration_Offline
  imports Migration_Live
begin

text \<open>
  The phases of an offline migration: \<open>preparing.go\<close>, \<open>stopandcopy.go\<close>, \<open>resuming.go\<close>, the GPU steps of
  \<open>gpu_offline.go\<close> and the timeout of \<open>dst_not_ready.go\<close>. Each handler first hands a live migration to
  its live counterpart, as in the code.
\<close>

section \<open>GPU reservation\<close>

definition reserveTargetGPUs ::
  "kenv \<Rightarrow> SwiftMigration \<Rightarrow> SwiftGuest \<Rightarrow> SwiftMigrationStatus \<Rightarrow> (phaseResult option \<times> SwiftMigrationStatus) kprog" where
  "reserveTargetGPUs E mig guest st =
     andThen (attempt (resolveGPUProfile E guest))
       (\<lambda>r. case r of
              Inl e \<Rightarrow> ret (Some (phaseFailure (''reserve target GPUs: '' @ err_msg e) ''''), st)
            | Inr _ \<Rightarrow>
                andThen (attempt (reserveOnNode E (gName guest) (mTargetNode mig)))
                  (\<lambda>r. case r of
                         Inl e \<Rightarrow> ret (Some (phaseFailure (''reserve target GPUs on '' @ Quote (mTargetNode mig) @ '': '' @ err_msg e) ''''), st)
                       | Inr _ \<Rightarrow> ret (None, setPhaseDetail (''reserved target GPUs on '' @ Quote (mTargetNode mig)) st)))"

text \<open>The node the guest's GPUs are on, and its hypervisor, empty when it has none.\<close>

definition gpu_node :: "SwiftGuest \<Rightarrow> string" where
  "gpu_node guest = (case gGPU guest of None \<Rightarrow> '''' | Some u \<Rightarrow> ggNodeName u)"

definition gpu_hypervisor :: "SwiftGuest \<Rightarrow> string" where
  "gpu_hypervisor guest = (case gGPU guest of None \<Rightarrow> '''' | Some u \<Rightarrow> ggHypervisor u)"

definition with_gpus :: "string \<Rightarrow> string list \<times> int list \<times> int \<Rightarrow> SwiftGuest \<Rightarrow> SwiftGuest" where
  "with_gpus target r guest =
     (case r of (devices, numaNodes, partID) \<Rightarrow>
        guest\<lparr>gGPU := Some \<lparr>ggDevices = devices, ggPartitionID = partID, ggNUMANodes = numaNodes,
                             ggHypervisor = gpu_hypervisor guest, ggNodeName = target\<rparr>\<rparr>)"

text \<open>The guest as the status patch returns it, or the error that ends the pass.\<close>

definition cutoverGPUs :: "kenv \<Rightarrow> SwiftMigration \<Rightarrow> SwiftGuest \<Rightarrow> SwiftGuest kprog" where
  "cutoverGPUs E mig guest =
     (let target = mTargetNode mig
      in if \<exists>u \<in> set_option (gGPU guest). ggNodeName u = target then ret guest
         else andThen (wrapErr ''cutover GPUs: '' (resolveGPUProfile E guest))
           (\<lambda>_. andThen (wrapErr (''cutover: re-derive target reservation on '' @ Quote target @ '': '') (reserveOnNode E (gName guest) target))
              (\<lambda>r. andThen (if gpu_node guest \<noteq> '''' \<and> gpu_node guest \<noteq> target
                            then wrapErr (''cutover: release source GPUs on '' @ Quote (gpu_node guest) @ '': '')
                                   (called E ''ReleaseFromNode'' [gName guest, gpu_node guest])
                            else ret ())
                 (\<lambda>_. wrapErr (''cutover: stamp status.GPU='' @ Quote target @ '': '')
                        (patchGuestStatus E guest (with_gpus target r guest))))))"

section \<open>Preparing\<close>

definition PodTerminationGracePeriod :: int where
  "PodTerminationGracePeriod = 30"

definition preparingPollInterval :: int where
  "preparingPollInterval = 5 * second"

definition isPVCStillAttached :: "kenv \<Rightarrow> string \<Rightarrow> bool kprog" where
  "isPVCStillAttached E pvcName =
     whenFound (getPVC E pvcName) (ret False) (\<lambda>e. raise (Errorw (''get PVC '' @ Quote pvcName @ '': '') e))
       (\<lambda>pvc. if pvVolumeName pvc = '''' then ret False
          else andThen (wrapErr ''list VolumeAttachments: '' (listAttachments E))
                 (\<lambda>vas. ret (list_ex (\<lambda>va. vaPersistentVolume va = Some (pvVolumeName pvc)) vas)))"

definition RootDiskCloneName :: "string \<Rightarrow> string" where
  "RootDiskCloneName guestName = ''swiftguest-root-'' @ guestName"

definition claim_guest :: "SwiftMigration \<Rightarrow> SwiftGuest \<Rightarrow> SwiftGuest" where
  "claim_guest mig guest =
     guest\<lparr>gAnnotations := (gAnnotations guest)(AnnotationMigrationInProgress \<mapsto> mName mig), gRunPolicy := ''Stopped''\<rparr>"

definition await_detached :: "kenv \<Rightarrow> int \<Rightarrow> SwiftGuest \<Rightarrow> SwiftMigrationStatus \<Rightarrow> handled kprog" where
  "await_detached E now guest st =
     (let pvcName = RootDiskCloneName (gName guest)
      in orTransient '''' st (isPVCStillAttached E pvcName)
           (\<lambda>attached.
              if attached
              then ret (phaseRequeue preparingPollInterval,
                        setReadyCondition now ''False'' ''Preparing'' ''waiting for volume detach''
                          (setPhaseDetail (''waiting for volume detach (PVC '' @ Quote pvcName @ '')'') st))
              else ret (phaseAdvance,
                        setPhaseDetail ''patching SwiftGuest to start on destination node''
                          (setReadyCondition now ''False'' ''StopAndCopy'' ''stopping and copying state'' (setPhase PhaseStopAndCopy st)))))"

definition stop_source :: "kenv \<Rightarrow> int \<Rightarrow> SwiftGuest \<Rightarrow> SwiftMigrationStatus \<Rightarrow> handled kprog" where
  "stop_source E now guest st =
     whenFound (getPod E (canonicalPodNameForGuest guest))
       (await_detached E now guest st)
       (\<lambda>e. failTransient (Errorw ''get source pod: '' e) st)
       (\<lambda>pod. orTransient ''delete source pod: '' st
          (if pDeleting pod then ret () else ignoreNotFound (deletePod E (pName pod) (Some PodTerminationGracePeriod)))
          (\<lambda>_. ret (phaseRequeue preparingPollInterval,
                    setReadyCondition now ''False'' ''Preparing'' ''waiting for source pod termination''
                      (setPhaseDetail ''waiting for source pod termination'' st))))"

definition handlePreparing :: "kenv \<Rightarrow> int \<Rightarrow> SwiftMigration \<Rightarrow> SwiftMigrationStatus \<Rightarrow> handled kprog" where
  "handlePreparing E now mig st =
     (if isLiveMode mig st then handlePreparingLive E now mig st
      else whenFound (getGuest E (mGuestRef mig))
             (failWith (''source SwiftGuest '' @ Quote (mGuestRef mig) @ '' deleted during Preparing'') '''' st)
             (\<lambda>e. failTransient (Errorw ''get source guest: '' e) st)
             (\<lambda>guest. let current = at (gAnnotations guest) AnnotationMigrationInProgress
                in if current \<noteq> '''' \<and> current \<noteq> mName mig
                   then failWith (''another SwiftMigration '' @ Quote current @ '' is already in progress for SwiftGuest '' @
                          Quote (gName guest)) '''' st
                   else unlessStopped (if HasVFIODevices guest then reserveTargetGPUs E mig guest st else ret (None, st))
                          (\<lambda>st1. if current = ''''
                             then orTransient ''claim SwiftGuest with annotation + runPolicy=Stopped: '' st1
                                    (patchGuest E guest (claim_guest mig guest))
                                    (\<lambda>guest1. stop_source E now guest1 (setPhaseDetail ''claimed SwiftGuest; deleting source launcher pod'' st1))
                             else stop_source E now guest st1)))"

section \<open>StopAndCopy\<close>

definition stopAndCopyPollInterval :: int where
  "stopAndCopyPollInterval = 2 * second"

definition retarget :: "string \<Rightarrow> SwiftGuest \<Rightarrow> SwiftGuest" where
  "retarget target guest = guest\<lparr>gRunPolicy := ''Running'', gNodeName := target\<rparr>"

definition await_scheduled :: "kenv \<Rightarrow> int \<Rightarrow> string \<Rightarrow> SwiftGuest \<Rightarrow> SwiftMigrationStatus \<Rightarrow> handled kprog" where
  "await_scheduled E now target guest st =
     whenFound (getPod E (gName guest))
       (ret (phaseRequeue stopAndCopyPollInterval,
             setReadyCondition now ''False'' ''StopAndCopy'' ''awaiting destination pod creation''
               (setPhaseDetail ''awaiting destination pod creation'' st)))
       (\<lambda>e. failTransient (Errorw ''get destination pod: '' e) st)
       (\<lambda>pod.
          let sel = at (pNodeSelector pod) ''kubernetes.io/hostname''
          in if pNodeName pod = ''''
             then (if sel \<noteq> '''' \<and> sel \<noteq> target
                   then failWith (''destination pod '' @ Quote (pName pod) @ '' pins to '' @ Quote sel @ '' via nodeSelector, expected '' @
                          Quote target @ '' (atomicity invariant violated)'') '''' st
                   else ret (phaseRequeue stopAndCopyPollInterval,
                             setReadyCondition now ''False'' ''StopAndCopy'' ''awaiting destination pod scheduling''
                               (setPhaseDetail (''awaiting destination pod scheduling on '' @ Quote target) st)))
             else if pNodeName pod \<noteq> target
             then failWith (''destination pod '' @ Quote (pName pod) @ '' scheduled on '' @ Quote (pNodeName pod) @ '', expected '' @
                    Quote target @ '' (atomicity invariant violated)'') '''' st
             else ret (phaseAdvance,
                       setPhaseDetail ''awaiting GuestRunning on destination (boot ~17s on warm cache)''
                         (setReadyCondition now ''False'' ''Resuming'' ''awaiting GuestRunning on destination''
                            (setPhase PhaseResuming (st\<lparr>sDestinationPodRef := Some (pName pod)\<rparr>)))))"

definition move_guest :: "kenv \<Rightarrow> int \<Rightarrow> string \<Rightarrow> SwiftGuest \<Rightarrow> SwiftMigrationStatus \<Rightarrow> handled kprog" where
  "move_guest E now target guest st =
     (if gRunPolicy guest \<noteq> ''Running'' \<or> gNodeName guest \<noteq> target
      then orTransient ''combined patch runPolicy+nodeName: '' st (patchGuest E guest (retarget target guest))
             (\<lambda>guest1. await_scheduled E now target guest1
                (setPhaseDetail (''patched SwiftGuest to run on '' @ Quote target @ ''; awaiting destination pod'') st))
      else await_scheduled E now target guest st)"

definition handleStopAndCopy :: "kenv \<Rightarrow> int \<Rightarrow> SwiftMigration \<Rightarrow> SwiftMigrationStatus \<Rightarrow> handled kprog" where
  "handleStopAndCopy E now mig st =
     (if isLiveMode mig st then handleStopAndCopyLive E now mig st
      else whenFound (getGuest E (mGuestRef mig))
             (failWith (''source SwiftGuest '' @ Quote (mGuestRef mig) @ '' deleted during StopAndCopy'') '''' st)
             (\<lambda>e. failTransient (Errorw ''get source guest: '' e) st)
             (\<lambda>guest.
                if at (gAnnotations guest) AnnotationMigrationInProgress \<noteq> mName mig
                then failWith (''SwiftGuest '' @ Quote (gName guest) @
                       '' is missing the in-progress annotation for this migration; the phase ordering invariant was violated'') '''' st
                else orTransient '''' st (if HasVFIODevices guest then cutoverGPUs E mig guest else ret guest)
                       (\<lambda>guest1. move_guest E now (mTargetNode mig) guest1 st)))"

section \<open>Resuming\<close>

definition resumingPollInterval :: int where
  "resumingPollInterval = 5 * second"

definition resume_poll :: "int \<Rightarrow> string \<Rightarrow> string \<Rightarrow> SwiftMigrationStatus \<Rightarrow> handled kprog" where
  "resume_poll now detail ready st =
     ret (phaseRequeue resumingPollInterval, setReadyCondition now ''False'' ''Resuming'' ready (setPhaseDetail detail st))"

text \<open>The first init container that ended with an error: its name, exit code and reason.\<close>

definition failed_init :: "Pod \<Rightarrow> (string \<times> int \<times> string) option" where
  "failed_init pod =
     (case List.map_filter (\<lambda>ic. case csTerminated ic of
             None \<Rightarrow> None
           | Some (code, reason) \<Rightarrow> if code \<noteq> 0 then Some (csName ic, code, reason) else None) (pInitContainerStatuses pod) of
        [] \<Rightarrow> None
      | x # _ \<Rightarrow> Some x)"

definition release_annotation :: "SwiftGuest \<Rightarrow> SwiftGuest" where
  "release_annotation guest = guest\<lparr>gAnnotations := (gAnnotations guest)(AnnotationMigrationInProgress := None)\<rparr>"

definition complete_offline :: "int \<Rightarrow> string \<Rightarrow> SwiftMigrationStatus \<Rightarrow> SwiftMigrationStatus" where
  "complete_offline now ip st =
     (let st1 = st\<lparr>sCompletedAt := Some now\<rparr>;
          st2 = (case sStartedAt st1 of None \<Rightarrow> st1 | Some t \<Rightarrow> st1\<lparr>sObservedDowntime := Some (now - t)\<rparr>)
      in setPhaseDetail (''guest running on '' @ Quote (sDestinationNode st2) @ '' with IP '' @ ip)
           (setReadyCondition now ''True'' ''Completed''
              (''migration to '' @ Quote (sDestinationNode st2) @ '' complete; guest running with IP '' @ ip)
              (setPhase PhaseCompleted st2)))"

text \<open>A failure to clear the annotation only records an event. The address is read from the patched guest.\<close>

definition finish_offline :: "kenv \<Rightarrow> int \<Rightarrow> SwiftMigration \<Rightarrow> SwiftGuest \<Rightarrow> SwiftMigrationStatus \<Rightarrow> handled kprog" where
  "finish_offline E now mig guest st =
     (let ip = (\<lambda>g. case gPrimaryIP g of None \<Rightarrow> '''' | Some i \<Rightarrow> i)
      in if at (gAnnotations guest) AnnotationMigrationInProgress = mName mig
         then andThen (attempt (patchGuest E guest (release_annotation guest)))
                (\<lambda>r. ret (phaseAdvance, complete_offline now (ip (case r of Inl _ \<Rightarrow> guest | Inr g \<Rightarrow> g)) st))
         else ret (phaseAdvance, complete_offline now (ip guest) st))"

definition resume_with_pod :: "kenv \<Rightarrow> int \<Rightarrow> SwiftMigration \<Rightarrow> SwiftGuest \<Rightarrow> Pod \<Rightarrow> SwiftMigrationStatus \<Rightarrow> handled kprog" where
  "resume_with_pod E now mig guest dst st =
     (case failed_init dst of
        Some (n, code, reason) \<Rightarrow>
          failWith (''destination guest failed to boot on '' @ Quote (sDestinationNode st) @ '': init container '' @ Quote n @
            '' exited '' @ dec_int code @ '' ('' @ reason @ '')'') '''' st
      | None \<Rightarrow>
          if \<not> list_ex (\<lambda>c. csName c = ''launcher'' \<and> csReady c) (pContainerStatuses dst)
          then resume_poll now ''awaiting destination launcher start'' ''awaiting destination guest boot'' st
          else if \<not> list_ex (\<lambda>c. fst c = ''GuestRunning'' \<and> snd c = ''True'') (gConditions guest)
          then resume_poll now ''awaiting GuestRunning=True on destination'' ''awaiting GuestRunning on destination (boot ~17s on warm cache)'' st
          else if \<not> (\<exists>i \<in> set_option (gPrimaryIP guest). i \<noteq> '''')
          then resume_poll now ''awaiting primaryIP discovery on destination'' ''awaiting primaryIP discovery'' st
          else finish_offline E now mig guest st)"

definition handleResuming :: "kenv \<Rightarrow> int \<Rightarrow> SwiftMigration \<Rightarrow> SwiftMigrationStatus \<Rightarrow> handled kprog" where
  "handleResuming E now mig st =
     (if isLiveMode mig st then handleResumingLive E now mig st
      else whenFound (getGuest E (mGuestRef mig))
             (failWith (''source SwiftGuest '' @ Quote (mGuestRef mig) @ '' deleted during Resuming'') '''' st)
             (\<lambda>e. failTransient (Errorw ''get source guest: '' e) st)
             (\<lambda>guest. whenFound (getPod E (gName guest))
                (resume_poll now ''awaiting destination pod (re)creation'' ''awaiting destination pod creation'' st)
                (\<lambda>e. failTransient (Errorw ''get destination pod: '' e) st)
                (\<lambda>dst. resume_with_pod E now mig guest dst st)))"

section \<open>The timeout\<close>

definition offlineTimeoutFailure :: "kenv \<Rightarrow> SwiftMigration \<Rightarrow> string \<Rightarrow> phaseResult kprog" where
  "offlineTimeoutFailure E mig phase =
     (let res = timeoutFailure mig
      in if phase \<noteq> PhaseStopAndCopy \<and> phase \<noteq> PhaseResuming then ret res
         else andThen (attempt (getPod E (mGuestRef mig)))
           (\<lambda>r. case r of
                  Inl _ \<Rightarrow> ret res
                | Inr pod \<Rightarrow>
                    if dstPodReady pod then ret res
                    else andThen (notReadyCause E (pName pod))
                           (\<lambda>cause. if cause = '''' then ret res
                              else ret (res\<lparr>prFailureMsg := prFailureMsg res @ ''; '' @ ''destination pod '' @ Quote (pName pod) @
                                              '' is not Ready: '' @ cause\<rparr>))))"

end
