(* ===== verification/Migration_Controller.thy ===== *)
theory Migration_Controller
  imports Migration_Offline
begin

text \<open>
  A pass of the migration controller: \<open>controller.go\<close> (\<open>Reconcile\<close>, \<open>dispatchResult\<close>, \<open>persist\<close>,
  \<open>handleTerminalRetention\<close> and the watch mappings) and \<open>resolveBeforeFailing\<close> of \<open>abort_live.go\<close>.
\<close>

section \<open>Writing the status\<close>

definition terminal_stamped :: "int \<Rightarrow> SwiftMigration \<Rightarrow> SwiftMigrationStatus \<Rightarrow> SwiftMigrationStatus" where
  "terminal_stamped now mig st =
     (if isTerminalPhase (sPhase st) \<and> \<not> isTerminalPhase (sPhase (mStatus mig)) \<and> sTerminalAt st = None
      then st\<lparr>sTerminalAt := Some now\<rparr> else st)"

definition persist :: "kenv \<Rightarrow> int \<Rightarrow> SwiftMigration \<Rightarrow> SwiftMigrationStatus \<Rightarrow> unit kprog" where
  "persist E now mig st =
     (if mStatus mig = st then ret ()
      else whenFound (patchMigStatus E mig (terminal_stamped now mig st) False) (ret ())
             (\<lambda>e. raise (Errorw ''patch SwiftMigration status: '' e)) (\<lambda>_. ret ()))"

section \<open>Results\<close>

text \<open>\<open>Inl\<close> holds the failure back for this pass; \<open>Inr\<close> is how the ownership of the guest was resolved.\<close>

definition resolveBeforeFailing ::
  "kenv \<Rightarrow> int \<Rightarrow> SwiftMigration \<Rightarrow> SwiftMigrationStatus \<Rightarrow> phaseResult \<Rightarrow> (ctrlResult + abortResolution) kprog" where
  "resolveBeforeFailing E now mig st result =
     (if \<not> isLiveMode mig st \<or> isPostCutover mig then ret (Inr (resolution abortNoSend ''none'' ''''))
      else andThen (resolveSourceOwnership E now mig)
        (\<lambda>res.
           if arOutcome res = abortPending
           then andThen (persist E now mig (setPhaseDetail (triggerText (abortTriggerFor result) @ ''; '' @ arDetail res) st))
                  (\<lambda>_. ret (Inl (arRequeue res)))
           else if arOutcome res = abortCommitted then ret (Inl (requeueAfter cancelPollInterval))
           else ret (Inr res)))"

definition failed_status :: "int \<Rightarrow> phaseResult \<Rightarrow> SwiftMigrationStatus \<Rightarrow> SwiftMigrationStatus" where
  "failed_status now result st =
     (let st1 = (setReadyCondition now ''False'' ''MigrationFailed'' (prFailureMsg result) (setPhase PhaseFailed st))
                  \<lparr>sFailureMessage := prFailureMsg result\<rparr>;
          st2 = (if prFailureReason result \<noteq> '''' then st1\<lparr>sFailureReason := prFailureReason result\<rparr> else st1)
      in st2\<lparr>sCompletedAt := Some now\<rparr>)"

definition apply_failure ::
  "kenv \<Rightarrow> int \<Rightarrow> SwiftMigration \<Rightarrow> SwiftMigrationStatus \<Rightarrow> phaseResult \<Rightarrow> abortResolution \<Rightarrow> ctrlResult kprog" where
  "apply_failure E now mig st result res =
     andThen (if arOutcome res = abortUnresolved then deleteAbandonedDestination E mig res else ret ())
       (\<lambda>_. andThen (wrapErr ''clear cancel action on the source launcher: '' (clearLauncherCancel E mig))
          (\<lambda>_. andThen (wrapErr ''terminal-phase cleanup: '' (onTerminalPhase E mig (failed_status now result st)))
             (\<lambda>_. andThen (persist E now mig (failed_status now result st)) (\<lambda>_. ret noRequeue))))"

definition dispatchResult ::
  "kenv \<Rightarrow> int \<Rightarrow> SwiftMigration \<Rightarrow> SwiftMigrationStatus \<Rightarrow> phaseResult \<Rightarrow> ctrlResult kprog" where
  "dispatchResult E now mig st result =
     (case prErr result of
        Some e \<Rightarrow> raise e
      | None \<Rightarrow>
          if prFailureMsg result \<noteq> ''''
          then andThen (resolveBeforeFailing E now mig st result)
                 (\<lambda>r. case r of Inl held \<Rightarrow> ret held | Inr res \<Rightarrow> apply_failure E now mig st result res)
          else if prAdvanced result then andThen (persist E now mig st) (\<lambda>_. ret requeueNow)
          else andThen (persist E now mig st) (\<lambda>_. ret (requeueAfter (prRequeue result))))"

definition dispatched :: "kenv \<Rightarrow> int \<Rightarrow> SwiftMigration \<Rightarrow> handled kprog \<Rightarrow> ctrlResult kprog" where
  "dispatched E now mig m = andThen m (\<lambda>(result, st). dispatchResult E now mig st result)"

section \<open>Retention\<close>

definition migrationRetentionMaxRequeue :: int where
  "migrationRetentionMaxRequeue = 3600 * second"

definition handleTerminalRetention :: "kenv \<Rightarrow> int \<Rightarrow> SwiftMigration \<Rightarrow> ctrlResult kprog" where
  "handleTerminalRetention E now mig =
     (case (mTTL mig, sTerminalAt (mStatus mig)) of
        (Some ttl, Some at') \<Rightarrow>
          (if now < at' + ttl
           then ret (requeueAfter (min (at' + ttl - now) migrationRetentionMaxRequeue))
           else andThen (ignoreNotFound (deleteMig E (mName mig))) (\<lambda>_. ret noRequeue))
      | _ \<Rightarrow> ret noRequeue)"

section \<open>The pass\<close>

definition reconcile_terminal :: "kenv \<Rightarrow> int \<Rightarrow> SwiftMigration \<Rightarrow> ctrlResult kprog" where
  "reconcile_terminal E now mig =
     andThen (wrapErr (''clear receive action on the guest's launcher: '') (clearDestinationReceive E mig))
       (\<lambda>_. andThen (wrapErr ''clear cancel action on the source launcher: '' (clearLauncherCancel E mig))
          (\<lambda>_. if hasFinalizer mig
             then andThen (wrapErr ''cleanup copied node identities: '' (cleanupCopiedNodeIdentities E mig))
                    (\<lambda>_. andThen (removeFinalizer E mig) (\<lambda>_. ret noRequeue))
             else handleTerminalRetention E now mig))"

definition started :: "int \<Rightarrow> SwiftMigration \<Rightarrow> SwiftMigrationStatus" where
  "started now mig = (if sStartedAt (mStatus mig) = None then (mStatus mig)\<lparr>sStartedAt := Some now\<rparr> else mStatus mig)"

definition begin_validating :: "int \<Rightarrow> SwiftMigrationStatus \<Rightarrow> SwiftMigrationStatus" where
  "begin_validating now st =
     setPhaseDetail ''validating migration request''
       (setReadyCondition now ''False'' ''Validating'' ''running validation'' (setPhase PhaseValidating st))"

definition dispatch_phase :: "kenv \<Rightarrow> int \<Rightarrow> SwiftMigration \<Rightarrow> ctrlResult kprog" where
  "dispatch_phase E now mig =
     (let phase = (if sPhase (mStatus mig) = '''' then PhasePending else sPhase (mStatus mig));
          st = started now mig
      in if phase \<noteq> PhasePending \<and> \<not> isLiveMode mig st \<and> timeoutExceeded now mig st
         then andThen (offlineTimeoutFailure E mig phase) (dispatchResult E now mig st)
         else if phase = PhasePending then andThen (persist E now mig (begin_validating now st)) (\<lambda>_. ret requeueNow)
         else if phase = PhaseValidating then dispatched E now mig (handleValidating E now mig st)
         else if phase = PhasePreparing then dispatched E now mig (handlePreparing E now mig st)
         else if phase = PhaseStopAndCopy then dispatched E now mig (handleStopAndCopy E now mig st)
         else if phase = PhaseResuming then dispatched E now mig (handleResuming E now mig st)
         else ret (requeueAfter (30 * second)))"

definition reconcile_active :: "kenv \<Rightarrow> int \<Rightarrow> SwiftMigration \<Rightarrow> ctrlResult kprog" where
  "reconcile_active E now mig0 =
     andThen (ensureFinalizer E mig0)
       (\<lambda>mig1. andThen (honorCancel E now mig1)
          (\<lambda>r. case r of Inl res \<Rightarrow> ret res | Inr mig \<Rightarrow> dispatch_phase E now mig))"

definition reconcile_present :: "kenv \<Rightarrow> int \<Rightarrow> SwiftMigration \<Rightarrow> ctrlResult kprog" where
  "reconcile_present E now mig =
     (if isTerminalPhase (sPhase (mStatus mig)) then reconcile_terminal E now mig else reconcile_active E now mig)"

definition Reconcile :: "kenv \<Rightarrow> int \<Rightarrow> string \<Rightarrow> ctrlResult kprog" where
  "Reconcile E now name =
     whenFound (getMig E name) (ret noRequeue) raise
       (\<lambda>mig. if mDeleting mig
          then andThen (finishCutoverBeforeDeletion E mig)
                 (\<lambda>forward. if forward then reconcile_present E now mig else handleCancellation E now mig)
          else reconcile_present E now mig)"

section \<open>Watches\<close>

definition findActiveMigrationsForGuest :: "kenv \<Rightarrow> string \<Rightarrow> string list kprog" where
  "findActiveMigrationsForGuest E guestName =
     andThen (attempt (listMigs E))
       (\<lambda>r. case r of
              Inl _ \<Rightarrow> ret []
            | Inr migs \<Rightarrow>
                ret (map mName (filter (\<lambda>m. mGuestRef m = guestName \<and> \<not> isTerminalPhase (sPhase (mStatus m))) migs)))"

definition podToMigrations :: "kenv \<Rightarrow> Pod \<Rightarrow> string list kprog" where
  "podToMigrations E pod =
     (let migName = at (pLabels pod) LabelMigrationName
      in if migName = '''' then findActiveMigrationsForGuest E (pName pod)
         else andThen (attempt (getMig E migName))
                (\<lambda>r. case r of
                       Inl _ \<Rightarrow> findActiveMigrationsForGuest E (pName pod)
                     | Inr mig \<Rightarrow>
                         if isTerminalPhase (sPhase (mStatus mig)) then findActiveMigrationsForGuest E (pName pod)
                         else ret [mName mig]))"

definition guestToMigrations :: "kenv \<Rightarrow> SwiftGuest \<Rightarrow> string list kprog" where
  "guestToMigrations E guest = findActiveMigrationsForGuest E (gName guest)"

end
