(* ===== verification/Migration_Programs.thy ===== *)
theory Migration_Programs
  imports Migration_Types
begin

text \<open>
  Reasoning about the programs of the migration controller, on the rules of \<open>Kube\<close> for programs
  that call the API server.

  A policy restricts the writes a property is about and allows every plain event: reads,
  calls into other parts, and patches of pods, of guest specs and of finalizers. The locale
  \<open>policy\<close> is this contract; the components prove once, inside it, which other writes they make.
\<close>

section \<open>Policies\<close>

text \<open>The writes that no policy has to mention.\<close>

fun plain :: "kevent \<Rightarrow> bool" where
  "plain (PatchMigStatus _ _ _ _) = False"
| "plain (PatchGuestStatus _ _ _) = False"
| "plain (DeletePod _ _ _) = False"
| "plain (DeleteMig _ _) = False"
| "plain (DeleteSecret _ _) = False"
| "plain _ = True"

text \<open>The pod that a read answered with, or nothing where it was missing.\<close>

definition read_pod :: "string \<Rightarrow> Pod option \<Rightarrow> kevent list \<Rightarrow> bool" where
  "read_pod n r h =
     (case r of
        None \<Rightarrow> \<exists>e. GetPod n (Inl e) \<in> set h \<and> errors_Is e ErrNotFound
      | Some p \<Rightarrow> GetPod n (Inr p) \<in> set h)"

lemma read_pod_Some [simp]: "read_pod n (Some p) h \<longleftrightarrow> GetPod n (Inr p) \<in> set h"
  by (simp add: read_pod_def)

lemma read_pod_mono: "read_pod n r h \<Longrightarrow> set h \<subseteq> set h' \<Longrightarrow> read_pod n r h'"
  by (auto simp: read_pod_def split: option.splits)

locale policy =
  fixes E :: kenv and P :: "kevent list \<Rightarrow> kevent \<Rightarrow> bool"
  assumes plain: "plain e \<Longrightarrow> P h e"
begin

lemma getMig_obeys [obeys_rules]:
  "obeys S P (\<lambda>h x. GetMig n (Inr x) \<in> set h) (getMig E n)"
  unfolding getMig_def by (rule obeys_answer) (simp add: plain)

lemma listMigs_obeys [obeys_rules]:
  "obeys S P (\<lambda>h x. ListMigs (Inr x) \<in> set h) (listMigs E)"
  unfolding listMigs_def by (rule obeys_answer) (simp add: plain)

lemma getGuest_obeys [obeys_rules]:
  "obeys S P (\<lambda>h x. GetGuest n (Inr x) \<in> set h) (getGuest E n)"
  unfolding getGuest_def by (rule obeys_answer) (simp add: plain)

lemma getPod_obeys [obeys_rules]:
  "obeys S P (\<lambda>h x. GetPod n (Inr x) \<in> set h) (getPod E n)"
  unfolding getPod_def by (rule obeys_answer) (simp add: plain)

lemma getNode_obeys [obeys_rules]: "obeys S P (\<lambda>h x. GetNode n (Inr x) \<in> set h) (getNode E n)"
  unfolding getNode_def by (rule obeys_answer) (simp add: plain)

lemma getClass_obeys [obeys_rules]:
  "obeys S P (\<lambda>h x. GetClass n (Inr x) \<in> set h) (getClass E n)"
  unfolding getClass_def by (rule obeys_answer) (simp add: plain)

lemma getPVC_obeys [obeys_rules]: "obeys S P (\<lambda>h x. GetPVC n (Inr x) \<in> set h) (getPVC E n)"
  unfolding getPVC_def by (rule obeys_answer) (simp add: plain)

lemma getSecret_obeys [obeys_rules]:
  "obeys S P (\<lambda>h x. GetSecret n (Inr x) \<in> set h) (getSecret E n)"
  unfolding getSecret_def by (rule obeys_answer) (simp add: plain)

lemma getNamespace_obeys [obeys_rules]:
  "obeys S P (\<lambda>h x. GetNamespace n (Inr x) \<in> set h) (getNamespace E n)"
  unfolding getNamespace_def by (rule obeys_answer) (simp add: plain)

lemma listPods_obeys [obeys_rules]: "obeys S P (\<lambda>h x. ListPods (Inr x) \<in> set h) (listPods E)"
  unfolding listPods_def by (rule obeys_answer) (simp add: plain)

lemma listAttachments_obeys [obeys_rules]:
  "obeys S P (\<lambda>h x. ListAttachments (Inr x) \<in> set h) (listAttachments E)"
  unfolding listAttachments_def by (rule obeys_answer) (simp add: plain)

lemma patchMig_obeys [obeys_rules]:
  "obeys S P (\<lambda>h x. PatchMig m fs (Inr x) \<in> set h) (patchMig E m fs)"
  unfolding patchMig_def by (rule obeys_answer) (simp add: plain)

lemma patchGuest_obeys [obeys_rules]:
  "obeys S P (\<lambda>h x. PatchGuest g g' (Inr x) \<in> set h) (patchGuest E g g')"
  unfolding patchGuest_def by (rule obeys_answer) (simp add: plain)

lemma patchPod_obeys [obeys_rules]:
  "obeys S P (\<lambda>h x. PatchPod p p' (Inr x) \<in> set h) (patchPod E p p')"
  unfolding patchPod_def by (rule obeys_answer) (simp add: plain)

lemma createPod_obeys [obeys_rules]: "obeys S P (\<lambda>_ _. True) (createPod E p)"
  unfolding createPod_def by (rule obeys_true [OF obeys_acknowledge]) (simp add: plain)

lemma called_obeys [obeys_rules]: "obeys S P (\<lambda>_ _. True) (called E f args)"
  unfolding called_def by (rule obeys_true [OF obeys_acknowledge]) (simp add: plain)

lemma freezeIntent_obeys [obeys_rules]:
  "obeys S P (\<lambda>h x. FreezeIntent n (Inr x) \<in> set h) (freezeIntent E n)"
  unfolding freezeIntent_def by (rule obeys_answer) (simp add: plain)

lemma ovnAnnotations_obeys [obeys_rules]:
  "obeys S P (\<lambda>h x. OVNAnnotations n (Inr x) \<in> set h) (ovnAnnotations E n)"
  unfolding ovnAnnotations_def by (rule obeys_answer) (simp add: plain)

lemma notReadyCause_obeys [obeys_rules]: "obeys S P (\<lambda>_ _. True) (notReadyCause E n)"
  unfolding notReadyCause_def by (rule obeys_true [OF obeys_answer]) (simp add: plain)

lemma reserveOnNode_obeys [obeys_rules]:
  "obeys S P (\<lambda>h x. ReserveOnNode g n (Inr x) \<in> set h) (reserveOnNode E g n)"
  unfolding reserveOnNode_def by (rule obeys_answer) (simp add: plain)

lemma obeys_whenFound_getGuest:
  assumes "\<And>h e. S \<subseteq> set h \<Longrightarrow> GetGuest n (Inl e) \<in> set h \<Longrightarrow> errors_Is e ErrNotFound \<Longrightarrow> obeys (set h) P R absent"
    and "\<And>h e. S \<subseteq> set h \<Longrightarrow> obeys (set h) P R (failed e)"
    and "\<And>h x. S \<subseteq> set h \<Longrightarrow> GetGuest n (Inr x) \<in> set h \<Longrightarrow> obeys (set h) P R (found x)"
  shows "obeys S P R (whenFound (getGuest E n) absent failed found)"
  unfolding getGuest_def by (rule obeys_whenFound_answer) (auto intro: assms plain)

lemma findPod_obeys [obeys_rules]: "obeys S P (\<lambda>h r. read_pod n r h) (findPod E n)"
  unfolding findPod_def getPod_def
  by (rule obeys_whenFound_answer; (rule obeys_rules)?) (auto simp: plain read_pod_def)

end

lemma patchMigStatus_obeys:
  assumes "\<And>h a. S \<subseteq> set h \<Longrightarrow> P h (PatchMigStatus m st locked a)"
  shows "obeys S P (\<lambda>h x. PatchMigStatus m st locked (Inr x) \<in> set h)
    (patchMigStatus E m st locked)"
  unfolding patchMigStatus_def by (rule obeys_answer) (rule assms)

lemma patchGuestStatus_obeys:
  assumes "\<And>h a. S \<subseteq> set h \<Longrightarrow> P h (PatchGuestStatus g g' a)"
  shows "obeys S P (\<lambda>_ _. True) (patchGuestStatus E g g')"
  unfolding patchGuestStatus_def by (rule obeys_true [OF obeys_answer]) (rule assms)

lemma deletePod_obeys:
  assumes "\<And>h a. S \<subseteq> set h \<Longrightarrow> P h (DeletePod n grace a)"
  shows "obeys S P (\<lambda>_ _. True) (deletePod E n grace)"
  unfolding deletePod_def by (rule obeys_true [OF obeys_acknowledge]) (rule assms)

lemma deleteMig_obeys:
  assumes "\<And>h a. S \<subseteq> set h \<Longrightarrow> P h (DeleteMig n a)"
  shows "obeys S P (\<lambda>_ _. True) (deleteMig E n)"
  unfolding deleteMig_def by (rule obeys_true [OF obeys_acknowledge]) (rule assms)

lemma deleteSecret_obeys:
  assumes "\<And>h a. S \<subseteq> set h \<Longrightarrow> P h (DeleteSecret n a)"
  shows "obeys S P (\<lambda>_ _. True) (deleteSecret E n)"
  unfolding deleteSecret_def by (rule obeys_true [OF obeys_acknowledge]) (rule assms)

end
