(* ===== verification/Migration_Footprint.thy ===== *)
theory Migration_Footprint
  imports Migration_Controller Migration_Programs
begin

text \<open>
  What each part of the migration controller writes, proved once under an arbitrary policy:
  validation, preparing and resuming of a live migration, and resolving the ownership of the
  guest make plain events only; every other write is named by a premise of the lemma. The
  lemmas also say how the phase of the status moves.
\<close>

section \<open>The status\<close>

named_theorems status_simps \<open>fields that the helpers on the status keep\<close>

lemma setPhaseDetail_fields [status_simps]:
  "sPhase (setPhaseDetail d st) = sPhase st" "sMode (setPhaseDetail d st) = sMode st"
  "sConditions (setPhaseDetail d st) = sConditions st" "sTerminalAt (setPhaseDetail d st) = sTerminalAt st"
  "sDestinationNode (setPhaseDetail d st) = sDestinationNode st" "sTargetIP (setPhaseDetail d st) = sTargetIP st"
  by (simp_all add: setPhaseDetail_def)

lemma setCondition_fields [status_simps]:
  "sPhase (setCondition now ty s r msg st) = sPhase st" "sMode (setCondition now ty s r msg st) = sMode st"
  "sTerminalAt (setCondition now ty s r msg st) = sTerminalAt st"
  "sDestinationNode (setCondition now ty s r msg st) = sDestinationNode st"
  "sTargetIP (setCondition now ty s r msg st) = sTargetIP st"
  by (simp_all add: setCondition_def)

lemma setReadyCondition_fields [status_simps]:
  "sPhase (setReadyCondition now s r msg st) = sPhase st" "sMode (setReadyCondition now s r msg st) = sMode st"
  "sTerminalAt (setReadyCondition now s r msg st) = sTerminalAt st"
  "sDestinationNode (setReadyCondition now s r msg st) = sDestinationNode st"
  "sTargetIP (setReadyCondition now s r msg st) = sTargetIP st"
  by (simp_all add: setReadyCondition_def setCondition_fields)

lemma setPhase_fields [status_simps]:
  "sPhase (setPhase p st) = p" "sMode (setPhase p st) = sMode st" "sTerminalAt (setPhase p st) = sTerminalAt st"
  "sDestinationNode (setPhase p st) = sDestinationNode st" "sTargetIP (setPhase p st) = sTargetIP st"
  by (simp_all add: setPhase_def)

lemma removeCondition_fields [status_simps]:
  "sPhase (removeCondition ty st) = sPhase st" "sMode (removeCondition ty st) = sMode st"
  by (simp_all add: removeCondition_def)

lemma clear_wait_phase [status_simps]: "sPhase (clear_wait r st) = sPhase st"
  by (simp add: clear_wait_def status_simps split: option.split)

lemma ip_will_change_phase [status_simps]: "sPhase (ip_will_change now mig g st) = sPhase st"
  by (simp add: ip_will_change_def status_simps)

lemma awaitTerminatingPods_phase [status_simps]: "sPhase (snd (awaitTerminatingPods now e st)) = sPhase st"
  by (simp add: awaitTerminatingPods_def status_simps Let_def)

lemma capacity_failed_phase [status_simps]: "sPhase (snd (capacity_failed now e r st)) = sPhase st"
  by (simp add: capacity_failed_def status_simps split: option.split)

lemma await_detach_phase [status_simps]: "sPhase (snd (await_detach now d st)) = sPhase st"
  by (simp add: await_detach_def status_simps Let_def)

lemma stamp_phase [status_simps]:
  "sPhase (stampTransferProgress p i st) = sPhase st" "sPhase (stampTransferDuration p st) = sPhase st"
  "sPhase (stampCutoverStep2DispatchedAt now st) = sPhase st"
  by (simp_all add: stampTransferProgress_def stampTransferDuration_def stampCutoverStep2DispatchedAt_def Let_def split: option.split sum.split)

lemma awaitSourceReport_phase [status_simps]: "sPhase (snd (awaitSourceReport now st p)) = sPhase st"
  by (simp add: awaitSourceReport_def status_simps Let_def split: option.split)

lemma on_send_pending_phase [status_simps]: "sPhase (on_send_pending now mig src st) = sPhase st"
  by (simp add: on_send_pending_def status_simps split: option.split)

lemma preparing_waiting_phase [status_simps]: "sPhase (preparing_waiting now st) = sPhase st"
  by (simp add: preparing_waiting_def status_simps)

lemma cutover_phase [status_simps]:
  "sPhase (snd (cutoverStep1Timestamp now st)) = sPhase st" "sPhase (snd (cutoverStep3 now st)) = PhaseResuming"
  by (simp_all add: cutoverStep1Timestamp_def cutoverStep3_def status_simps)

lemma complete_phase [status_simps]:
  "sPhase (complete_live now n p st) = PhaseCompleted" "sPhase (complete_offline now ip st) = PhaseCompleted"
  by (simp_all add: complete_live_def complete_offline_def status_simps Let_def)

lemma started_fields [status_simps]:
  "sPhase (started now mig) = sPhase (mStatus mig)" "sMode (started now mig) = sMode (mStatus mig)"
  by (simp_all add: started_def)

section \<open>Handlers\<close>

text \<open>The guest's pod reference names the given pod.\<close>

abbreviation swapped :: "SwiftGuest \<Rightarrow> string \<Rightarrow> bool" where
  "swapped guest n \<equiv> \<exists>r \<in> set_option (gPodRef guest). prName r = n"

text \<open>
  The evidence a pass has read before it deletes or redirects anything: the guest carries the
  claim of the migration, having been read or stored with it; the launchers have reported that
  the migration is past its commit point; the guest's pod reference is the destination and the
  redirection has been recorded.
\<close>

definition claimed :: "SwiftMigration \<Rightarrow> SwiftGuest \<Rightarrow> kevent list \<Rightarrow> bool" where
  "claimed mig guest h \<longleftrightarrow>
     GetGuest (mGuestRef mig) (Inr guest) \<in> set h \<and> at (gAnnotations guest) AnnotationMigrationInProgress = mName mig \<or>
     (\<exists>g. GetGuest (mGuestRef mig) (Inr g) \<in> set h \<and> PatchGuest g (claim_guest mig g) (Inr guest) \<in> set h)"

lemma claimed_read:
  "GetGuest (mGuestRef mig) (Inr guest) \<in> set h \<Longrightarrow> at (gAnnotations guest) AnnotationMigrationInProgress = mName mig \<Longrightarrow>
   claimed mig guest h"
  by (simp add: claimed_def)

lemma claimed_stored:
  "GetGuest (mGuestRef mig) (Inr g) \<in> set h \<Longrightarrow> PatchGuest g (claim_guest mig g) (Inr guest) \<in> set h \<Longrightarrow> claimed mig guest h"
  by (auto simp: claimed_def)

definition may_swap :: "SwiftMigration \<Rightarrow> string \<Rightarrow> string \<Rightarrow> kevent list \<Rightarrow> bool" where
  "may_swap mig d uid h \<longleftrightarrow>
     (\<exists>guest src dst. GetGuest (mGuestRef mig) (Inr guest) \<in> set h \<and> dstPodName mig (gName guest) = Inr d \<and>
        GetPod d (Inr dst) \<in> set h \<and> pUID dst = uid \<and>
        (\<forall>p. src = Some p \<longrightarrow> GetPod (srcPodLookupName mig guest) (Inr p) \<in> set h) \<and>
        passedCommitPoint mig src (Some dst))"

definition may_delete_source :: "SwiftMigration \<Rightarrow> string \<Rightarrow> kevent list \<Rightarrow> bool" where
  "may_delete_source mig n h \<longleftrightarrow>
     (\<exists>guest d. GetGuest (mGuestRef mig) (Inr guest) \<in> set h \<and> dstPodName mig (gName guest) = Inr d \<and>
        swapped guest d \<and> sCutoverStep1At (mStatus mig) \<noteq> None \<and> n = srcPodLookupName mig guest)"

lemma obeys_failWith [obeys_rules]: "(\<And>h. S \<subseteq> set h \<Longrightarrow> R h (phaseFailure msg reason, st)) \<Longrightarrow> obeys S P R (failWith msg reason st)"
  unfolding failWith_def by (rule obeys_ret)

lemma obeys_failTransient [obeys_rules]: "(\<And>h. S \<subseteq> set h \<Longrightarrow> R h (phaseTransient e, st)) \<Longrightarrow> obeys S P R (failTransient e st)"
  unfolding failTransient_def by (rule obeys_ret)

lemma obeys_poll_copy [obeys_rules]:
  "(\<And>h. S \<subseteq> set h \<Longrightarrow> R h (phaseRequeue stopAndCopyLivePollInterval, st)) \<Longrightarrow> obeys S P R (poll_copy st)"
  unfolding poll_copy_def by (rule obeys_ret)

lemma obeys_orTransient [obeys_rules]:
  assumes "obeys S P Q m" and "\<And>h e. S \<subseteq> set h \<Longrightarrow> R h (phaseTransient (Errorw msg e), st)"
    and "\<And>h x. S \<subseteq> set h \<Longrightarrow> Q h x \<Longrightarrow> obeys (set h) P R (k x)"
  shows "obeys S P R (orTransient msg st m k)"
  unfolding orTransient_def
proof (rule obeys_andThen [OF obeys_attempt [OF assms(1)]])
  fix h and r :: "'a res"
  assume a: "S \<subseteq> set h" "\<forall>x. r = Inr x \<longrightarrow> Q h x"
  show "obeys (set h) P R (case r of Inl e \<Rightarrow> failTransient (Errorw msg e) st | Inr x \<Rightarrow> k x)"
    by (intro obeys_sum obeys_failTransient) (use a assms(2,3) in auto)
qed

lemma obeys_unlessStopped [obeys_rules]:
  assumes "obeys S P Q m" and "\<And>h h' x st. S \<subseteq> set h \<Longrightarrow> set h \<subseteq> set h' \<Longrightarrow> Q h (Some x, st) \<Longrightarrow> R h' (x, st)"
    and "\<And>h st. S \<subseteq> set h \<Longrightarrow> Q h (None, st) \<Longrightarrow> obeys (set h) P R (k st)"
  shows "obeys S P R (unlessStopped m k)"
  unfolding unlessStopped_def
proof (rule obeys_andThen [OF assms(1)])
  fix h x
  assume a: "S \<subseteq> set h" "Q h x"
  show "obeys (set h) P R (case x of (r, st) \<Rightarrow> case r of Some y \<Rightarrow> ret (y, st) | None \<Rightarrow> k st)"
    by (intro obeys_pair obeys_option obeys_ret) (use a assms(2,3) in auto)
qed

context policy
begin

lemma NamespaceHasPrimaryUDN_obeys [obeys_rules]: "obeys S P (\<lambda>_ _. True) (NamespaceHasPrimaryUDN E ns)"
  unfolding NamespaceHasPrimaryUDN_def by (rule obeys_rules | simp)+

lemma ClassUsesSharedBase_obeys [obeys_rules]: "obeys S P (\<lambda>_ _. True) (ClassUsesSharedBase E c)"
  unfolding ClassUsesSharedBase_def by (rule obeys_rules | simp)+

lemma GuestUsesSharedBase_obeys [obeys_rules]: "obeys S P (\<lambda>_ _. True) (GuestUsesSharedBase E ns g)"
  unfolding GuestUsesSharedBase_def by (rule obeys_rules | simp)+

lemma check_volume_obeys [obeys_rules]: "obeys S P (\<lambda>_ _. True) (check_volume E guest v)"
  unfolding check_volume_def Let_def by (rule obeys_rules | simp)+

lemma check_volumes_obeys [obeys_rules]: "obeys S P (\<lambda>_ _. True) (check_volumes E guest vs)"
  by (induction vs arbitrary: S) (rule obeys_rules | simp)+

lemma LiveMigrationVolumesError_obeys [obeys_rules]: "obeys S P (\<lambda>_ _. True) (LiveMigrationVolumesError E guest)"
  unfolding LiveMigrationVolumesError_def by (rule check_volumes_obeys)

lemma liveStorageGate_obeys [obeys_rules]: "obeys S P (\<lambda>_ _. True) (liveStorageGate E guest)"
  unfolding liveStorageGate_def Let_def by (rule obeys_rules | simp)+

lemma resolveAutoMode_obeys [obeys_rules]: "obeys S P (\<lambda>_ r. sPhase (snd r) = sPhase st) (resolveAutoMode E mig st)"
  unfolding resolveAutoMode_def Let_def by (rule obeys_rules | simp add: status_simps)+

lemma NodeHasCapacity_obeys [obeys_rules]: "obeys S P (\<lambda>_ _. True) (NodeHasCapacity E node class)"
  unfolding NodeHasCapacity_def by (rule obeys_rules | simp)+

lemma checkNodeCapacity_obeys [obeys_rules]:
  "obeys S P (\<lambda>_ r. sPhase (snd r) = sPhase st) (checkNodeCapacity E now node class reason st)"
  unfolding checkNodeCapacity_def
  by (rule obeys_rules | auto simp: status_simps dest!: arg_cong [where f = "\<lambda>x. sPhase (snd x)"])+

lemma claims_of_obeys [obeys_rules]: "obeys S P (\<lambda>_ _. True) (claims_of E acc cs)"
  by (induction cs arbitrary: acc S) (rule obeys_rules | simp)+

lemma strayAttachments_obeys [obeys_rules]: "obeys S P (\<lambda>_ _. True) (strayAttachments E src)"
  unfolding strayAttachments_def by (rule obeys_rules | simp)+

lemma awaitVolumeDetach_obeys [obeys_rules]: "obeys S P (\<lambda>_ r. sPhase (snd r) = sPhase st) (awaitVolumeDetach E now src st)"
  unfolding awaitVolumeDetach_def by (rule obeys_rules | simp add: status_simps)+

lemma resolveGPUProfile_obeys [obeys_rules]: "obeys S P (\<lambda>_ _. True) (resolveGPUProfile E guest)"
  unfolding resolveGPUProfile_def by (rule obeys_rules | simp)+

lemma gpuPreflight_obeys [obeys_rules]: "obeys S P (\<lambda>_ r. sPhase (snd r) = sPhase st) (gpuPreflight E mig guest st)"
  unfolding gpuPreflight_def by (rule obeys_rules | simp)+

lemma validate_identity_obeys [obeys_rules]: "obeys S P (\<lambda>_ r. sPhase (snd r) = sPhase st) (validate_identity E guest src st)"
  unfolding validate_identity_def by (rule obeys_rules | simp)+

lemma check_target_obeys:
  assumes "\<And>h st'. S \<subseteq> set h \<Longrightarrow> sPhase st' = sPhase st \<Longrightarrow> obeys (set h) P (\<lambda>_. R) (k st')"
    and "\<And>x st'. sPhase st' = sPhase st \<Longrightarrow> R (x, st')"
  shows "obeys S P (\<lambda>_. R) (check_target E now mig guest reason st k)"
  unfolding check_target_def
  by (rule obeys_rules | simp add: assms(2) | (rule obeys_sub [OF assms(1)]; simp))+

lemma validated_obeys [obeys_rules]: "obeys S P (\<lambda>_ r. sPhase (snd r) = PhasePreparing) (validated now c r d st)"
  unfolding validated_def by (rule obeys_rules | simp add: status_simps)+

lemma gpu_check_obeys:
  "obeys S P (\<lambda>_ r. sPhase (snd r) = sPhase st) (if b then gpuPreflight E mig guest st else ret (None, st))"
  by (rule obeys_rules | simp)+

lemma auto_mode_obeys:
  "obeys S P (\<lambda>_ r. sPhase (snd r) = sPhase st) (if b then resolveAutoMode E mig st else ret (None, st))"
  by (rule obeys_rules | simp)+

lemma handleValidatingOffline_obeys [obeys_rules]:
  "obeys S P (\<lambda>_ r. sPhase (snd r) = sPhase st \<or> sPhase (snd r) = PhasePreparing) (handleValidatingOffline E now mig st)"
  unfolding handleValidatingOffline_def Let_def
  by (rule check_target_obeys gpu_check_obeys obeys_weaken [OF validated_obeys] obeys_rules | simp add: status_simps)+

lemma validate_live_source_obeys [obeys_rules]:
  "obeys S P (\<lambda>_ r. sPhase (snd r) = sPhase st \<or> sPhase (snd r) = PhasePreparing) (validate_live_source E now mig guest st)"
  unfolding validate_live_source_def Let_def
  by (rule check_target_obeys obeys_weaken [OF validated_obeys] obeys_rules | simp add: status_simps)+

lemma handleValidatingLive_obeys [obeys_rules]:
  "obeys S P (\<lambda>_ r. sPhase (snd r) = sPhase st \<or> sPhase (snd r) = PhasePreparing) (handleValidatingLive E now mig st)"
  unfolding handleValidatingLive_def
  by (rule obeys_weaken [OF validate_live_source_obeys] obeys_rules | simp add: status_simps)+

lemma handleValidating_obeys:
  "obeys S P (\<lambda>_ r. sPhase (snd r) = sPhase st \<or> sPhase (snd r) = PhasePreparing) (handleValidating E now mig st)"
  unfolding handleValidating_def
  by (rule auto_mode_obeys obeys_weaken [OF handleValidatingLive_obeys] obeys_weaken [OF handleValidatingOffline_obeys] obeys_rules | simp add: status_simps)+

subsection \<open>Live phases\<close>

lemma stampSourceMigrationInputs_obeys [obeys_rules]: "obeys S P (\<lambda>_ _. True) (stampSourceMigrationInputs E src ip san)"
  unfolding stampSourceMigrationInputs_def by (rule obeys_rules | simp)+

lemma create_destination_obeys [obeys_rules]:
  "obeys S P (\<lambda>_ r. sPhase (snd r) = sPhase st) (create_destination E now mig guest src n st)"
  unfolding create_destination_def Let_def by (rule obeys_rules | simp add: status_simps)+

lemma await_destination_obeys [obeys_rules]:
  "obeys S P (\<lambda>_ r. sPhase (snd r) = sPhase st \<or> sPhase (snd r) = PhaseStopAndCopy) (await_destination E now dst st)"
  unfolding await_destination_def by (rule obeys_rules | simp add: status_simps)+

lemma adopt_destination_obeys [obeys_rules]:
  "obeys S P (\<lambda>_ r. sPhase (snd r) = sPhase st \<or> sPhase (snd r) = PhaseStopAndCopy) (adopt_destination E now mig guest src dst st)"
  unfolding adopt_destination_def Let_def
  by (rule obeys_weaken [OF await_destination_obeys] obeys_rules | auto simp: status_simps split: if_splits)+

lemma prepare_destination_obeys [obeys_rules]:
  "obeys S P (\<lambda>_ r. sPhase (snd r) = sPhase st \<or> sPhase (snd r) = PhaseStopAndCopy) (prepare_destination E now mig guest src st)"
  unfolding prepare_destination_def
  by (rule obeys_weaken [OF create_destination_obeys] obeys_weaken [OF adopt_destination_obeys] obeys_rules | simp add: status_simps)+

lemma check_source_uid_obeys [obeys_rules]: "obeys S P (\<lambda>_ r. sPhase (snd r) = sPhase st) (check_source_uid E mig guest st)"
  unfolding check_source_uid_def by (rule obeys_rules | simp)+

lemma handlePreparingLive_obeys:
  "obeys S P (\<lambda>_ r. sPhase (snd r) = sPhase st \<or> sPhase (snd r) = PhaseStopAndCopy) (handlePreparingLive E now mig st)"
  unfolding handlePreparingLive_def Let_def
  by (rule obeys_weaken [OF prepare_destination_obeys] obeys_rules | auto simp: status_simps split: if_splits)+

lemma repin_obeys [obeys_rules]: "obeys S P (\<lambda>_ _. True) (repin E mig guest)"
  unfolding repin_def by (rule obeys_if; (rule obeys_true, rule patchGuest_obeys | rule obeys_rules, simp))

lemma cutoverStep1_obeys:
  assumes "\<And>h g a. S \<subseteq> set h \<Longrightarrow> P h (PatchGuestStatus g (swap_pod_ref dstName dstUID g) a)"
  shows "obeys S P (\<lambda>_ r. sPhase (snd r) = sPhase st) (cutoverStep1 E now mig guest dstName dstUID st)"
  unfolding cutoverStep1_def Let_def
  by (rule patchGuestStatus_obeys obeys_rules | simp add: status_simps | blast intro: assms)+

lemma cutoverStep2_obeys:
  assumes "\<And>h a. S \<subseteq> set h \<Longrightarrow> P h (DeletePod n None a)"
  shows "obeys S P (\<lambda>_ r. sPhase (snd r) = sPhase st) (cutoverStep2 E now n st)"
  unfolding cutoverStep2_def Let_def by (rule deletePod_obeys obeys_rules | simp add: status_simps | blast intro: assms)+

lemma executeCutover_obeys:
  assumes del: "\<And>h a. S \<subseteq> set h \<Longrightarrow> swapped guest dstName \<Longrightarrow> sCutoverStep1At (mStatus mig) \<noteq> None \<Longrightarrow>
      P h (DeletePod (srcPodLookupName mig guest) None a)"
    and swap: "\<And>h g a. S \<subseteq> set h \<Longrightarrow> \<not> swapped guest dstName \<Longrightarrow> P h (PatchGuestStatus g (swap_pod_ref dstName dstUID g) a)"
  shows "obeys S P (\<lambda>_ r. sPhase (snd r) = sPhase st \<or> sPhase (snd r) = PhaseResuming)
    (executeCutover E now mig guest dstName dstUID st)"
  unfolding executeCutover_def
proof (rule obeys_orTransient [OF findPod_obeys])
  fix h src
  assume S: "S \<subseteq> set h"
  let ?Q = "\<lambda>_ r. sPhase (snd r) = sPhase st \<or> sPhase (snd r) = PhaseResuming"
  show "obeys (set h) P ?Q (case deriveCutoverStep mig guest (src \<noteq> None) dstName of
      cutoverStep1Pending \<Rightarrow> cutoverStep1 E now mig guest dstName dstUID st
    | cutoverStep1TimestampOnly \<Rightarrow> ret (cutoverStep1Timestamp now st)
    | cutoverStep2Pending \<Rightarrow> cutoverStep2 E now (srcPodLookupName mig guest) st
    | cutoverStep3Pending \<Rightarrow> ret (cutoverStep3 now st))"
  proof (cases "deriveCutoverStep mig guest (src \<noteq> None) dstName")
    case cutoverStep1Pending
    then have "\<not> swapped guest dstName" by (auto simp: deriveCutoverStep_def split: if_splits)
    with S swap have "obeys (set h) P (\<lambda>_ r. sPhase (snd r) = sPhase st) (cutoverStep1 E now mig guest dstName dstUID st)"
      by (intro cutoverStep1_obeys) blast
    with cutoverStep1Pending show ?thesis by (simp add: obeys_weaken)
  next
    case cutoverStep2Pending
    then have "swapped guest dstName" and "sCutoverStep1At (mStatus mig) \<noteq> None"
      by (auto simp: deriveCutoverStep_def split: if_splits)
    with S del have "obeys (set h) P (\<lambda>_ r. sPhase (snd r) = sPhase st) (cutoverStep2 E now (srcPodLookupName mig guest) st)"
      by (intro cutoverStep2_obeys) blast
    with cutoverStep2Pending show ?thesis by (simp add: obeys_weaken)
  qed (simp_all add: obeys_ret status_simps)
qed simp

lemma guestRAMMiB_obeys [obeys_rules]: "obeys S P (\<lambda>_ _. True) (guestRAMMiB E guest)"
  unfolding guestRAMMiB_def Let_def by (rule obeys_rules | simp)+

lemma writeMigrationAction_obeys [obeys_rules]: "obeys S P (\<lambda>_ _. True) (writeMigrationAction E pod action i args)"
  unfolding writeMigrationAction_def by (rule obeys_rules | simp)+

lemma mark_source_obeys [obeys_rules]: "obeys S P (\<lambda>_ _. True) (mark_source E mig src)"
  unfolding mark_source_def Let_def by (rule obeys_if; (rule obeys_true, rule patchPod_obeys | rule obeys_rules, simp))

lemma mark_source_opt_obeys [obeys_rules]: "obeys S P (\<lambda>_ _. True) (mark_source_opt E mig src)"
  unfolding mark_source_opt_def by (rule obeys_rules | simp)+

lemma on_pre_recv_obeys: "obeys S P (\<lambda>_ r. sPhase (snd r) = sPhase st) (on_pre_recv E now mig src dst st)"
  unfolding on_pre_recv_def Let_def by (rule obeys_rules | simp add: status_simps)+

lemma on_pre_send_obeys: "obeys S P (\<lambda>_ r. sPhase (snd r) = sPhase st) (on_pre_send E now mig guest src dst st)"
  unfolding on_pre_send_def Let_def by (rule obeys_rules | simp add: status_simps)+

lemma on_src_failed_obeys: "obeys S P (\<lambda>_ r. sPhase (snd r) = sPhase st) (on_src_failed E now mig src dst st)"
  unfolding on_src_failed_def Let_def by (rule obeys_rules | simp add: status_simps)+

lemma committed_cutover_obeys:
  assumes "\<And>h a. S \<subseteq> set h \<Longrightarrow> swapped guest dstName \<Longrightarrow> sCutoverStep1At (mStatus mig) \<noteq> None \<Longrightarrow>
      P h (DeletePod (srcPodLookupName mig guest) None a)"
    and "\<And>h g a. S \<subseteq> set h \<Longrightarrow> \<not> swapped guest dstName \<Longrightarrow> P h (PatchGuestStatus g (swap_pod_ref dstName (pUID dst) g) a)"
  shows "obeys S P (\<lambda>_ r. sPhase (snd r) = sPhase st \<or> sPhase (snd r) = PhaseResuming)
    (committed_cutover E now mig guest src dstName dst st)"
  unfolding committed_cutover_def
  by (rule obeys_weaken [OF executeCutover_obeys]) (use assms in \<open>auto simp: status_simps\<close>)

lemma on_dst_running_obeys:
  assumes "\<And>h a. S \<subseteq> set h \<Longrightarrow> swapped guest dstName \<Longrightarrow> sCutoverStep1At (mStatus mig) \<noteq> None \<Longrightarrow>
      P h (DeletePod (srcPodLookupName mig guest) None a)"
    and "\<And>h g a. S \<subseteq> set h \<Longrightarrow> \<not> swapped guest dstName \<Longrightarrow> P h (PatchGuestStatus g (swap_pod_ref dstName (pUID dst) g) a)"
  shows "obeys S P (\<lambda>_ r. sPhase (snd r) = sPhase st \<or> sPhase (snd r) = PhaseResuming)
    (on_dst_running E now mig guest src dstName dst st)"
proof -
  obtain b st1 where a: "awaitSourceReport now st src = (b, st1)" by fastforce
  then have ph: "sPhase st1 = sPhase st" using awaitSourceReport_phase [of now st src] by simp
  show ?thesis
    unfolding on_dst_running_def a prod.case
    by (rule obeys_bool, rule obeys_poll_copy, simp add: ph status_simps)
      (rule obeys_weaken [OF committed_cutover_obeys], use assms ph in auto)
qed

lemma dispatch_substate_obeys:
  assumes del: "\<And>h a. S \<subseteq> set h \<Longrightarrow> swapped guest dstName \<Longrightarrow> sCutoverStep1At (mStatus mig) \<noteq> None \<Longrightarrow>
      P h (DeletePod (srcPodLookupName mig guest) None a)"
    and swap: "\<And>h g a. S \<subseteq> set h \<Longrightarrow> passedCommitPoint mig src (Some dst) \<Longrightarrow> \<not> swapped guest dstName \<Longrightarrow>
      P h (PatchGuestStatus g (swap_pod_ref dstName (pUID dst) g) a)"
  shows "obeys S P (\<lambda>_ r. sPhase (snd r) = sPhase st \<or> sPhase (snd r) = PhaseResuming)
    (dispatch_substate E now mig guest src dstName dst st)"
proof (cases "deriveSubstate mig src (Some dst)")
  case substateSrcCompleted
  then have "passedCommitPoint mig src (Some dst)"
    by (auto simp: deriveSubstate_def passedCommitPoint_def srcReportedComplete_def Let_def split: if_splits)
  then have "obeys S P (\<lambda>_ r. sPhase (snd r) = sPhase st \<or> sPhase (snd r) = PhaseResuming)
      (committed_cutover E now mig guest src dstName dst st)"
    by (intro committed_cutover_obeys) (rule del swap; assumption)+
  with substateSrcCompleted show ?thesis by (simp add: dispatch_substate_def)
next
  case substateDstRunning
  then have "passedCommitPoint mig src (Some dst)"
    by (auto simp: deriveSubstate_def passedCommitPoint_def dstReportedRunning_def Let_def split: if_splits)
  then have "obeys S P (\<lambda>_ r. sPhase (snd r) = sPhase st \<or> sPhase (snd r) = PhaseResuming)
      (on_dst_running E now mig guest src dstName dst st)"
    by (intro on_dst_running_obeys) (rule del swap; assumption)+
  with substateDstRunning show ?thesis by (simp add: dispatch_substate_def)
qed (simp_all add: dispatch_substate_def obeys_failWith obeys_poll_copy status_simps
  obeys_weaken [OF on_pre_recv_obeys] obeys_weaken [OF on_pre_send_obeys] obeys_weaken [OF on_src_failed_obeys])

lemma copy_with_pods_obeys:
  assumes del: "\<And>h a. S \<subseteq> set h \<Longrightarrow> swapped guest dstName \<Longrightarrow> sCutoverStep1At (mStatus mig) \<noteq> None \<Longrightarrow>
      P h (DeletePod (srcPodLookupName mig guest) None a)"
    and swap: "\<And>h g a. S \<subseteq> set h \<Longrightarrow> passedCommitPoint mig src (Some dst) \<Longrightarrow> \<not> swapped guest dstName \<Longrightarrow>
      P h (PatchGuestStatus g (swap_pod_ref dstName (pUID dst) g) a)"
  shows "obeys S P (\<lambda>_ r. sPhase (snd r) = sPhase st \<or> sPhase (snd r) = PhaseResuming)
    (copy_with_pods E now mig guest src dstName dst st)"
  unfolding copy_with_pods_def Let_def
  by (rule obeys_rules obeys_weaken [OF executeCutover_obeys] dispatch_substate_obeys | (rule del swap; assumption) | (erule notE, assumption) | simp)+

lemma handleStopAndCopyLive_obeys:
  assumes del: "\<And>h guest d a. S \<subseteq> set h \<Longrightarrow> GetGuest (mGuestRef mig) (Inr guest) \<in> set h \<Longrightarrow>
      dstPodName mig (gName guest) = Inr d \<Longrightarrow> swapped guest d \<Longrightarrow> sCutoverStep1At (mStatus mig) \<noteq> None \<Longrightarrow>
      P h (DeletePod (srcPodLookupName mig guest) None a)"
    and swap: "\<And>h guest d src dst g a. S \<subseteq> set h \<Longrightarrow> GetGuest (mGuestRef mig) (Inr guest) \<in> set h \<Longrightarrow>
      dstPodName mig (gName guest) = Inr d \<Longrightarrow> GetPod d (Inr dst) \<in> set h \<Longrightarrow>
      (\<And>p. src = Some p \<Longrightarrow> GetPod (srcPodLookupName mig guest) (Inr p) \<in> set h) \<Longrightarrow>
      passedCommitPoint mig src (Some dst) \<Longrightarrow> P h (PatchGuestStatus g (swap_pod_ref d (pUID dst) g) a)"
  shows "obeys S P (\<lambda>_ r. sPhase (snd r) = sPhase st \<or> sPhase (snd r) = PhaseResuming) (handleStopAndCopyLive E now mig st)"
  unfolding handleStopAndCopyLive_def
  by (rule obeys_rules copy_with_pods_obeys | (rule del swap; auto; fail) | simp)+

lemma resuming_wait_obeys [obeys_rules]: "obeys S P (\<lambda>_ r. sPhase (snd r) = sPhase st) (resuming_wait now mig msg st)"
  unfolding resuming_wait_def by (rule obeys_rules | simp add: status_simps)+

lemma handleResumingLive_obeys:
  "obeys S P (\<lambda>_ r. sPhase (snd r) = sPhase st \<or> sPhase (snd r) = PhaseCompleted) (handleResumingLive E now mig st)"
  unfolding handleResumingLive_def Let_def
  by (rule obeys_weaken [OF resuming_wait_obeys] obeys_rules | auto simp: status_simps split: if_splits)+

lemma reserveTargetGPUs_obeys:
  "obeys S P (\<lambda>_ r. sPhase (snd r) = sPhase st) (reserveTargetGPUs E mig guest st)"
  unfolding reserveTargetGPUs_def by (rule obeys_rules | simp add: status_simps)+

lemma gpu_reserve_obeys:
  "obeys S P (\<lambda>_ r. sPhase (snd r) = sPhase st) (if HasVFIODevices guest then reserveTargetGPUs E mig guest st else ret (None, st))"
  by (rule obeys_if, rule reserveTargetGPUs_obeys, rule obeys_ret, simp)

lemma gpu_release_obeys:
  "obeys S P (\<lambda>_ _. True)
     (if gpu_node guest \<noteq> '''' \<and> gpu_node guest \<noteq> target
      then wrapErr msg (called E ''ReleaseFromNode'' [gName guest, gpu_node guest]) else ret ())"
  by (rule obeys_rules | simp)+

lemma cutoverGPUs_obeys:
  assumes "\<And>h r a. S \<subseteq> set h \<Longrightarrow> ReserveOnNode (gName guest) (mTargetNode mig) (Inr r) \<in> set h \<Longrightarrow>
      P h (PatchGuestStatus guest (with_gpus (mTargetNode mig) r guest) a)"
  shows "obeys S P (\<lambda>_ _. True) (cutoverGPUs E mig guest)"
  unfolding cutoverGPUs_def Let_def
  by (rule gpu_release_obeys patchGuestStatus_obeys obeys_rules | (rule assms; auto; fail) | simp)+

lemma isPVCStillAttached_obeys [obeys_rules]: "obeys S P (\<lambda>_ _. True) (isPVCStillAttached E n)"
  unfolding isPVCStillAttached_def by (rule obeys_rules | simp)+

lemma await_detached_obeys:
  "obeys S P (\<lambda>_ r. sPhase (snd r) = sPhase st \<or> sPhase (snd r) = PhaseStopAndCopy) (await_detached E now guest st)"
  unfolding await_detached_def Let_def by (rule obeys_rules | simp add: status_simps)+

lemma stop_source_pod_obeys:
  assumes "\<And>h a. S \<subseteq> set h \<Longrightarrow> P h (DeletePod (pName pod) (Some PodTerminationGracePeriod) a)"
  shows "obeys S P (\<lambda>_ _. True)
    (if pDeleting pod then ret () else ignoreNotFound (deletePod E (pName pod) (Some PodTerminationGracePeriod)))"
  by (rule obeys_if, rule obeys_ret, simp, rule obeys_ignoreNotFound, rule deletePod_obeys, rule assms)

lemma stop_source_obeys:
  assumes "\<And>h pod a. S \<subseteq> set h \<Longrightarrow> GetPod (canonicalPodNameForGuest guest) (Inr pod) \<in> set h \<Longrightarrow>
      P h (DeletePod (pName pod) (Some PodTerminationGracePeriod) a)"
  shows "obeys S P (\<lambda>_ r. sPhase (snd r) = sPhase st \<or> sPhase (snd r) = PhaseStopAndCopy) (stop_source E now guest st)"
  unfolding stop_source_def
  by (rule stop_source_pod_obeys await_detached_obeys obeys_rules | (rule assms; auto; fail) | simp add: status_simps)+

lemma handlePreparing_obeys:
  assumes "\<And>h guest pod a. S \<subseteq> set h \<Longrightarrow> \<not> isLiveMode mig st \<Longrightarrow>
      GetPod (canonicalPodNameForGuest guest) (Inr pod) \<in> set h \<Longrightarrow> claimed mig guest h \<Longrightarrow>
      P h (DeletePod (pName pod) (Some PodTerminationGracePeriod) a)"
  shows "obeys S P (\<lambda>_ r. sPhase (snd r) = sPhase st \<or> sPhase (snd r) = PhaseStopAndCopy) (handlePreparing E now mig st)"
  unfolding handlePreparing_def Let_def
  by (rule handlePreparingLive_obeys gpu_reserve_obeys obeys_weaken [OF stop_source_obeys] obeys_rules
    | (rule assms, blast, assumption, assumption, blast intro: claimed_read claimed_stored) | (auto simp: status_simps; fail))+

lemma await_scheduled_obeys:
  "obeys S P (\<lambda>_ r. sPhase (snd r) = sPhase st \<or> sPhase (snd r) = PhaseResuming) (await_scheduled E now target guest st)"
  unfolding await_scheduled_def Let_def by (rule obeys_rules | simp add: status_simps)+

lemma move_guest_obeys:
  "obeys S P (\<lambda>_ r. sPhase (snd r) = sPhase st \<or> sPhase (snd r) = PhaseResuming) (move_guest E now target guest st)"
  unfolding move_guest_def by (rule obeys_weaken [OF await_scheduled_obeys] obeys_rules | simp add: status_simps)+

lemma gpu_cutover_obeys:
  assumes "\<And>h r a. S \<subseteq> set h \<Longrightarrow> ReserveOnNode (gName guest) (mTargetNode mig) (Inr r) \<in> set h \<Longrightarrow>
      P h (PatchGuestStatus guest (with_gpus (mTargetNode mig) r guest) a)"
  shows "obeys S P (\<lambda>_ _. True) (if HasVFIODevices guest then cutoverGPUs E mig guest else ret guest)"
  by (rule obeys_if, rule cutoverGPUs_obeys, rule assms, assumption+, rule obeys_ret, simp)

lemma offline_copy_obeys:
  assumes "\<And>h guest r a. S \<subseteq> set h \<Longrightarrow>
      ReserveOnNode (gName guest) (mTargetNode mig) (Inr r) \<in> set h \<Longrightarrow>
      P h (PatchGuestStatus guest (with_gpus (mTargetNode mig) r guest) a)"
    and "\<not> isLiveMode mig st"
  shows "obeys S P (\<lambda>_ r. sPhase (snd r) = sPhase st \<or> sPhase (snd r) = PhaseResuming) (handleStopAndCopy E now mig st)"
  unfolding handleStopAndCopy_def if_not_P [OF assms(2)]
  by (rule gpu_cutover_obeys move_guest_obeys obeys_rules | (rule assms(1); auto; fail) | (simp add: status_simps; fail))+

lemma handleStopAndCopy_obeys:
  assumes del: "\<And>h n a. S \<subseteq> set h \<Longrightarrow> isLiveMode mig st \<Longrightarrow> may_delete_source mig n h \<Longrightarrow> P h (DeletePod n None a)"
    and swap: "\<And>h g d uid a. S \<subseteq> set h \<Longrightarrow> isLiveMode mig st \<Longrightarrow> may_swap mig d uid h \<Longrightarrow>
      P h (PatchGuestStatus g (swap_pod_ref d uid g) a)"
    and gpus: "\<And>h guest r a. S \<subseteq> set h \<Longrightarrow> \<not> isLiveMode mig st \<Longrightarrow>
      ReserveOnNode (gName guest) (mTargetNode mig) (Inr r) \<in> set h \<Longrightarrow>
      P h (PatchGuestStatus guest (with_gpus (mTargetNode mig) r guest) a)"
  shows "obeys S P (\<lambda>_ r. sPhase (snd r) = sPhase st \<or> sPhase (snd r) = PhaseResuming) (handleStopAndCopy E now mig st)"
proof (cases "isLiveMode mig st")
  case True
  have "obeys S P (\<lambda>_ r. sPhase (snd r) = sPhase st \<or> sPhase (snd r) = PhaseResuming) (handleStopAndCopyLive E now mig st)"
    by (rule handleStopAndCopyLive_obeys; (rule del swap)) (auto simp: may_swap_def may_delete_source_def True)
  with True show ?thesis by (simp add: handleStopAndCopy_def)
next
  case False
  then show ?thesis by (intro offline_copy_obeys gpus)
qed

lemma resume_poll_obeys [obeys_rules]: "obeys S P (\<lambda>_ r. sPhase (snd r) = sPhase st) (resume_poll now d m st)"
  unfolding resume_poll_def by (rule obeys_ret) (simp add: status_simps)

lemma finish_offline_obeys [obeys_rules]: "obeys S P (\<lambda>_ r. sPhase (snd r) = PhaseCompleted) (finish_offline E now mig guest st)"
  unfolding finish_offline_def Let_def by (rule obeys_rules | simp add: status_simps)+

lemma resume_with_pod_obeys [obeys_rules]:
  "obeys S P (\<lambda>_ r. sPhase (snd r) = sPhase st \<or> sPhase (snd r) = PhaseCompleted) (resume_with_pod E now mig guest dst st)"
  unfolding resume_with_pod_def
  by (rule obeys_weaken [OF resume_poll_obeys] obeys_weaken [OF finish_offline_obeys] obeys_rules | simp add: status_simps)+

lemma handleResuming_obeys:
  "obeys S P (\<lambda>_ r. sPhase (snd r) = sPhase st \<or> sPhase (snd r) = PhaseCompleted) (handleResuming E now mig st)"
  unfolding handleResuming_def
  by (rule handleResumingLive_obeys obeys_weaken [OF resume_poll_obeys] obeys_rules | simp add: status_simps)+

lemma offlineTimeoutFailure_obeys [obeys_rules]: "obeys S P (\<lambda>_ _. True) (offlineTimeoutFailure E mig phase)"
  unfolding offlineTimeoutFailure_def Let_def by (rule obeys_rules | simp)+

end

end
