(* ===== verification/Migration_Writes.thy ===== *)
theory Migration_Writes
  imports Migration_Footprint
begin

text \<open>
  The specification of a pass: \<open>permitted\<close> says for every write that matters which reads of the same
  pass must have justified it. \<open>pass_permitted\<close> shows that \<open>Reconcile\<close> makes no other write, in every
  environment, and always returns.
\<close>

section \<open>Evidence\<close>

text \<open>
  A pass goes on with the object that a patch answered with: \<open>becomes h m0 m\<close> says that the
  history turned \<open>m0\<close> into \<open>m\<close> in this way.
\<close>

inductive becomes :: "kevent list \<Rightarrow> SwiftMigration \<Rightarrow> SwiftMigration \<Rightarrow> bool" for h m0 where
  same: "becomes h m0 m0"
| patched: "becomes h m0 m \<Longrightarrow> PatchMig m fs (Inr m') \<in> set h \<Longrightarrow> becomes h m0 m'"
| saved: "becomes h m0 m \<Longrightarrow> PatchMigStatus m st locked (Inr m') \<in> set h \<Longrightarrow> sPhase st = sPhase (mStatus m) \<Longrightarrow> becomes h m0 m'"

lemma becomes_mono: "becomes h m0 m \<Longrightarrow> set h \<subseteq> set h' \<Longrightarrow> becomes h' m0 m"
  by (induction rule: becomes.induct) (auto intro: becomes.intros)

definition current :: "string \<Rightarrow> kevent list \<Rightarrow> SwiftMigration \<Rightarrow> bool" where
  "current name h m \<longleftrightarrow> (\<exists>m0. GetMig name (Inr m0) \<in> set h \<and> becomes h m0 m)"

definition active :: "string \<Rightarrow> kevent list \<Rightarrow> SwiftMigration \<Rightarrow> bool" where
  "active name h m \<longleftrightarrow>
     (\<exists>m0. GetMig name (Inr m0) \<in> set h \<and> \<not> isTerminalPhase (sPhase (mStatus m0)) \<and> becomes h m0 m)"

lemma active_mono: "active name h m \<Longrightarrow> set h \<subseteq> set h' \<Longrightarrow> active name h' m"
  unfolding active_def using becomes_mono by blast

lemma active_current: "active name h m \<Longrightarrow> current name h m"
  by (auto simp: active_def current_def)

lemma active_patched: "active name h m \<Longrightarrow> PatchMig m fs (Inr m') \<in> set h \<Longrightarrow> active name h m'"
  unfolding active_def using becomes.patched by blast

lemma active_saved:
  "active name h m \<Longrightarrow> PatchMigStatus m st locked (Inr m') \<in> set h \<Longrightarrow> sPhase st = sPhase (mStatus m) \<Longrightarrow> active name h m'"
  unfolding active_def using becomes.saved by blast

text \<open>Nothing the pass has read shows the guest on the destination.\<close>

definition uncommitted :: "SwiftMigration \<Rightarrow> kevent list \<Rightarrow> bool" where
  "uncommitted m h \<longleftrightarrow> \<not> isPostCutover m \<and>
     (sMode (mStatus m) \<noteq> ''live'' \<or>
      (\<exists>e. GetGuest (mGuestRef m) (Inl e) \<in> set h \<and> errors_Is e ErrNotFound) \<or>
      (\<exists>guest src. GetGuest (mGuestRef m) (Inr guest) \<in> set h \<and>
         read_pod (srcPodLookupName m guest) src h \<and> \<not> srcReportedComplete m src \<and>
         (\<forall>d. dstPodName m (gName guest) = Inr d \<longrightarrow> (\<exists>dst. read_pod d dst h \<and> \<not> dstReportedRunning m dst))))"

lemma uncommitted_mode: "\<not> isPostCutover m \<Longrightarrow> sMode (mStatus m) \<noteq> ''live'' \<Longrightarrow> uncommitted m h"
  by (simp add: uncommitted_def)

lemma uncommitted_guest:
  "\<not> isPostCutover m \<Longrightarrow> GetGuest (mGuestRef m) (Inl e) \<in> set h \<Longrightarrow> errors_Is e ErrNotFound \<Longrightarrow> uncommitted m h"
  by (auto simp: uncommitted_def)

lemma uncommitted_pods:
  assumes "\<not> isPostCutover m" and "GetGuest (mGuestRef m) (Inr guest) \<in> set h"
    and "read_pod (srcPodLookupName m guest) src h" and "\<not> srcReportedComplete m src"
    and "\<And>d. dstPodName m (gName guest) = Inr d \<Longrightarrow> \<exists>dst. read_pod d dst h \<and> \<not> dstReportedRunning m dst"
  shows "uncommitted m h"
  unfolding uncommitted_def using assms by blast

lemma uncommitted_mono:
  assumes u: "uncommitted m h" and s: "set h \<subseteq> set h'"
  shows "uncommitted m h'"
proof -
  have n: "\<not> isPostCutover m" using u by (simp add: uncommitted_def)
  consider (mode) "sMode (mStatus m) \<noteq> ''live''"
    | (guest) e where "GetGuest (mGuestRef m) (Inl e) \<in> set h" "errors_Is e ErrNotFound"
    | (pods) guest src where "GetGuest (mGuestRef m) (Inr guest) \<in> set h" "read_pod (srcPodLookupName m guest) src h"
        "\<not> srcReportedComplete m src"
        "\<forall>d. dstPodName m (gName guest) = Inr d \<longrightarrow> (\<exists>dst. read_pod d dst h \<and> \<not> dstReportedRunning m dst)"
    using u unfolding uncommitted_def by blast
  then show ?thesis
  proof cases
    case mode
    then show ?thesis by (rule uncommitted_mode [OF n])
  next
    case guest
    then show ?thesis using s by (intro uncommitted_guest [OF n]) auto
  next
    case pods
    show ?thesis
    proof (rule uncommitted_pods [OF n _ read_pod_mono [OF pods(2) s] pods(3)])
      show "GetGuest (mGuestRef m) (Inr guest) \<in> set h'" using pods(1) s by blast
      show "\<exists>dst. read_pod d dst h' \<and> \<not> dstReportedRunning m dst" if d: "dstPodName m (gName guest) = Inr d" for d
      proof -
        obtain dst where "read_pod d dst h" "\<not> dstReportedRunning m dst" using pods(4) d by blast
        then show ?thesis using read_pod_mono [OF _ s] by blast
      qed
    qed
  qed
qed

text \<open>How one write may move the phase.\<close>

definition phase_step :: "string \<Rightarrow> string \<Rightarrow> bool" where
  "phase_step p q \<longleftrightarrow>
     q = p \<or> q = PhaseCancelled \<or> q = PhaseFailed \<and> p \<notin> {'''', PhasePending} \<or>
     (p, q) \<in> {('''', PhaseValidating), (PhasePending, PhaseValidating), (PhaseValidating, PhasePreparing),
       (PhasePreparing, PhaseStopAndCopy), (PhaseStopAndCopy, PhaseResuming), (PhaseResuming, PhaseCompleted)}"

section \<open>The specification\<close>

text \<open>
  Reads, calls into other parts and patches of pods, of guest specs and of finalizers are
  always permitted. Besides them:
    \<^item> a status is written only to a migration that was read in a phase that is not
      terminal, and moves its phase by one step;
    \<^item> the pod reference of a guest moves to the destination only in StopAndCopy of a live
      migration, when the launchers that were read report the commit, and its GPUs only in
      StopAndCopy of an offline one, to devices reserved in the same pass;
    \<^item> a pod is deleted as the source of a live migration only when the guest was read with its
      reference on the destination and the redirection has been recorded; as its destination only
      when nothing that was read shows the guest there; as the source of an offline migration only
      with the claim on the guest;
    \<^item> a migration is deleted only in a terminal phase, without finalizer and after its time to live;
    \<^item> a node identity is deleted only when no active migration that was listed uses its node.
\<close>

inductive permitted :: "int \<Rightarrow> string \<Rightarrow> kevent list \<Rightarrow> kevent \<Rightarrow> bool" for now name where
  plain: "plain e \<Longrightarrow> permitted now name h e"
| status: "active name h m \<Longrightarrow> phase_step (sPhase (mStatus m)) (sPhase st) \<Longrightarrow>
    permitted now name h (PatchMigStatus m st locked a)"
| swap: "active name h m \<Longrightarrow> sPhase (mStatus m) = PhaseStopAndCopy \<Longrightarrow> isLiveMode m (mStatus m) \<Longrightarrow> may_swap m d uid h \<Longrightarrow>
    permitted now name h (PatchGuestStatus g (swap_pod_ref d uid g) a)"
| gpus: "active name h m \<Longrightarrow> sPhase (mStatus m) = PhaseStopAndCopy \<Longrightarrow> \<not> isLiveMode m (mStatus m) \<Longrightarrow>
    ReserveOnNode (gName g) (mTargetNode m) (Inr r) \<in> set h \<Longrightarrow>
    permitted now name h (PatchGuestStatus g (with_gpus (mTargetNode m) r g) a)"
| source: "active name h m \<Longrightarrow> sPhase (mStatus m) = PhaseStopAndCopy \<Longrightarrow> isLiveMode m (mStatus m) \<Longrightarrow> may_delete_source m n h \<Longrightarrow>
    permitted now name h (DeletePod n None a)"
| destination: "current name h m \<Longrightarrow> uncommitted m h \<Longrightarrow> permitted now name h (DeletePod n grace a)"
| offline: "active name h m \<Longrightarrow> sPhase (mStatus m) = PhasePreparing \<Longrightarrow> \<not> isLiveMode m (mStatus m) \<Longrightarrow> claimed m guest h \<Longrightarrow>
    GetPod (canonicalPodNameForGuest guest) (Inr pod) \<in> set h \<Longrightarrow>
    permitted now name h (DeletePod (pName pod) (Some PodTerminationGracePeriod) a)"
| retire: "GetMig name (Inr m) \<in> set h \<Longrightarrow> isTerminalPhase (sPhase (mStatus m)) \<Longrightarrow> \<not> hasFinalizer m \<Longrightarrow>
    mTTL m = Some ttl \<Longrightarrow> sTerminalAt (mStatus m) = Some t \<Longrightarrow> t + ttl \<le> now \<Longrightarrow>
    permitted now name h (DeleteMig (mName m) a)"
| identity: "GetMig name (Inr m) \<in> set h \<Longrightarrow> hasFinalizer m \<Longrightarrow> ListMigs (Inr migs) \<in> set h \<Longrightarrow>
    node \<in> set (nodes_of m) \<Longrightarrow> node \<notin> set (nodes_in_use m migs) \<Longrightarrow>
    permitted now name h (DeleteSecret (MigrationNodeSecretName node) a)"


section \<open>Abandoning a migration\<close>

lemma cancel_ignored_phase [status_simps]: "sPhase (cancel_ignored now st) = sPhase st"
  by (simp add: cancel_ignored_def status_simps)

lemma terminal_stamped_phase [status_simps]: "sPhase (terminal_stamped now mig st) = sPhase st"
  by (simp add: terminal_stamped_def)

lemma failed_status_fields [status_simps]: "sPhase (failed_status now r st) = PhaseFailed" "sMode (failed_status now r st) = sMode st"
  by (simp_all add: failed_status_def status_simps Let_def)

context policy
begin

lemma dst_report_obeys:
  assumes "\<not> isPostCutover mig" and "\<And>h. S \<subseteq> set h \<Longrightarrow> GetGuest (mGuestRef mig) (Inr guest) \<in> set h"
    and "\<And>h. S \<subseteq> set h \<Longrightarrow> read_pod (srcPodLookupName mig guest) src h" and "\<not> srcReportedComplete mig src"
    and "dstPodName mig (gName guest) = Inr d"
  shows "obeys S P (\<lambda>h x. \<not> x \<longrightarrow> uncommitted mig h) (andThen (findPod E d) (\<lambda>dst. ret (dstReportedRunning mig dst)))"
proof (rule obeys_andThen [OF findPod_obeys], rule obeys_ret, rule impI)
  fix h dst h'
  assume h: "S \<subseteq> set h" "read_pod d dst h" "set h \<subseteq> set h'" "\<not> dstReportedRunning mig dst"
  have S: "S \<subseteq> set h'" using h by blast
  show "uncommitted mig h'"
    by (rule uncommitted_pods [OF assms(1) assms(2) [OF S] assms(3) [OF S] assms(4)])
      (use assms(5) h(4) read_pod_mono [OF h(2,3)] in auto)
qed

lemma liveCommitted_obeys [obeys_rules]: "obeys S P (\<lambda>h x. \<not> x \<longrightarrow> uncommitted mig h) (liveCommitted E mig)"
  unfolding liveCommitted_def
proof (rule obeys_if [OF obeys_ret], simp, rule obeys_if [OF obeys_ret], simp add: uncommitted_mode, rule obeys_whenFound_getGuest)
  fix h e
  assume "\<not> isPostCutover mig" "GetGuest (mGuestRef mig) (Inl e) \<in> set h" "errors_Is e ErrNotFound"
  then show "obeys (set h) P (\<lambda>h x. \<not> x \<longrightarrow> uncommitted mig h) (ret False)"
    by (intro obeys_ret impI uncommitted_guest [of mig e]) auto
next
  fix h guest
  assume n: "\<not> isPostCutover mig" and g: "GetGuest (mGuestRef mig) (Inr guest) \<in> set h"
  show "obeys (set h) P (\<lambda>h x. \<not> x \<longrightarrow> uncommitted mig h)
    (andThen (findPod E (srcPodLookupName mig guest))
       (\<lambda>src. if srcReportedComplete mig src then ret True
          else case dstPodName mig (gName guest) of
                 Inl _ \<Rightarrow> ret False
               | Inr dstName \<Rightarrow> andThen (findPod E dstName) (\<lambda>dst. ret (dstReportedRunning mig dst))))"
  proof (rule obeys_andThen [OF findPod_obeys], rule obeys_if [OF obeys_ret], simp, rule obeys_sum)
    fix h' src e
    assume h: "set h \<subseteq> set h'" "read_pod (srcPodLookupName mig guest) src h'" "\<not> srcReportedComplete mig src"
      "dstPodName mig (gName guest) = Inl e"
    show "obeys (set h') P (\<lambda>h x. \<not> x \<longrightarrow> uncommitted mig h) (ret False)"
    proof (rule obeys_ret, rule impI)
      fix h''
      assume s: "set h' \<subseteq> set h''"
      show "uncommitted mig h''"
        by (rule uncommitted_pods [OF n _ read_pod_mono [OF h(2) s] h(3)]) (use g h s in auto)
    qed
  next
    fix h' src d
    assume h: "set h \<subseteq> set h'" "read_pod (srcPodLookupName mig guest) src h'" "\<not> srcReportedComplete mig src"
      "dstPodName mig (gName guest) = Inr d"
    show "obeys (set h') P (\<lambda>h x. \<not> x \<longrightarrow> uncommitted mig h) (andThen (findPod E d) (\<lambda>dst. ret (dstReportedRunning mig dst)))"
      by (rule dst_report_obeys [OF n _ read_pod_mono [OF h(2)] h(3,4)]) (use g h(1) in auto)
  qed
qed (rule obeys_raise)

lemma deletionCommitted_obeys [obeys_rules]:
  "obeys S P (\<lambda>h x. \<not> x \<longrightarrow> sMode (mStatus mig) = ''live'' \<longrightarrow> uncommitted mig h) (deletionCommitted E mig)"
  unfolding deletionCommitted_def by (rule obeys_weaken [OF liveCommitted_obeys] obeys_rules | simp)+

lemma finishCutoverBeforeDeletion_obeys [obeys_rules]: "obeys S P (\<lambda>_ _. True) (finishCutoverBeforeDeletion E mig)"
  unfolding finishCutoverBeforeDeletion_def by (rule obeys_weaken [OF liveCommitted_obeys] obeys_rules | simp)+

lemma clearSourceSend_obeys [obeys_rules]: "obeys S P (\<lambda>_ _. True) (clearSourceSend E mig)"
  unfolding clearSourceSend_def by (rule obeys_rules | simp)+

lemma clearSourceCancel_obeys [obeys_rules]: "obeys S P (\<lambda>_ _. True) (clearSourceCancel E mig pod)"
  unfolding clearSourceCancel_def by (rule obeys_rules | simp)+

lemma clearLauncherCancel_obeys [obeys_rules]: "obeys S P (\<lambda>_ _. True) (clearLauncherCancel E mig)"
  unfolding clearLauncherCancel_def by (rule obeys_rules | simp)+

lemma LauncherPod_obeys [obeys_rules]: "obeys S P (\<lambda>_ _. True) (LauncherPod E guest)"
  unfolding LauncherPod_def by (rule obeys_rules | simp)+

lemma clearDestinationReceive_obeys [obeys_rules]: "obeys S P (\<lambda>_ _. True) (clearDestinationReceive E mig)"
  unfolding clearDestinationReceive_def by (rule obeys_rules | simp)+

lemma fallBackToDestinationCancel_obeys [obeys_rules]:
  "obeys S P (\<lambda>_ _. True) (fallBackToDestinationCancel E mig src reason)"
  unfolding fallBackToDestinationCancel_def by (rule obeys_rules | simp)+

lemma resolveOnSource_obeys [obeys_rules]: "obeys S P (\<lambda>_ _. True) (resolveOnSource E now mig src dst)"
  unfolding resolveOnSource_def by (rule obeys_rules | simp)+

lemma resolveOnDestination_obeys [obeys_rules]: "obeys S P (\<lambda>_ _. True) (resolveOnDestination E now mig dst)"
  unfolding resolveOnDestination_def by (rule obeys_rules | simp)+

lemma resolveWithPods_obeys [obeys_rules]: "obeys S P (\<lambda>_ _. True) (resolveWithPods E now mig src dst)"
  unfolding resolveWithPods_def by (rule obeys_rules | simp)+

lemma resolve_unresolved_obeys:
  "obeys S P (\<lambda>_ _. True)
     (whenFound (getGuest E (mGuestRef mig))
        (ret (resolution abortNoSend ''none'' ''the source SwiftGuest is gone''))
        (\<lambda>e. raise (Errorw ''get source guest: '' e))
        (\<lambda>guest. case dstPodName mig (gName guest) of
           Inl e \<Rightarrow> ret (resolution abortNoSend ''none'' (''no destination pod name: '' @ err_msg e))
         | Inr dstName \<Rightarrow>
             whenFound (getPod E dstName)
               (ret (resolution abortNoSend ''none'' ''the destination pod does not exist''))
               (\<lambda>e. raise (Errorw ''get destination pod: '' e))
               (\<lambda>dst. andThen (wrapErr ''get source pod: '' (findPod E (srcPodLookupName mig guest)))
                  (\<lambda>src. resolveWithPods E now mig src dst))))"
  by (rule obeys_rules | simp)+

lemma resolveSourceOwnership_obeys [obeys_rules]:
  "obeys S P (\<lambda>h res. settled res \<longrightarrow> uncommitted mig h) (resolveSourceOwnership E now mig)"
  unfolding resolveSourceOwnership_def
proof (rule obeys_andThen [OF obeys_wrapErr [OF liveCommitted_obeys]], rule obeys_if [OF obeys_ret], simp add: settled_def resolution_def)
  fix h committed
  assume "\<not> committed \<longrightarrow> uncommitted mig h" "\<not> committed"
  then show "obeys (set h) P (\<lambda>h res. settled res \<longrightarrow> uncommitted mig h)
     (whenFound (getGuest E (mGuestRef mig))
        (ret (resolution abortNoSend ''none'' ''the source SwiftGuest is gone''))
        (\<lambda>e. raise (Errorw ''get source guest: '' e))
        (\<lambda>guest. case dstPodName mig (gName guest) of
           Inl e \<Rightarrow> ret (resolution abortNoSend ''none'' (''no destination pod name: '' @ err_msg e))
         | Inr dstName \<Rightarrow>
             whenFound (getPod E dstName)
               (ret (resolution abortNoSend ''none'' ''the destination pod does not exist''))
               (\<lambda>e. raise (Errorw ''get destination pod: '' e))
               (\<lambda>dst. andThen (wrapErr ''get source pod: '' (findPod E (srcPodLookupName mig guest)))
                  (\<lambda>src. resolveWithPods E now mig src dst))))"
    by (intro obeys_weaken [OF resolve_unresolved_obeys]) (auto intro: uncommitted_mono)
qed

lemma deleteAbandonedDestination_obeys:
  assumes "\<And>h n g a. S \<subseteq> set h \<Longrightarrow> settled res \<Longrightarrow> P h (DeletePod n g a)"
  shows "obeys S P (\<lambda>_ _. True) (deleteAbandonedDestination E mig res)"
  unfolding deleteAbandonedDestination_def
  by (rule deletePod_obeys obeys_rules | (rule assms; auto; fail) | simp)+

lemma cleanupDstPod_obeys:
  assumes "\<And>h n a. S \<subseteq> set h \<Longrightarrow> P h (DeletePod n None a)"
  shows "obeys S P (\<lambda>_ _. True) (cleanupDstPod E st)"
  unfolding cleanupDstPod_def by (rule deletePod_obeys obeys_rules | (rule assms; assumption) | simp)+

lemma releaseTargetReservation_obeys [obeys_rules]: "obeys S P (\<lambda>_ _. True) (releaseTargetReservation E mig g)"
  unfolding releaseTargetReservation_def by (rule obeys_rules | simp)+

lemma cleanupSourceGuest_obeys [obeys_rules]: "obeys S P (\<lambda>_ _. True) (cleanupSourceGuest E mig restore)"
  unfolding cleanupSourceGuest_def by (rule obeys_rules | simp)+

lemma ensureFinalizer_obeys [obeys_rules]:
  "obeys S P (\<lambda>h m. m = mig \<or> (\<exists>fs. PatchMig mig fs (Inr m) \<in> set h)) (ensureFinalizer E mig)"
  unfolding ensureFinalizer_def by (rule obeys_weaken [OF patchMig_obeys] obeys_rules | blast | simp)+

lemma removeFinalizer_obeys [obeys_rules]: "obeys S P (\<lambda>_ _. True) (removeFinalizer E mig)"
  unfolding removeFinalizer_def by (rule obeys_rules | simp)+

lemma delete_identity_obeys:
  assumes "\<And>h a. S \<subseteq> set h \<Longrightarrow> P h (DeleteSecret name a)"
  shows "obeys S P (\<lambda>_ _. True) (delete_identity E name)"
  unfolding delete_identity_def by (rule deleteSecret_obeys obeys_rules | (rule assms; auto; fail) | simp)+

lemma delete_identities_obeys:
  assumes "\<And>h n a. S \<subseteq> set h \<Longrightarrow> n \<in> set ns \<Longrightarrow> n \<notin> set keep \<Longrightarrow> P h (DeleteSecret (MigrationNodeSecretName n) a)"
  shows "obeys S P (\<lambda>_ _. True) (delete_identities E keep ns)"
  using assms
proof (induction ns arbitrary: S)
  case Nil
  show ?case by (simp add: obeys_ret)
next
  case (Cons n ns)
  have "obeys S P (\<lambda>_ _. True) (delete_identity E (MigrationNodeSecretName n))" if "n \<notin> set keep"
    by (rule delete_identity_obeys) (use Cons.prems that in auto)
  moreover have "obeys S' P (\<lambda>_ _. True) (delete_identities E keep ns)" if "S \<subseteq> S'" for S'
    by (rule Cons.IH) (use Cons.prems that in auto)
  ultimately show ?case by (auto intro!: obeys_andThen)
qed

lemma cleanupCopiedNodeIdentities_obeys:
  assumes "\<And>h n migs a. S \<subseteq> set h \<Longrightarrow> ListMigs (Inr migs) \<in> set h \<Longrightarrow> n \<in> set (nodes_of mig) \<Longrightarrow>
      n \<notin> set (nodes_in_use mig migs) \<Longrightarrow> P h (DeleteSecret (MigrationNodeSecretName n) a)"
  shows "obeys S P (\<lambda>_ _. True) (cleanupCopiedNodeIdentities E mig)"
  unfolding cleanupCopiedNodeIdentities_def
  by (rule delete_identities_obeys obeys_rules | (rule assms; auto; fail) | simp)+

lemma onTerminalPhase_obeys:
  assumes "\<And>h n a. S \<subseteq> set h \<Longrightarrow> sMode st = ''live'' \<Longrightarrow> \<not> isPostCutover mig \<Longrightarrow> P h (DeletePod n None a)"
  shows "obeys S P (\<lambda>_ _. True) (onTerminalPhase E mig st)"
  unfolding onTerminalPhase_def by (rule cleanupDstPod_obeys obeys_rules | (rule assms; auto; fail) | simp)+

text \<open>From here on, \<open>step\<close> permits to write the status of the migration with a phase it may move to.\<close>

lemma finalizeCancelled_obeys:
  assumes step: "\<And>h st l a. S \<subseteq> set h \<Longrightarrow> phase_step (sPhase (mStatus mig)) (sPhase st) \<Longrightarrow> P h (PatchMigStatus mig st l a)"
  shows "obeys S P (\<lambda>_ _. True) (finalizeCancelled E now mig detail)"
  unfolding finalizeCancelled_def
  by (rule obeys_true [OF patchMigStatus_obeys] obeys_rules
    | (rule step; simp add: phase_step_def cancelled_status_def status_simps; fail) | simp)+

lemma persistPhaseDetail_obeys:
  assumes step: "\<And>h st l a. S \<subseteq> set h \<Longrightarrow> phase_step (sPhase (mStatus mig)) (sPhase st) \<Longrightarrow> P h (PatchMigStatus mig st l a)"
  shows "obeys S P (\<lambda>_ _. True) (persistPhaseDetail E mig detail)"
  unfolding persistPhaseDetail_def
  by (rule obeys_true [OF patchMigStatus_obeys] obeys_rules | (rule step; simp add: phase_step_def status_simps; fail) | simp)+

lemma transitionCancelLive_obeys:
  assumes step: "\<And>h st l a. S \<subseteq> set h \<Longrightarrow> phase_step (sPhase (mStatus mig)) (sPhase st) \<Longrightarrow> P h (PatchMigStatus mig st l a)"
    and del: "\<And>h n g a. S \<subseteq> set h \<Longrightarrow> uncommitted mig h \<Longrightarrow> P h (DeletePod n g a)"
  shows "obeys S P (\<lambda>_ _. True) (transitionCancelLive E now mig)"
  unfolding transitionCancelLive_def
  by (rule finalizeCancelled_obeys persistPhaseDetail_obeys deleteAbandonedDestination_obeys obeys_rules
    | (rule step; (assumption | blast); fail) | (rule del; (blast intro: uncommitted_mono)?; fail) | simp)+

lemma markCancelIgnored_obeys:
  assumes step: "\<And>h st l a. S \<subseteq> set h \<Longrightarrow> phase_step (sPhase (mStatus mig)) (sPhase st) \<Longrightarrow> P h (PatchMigStatus mig st l a)"
  shows "obeys S P (\<lambda>h r. \<forall>m. r = Inr m \<longrightarrow> m = mig \<or> (\<exists>l. PatchMigStatus mig (cancel_ignored now (mStatus mig)) l (Inr m) \<in> set h)) (markCancelIgnored E now mig)"
  unfolding markCancelIgnored_def
  by (rule patchMigStatus_obeys obeys_rules | (rule step; simp add: phase_step_def cancel_ignored_def status_simps; fail)
    | blast | simp)+

lemma honorCancel_obeys:
  assumes step: "\<And>h st l a. S \<subseteq> set h \<Longrightarrow> phase_step (sPhase (mStatus mig)) (sPhase st) \<Longrightarrow> P h (PatchMigStatus mig st l a)"
    and del: "\<And>h n g a. S \<subseteq> set h \<Longrightarrow> uncommitted mig h \<Longrightarrow> P h (DeletePod n g a)"
  shows "obeys S P (\<lambda>h r. \<forall>m. r = Inr m \<longrightarrow> m = mig \<or> (\<exists>l. PatchMigStatus mig (cancel_ignored now (mStatus mig)) l (Inr m) \<in> set h)) (honorCancel E now mig)"
  unfolding honorCancel_def
  by (rule markCancelIgnored_obeys transitionCancelLive_obeys obeys_rules
    | (rule step; (assumption | blast); fail) | (rule del; (assumption | blast); fail) | simp)+

lemma cancel_destination_obeys:
  assumes "\<And>h n a. S \<subseteq> set h \<Longrightarrow> b \<Longrightarrow> P h (DeletePod n None a)"
  shows "obeys S P (\<lambda>_ _. True) (if b then wrapErr msg (cleanupDstPod E st) else ret ())"
  by (rule cleanupDstPod_obeys obeys_rules | (rule assms; assumption) | simp)+

lemma finish_deletion_obeys:
  assumes del: "\<And>h n a. S \<subseteq> set h \<Longrightarrow> \<not> committed \<Longrightarrow> sMode (mStatus mig) = ''live'' \<Longrightarrow> P h (DeletePod n None a)"
    and sec: "\<And>h n migs a. S \<subseteq> set h \<Longrightarrow> ListMigs (Inr migs) \<in> set h \<Longrightarrow> n \<in> set (nodes_of mig) \<Longrightarrow>
      n \<notin> set (nodes_in_use mig migs) \<Longrightarrow> P h (DeleteSecret (MigrationNodeSecretName n) a)"
  shows "obeys S P (\<lambda>_ _. True) (finish_deletion E mig committed resolved)"
  unfolding finish_deletion_def
  by (rule cancel_destination_obeys cleanupCopiedNodeIdentities_obeys obeys_rules
    | (rule del; (assumption | blast); fail) | (rule sec; (assumption | blast); fail) | simp)+

lemma handleCancellation_obeys:
  assumes step: "\<And>h st l a. S \<subseteq> set h \<Longrightarrow> \<not> isTerminalPhase (sPhase (mStatus mig)) \<Longrightarrow>
      phase_step (sPhase (mStatus mig)) (sPhase st) \<Longrightarrow> P h (PatchMigStatus mig st l a)"
    and del: "\<And>h n g a. S \<subseteq> set h \<Longrightarrow> uncommitted mig h \<Longrightarrow> P h (DeletePod n g a)"
    and sec: "\<And>h n migs a. S \<subseteq> set h \<Longrightarrow> hasFinalizer mig \<Longrightarrow> ListMigs (Inr migs) \<in> set h \<Longrightarrow> n \<in> set (nodes_of mig) \<Longrightarrow>
      n \<notin> set (nodes_in_use mig migs) \<Longrightarrow> P h (DeleteSecret (MigrationNodeSecretName n) a)"
  shows "obeys S P (\<lambda>_ _. True) (handleCancellation E now mig)"
  unfolding handleCancellation_def
  by (rule finish_deletion_obeys persistPhaseDetail_obeys deleteAbandonedDestination_obeys obeys_rules
    | (rule step; (assumption | blast); fail) | (rule del; (blast intro: uncommitted_mono)?; fail)
    | (rule sec; (assumption | blast); fail) | simp)+

subsection \<open>The pass\<close>

lemma persist_obeys:
  assumes step: "\<And>h st l a. S \<subseteq> set h \<Longrightarrow> phase_step (sPhase (mStatus mig)) (sPhase st) \<Longrightarrow> P h (PatchMigStatus mig st l a)"
    and "phase_step (sPhase (mStatus mig)) (sPhase st)"
  shows "obeys S P (\<lambda>_ _. True) (persist E now mig st)"
  unfolding persist_def
  by (rule obeys_true [OF patchMigStatus_obeys] obeys_rules | (rule step; simp add: assms(2) status_simps; fail) | simp)+

lemma resolveBeforeFailing_obeys:
  assumes step: "\<And>h st l a. S \<subseteq> set h \<Longrightarrow> phase_step (sPhase (mStatus mig)) (sPhase st) \<Longrightarrow> P h (PatchMigStatus mig st l a)"
    and p: "phase_step (sPhase (mStatus mig)) (sPhase st)"
  shows "obeys S P (\<lambda>h r. \<forall>res. r = Inr res \<longrightarrow>
      (isLiveMode mig st \<and> \<not> isPostCutover mig \<or> arOutcome res = abortUnresolved \<longrightarrow> uncommitted mig h))
    (resolveBeforeFailing E now mig st result)"
  unfolding resolveBeforeFailing_def
  by (rule persist_obeys obeys_rules | (rule step; (assumption | blast); fail) | (simp add: p status_simps; fail)
    | (auto simp: resolution_def settled_def intro: uncommitted_mono; fail))+

lemma abandon_obeys:
  assumes "\<And>h n g a. S \<subseteq> set h \<Longrightarrow> arOutcome res = abortUnresolved \<Longrightarrow> P h (DeletePod n g a)"
  shows "obeys S P (\<lambda>_ _. True) (if arOutcome res = abortUnresolved then deleteAbandonedDestination E mig res else ret ())"
  by (rule deleteAbandonedDestination_obeys obeys_rules | (rule assms; assumption) | simp)+

lemma apply_failure_obeys:
  assumes step: "\<And>h st l a. S \<subseteq> set h \<Longrightarrow> phase_step (sPhase (mStatus mig)) (sPhase st) \<Longrightarrow> P h (PatchMigStatus mig st l a)"
    and del: "\<And>h n g a. S \<subseteq> set h \<Longrightarrow> isLiveMode mig st \<and> \<not> isPostCutover mig \<or> arOutcome res = abortUnresolved \<Longrightarrow> P h (DeletePod n g a)"
    and p: "phase_step (sPhase (mStatus mig)) PhaseFailed"
  shows "obeys S P (\<lambda>_ _. True) (apply_failure E now mig st result res)"
  unfolding apply_failure_def
  by (rule abandon_obeys onTerminalPhase_obeys persist_obeys obeys_rules | (rule step; (assumption | blast); fail)
    | (rule del; (simp add: isLiveMode_def status_simps; blast)?; fail) | (simp add: p status_simps; fail))+

lemma dispatchResult_obeys:
  assumes step: "\<And>h st l a. S \<subseteq> set h \<Longrightarrow> phase_step (sPhase (mStatus mig)) (sPhase st) \<Longrightarrow> P h (PatchMigStatus mig st l a)"
    and del: "\<And>h n g a. S \<subseteq> set h \<Longrightarrow> uncommitted mig h \<Longrightarrow> P h (DeletePod n g a)"
    and p: "phase_step (sPhase (mStatus mig)) PhaseFailed" "phase_step (sPhase (mStatus mig)) (sPhase st)"
  shows "obeys S P (\<lambda>_ _. True) (dispatchResult E now mig st result)"
  unfolding dispatchResult_def
  by (rule resolveBeforeFailing_obeys apply_failure_obeys persist_obeys obeys_rules | (rule step; (assumption | blast); fail)
    | (rule p; fail) | (rule del; (blast intro: uncommitted_mono)?; fail) | (simp; fail))+

lemma handleTerminalRetention_obeys:
  assumes "\<And>h t ttl a. S \<subseteq> set h \<Longrightarrow> mTTL mig = Some ttl \<Longrightarrow> sTerminalAt (mStatus mig) = Some t \<Longrightarrow> t + ttl \<le> now \<Longrightarrow>
      P h (DeleteMig (mName mig) a)"
  shows "obeys S P (\<lambda>_ _. True) (handleTerminalRetention E now mig)"
  unfolding handleTerminalRetention_def
  by (rule deleteMig_obeys obeys_rules | (rule assms, assumption, simp, simp, simp) | (simp; fail))+

lemma reconcile_terminal_obeys:
  assumes sec: "\<And>h n migs a. S \<subseteq> set h \<Longrightarrow> hasFinalizer mig \<Longrightarrow> ListMigs (Inr migs) \<in> set h \<Longrightarrow> n \<in> set (nodes_of mig) \<Longrightarrow>
      n \<notin> set (nodes_in_use mig migs) \<Longrightarrow> P h (DeleteSecret (MigrationNodeSecretName n) a)"
    and ret: "\<And>h t ttl a. S \<subseteq> set h \<Longrightarrow> \<not> hasFinalizer mig \<Longrightarrow> mTTL mig = Some ttl \<Longrightarrow> sTerminalAt (mStatus mig) = Some t \<Longrightarrow>
      t + ttl \<le> now \<Longrightarrow> P h (DeleteMig (mName mig) a)"
  shows "obeys S P (\<lambda>_ _. True) (reconcile_terminal E now mig)"
  unfolding reconcile_terminal_def
  by (rule cleanupCopiedNodeIdentities_obeys handleTerminalRetention_obeys obeys_rules | (rule sec ret; (assumption | blast); fail) | (simp; fail))+

lemma dispatched_obeys:
  assumes m: "obeys S P (\<lambda>_ r. sPhase (snd r) = sPhase st \<or> sPhase (snd r) = q) m"
    and step: "\<And>h st l a. S \<subseteq> set h \<Longrightarrow> phase_step (sPhase (mStatus mig)) (sPhase st) \<Longrightarrow> P h (PatchMigStatus mig st l a)"
    and del: "\<And>h n g a. S \<subseteq> set h \<Longrightarrow> uncommitted mig h \<Longrightarrow> P h (DeletePod n g a)"
    and p: "phase_step (sPhase (mStatus mig)) PhaseFailed" "phase_step (sPhase (mStatus mig)) q" "sPhase st = sPhase (mStatus mig)"
  shows "obeys S P (\<lambda>_ _. True) (dispatched E now mig m)"
  unfolding dispatched_def
proof (rule obeys_andThen [OF m], rule obeys_pair, rule dispatchResult_obeys)
  fix h and r :: handled and a b
  assume "sPhase (snd r) = sPhase st \<or> sPhase (snd r) = q" "r = (a, b)"
  then show "phase_step (sPhase (mStatus mig)) (sPhase b)" using p(2,3) by (auto simp: phase_step_def)
qed (use step del p(1) in auto)

text \<open>What the handlers need to be permitted.\<close>

lemma dispatch_phase_obeys:
  assumes step: "\<And>h st l a. S \<subseteq> set h \<Longrightarrow> phase_step (sPhase (mStatus mig)) (sPhase st) \<Longrightarrow> P h (PatchMigStatus mig st l a)"
    and del: "\<And>h n g a. S \<subseteq> set h \<Longrightarrow> uncommitted mig h \<Longrightarrow> P h (DeletePod n g a)"
    and off: "\<And>h guest pod a. S \<subseteq> set h \<Longrightarrow> sPhase (mStatus mig) = PhasePreparing \<Longrightarrow> \<not> isLiveMode mig (mStatus mig) \<Longrightarrow>
      GetPod (canonicalPodNameForGuest guest) (Inr pod) \<in> set h \<Longrightarrow> claimed mig guest h \<Longrightarrow>
      P h (DeletePod (pName pod) (Some PodTerminationGracePeriod) a)"
    and src: "\<And>h n a. S \<subseteq> set h \<Longrightarrow> sPhase (mStatus mig) = PhaseStopAndCopy \<Longrightarrow> isLiveMode mig (mStatus mig) \<Longrightarrow>
      may_delete_source mig n h \<Longrightarrow> P h (DeletePod n None a)"
    and swap: "\<And>h g d uid a. S \<subseteq> set h \<Longrightarrow> sPhase (mStatus mig) = PhaseStopAndCopy \<Longrightarrow> isLiveMode mig (mStatus mig) \<Longrightarrow>
      may_swap mig d uid h \<Longrightarrow> P h (PatchGuestStatus g (swap_pod_ref d uid g) a)"
    and gpus: "\<And>h guest r a. S \<subseteq> set h \<Longrightarrow> sPhase (mStatus mig) = PhaseStopAndCopy \<Longrightarrow> \<not> isLiveMode mig (mStatus mig) \<Longrightarrow>
      ReserveOnNode (gName guest) (mTargetNode mig) (Inr r) \<in> set h \<Longrightarrow>
      P h (PatchGuestStatus guest (with_gpus (mTargetNode mig) r guest) a)"
  shows "obeys S P (\<lambda>_ _. True) (dispatch_phase E now mig)"
proof -
  have live: "isLiveMode mig (started now mig) = isLiveMode mig (mStatus mig)"
    by (simp add: isLiveMode_def status_simps)
  have hp: "obeys S P (\<lambda>_ r. sPhase (snd r) = sPhase (started now mig) \<or> sPhase (snd r) = PhaseStopAndCopy)
      (handlePreparing E now mig (started now mig))" if "sPhase (mStatus mig) = PhasePreparing"
    by (rule handlePreparing_obeys) (use off that live in auto)
  have hc: "obeys S P (\<lambda>_ r. sPhase (snd r) = sPhase (started now mig) \<or> sPhase (snd r) = PhaseResuming)
      (handleStopAndCopy E now mig (started now mig))" if "sPhase (mStatus mig) = PhaseStopAndCopy"
    by (rule handleStopAndCopy_obeys) (use src swap gpus that live in auto)
  show ?thesis
    unfolding dispatch_phase_def Let_def
    by (rule dispatched_obeys [OF handleValidating_obeys] dispatched_obeys [OF hp] dispatched_obeys [OF hc]
          dispatched_obeys [OF handleResuming_obeys] dispatchResult_obeys persist_obeys obeys_rules
      | (rule step del; (assumption | blast); fail)
      | (simp add: phase_step_def begin_validating_def status_simps split: if_splits; fail))+
qed

end

text \<open>The specification is a policy.\<close>

interpretation pass: policy E "permitted now name" for E now name
  by unfold_locales (rule permitted.plain)

lemmas permitted_rules [obeys_rules] = pass.ensureFinalizer_obeys pass.finishCutoverBeforeDeletion_obeys pass.getMig_obeys

lemma dispatch_phase_permitted:
  assumes "\<And>h. S \<subseteq> set h \<Longrightarrow> active name h mig"
  shows "obeys S (permitted now name) (\<lambda>_ _. True) (dispatch_phase E now mig)"
  by (rule pass.dispatch_phase_obeys)
    (use assms in \<open>auto intro: permitted.intros active_current\<close>)

lemma honorCancel_permitted:
  assumes "\<And>h. S \<subseteq> set h \<Longrightarrow> active name h mig"
  shows "obeys S (permitted now name) (\<lambda>h r. \<forall>m. r = Inr m \<longrightarrow> active name h m) (honorCancel E now mig)"
  by (rule obeys_weaken [OF pass.honorCancel_obeys])
    (blast intro: assms permitted.status permitted.destination active_current active_saved cancel_ignored_phase)+

lemma reconcile_active_permitted:
  assumes "\<And>h. S \<subseteq> set h \<Longrightarrow> active name h mig"
  shows "obeys S (permitted now name) (\<lambda>_ _. True) (reconcile_active E now mig)"
  unfolding reconcile_active_def
  by (rule honorCancel_permitted dispatch_phase_permitted obeys_rules
    | (simp; fail) | (blast intro: assms active_mono active_patched))+

lemma reconcile_terminal_permitted:
  assumes "\<And>h. S \<subseteq> set h \<Longrightarrow> GetMig name (Inr mig) \<in> set h" and "isTerminalPhase (sPhase (mStatus mig))"
  shows "obeys S (permitted now name) (\<lambda>_ _. True) (reconcile_terminal E now mig)"
  by (rule pass.reconcile_terminal_obeys) (use assms in \<open>auto intro: permitted.identity permitted.retire\<close>)

lemma read_active: "GetMig name (Inr mig) \<in> set h \<Longrightarrow> \<not> isTerminalPhase (sPhase (mStatus mig)) \<Longrightarrow> active name h mig"
  unfolding active_def using becomes.same by blast

lemma read_current: "GetMig name (Inr mig) \<in> set h \<Longrightarrow> current name h mig"
  unfolding current_def using becomes.same by blast

lemma reconcile_present_permitted:
  assumes "\<And>h. S \<subseteq> set h \<Longrightarrow> GetMig name (Inr mig) \<in> set h"
  shows "obeys S (permitted now name) (\<lambda>_ _. True) (reconcile_present E now mig)"
  unfolding reconcile_present_def
  by (rule obeys_if; rule reconcile_terminal_permitted reconcile_active_permitted) (use assms in \<open>auto intro: read_active\<close>)

lemma handleCancellation_permitted:
  assumes "\<And>h. S \<subseteq> set h \<Longrightarrow> GetMig name (Inr mig) \<in> set h"
  shows "obeys S (permitted now name) (\<lambda>_ _. True) (handleCancellation E now mig)"
  by (rule pass.handleCancellation_obeys)
    (use assms in \<open>auto intro: permitted.status permitted.destination permitted.identity read_active read_current\<close>)

lemma Reconcile_permitted: "obeys S (permitted now name) (\<lambda>_ _. True) (Reconcile E now name)"
  unfolding Reconcile_def
  by (rule reconcile_present_permitted handleCancellation_permitted obeys_rules | blast | simp)+


end
