(* ===== verification/Migration_Server.thy ===== *)
theory Migration_Server
  imports Migration_Controller
begin

text \<open>
  The migration controller against a working API server. \<open>server c\<close> answers from the cluster \<open>c\<close>
  with the writes of the history applied to it; no other client writes during a pass, and a
  deleted pod is gone at once. \<open>after_pass\<close> is the cluster a pass leaves behind.

  The theorem of this part is that a live migration past its commit point completes: four
  passes move the guest's reference to the destination, delete the source and reach Completed.
\<close>

section \<open>The server\<close>

record cluster =
  cMigs :: "string \<rightharpoonup> SwiftMigration"
  cGuests :: "string \<rightharpoonup> SwiftGuest"
  cPods :: "string \<rightharpoonup> Pod"
  cSecrets :: "string \<rightharpoonup> Secret"

definition missing :: "string \<Rightarrow> goerr" where
  "missing n = GoErr (n @ '' not found'') [ErrNotFound]"

definition stored :: "(string \<rightharpoonup> 'a) \<Rightarrow> string \<Rightarrow> 'a res" where
  "stored m n = (case m n of None \<Rightarrow> Inl (missing n) | Some x \<Rightarrow> Inr x)"

fun apply_event :: "kevent \<Rightarrow> cluster \<Rightarrow> cluster" where
  "apply_event (PatchMig m fs (Inr m')) c = c\<lparr>cMigs := (cMigs c)(mName m \<mapsto> m')\<rparr>"
| "apply_event (PatchMigStatus m st l (Inr m')) c = c\<lparr>cMigs := (cMigs c)(mName m \<mapsto> m')\<rparr>"
| "apply_event (PatchGuest g w (Inr g')) c = c\<lparr>cGuests := (cGuests c)(gName g \<mapsto> g')\<rparr>"
| "apply_event (PatchGuestStatus g w (Inr g')) c = c\<lparr>cGuests := (cGuests c)(gName g \<mapsto> g')\<rparr>"
| "apply_event (PatchPod p w (Inr p')) c = c\<lparr>cPods := (cPods c)(pName p \<mapsto> p')\<rparr>"
| "apply_event (CreatePod p None) c = c\<lparr>cPods := (cPods c)(pName p \<mapsto> p)\<rparr>"
| "apply_event (DeletePod n g None) c = c\<lparr>cPods := (cPods c)(n := None)\<rparr>"
| "apply_event (DeleteMig n None) c = c\<lparr>cMigs := (cMigs c)(n := None)\<rparr>"
| "apply_event (DeleteSecret n None) c = c\<lparr>cSecrets := (cSecrets c)(n := None)\<rparr>"
| "apply_event _ c = c"

definition replay :: "kevent list \<Rightarrow> cluster \<Rightarrow> cluster" where
  "replay h c = fold apply_event h c"

lemma replay_simps [simp]:
  "replay [] c = c" "replay (e # h) c = replay h (apply_event e c)" "replay (h @ h') c = replay h' (replay h c)"
  by (simp_all add: replay_def)

text \<open>A patch returns the stored object with the change applied to it. A write with optimistic locking checks the version.\<close>

definition put_status :: "SwiftMigration \<Rightarrow> SwiftMigrationStatus \<Rightarrow> bool \<Rightarrow> SwiftMigration \<Rightarrow> SwiftMigration res" where
  "put_status m st locked s =
     (if locked \<and> mResourceVersion s \<noteq> mResourceVersion m then Inl (GoErr ''the object has been modified'' [ErrConflict])
      else Inr (s\<lparr>mStatus := st, mResourceVersion := mResourceVersion s + 1\<rparr>))"

definition server :: "cluster \<Rightarrow> kenv" where
  "server c =
     \<lparr>kGetMig = (\<lambda>h n. stored (cMigs (replay h c)) n),
      kListMigs = (\<lambda>h. Inl (Errorf ''list is not served'')),
      kGetGuest = (\<lambda>h n. stored (cGuests (replay h c)) n),
      kGetPod = (\<lambda>h n. stored (cPods (replay h c)) n),
      kGetNode = (\<lambda>h n. Inl (missing n)), kGetClass = (\<lambda>h n. Inl (missing n)), kGetPVC = (\<lambda>h n. Inl (missing n)),
      kGetSecret = (\<lambda>h n. stored (cSecrets (replay h c)) n), kGetNamespace = (\<lambda>h n. Inr Map.empty),
      kListPods = (\<lambda>h. Inl (Errorf ''list is not served'')), kListAttachments = (\<lambda>h. Inr []),
      kPatchMig = (\<lambda>h m fs. map_sum id (\<lambda>s. s\<lparr>mFinalizers := fs, mResourceVersion := mResourceVersion s + 1\<rparr>)
                     (stored (cMigs (replay h c)) (mName m))),
      kPatchMigStatus = (\<lambda>h m st locked. case stored (cMigs (replay h c)) (mName m) of Inl e \<Rightarrow> Inl e | Inr s \<Rightarrow> put_status m st locked s),
      kPatchGuest = (\<lambda>h g w. map_sum id (\<lambda>_. w) (stored (cGuests (replay h c)) (gName g))),
      kPatchGuestStatus = (\<lambda>h g w. map_sum id (\<lambda>_. w) (stored (cGuests (replay h c)) (gName g))),
      kPatchPod = (\<lambda>h p w. map_sum id (\<lambda>_. w) (stored (cPods (replay h c)) (pName p))),
      kWrite = (\<lambda>h. None), kCall = (\<lambda>h f args. None),
      kFreezeIntent = (\<lambda>h n. Inr n), kOVNAnnotations = (\<lambda>h n. Inr []), kNotReadyCause = (\<lambda>h n. ''''),
      kReserveOnNode = (\<lambda>h g n. Inl (Errorf ''no devices'')),
      kFormat = dec_int, kParse = (\<lambda>s. Inr 0), kQuantity = dec_int, kShowPodRef = (\<lambda>r. ''''),
      kStunnelImage = '''', kMTLS = False\<rparr>"

definition after_pass :: "string \<Rightarrow> int \<Rightarrow> cluster \<Rightarrow> cluster" where
  "after_pass name now c = (case Reconcile (server c) now name [] of None \<Rightarrow> c | Some (_, h) \<Rightarrow> replay h c)"

definition after_passes :: "string \<Rightarrow> int list \<Rightarrow> cluster \<Rightarrow> cluster" where
  "after_passes name ts c = fold (after_pass name) ts c"

lemma server_reads [simp]:
  "kGetMig (server c) h n = stored (cMigs (replay h c)) n" "kGetGuest (server c) h n = stored (cGuests (replay h c)) n"
  "kGetPod (server c) h n = stored (cPods (replay h c)) n"
  by (simp_all add: server_def)

lemma server_writes [simp]:
  "kPatchMigStatus (server c) h m st locked =
     (case stored (cMigs (replay h c)) (mName m) of Inl e \<Rightarrow> Inl e | Inr s \<Rightarrow> put_status m st locked s)"
  "kPatchGuest (server c) h g w = map_sum id (\<lambda>_. w) (stored (cGuests (replay h c)) (gName g))"
  "kPatchGuestStatus (server c) h g w = map_sum id (\<lambda>_. w) (stored (cGuests (replay h c)) (gName g))"
  "kWrite (server c) h = None"
  by (simp_all add: server_def)

section \<open>Running a program\<close>

text \<open>
  \<open>yields c m x h h'\<close>: against the server for \<open>c\<close>, after the history \<open>h\<close>, the program \<open>m\<close> returns \<open>x\<close> with the
  history \<open>h'\<close>.
\<close>

named_theorems yields_rules \<open>successful runs of programs\<close>

definition yields :: "'a kprog \<Rightarrow> kevent list \<Rightarrow> 'a \<Rightarrow> kevent list \<Rightarrow> bool" where
  "yields m h x h' \<longleftrightarrow> m h = Some (Inr x, h')"

lemma yields_ret: "yields (ret x) h x h"
  by (simp add: yields_def ret_def)

lemma yields_andThen: "yields m h x h1 \<Longrightarrow> yields (k x) h1 y h2 \<Longrightarrow> yields (andThen m k) h y h2"
  by (simp add: yields_def andThen_def)

lemma yields_wrapErr: "yields m h x h1 \<Longrightarrow> yields (wrapErr s m) h x h1"
  by (simp add: yields_def wrapErr_def)

lemma yields_whenFound: "yields m h x h1 \<Longrightarrow> yields (found x) h1 y h2 \<Longrightarrow> yields (whenFound m absent failed found) h y h2"
  by (simp add: yields_def whenFound_def andThen_def attempt_def)

lemma yields_orTransient: "yields m h x h1 \<Longrightarrow> yields (k x) h1 y h2 \<Longrightarrow> yields (orTransient msg st m k) h y h2"
  by (simp add: yields_def orTransient_def andThen_def attempt_def)

lemma yields_answer: "f h = Inr x \<Longrightarrow> yields (answer ev f) h x (h @ [ev (Inr x)])"
  by (simp add: yields_def answer_def)

lemma yields_getGuest: "cGuests (replay h c) n = Some g \<Longrightarrow> yields (getGuest (server c) n) h g (h @ [GetGuest n (Inr g)])"
  unfolding getGuest_def by (rule yields_answer) (simp add: stored_def)

lemma yields_getMig: "cMigs (replay h c) n = Some m \<Longrightarrow> yields (getMig (server c) n) h m (h @ [GetMig n (Inr m)])"
  unfolding getMig_def by (rule yields_answer) (simp add: stored_def)

lemma yields_getPod: "cPods (replay h c) n = Some p \<Longrightarrow> yields (getPod (server c) n) h p (h @ [GetPod n (Inr p)])"
  unfolding getPod_def by (rule yields_answer) (simp add: stored_def)

lemma yields_findPod: "cPods (replay h c) n = Some p \<Longrightarrow> yields (findPod (server c) n) h (Some p) (h @ [GetPod n (Inr p)])"
  unfolding findPod_def by (rule yields_whenFound [OF yields_getPod yields_ret])

lemma yields_findPod_missing:
  "cPods (replay h c) n = None \<Longrightarrow> yields (findPod (server c) n) h None (h @ [GetPod n (Inl (missing n))])"
  by (simp add: yields_def findPod_def whenFound_def getPod_def answer_def andThen_def attempt_def ret_def stored_def missing_def errors_Is_def)

lemma yields_patchGuest:
  "cGuests (replay h c) (gName g) = Some s \<Longrightarrow> yields (patchGuest (server c) g w) h w (h @ [PatchGuest g w (Inr w)])"
  unfolding patchGuest_def by (rule yields_answer) (simp add: stored_def)

lemma yields_patchGuestStatus:
  "cGuests (replay h c) (gName g) = Some s \<Longrightarrow> yields (patchGuestStatus (server c) g w) h w (h @ [PatchGuestStatus g w (Inr w)])"
  unfolding patchGuestStatus_def by (rule yields_answer) (simp add: stored_def)

lemma yields_patchMigStatus:
  "cMigs (replay h c) (mName m) = Some s \<Longrightarrow>
   yields (patchMigStatus (server c) m st False) h (s\<lparr>mStatus := st, mResourceVersion := mResourceVersion s + 1\<rparr>)
     (h @ [PatchMigStatus m st False (Inr (s\<lparr>mStatus := st, mResourceVersion := mResourceVersion s + 1\<rparr>))])"
  unfolding patchMigStatus_def by (rule yields_answer) (simp add: stored_def put_status_def)

lemma yields_deletePod: "yields (deletePod (server c) n g) h () (h @ [DeletePod n g None])"
  by (simp add: yields_def deletePod_def acknowledge_def)

section \<open>A pass\<close>

lemma persist_run:
  assumes "cMigs (replay h c) (mName mig) = Some mig"
  shows "\<exists>h' v. yields (persist (server c) now mig st) h () h' \<and>
    replay h' c = (replay h c)\<lparr>cMigs := (cMigs (replay h c))
      (mName mig \<mapsto> mig\<lparr>mStatus := terminal_stamped now mig st, mResourceVersion := v\<rparr>)\<rparr>"
proof (cases "mStatus mig = st")
  case True
  then have "mig\<lparr>mStatus := terminal_stamped now mig st, mResourceVersion := mResourceVersion mig\<rparr> = mig"
    by (simp add: terminal_stamped_def)
  then show ?thesis
    using True assms
    by (intro exI [of _ h] exI [of _ "mResourceVersion mig"]) (simp add: persist_def yields_ret map_upd_triv)
next
  case False
  have "yields (persist (server c) now mig st) h () (h @ [PatchMigStatus mig (terminal_stamped now mig st) False
      (Inr (mig\<lparr>mStatus := terminal_stamped now mig st, mResourceVersion := mResourceVersion mig + 1\<rparr>))])"
    unfolding persist_def if_not_P [OF False]
    by (rule yields_whenFound [OF yields_patchMigStatus yields_ret]) (rule assms)
  then show ?thesis by (intro exI conjI) (assumption, simp)
qed

text \<open>A pass over an active live migration runs the handler of its phase and dispatches its result.\<close>

lemma pass_dispatch:
  assumes m: "cMigs c name = Some m" "mName m = name" "\<not> mDeleting m" "hasFinalizer m" "\<not> mCancelRequested m"
    and live: "sMode (mStatus m) = ''live''"
    and phase: "sPhase (mStatus m) = PhaseStopAndCopy \<or> sPhase (mStatus m) = PhaseResuming"
    and run: "yields (dispatched (server c) now m (if sPhase (mStatus m) = PhaseStopAndCopy
        then handleStopAndCopyLive (server c) now m (started now m)
        else handleResumingLive (server c) now m (started now m))) [GetMig name (Inr m)] x h"
  shows "after_pass name now c = replay h c"
proof -
  have l: "isLiveMode m (started now m)" "\<not> isTerminalPhase (sPhase (mStatus m))"
    using live phase by (auto simp: isLiveMode_def started_def isTerminalPhase_def)
  have "yields (dispatch_phase (server c) now m) [GetMig name (Inr m)] x h"
    using phase l run by (auto simp: dispatch_phase_def Let_def handleStopAndCopy_def handleResuming_def)
  then have "yields (reconcile_present (server c) now m) [GetMig name (Inr m)] x h"
    unfolding reconcile_present_def reconcile_active_def ensureFinalizer_def honorCancel_def
    using l m by (auto intro!: yields_andThen [OF yields_ret])
  then have "yields (Reconcile (server c) now name) [] x h"
    unfolding Reconcile_def using m yields_getMig [of "[]" c name m] by (auto intro!: yields_whenFound)
  then show ?thesis by (auto simp: after_pass_def yields_def)
qed

text \<open>If the handler neither fails nor asks for a retry, the status it returns is stored.\<close>

lemma pass_run:
  assumes m: "cMigs c name = Some m" "mName m = name" "\<not> mDeleting m" "hasFinalizer m" "\<not> mCancelRequested m"
    and live: "sMode (mStatus m) = ''live''"
    and run: "yields (if sPhase (mStatus m) = PhaseStopAndCopy then handleStopAndCopyLive (server c) now m (started now m)
        else handleResumingLive (server c) now m (started now m)) [GetMig name (Inr m)] (res, st) h"
    and phase: "sPhase (mStatus m) = PhaseStopAndCopy \<or> sPhase (mStatus m) = PhaseResuming"
    and ok: "prErr res = None" "prFailureMsg res = ''''" "cMigs (replay h c) = cMigs c"
  shows "\<exists>v. after_pass name now c =
    (replay h c)\<lparr>cMigs := (cMigs c)(name \<mapsto> m\<lparr>mStatus := terminal_stamped now m st, mResourceVersion := v\<rparr>)\<rparr>"
proof -
  obtain h' v where p: "yields (persist (server c) now m st) h () h'"
    and r: "replay h' c = (replay h c)\<lparr>cMigs := (cMigs c)(name \<mapsto> m\<lparr>mStatus := terminal_stamped now m st, mResourceVersion := v\<rparr>)\<rparr>"
    using persist_run [of h c m now st] m ok(3) by auto
  have k: "yields (andThen (persist (server c) now m st) (\<lambda>_. ret y)) h y h'" for y :: ctrlResult
    by (rule yields_andThen [OF p yields_ret])
  define x where "x = (if prAdvanced res then requeueNow else requeueAfter (prRequeue res))"
  have "yields (dispatchResult (server c) now m st res) h x h'" using ok k by (simp add: dispatchResult_def x_def)
  then have "yields (dispatched (server c) now m (if sPhase (mStatus m) = PhaseStopAndCopy
      then handleStopAndCopyLive (server c) now m (started now m)
      else handleResumingLive (server c) now m (started now m))) [GetMig name (Inr m)] x h'"
    unfolding dispatched_def by (intro yields_andThen [OF run]) simp
  then show ?thesis using pass_dispatch [OF m live phase] r by auto
qed

section \<open>Cutover\<close>

text \<open>The migration \<open>m\<close> of the guest \<open>g\<close> from the pod \<open>s\<close> to the running pod \<open>d\<close>, not deleted and not cancelled.\<close>

definition live_migration ::
  "string \<Rightarrow> string \<Rightarrow> string \<Rightarrow> SwiftMigration \<Rightarrow> SwiftGuest \<Rightarrow> Pod \<Rightarrow> cluster \<Rightarrow> bool" where
  "live_migration name s d m g dst c \<longleftrightarrow>
     cMigs c name = Some m \<and> mName m = name \<and> \<not> mDeleting m \<and> hasFinalizer m \<and> \<not> mCancelRequested m \<and>
     sMode (mStatus m) = ''live'' \<and> sSourcePodRef (mStatus m) = Some s \<and> s \<noteq> '''' \<and> s \<noteq> d \<and>
     cGuests c (mGuestRef m) = Some g \<and> gName g = mGuestRef m \<and> isGuestRunningTrue g \<and> dstPodName m (gName g) = Inr d \<and>
     cPods c d = Some dst \<and> pPhase dst = ''Running''"

lemma findPod_run: "\<exists>e. yields (findPod (server c) n) h (cPods (replay h c) n) (h @ [GetPod n e])"
  by (cases "cPods (replay h c) n") (auto intro: yields_findPod yields_findPod_missing)

lemma copy_run:
  assumes l: "live_migration name s d m g dst c" and "isLiveMode m st" and h: "replay h c = c"
  shows "\<exists>h1. replay h1 c = c \<and> (\<forall>x h'. yields (copy_with_pods (server c) now m g (cPods c s) d dst st) h1 x h' \<longrightarrow>
    yields (handleStopAndCopyLive (server c) now m st) h x h')"
proof -
  have src: "srcPodLookupName m g = s" using l by (simp add: live_migration_def srcPodLookupName_def)
  have g: "cGuests (replay h c) (mGuestRef m) = Some g" and dn: "dstPodName m (gName g) = Inr d"
    using l h by (auto simp: live_migration_def)
  let ?h = "h @ [GetGuest (mGuestRef m) (Inr g)]"
  obtain e1 where r1: "yields (findPod (server c) s) ?h (cPods c s) (?h @ [GetPod s e1])"
    using findPod_run [of c s ?h] h by auto
  have r2: "yields (findPod (server c) d) (?h @ [GetPod s e1]) (Some dst) ((?h @ [GetPod s e1]) @ [GetPod d (Inr dst)])"
    by (rule yields_findPod) (use l h in \<open>simp add: live_migration_def\<close>)
  have "yields (handleStopAndCopyLive (server c) now m st) h x h'"
    if "yields (copy_with_pods (server c) now m g (cPods c s) d dst st) ((?h @ [GetPod s e1]) @ [GetPod d (Inr dst)]) x h'" for x h'
    by (simp only: handleStopAndCopyLive_def assms(2) not_True_eq_False if_False,
        rule yields_whenFound [OF yields_getGuest], rule g,
        simp only: src, rule yields_orTransient [OF r1], simp only: dn sum.case,
        rule yields_orTransient [OF r2], simp only: option.case, rule that)
  then show ?thesis using h by (intro exI [of _ "(?h @ [GetPod s e1]) @ [GetPod d (Inr dst)]"]) auto
qed

lemma repin_run:
  assumes "cGuests (replay h c) (gName g) = Some g"
  shows "\<exists>h' n. yields (repin (server c) m g) h (g\<lparr>gNodeName := n\<rparr>) h' \<and>
    replay h' c = (replay h c)\<lparr>cGuests := (cGuests (replay h c))(gName g \<mapsto> g\<lparr>gNodeName := n\<rparr>)\<rparr>"
proof (cases "gNodeName g \<noteq> '''' \<and> gNodeName g \<noteq> mTargetNode m")
  case True
  then show ?thesis
    using yields_patchGuest [OF assms, of "g\<lparr>gNodeName := mTargetNode m\<rparr>"]
    by (intro exI [of _ "h @ [PatchGuest g (g\<lparr>gNodeName := mTargetNode m\<rparr>) (Inr (g\<lparr>gNodeName := mTargetNode m\<rparr>))]"]
        exI [of _ "mTargetNode m"]) (simp add: repin_def)
next
  case False
  then show ?thesis
    using assms by (intro exI [of _ h] exI [of _ "gNodeName g"]) (auto simp: repin_def yields_ret map_upd_triv)
qed

lemma step1_run:
  assumes "cGuests (replay h c) (gName g) = Some g"
  shows "\<exists>h' n. yields (cutoverStep1 (server c) now m g d uid st) h
      (cutoverStep1Timestamp now (setPhaseDetail PhaseDetailLiveCutoverPodRef st)) h' \<and>
    replay h' c = (replay h c)\<lparr>cGuests := (cGuests (replay h c))(gName g \<mapsto> swap_pod_ref d uid (g\<lparr>gNodeName := n\<rparr>))\<rparr>"
proof -
  obtain h1 n where r1: "yields (repin (server c) m g) h (g\<lparr>gNodeName := n\<rparr>) h1"
    and c1: "replay h1 c = (replay h c)\<lparr>cGuests := (cGuests (replay h c))(gName g \<mapsto> g\<lparr>gNodeName := n\<rparr>)\<rparr>"
    using repin_run [OF assms] by blast
  let ?g = "g\<lparr>gNodeName := n\<rparr>"
  have r2: "yields (patchGuestStatus (server c) ?g (swap_pod_ref d uid ?g)) h1 (swap_pod_ref d uid ?g)
      (h1 @ [PatchGuestStatus ?g (swap_pod_ref d uid ?g) (Inr (swap_pod_ref d uid ?g))])"
    by (rule yields_patchGuestStatus) (simp add: c1)
  show ?thesis
    unfolding cutoverStep1_def Let_def
    by (rule exI, rule exI [of _ n], rule conjI,
        rule yields_orTransient [OF r1], rule yields_orTransient [OF r2], rule yields_ret) (simp add: c1 swap_pod_ref_def)
qed

lemma live_migration_update:
  assumes l: "live_migration name s d m g dst c"
    and st: "sMode st = ''live''" "sSourcePodRef st = Some s"
    and g': "gName g' = gName g" "gConditions g' = gConditions g"
    and c': "cMigs c' = (cMigs c)(name \<mapsto> m\<lparr>mStatus := st, mResourceVersion := v\<rparr>)" "cGuests c' (mGuestRef m) = Some g'" "cPods c' d = cPods c d"
  shows "live_migration name s d (m\<lparr>mStatus := st, mResourceVersion := v\<rparr>) g' dst c'"
proof -
  have "dstPodName (m\<lparr>mStatus := st, mResourceVersion := v\<rparr>) n = dstPodName m n" for n by (simp add: dstPodName_def Let_def)
  then show ?thesis
    using assms by (auto simp: live_migration_def isGuestRunningTrue_def hasFinalizer_def)
qed

lemma set_condition_present: "list_ex (\<lambda>c. cnType c = ty \<and> cnStatus c = v) (set_condition now ty v reason msg cs)"
  by (induction cs) auto

text \<open>The fields of the status that the cutover reads, after each of its steps.\<close>

definition swap_recorded :: "SwiftMigrationStatus \<Rightarrow> bool" where
  "swap_recorded st \<longleftrightarrow>
     sCutoverStep1At st \<noteq> None \<and> list_ex (\<lambda>c. cnType c = ''PodRefSwapped'' \<and> cnStatus c = ''True'') (sConditions st)"

lemma step1_fields:
  fixes st now defines "st' \<equiv> snd (cutoverStep1Timestamp now st)"
  shows "sMode st' = sMode st" "sSourcePodRef st' = sSourcePodRef st" "sPhase st' = sPhase st" "swap_recorded st'"
  by (simp_all add: st'_def cutoverStep1Timestamp_def setPhaseDetail_def setCondition_def swap_recorded_def set_condition_present)

lemma progress_fields:
  "sMode (setPhaseDetail d st) = sMode st" "sSourcePodRef (setPhaseDetail d st) = sSourcePodRef st"
  "sPhase (setPhaseDetail d st) = sPhase st" "swap_recorded (setPhaseDetail d st) = swap_recorded st"
  "sMode (stampCutoverStep2DispatchedAt now st) = sMode st" "sSourcePodRef (stampCutoverStep2DispatchedAt now st) = sSourcePodRef st"
  "sPhase (stampCutoverStep2DispatchedAt now st) = sPhase st"
  "swap_recorded (stampCutoverStep2DispatchedAt now st) = swap_recorded st"
  "sMode (stampTransferDuration p st) = sMode st" "sSourcePodRef (stampTransferDuration p st) = sSourcePodRef st"
  "sPhase (stampTransferDuration p st) = sPhase st"
  "sMode (started now m) = sMode (mStatus m)" "sSourcePodRef (started now m) = sSourcePodRef (mStatus m)"
  "sPhase (started now m) = sPhase (mStatus m)" "swap_recorded (started now m) = swap_recorded (mStatus m)"
  by (simp_all add: setPhaseDetail_def stampCutoverStep2DispatchedAt_def stampTransferDuration_def started_def swap_recorded_def Let_def
      split: option.split sum.split)

lemma stamped_same: "\<not> isTerminalPhase (sPhase st) \<Longrightarrow> terminal_stamped now m st = st"
  by (simp add: terminal_stamped_def)

text \<open>A pass in StopAndCopy whose copy step returns the status \<open>st\<close> and leaves a cluster with \<open>Q\<close>.\<close>

lemma copy_pass:
  assumes l: "live_migration name s d m g dst c" and ph: "sPhase (mStatus m) = PhaseStopAndCopy"
    and y: "\<And>h1. replay h1 c = c \<Longrightarrow>
      \<exists>h2. yields (copy_with_pods (server c) now m g (cPods c s) d dst (started now m)) h1 (res, st) h2 \<and> Q (replay h2 c)"
    and ok: "prErr res = None" "prFailureMsg res = ''''" "\<And>c2. Q c2 \<Longrightarrow> cMigs c2 = cMigs c" "\<not> isTerminalPhase (sPhase st)"
  shows "\<exists>c2 v. Q c2 \<and> after_pass name now c = c2\<lparr>cMigs := (cMigs c)(name \<mapsto> m\<lparr>mStatus := st, mResourceVersion := v\<rparr>)\<rparr>"
proof -
  let ?h0 = "[GetMig name (Inr m)]"
  have "isLiveMode m (started now m)" using l by (simp add: live_migration_def isLiveMode_def started_def)
  then obtain h1 where "replay h1 c = c" and h1: "\<And>x h'. yields (copy_with_pods (server c) now m g (cPods c s) d dst (started now m)) h1 x h' \<Longrightarrow>
      yields (handleStopAndCopyLive (server c) now m (started now m)) ?h0 x h'"
    using copy_run [OF l, of "started now m" ?h0 now] by auto
  then obtain h2 where run: "yields (handleStopAndCopyLive (server c) now m (started now m)) ?h0 (res, st) h2" and q: "Q (replay h2 c)"
    using y by blast
  have "\<exists>v. after_pass name now c = (replay h2 c)\<lparr>cMigs := (cMigs c)(name \<mapsto> m\<lparr>mStatus := terminal_stamped now m st, mResourceVersion := v\<rparr>)\<rparr>"
    by (rule pass_run [of _ _ _ _ res]) (use l ph run ok(1,2) ok(3) [OF q] in \<open>auto simp: live_migration_def\<close>)
  then show ?thesis using q stamped_same [OF ok(4)] by auto
qed

lemma lookup_source: "live_migration name s d m g dst c \<Longrightarrow> srcPodLookupName m g = s"
  by (simp add: live_migration_def srcPodLookupName_def)

text \<open>The first pass redirects the guest's pod reference.\<close>

lemma first_pass:
  assumes l: "live_migration name s d m g dst c" and ph: "sPhase (mStatus m) = PhaseStopAndCopy"
    and src: "cPods c s = Some src" "srcReportedComplete m (Some src)" and n: "\<not> (\<exists>r \<in> set_option (gPodRef g). prName r = d)"
  shows "\<exists>m' g'. live_migration name s d m' g' dst (after_pass name now c) \<and> mGuestRef m' = mGuestRef m \<and> sPhase (mStatus m') = PhaseStopAndCopy \<and>
    (\<exists>r \<in> set_option (gPodRef g'). prName r = d) \<and> swap_recorded (mStatus m') \<and> cPods (after_pass name now c) = cPods c"
proof -
  let ?st = "(stampTransferDuration (Some src) (started now m))\<lparr>sTransferProgress := Some 100\<rparr>"
  define st where "st = snd (cutoverStep1Timestamp now (setPhaseDetail PhaseDetailLiveCutoverPodRef ?st))"
  let ?Q = "\<lambda>c2. \<exists>k. c2 = c\<lparr>cGuests := (cGuests c)(gName g \<mapsto> swap_pod_ref d (pUID dst) (g\<lparr>gNodeName := k\<rparr>))\<rparr>"
  have f: "sMode st = ''live''" "sSourcePodRef st = Some s" "sPhase st = PhaseStopAndCopy" "swap_recorded st"
    using l ph by (simp_all add: st_def step1_fields progress_fields live_migration_def)
  have y: "\<exists>h2. yields (copy_with_pods (server c) now m g (cPods c s) d dst (started now m)) h1
      (phaseRequeue stopAndCopyLivePollInterval, st) h2 \<and> ?Q (replay h2 c)" if c1: "replay h1 c = c" for h1
  proof -
    obtain e where r: "yields (findPod (server c) s) h1 (Some src) (h1 @ [GetPod s e])"
      using findPod_run [of c s h1] c1 src by auto
    have g: "cGuests (replay (h1 @ [GetPod s e]) c) (gName g) = Some g" using l c1 by (simp add: live_migration_def)
    have "copy_with_pods (server c) now m g (cPods c s) d dst (started now m) = executeCutover (server c) now m g d (pUID dst) ?st"
      using src n by (simp add: copy_with_pods_def passedCommitPoint_def dispatch_substate_def deriveSubstate_def
          srcReportedComplete_def committed_cutover_def Let_def)
    moreover obtain h2 k where y1: "yields (cutoverStep1 (server c) now m g d (pUID dst) ?st) (h1 @ [GetPod s e])
        (phaseRequeue stopAndCopyLivePollInterval, st) h2" "?Q (replay h2 c)"
      using step1_run [OF g, of now m d "pUID dst" ?st] c1 by (auto simp: st_def cutoverStep1Timestamp_def)
    moreover have "yields (executeCutover (server c) now m g d (pUID dst) ?st) h1 (phaseRequeue stopAndCopyLivePollInterval, st) h2"
      unfolding executeCutover_def lookup_source [OF l]
      by (rule yields_orTransient [OF r]) (use n y1 in \<open>simp add: deriveCutoverStep_def\<close>)
    ultimately show ?thesis by (intro exI [of _ h2] conjI) (simp_all only:)
  qed
  have "\<exists>c2 v. ?Q c2 \<and> after_pass name now c = c2\<lparr>cMigs := (cMigs c)(name \<mapsto> m\<lparr>mStatus := st, mResourceVersion := v\<rparr>)\<rparr>"
    by (rule copy_pass [OF l ph y]) (use f in \<open>auto simp: phaseRequeue_def isTerminalPhase_def\<close>)
  then obtain k v where c3: "after_pass name now c =
      c\<lparr>cGuests := (cGuests c)(gName g \<mapsto> swap_pod_ref d (pUID dst) (g\<lparr>gNodeName := k\<rparr>)),
        cMigs := (cMigs c)(name \<mapsto> m\<lparr>mStatus := st, mResourceVersion := v\<rparr>)\<rparr>"
    by auto
  have "live_migration name s d (m\<lparr>mStatus := st, mResourceVersion := v\<rparr>) (swap_pod_ref d (pUID dst) (g\<lparr>gNodeName := k\<rparr>)) dst (after_pass name now c)"
    by (rule live_migration_update [OF l f(1,2)]) (use l in \<open>simp_all add: c3 swap_pod_ref_def live_migration_def\<close>)
  then show ?thesis using f by (intro exI conjI) (assumption, simp_all add: swap_pod_ref_def c3)
qed

text \<open>With the reference on the destination and the swap recorded, the copy step is the rest of the cutover.\<close>

lemma copy_swapped:
  assumes "live_migration name s d m g dst c" "sPhase (mStatus m) = PhaseStopAndCopy"
    and "\<exists>r \<in> set_option (gPodRef g). prName r = d" "swap_recorded (mStatus m)"
  shows "copy_with_pods E now m g p d dst st = executeCutover E now m g d (pUID dst) st"
    "deriveCutoverStep m g present d = (if present then cutoverStep2Pending else cutoverStep3Pending)"
  using assms by (auto simp: copy_with_pods_def source_replaced_def shouldCheckSourcePodUID_def isPostCutover_def swap_recorded_def
      deriveCutoverStep_def Let_def)

lemma step2_run:
  "yields (cutoverStep2 (server c) now s st) h
     (phaseRequeue stopAndCopyLivePollInterval, setPhaseDetail PhaseDetailLiveCutoverCompleting
        (stampCutoverStep2DispatchedAt now (setPhaseDetail PhaseDetailLiveCutoverDeleteSrc st))) (h @ [DeletePod s None None])"
  unfolding cutoverStep2_def Let_def by (rule yields_whenFound [OF yields_deletePod yields_ret])

text \<open>The second pass deletes the source.\<close>

lemma second_pass:
  assumes l: "live_migration name s d m g dst c" and ph: "sPhase (mStatus m) = PhaseStopAndCopy"
    and sw: "\<exists>r \<in> set_option (gPodRef g). prName r = d" "swap_recorded (mStatus m)" and src: "cPods c s = Some src"
  shows "\<exists>m'. live_migration name s d m' g dst (after_pass name now c) \<and> mGuestRef m' = mGuestRef m \<and> sPhase (mStatus m') = PhaseStopAndCopy \<and>
    swap_recorded (mStatus m') \<and> cPods (after_pass name now c) = (cPods c)(s := None)"
proof -
  define st where "st = setPhaseDetail PhaseDetailLiveCutoverCompleting
    (stampCutoverStep2DispatchedAt now (setPhaseDetail PhaseDetailLiveCutoverDeleteSrc (started now m)))"
  let ?Q = "\<lambda>c2. c2 = c\<lparr>cPods := (cPods c)(s := None)\<rparr>"
  have f: "sMode st = ''live''" "sSourcePodRef st = Some s" "sPhase st = PhaseStopAndCopy" "swap_recorded st"
    using l ph sw by (simp_all add: st_def progress_fields live_migration_def)
  have y: "\<exists>h2. yields (copy_with_pods (server c) now m g (cPods c s) d dst (started now m)) h1
      (phaseRequeue stopAndCopyLivePollInterval, st) h2 \<and> ?Q (replay h2 c)" if c1: "replay h1 c = c" for h1
  proof -
    obtain e where r: "yields (findPod (server c) s) h1 (Some src) (h1 @ [GetPod s e])"
      using findPod_run [of c s h1] c1 src by auto
    have "yields (executeCutover (server c) now m g d (pUID dst) (started now m)) h1
        (phaseRequeue stopAndCopyLivePollInterval, st) ((h1 @ [GetPod s e]) @ [DeletePod s None None])"
      unfolding executeCutover_def lookup_source [OF l]
      by (rule yields_orTransient [OF r]) (use step2_run [of c now s "started now m" "h1 @ [GetPod s e]"] in
        \<open>simp add: copy_swapped(2) [OF l ph sw] st_def\<close>)
    then show ?thesis using c1 by (auto simp: copy_swapped(1) [OF l ph sw])
  qed
  have "\<exists>c2 v. ?Q c2 \<and> after_pass name now c = c2\<lparr>cMigs := (cMigs c)(name \<mapsto> m\<lparr>mStatus := st, mResourceVersion := v\<rparr>)\<rparr>"
    by (rule copy_pass [OF l ph y]) (use f in \<open>auto simp: phaseRequeue_def isTerminalPhase_def\<close>)
  then obtain v where c3: "after_pass name now c =
      c\<lparr>cPods := (cPods c)(s := None), cMigs := (cMigs c)(name \<mapsto> m\<lparr>mStatus := st, mResourceVersion := v\<rparr>)\<rparr>"
    by auto
  have "live_migration name s d (m\<lparr>mStatus := st, mResourceVersion := v\<rparr>) g dst (after_pass name now c)"
    by (rule live_migration_update [OF l f(1,2)]) (use l in \<open>auto simp: c3 live_migration_def\<close>)
  then show ?thesis using f by (intro exI conjI) (assumption, simp_all add: c3)
qed

text \<open>The third pass, with the source gone, enters Resuming.\<close>

lemma third_pass:
  assumes l: "live_migration name s d m g dst c" and ph: "sPhase (mStatus m) = PhaseStopAndCopy"
    and sw: "\<exists>r \<in> set_option (gPodRef g). prName r = d" "swap_recorded (mStatus m)" and src: "cPods c s = None"
  shows "\<exists>m'. live_migration name s d m' g dst (after_pass name now c) \<and> mGuestRef m' = mGuestRef m \<and> sPhase (mStatus m') = PhaseResuming \<and>
    cPods (after_pass name now c) = cPods c"
proof -
  define st where "st = snd (cutoverStep3 now (started now m))"
  let ?Q = "\<lambda>c2. c2 = c"
  have f: "sMode st = ''live''" "sSourcePodRef st = Some s" "sPhase st = PhaseResuming"
    using l by (simp_all add: st_def cutoverStep3_def progress_fields setReadyCondition_def setCondition_def setPhase_def live_migration_def)
  have y: "\<exists>h2. yields (copy_with_pods (server c) now m g (cPods c s) d dst (started now m)) h1
      (phaseAdvance, st) h2 \<and> ?Q (replay h2 c)" if c1: "replay h1 c = c" for h1
  proof -
    obtain e where r: "yields (findPod (server c) s) h1 None (h1 @ [GetPod s e])"
      using findPod_run [of c s h1] c1 src by auto
    have "yields (executeCutover (server c) now m g d (pUID dst) (started now m)) h1 (phaseAdvance, st) (h1 @ [GetPod s e])"
      unfolding executeCutover_def lookup_source [OF l]
      by (rule yields_orTransient [OF r]) (simp add: copy_swapped(2) [OF l ph sw] st_def cutoverStep3_def yields_ret)
    then show ?thesis using c1 by (auto simp: copy_swapped(1) [OF l ph sw])
  qed
  have "\<exists>c2 v. ?Q c2 \<and> after_pass name now c = c2\<lparr>cMigs := (cMigs c)(name \<mapsto> m\<lparr>mStatus := st, mResourceVersion := v\<rparr>)\<rparr>"
    by (rule copy_pass [OF l ph y]) (use f in \<open>auto simp: phaseAdvance_def isTerminalPhase_def\<close>)
  then obtain v where c3: "after_pass name now c = c\<lparr>cMigs := (cMigs c)(name \<mapsto> m\<lparr>mStatus := st, mResourceVersion := v\<rparr>)\<rparr>"
    by auto
  have "live_migration name s d (m\<lparr>mStatus := st, mResourceVersion := v\<rparr>) g dst (after_pass name now c)"
    by (rule live_migration_update [OF l f(1,2)]) (use l in \<open>auto simp: c3 live_migration_def\<close>)
  then show ?thesis using f by (intro exI conjI) (assumption, simp_all add: c3)
qed

text \<open>The fourth pass finds the destination healthy and completes the migration.\<close>

lemma fourth_pass:
  assumes l: "live_migration name s d m g dst c" and ph: "sPhase (mStatus m) = PhaseResuming"
    and sw: "\<exists>r \<in> set_option (gPodRef g). prName r = d"
  shows "\<exists>m'. cMigs (after_pass name now c) name = Some m' \<and> mGuestRef m' = mGuestRef m \<and> sPhase (mStatus m') = PhaseCompleted \<and>
    cGuests (after_pass name now c) = cGuests c \<and> cPods (after_pass name now c) = cPods c"
proof -
  let ?h0 = "[GetMig name (Inr m)]"
  define st1 where "st1 = (if sResumingStartedAt (started now m) = None then (started now m)\<lparr>sResumingStartedAt := Some now\<rparr> else started now m)"
  have "d \<noteq> ''''" using l by (auto simp: live_migration_def dstPodName_def Let_def split: if_splits)
  then have d: "canonicalPodNameForGuest g = d" "\<exists>r \<in> set_option (gPodRef g). prName r \<noteq> ''''"
    using sw by (auto simp: canonicalPodNameForGuest_def)
  have live: "isLiveMode m (started now m)" using l by (simp add: live_migration_def isLiveMode_def started_def)
  have g: "cGuests (replay ?h0 c) (mGuestRef m) = Some g" and ok: "pPhase dst = ''Running''" "isGuestRunningTrue g"
    and p: "cPods (replay (?h0 @ [GetGuest (mGuestRef m) (Inr g)]) c) d = Some dst"
    using l by (auto simp: live_migration_def)
  have "yields (handleResumingLive (server c) now m (started now m)) ?h0 (phaseAdvance, complete_live now d dst st1)
      ((?h0 @ [GetGuest (mGuestRef m) (Inr g)]) @ [GetPod d (Inr dst)])"
    by (simp only: handleResumingLive_def live not_True_eq_False if_False,
        rule yields_whenFound [OF yields_getGuest], rule g,
        simp only: d not_True_eq_False if_False Let_def, rule yields_whenFound [OF yields_getPod], rule p,
        simp only: ok not_True_eq_False if_False simp_thms st1_def, rule yields_ret)
  then have "\<exists>v. after_pass name now c = (replay ((?h0 @ [GetGuest (mGuestRef m) (Inr g)]) @ [GetPod d (Inr dst)]) c)
      \<lparr>cMigs := (cMigs c)(name \<mapsto> m\<lparr>mStatus := terminal_stamped now m (complete_live now d dst st1), mResourceVersion := v\<rparr>)\<rparr>"
    by (intro pass_run [of _ _ _ _ phaseAdvance]) (use l ph in \<open>auto simp: live_migration_def phaseAdvance_def\<close>)
  moreover have "sPhase (terminal_stamped now m (complete_live now d dst st1)) = PhaseCompleted"
    by (simp add: terminal_stamped_def complete_live_def setPhaseDetail_def setReadyCondition_def setCondition_def setPhase_def Let_def)
  ultimately show ?thesis by auto
qed

text \<open>
  C4. Against a working API server a live migration past its commit point completes: four
  passes after the source has reported the transfer complete, at any times, the phase is Completed,
  the guest's pod reference is the destination, which is still there, and the source is gone.
\<close>

theorem committed_migration_completes:
  assumes l: "live_migration name s d m g dst c" and ph: "sPhase (mStatus m) = PhaseStopAndCopy"
    and src: "cPods c s = Some src" "srcReportedComplete m (Some src)" and n: "\<not> (\<exists>r \<in> set_option (gPodRef g). prName r = d)"
  shows "\<exists>m' g'. cMigs (after_passes name [t1, t2, t3, t4] c) name = Some m' \<and> sPhase (mStatus m') = PhaseCompleted \<and>
    cGuests (after_passes name [t1, t2, t3, t4] c) (mGuestRef m) = Some g' \<and> (\<exists>r \<in> set_option (gPodRef g'). prName r = d) \<and>
    cPods (after_passes name [t1, t2, t3, t4] c) s = None \<and> cPods (after_passes name [t1, t2, t3, t4] c) d = Some dst"
proof -
  define c1 where "c1 = after_pass name t1 c"
  define c2 where "c2 = after_pass name t2 c1"
  define c3 where "c3 = after_pass name t3 c2"
  obtain m1 g1 where 1: "live_migration name s d m1 g1 dst c1" "mGuestRef m1 = mGuestRef m" "sPhase (mStatus m1) = PhaseStopAndCopy"
    "\<exists>r \<in> set_option (gPodRef g1). prName r = d" "swap_recorded (mStatus m1)" "cPods c1 = cPods c"
    using first_pass [OF l ph src n, of t1] unfolding c1_def by blast
  then obtain m2 where 2: "live_migration name s d m2 g1 dst c2" "mGuestRef m2 = mGuestRef m1" "sPhase (mStatus m2) = PhaseStopAndCopy"
    "swap_recorded (mStatus m2)" "cPods c2 = (cPods c1)(s := None)"
    using second_pass [OF 1(1,3,4,5), of src t2] src unfolding c2_def by auto
  then obtain m3 where 3: "live_migration name s d m3 g1 dst c3" "mGuestRef m3 = mGuestRef m2" "sPhase (mStatus m3) = PhaseResuming"
    "cPods c3 = cPods c2"
    using third_pass [OF 2(1,3) 1(4) 2(4), of t3] unfolding c3_def by auto
  have "after_passes name [t1, t2, t3, t4] c = after_pass name t4 c3" by (simp add: after_passes_def c1_def c2_def c3_def)
  moreover have "cGuests c3 (mGuestRef m) = Some g1" "cPods c3 s = None" "cPods c3 d = Some dst"
    using 1 2 3 by (auto simp: live_migration_def)
  ultimately show ?thesis using fourth_pass [OF 3(1,3) 1(4), of t4] 1(4) by auto
qed

section \<open>An example\<close>

text \<open>A migration whose source has reported its send complete and whose destination runs.\<close>

definition ex_migration :: "bool \<Rightarrow> SwiftMigration" where
  "ex_migration cancel =
     \<lparr>mName = ''m'', mNamespace = ''ns'', mUID = ''abcdef01'', mResourceVersion = 7, mDeleting = False,
      mFinalizers = [FinalizerName], mGuestRef = ''g'', mTargetNode = ''n2'', mMode = ''live'', mDowntimeTarget = None,
      mParallelConnections = 0, mTimeout = Some 1, mTimeoutStrategy = '''', mTTL = None, mAllowIPChange = False,
      mCancelRequested = cancel,
      mStatus = no_status\<lparr>sPhase := PhaseStopAndCopy, sMode := ''live'', sSourcePodRef := Some ''g'', sStartedAt := Some 0,
        sRecvAttempts := 1, sSendAttempts := 1, sDestinationPodRef := Some ''g-mig-abcdef''\<rparr>\<rparr>"

definition ex_guest :: SwiftGuest where
  "ex_guest =
     \<lparr>gName = ''g'', gUID = ''u'', gAnnotations = Map.empty, gRunPolicy = ''Running'', gNodeName = ''n1'', gGuestClassRef = ''c'',
      gKernelRef = False, gMigrationEnabled = None, gGPUProfileRef = None, gGPUResourceClaim = False, gInterfaces = [],
      gFilesystems = [], gVhostUserDevices = 0, gDataDiskRef = False, gDataDiskRefs = [], gStorage = None,
      gStatusNodeName = ''n1'', gPodRef = Some \<lparr>prName = ''g'', prUID = ''s''\<rparr>, gConditions = [(''GuestRunning'', ''True'')],
      gPrimaryIP = None, gGPU = None\<rparr>"

definition ex_pod :: "string \<Rightarrow> string \<Rightarrow> string \<Rightarrow> Pod" where
  "ex_pod n report i =
     \<lparr>pName = n, pUID = n, pGeneration = 1, pDeleting = False, pLabels = Map.empty,
      pAnnotations = [AnnotationMigrationStatus \<mapsto> report, AnnotationMigrationStatusID \<mapsto> i],
      pOwners = [\<lparr>orKind = ''SwiftGuest'', orName = ''g'', orUID = ''u'', orController = Some True\<rparr>], pNodeName = '''',
      pNodeSelector = Map.empty, pInitContainers = [], pContainers = [], pVolumes = [], pPhase = ''Running'', pPodIP = '''',
      pReady = True, pInitContainerStatuses = [], pContainerStatuses = []\<rparr>"

definition ex_cluster :: "bool \<Rightarrow> cluster" where
  "ex_cluster cancel =
     \<lparr>cMigs = [''m'' \<mapsto> ex_migration cancel], cGuests = [''g'' \<mapsto> ex_guest],
      cPods = [''g'' \<mapsto> ex_pod ''g'' ''complete'' ''m:send:1'', ''g-mig-abcdef'' \<mapsto> ex_pod ''g-mig-abcdef'' ''running'' ''m:recv:1''],
      cSecrets = Map.empty\<rparr>"

lemmas ex_defs = ex_cluster_def ex_migration_def ex_guest_def ex_pod_def no_status_def

text \<open>The theorem for the example, with passes after its timeout.\<close>

theorem committed_migration_completes_witness:
  "\<exists>m' g'. cMigs (after_passes ''m'' [10, 20, 30, 40] (ex_cluster False)) ''m'' = Some m' \<and> sPhase (mStatus m') = PhaseCompleted \<and>
    cGuests (after_passes ''m'' [10, 20, 30, 40] (ex_cluster False)) ''g'' = Some g' \<and>
    (\<exists>r \<in> set_option (gPodRef g'). prName r = ''g-mig-abcdef'') \<and>
    cPods (after_passes ''m'' [10, 20, 30, 40] (ex_cluster False)) ''g'' = None \<and>
    cPods (after_passes ''m'' [10, 20, 30, 40] (ex_cluster False)) ''g-mig-abcdef'' = Some (ex_pod ''g-mig-abcdef'' ''running'' ''m:recv:1'')"
proof -
  have l: "live_migration ''m'' ''g'' ''g-mig-abcdef'' (ex_migration False) ex_guest (ex_pod ''g-mig-abcdef'' ''running'' ''m:recv:1'') (ex_cluster False)"
    unfolding live_migration_def ex_defs
    by (simp add: hasFinalizer_def isGuestRunningTrue_def dstPodName_def shortUIDLength_def dstPodNameMaxLength_def Let_def)
  have s: "srcReportedComplete (ex_migration False) (Some (ex_pod ''g'' ''complete'' ''m:send:1''))" by code_simp
  have "mGuestRef (ex_migration False) = ''g''" "sPhase (mStatus (ex_migration False)) = PhaseStopAndCopy"
    "cPods (ex_cluster False) ''g'' = Some (ex_pod ''g'' ''complete'' ''m:send:1'')"
    "\<not> (\<exists>r \<in> set_option (gPodRef ex_guest). prName r = ''g-mig-abcdef'')"
    by (simp_all add: ex_defs)
  then show ?thesis using committed_migration_completes [OF l _ _ s, of 10 20 30 40] by simp
qed

end
