(* ===== verification/Migration_Safety.thy ===== *)
theory Migration_Safety
  imports Migration_Writes Migration_Server
begin

text \<open>
  Consequences of the specification of a pass: the launcher that runs the guest after the
  commit point is never deleted, and the phase moves forward only.
\<close>

section \<open>Events of a pass\<close>

text \<open>Every event of a pass was permitted by the events before it.\<close>

lemma pass_event:
  assumes "Reconcile E now name [] = Some (r, h)" and "e \<in> set h"
  shows "\<exists>h0. set h0 \<subseteq> set h \<and> permitted now name h0 e"
proof -
  have "wp (Reconcile E now name) (\<lambda>_ h. grows (permitted now name) [] h) []"
    by (rule wp_mono [OF obeys_wp [OF Reconcile_permitted empty_subsetI]]) simp
  then have g: "grows (permitted now name) [] h" using assms(1) by (rule wpD)
  obtain pre post where h: "h = pre @ e # post" using split_list [OF assms(2)] by blast
  have "permitted now name pre e" using grows_event [of "permitted now name" "[]" pre e post] g h by simp
  then show ?thesis using h by auto
qed

section \<open>The committed destination\<close>

text \<open>
  \<open>consistent M e\<close>: the answer agrees with the migration \<open>M\<close> on its identity, its guest, its mode, its
  source pod and its attempts, and the guest exists. Reads may fail in any other way.
\<close>

definition same_migration :: "SwiftMigration \<Rightarrow> SwiftMigration \<Rightarrow> bool" where
  "same_migration M m \<longleftrightarrow>
     mName m = mName M \<and> mUID m = mUID M \<and> mGuestRef m = mGuestRef M \<and> sMode (mStatus m) = ''live'' \<and>
     sSourcePodRef (mStatus m) = sSourcePodRef (mStatus M) \<and>
     recvActionID m = recvActionID M \<and> sendActionID m = sendActionID M"

fun consistent :: "SwiftMigration \<Rightarrow> kevent \<Rightarrow> bool" where
  "consistent M (GetMig n (Inr m)) = same_migration M m"
| "consistent M (PatchMig x fs (Inr m)) = same_migration M m"
| "consistent M (PatchMigStatus x st l (Inr m)) = same_migration M m"
| "consistent M (GetGuest n (Inr g)) = (n = mGuestRef M \<longrightarrow> gName g = n)"
| "consistent M (GetGuest n (Inl e)) = (n = mGuestRef M \<longrightarrow> \<not> errors_Is e ErrNotFound)"
| "consistent M _ = True"

text \<open>Every read of the pod \<open>n\<close> that succeeds reports the given state for the given action, and none finds it missing.\<close>

fun reports :: "string \<Rightarrow> string \<Rightarrow> string \<Rightarrow> kevent \<Rightarrow> bool" where
  "reports n s i (GetPod n' (Inr p)) = (n' = n \<longrightarrow> podStatusMatches (Some p) s i)"
| "reports n s i (GetPod n' (Inl e)) = (n' = n \<longrightarrow> \<not> errors_Is e ErrNotFound)"
| "reports n s i _ = True"

lemma becomes_consistent:
  assumes "becomes h m0 m" and "GetMig name (Inr m0) \<in> set h" and "list_all (consistent M) h"
  shows "same_migration M m"
  using assms
proof (induction rule: becomes.induct)
  case same
  then have "consistent M (GetMig name (Inr m0))" unfolding list_all_iff by blast
  then show ?case by simp
next
  case (patched m fs m')
  then have "consistent M (PatchMig m fs (Inr m'))" unfolding list_all_iff by blast
  then show ?case by simp
next
  case (saved m st l m')
  then have "consistent M (PatchMigStatus m st l (Inr m'))" unfolding list_all_iff by blast
  then show ?case by simp
qed

lemma current_consistent: "current name h m \<Longrightarrow> list_all (consistent M) h \<Longrightarrow> same_migration M m"
  unfolding current_def using becomes_consistent by blast

lemma reports_read:
  assumes "list_all (reports n s i) h" and "read_pod n p h"
  shows "podStatusMatches p s i"
proof (cases p)
  case None
  then obtain e where "GetPod n (Inl e) \<in> set h" "errors_Is e ErrNotFound" using assms(2) by (auto simp: read_pod_def)
  then have "reports n s i (GetPod n (Inl e))" using assms(1) unfolding list_all_iff by blast
  with \<open>errors_Is e ErrNotFound\<close> show ?thesis by simp
next
  case (Some x)
  then have "reports n s i (GetPod n (Inr x))" using assms unfolding list_all_iff by auto
  then show ?thesis using Some by simp
qed

lemma same_names:
  assumes "same_migration M m" and "sSourcePodRef (mStatus M) = Some s" and "s \<noteq> ''''"
  shows "srcPodLookupName m g = s" "dstPodName m n = Inr d \<longleftrightarrow> dstPodName M n = Inr d"
  using assms by (auto simp: same_migration_def srcPodLookupName_def dstPodName_def Let_def)

lemma not_uncommitted:
  assumes c: "list_all (consistent M) h" and m: "same_migration M m" and d: "dstPodName M (mGuestRef M) = Inr d"
    and s: "sSourcePodRef (mStatus M) = Some s" "s \<noteq> ''''"
    and r: "list_all (reports d ''running'' (recvActionID M)) h \<or> list_all (reports s ''complete'' (sendActionID M)) h"
  shows "\<not> uncommitted m h"
proof
  assume u: "uncommitted m h"
  have live: "sMode (mStatus m) = ''live''" and g: "mGuestRef m = mGuestRef M" using m by (simp_all add: same_migration_def)
  have gone: "\<not> (GetGuest (mGuestRef M) (Inl e) \<in> set h \<and> errors_Is e ErrNotFound)" for e
    using c by (auto simp: list_all_iff dest!: bspec)
  then obtain guest src where guest: "GetGuest (mGuestRef M) (Inr guest) \<in> set h" and src: "read_pod s src h"
    "\<not> srcReportedComplete m src"
    and dst: "\<forall>d. dstPodName m (gName guest) = Inr d \<longrightarrow> (\<exists>dst. read_pod d dst h \<and> \<not> dstReportedRunning m dst)"
    using u live g same_names(1) [OF m s] unfolding uncommitted_def by auto
  have "consistent M (GetGuest (mGuestRef M) (Inr guest))" using c guest unfolding list_all_iff by blast
  then have "gName guest = mGuestRef M" by simp
  then obtain p where p: "read_pod d p h" "\<not> dstReportedRunning m p" using dst same_names(2) [OF m s] d by auto
  show False
    using r reports_read [OF _ src(1), of "''complete''" "sendActionID M"] reports_read [OF _ p(1), of "''running''" "recvActionID M"]
      src(2) p(2) m by (auto simp: srcReportedComplete_def dstReportedRunning_def same_migration_def)
qed

text \<open>
  C1. A pass never deletes the destination launcher of a live migration once the destination
  reports that it runs the guest, or the source that it has sent it completely: whatever the
  spec asks for (a cancel, a deletion, an expired timeout), whatever phase the status is in and
  whichever other call fails.
\<close>

theorem committed_destination_survives:
  assumes run: "Reconcile E now name [] = Some (r, h)"
    and c: "list_all (consistent M) h"
    and d: "dstPodName M (mGuestRef M) = Inr d"
    and s: "sSourcePodRef (mStatus M) = Some s" "s \<noteq> ''''" "s \<noteq> d"
    and reported: "list_all (reports d ''running'' (recvActionID M)) h \<or> list_all (reports s ''complete'' (sendActionID M)) h"
  shows "DeletePod d grace a \<notin> set h"
proof
  assume "DeletePod d grace a \<in> set h"
  then obtain h0 where h0: "set h0 \<subseteq> set h" and p: "permitted now name h0 (DeletePod d grace a)"
    using pass_event [OF run] by blast
  have c0: "list_all (consistent M) h0"
    and r0: "list_all (reports d ''running'' (recvActionID M)) h0 \<or> list_all (reports s ''complete'' (sendActionID M)) h0"
    using c reported h0 unfolding list_all_iff by blast+
  from p show False
  proof cases
    case (source m)
    then have "same_migration M m" using current_consistent active_current c0 by blast
    then show False using source same_names(1) [OF _ s(1,2)] s(3) by (auto simp: may_delete_source_def)
  next
    case (destination m)
    then show False using not_uncommitted [OF c0 _ d s(1,2) r0] current_consistent [OF _ c0] by blast
  next
    case (offline m guest pod)
    then have "same_migration M m" using current_consistent active_current c0 by blast
    then show False using offline by (simp add: isLiveMode_def same_migration_def)
  qed simp
qed

section \<open>Phases\<close>

text \<open>A patch is answered with the phase that was stored.\<close>

fun keeps_phase :: "kevent \<Rightarrow> bool" where
  "keeps_phase (PatchMig m fs (Inr m')) = (sPhase (mStatus m') = sPhase (mStatus m))"
| "keeps_phase (PatchMigStatus m st l (Inr m')) = (sPhase (mStatus m') = sPhase st)"
| "keeps_phase _ = True"

lemma becomes_phase:
  assumes "becomes h m0 m" and "list_all keeps_phase h"
  shows "sPhase (mStatus m) = sPhase (mStatus m0)"
  using assms
proof (induction rule: becomes.induct)
  case (patched m fs m')
  then have "keeps_phase (PatchMig m fs (Inr m'))" unfolding list_all_iff by blast
  then show ?case using patched by simp
next
  case (saved m st l m')
  then have "keeps_phase (PatchMigStatus m st l (Inr m'))" unfolding list_all_iff by blast
  then show ?case using saved by simp
qed simp

text \<open>
  C18. Every status a pass writes moves the phase by at most one step of Pending, Validating,
  Preparing, StopAndCopy, Resuming, Completed, or to Failed or Cancelled; the status of a migration
  in a terminal phase is never written.
\<close>

theorem phase_moves_forward:
  assumes "Reconcile E now name [] = Some (r, h)" and k: "list_all keeps_phase h"
    and "PatchMigStatus m st locked a \<in> set h"
  shows "\<not> isTerminalPhase (sPhase (mStatus m)) \<and> phase_step (sPhase (mStatus m)) (sPhase st)"
proof -
  obtain h0 where h0: "set h0 \<subseteq> set h" and p: "permitted now name h0 (PatchMigStatus m st locked a)"
    using pass_event assms(1,3) by blast
  have "list_all keeps_phase h0" using k h0 unfolding list_all_iff by blast
  with p show ?thesis by cases (auto simp: active_def dest: becomes_phase)
qed

section \<open>Witnesses\<close>

text \<open>A pass over the example, with a cancel requested after the commit and the timeout expired.\<close>

definition ex_run :: "ctrlResult res \<times> kevent list" where
  "ex_run = the (Reconcile (server (ex_cluster True)) 10 ''m'' [])"

lemma ex_run: "Reconcile (server (ex_cluster True)) 10 ''m'' [] = Some (fst ex_run, snd ex_run)"
proof -
  have "Reconcile (server (ex_cluster True)) 10 ''m'' [] \<noteq> None"
    using obeys_wp [OF Reconcile_permitted empty_subsetI, of "server (ex_cluster True)" 10 "''m''" "[]"] by (auto simp: wp_def)
  then show ?thesis by (simp add: ex_run_def)
qed

text \<open>The theorem for the example.\<close>

theorem committed_destination_survives_witness:
  "Reconcile (server (ex_cluster True)) 10 ''m'' [] = Some (fst ex_run, snd ex_run) \<and>
   DeletePod ''g-mig-abcdef'' None None \<notin> set (snd ex_run)"
proof -
  have c: "list_all (consistent (ex_migration True)) (snd ex_run)" by code_simp
  have r: "list_all (reports ''g-mig-abcdef'' ''running'' (recvActionID (ex_migration True))) (snd ex_run)" by code_simp
  have d: "dstPodName (ex_migration True) (mGuestRef (ex_migration True)) = Inr ''g-mig-abcdef''" by code_simp
  have s: "sSourcePodRef (mStatus (ex_migration True)) = Some ''g''" by code_simp
  show ?thesis using committed_destination_survives [OF ex_run c d s] r ex_run by simp
qed

text \<open>The theorem for the example.\<close>

theorem phase_moves_forward_witness:
  "\<exists>m st locked a. PatchMigStatus m st locked a \<in> set (snd ex_run) \<and>
     \<not> isTerminalPhase (sPhase (mStatus m)) \<and> phase_step (sPhase (mStatus m)) (sPhase st)"
proof -
  have k: "list_all keeps_phase (snd ex_run)" by code_simp
  have "list_ex (\<lambda>e. case e of PatchMigStatus m st locked a \<Rightarrow> True | _ \<Rightarrow> False) (snd ex_run)" by code_simp
  then obtain e where "e \<in> set (snd ex_run)" "case e of PatchMigStatus m st locked a \<Rightarrow> True | _ \<Rightarrow> False"
    unfolding list_ex_iff by blast
  then obtain m st locked a where "PatchMigStatus m st locked a \<in> set (snd ex_run)" by - (cases e; auto)
  then show ?thesis using phase_moves_forward [OF ex_run k] by blast
qed

end
