(* ===== verification/Migration_Eligible.thy ===== *)
theory Migration_Eligible
  imports Migration_Footprint Migration_Server
begin

text \<open>
  What validation guarantees: a migration that leaves Validating has a ready target node with room
  for the guest, and one that goes on as live is of a guest that can be migrated live, as far
  as the reads of the same pass show.
\<close>

section \<open>Evidence\<close>

definition volume_ok :: "kevent list \<Rightarrow> string \<times> string \<times> bool \<Rightarrow> bool" where
  "volume_ok h v =
     (case v of (what, claim, needBlock) \<Rightarrow>
        \<exists>pvc. GetPVC claim (Inr pvc) \<in> set h \<and>
          ''ReadWriteMany'' \<in> set (if pvStatusAccessModes pvc = [] then pvSpecAccessModes pvc else pvStatusAccessModes pvc) \<and>
          (needBlock \<longrightarrow> pvVolumeMode pvc = Some ''Block''))"

text \<open>Every volume of the guest can be attached on two nodes at once, its root disk by its merged storage settings.\<close>

definition storage_ok :: "SwiftGuest \<Rightarrow> kevent list \<Rightarrow> bool" where
  "storage_ok guest h \<longleftrightarrow>
     (gKernelRef guest \<or> (\<exists>class. GetClass (gGuestClassRef guest) (Inr class) \<in> set h \<and> MergeStorage guest class = (''ReadWriteMany'', ''Block''))) \<and>
     list_all (volume_ok h) (guest_volumes guest)"

definition live_ok :: "SwiftGuest \<Rightarrow> kevent list \<Rightarrow> bool" where
  "live_ok guest h \<longleftrightarrow>
     \<not> HasVFIODevices guest \<and> \<not> HasNodeLocalVirtioBackends guest \<and>
     (storage_ok guest h \<or> (\<exists>e. GetClass (gGuestClassRef guest) (Inl e) \<in> set h \<and> errors_Is e ErrNotFound))"

text \<open>The target is schedulable and ready, and what its pods leave of it is enough for the guest's class.\<close>

definition target_ok :: "kenv \<Rightarrow> SwiftMigration \<Rightarrow> SwiftGuest \<Rightarrow> kevent list \<Rightarrow> bool" where
  "target_ok E mig guest h \<longleftrightarrow>
     (\<exists>node class pods cpu mem. GetNode (mTargetNode mig) (Inr node) \<in> set h \<and> \<not> noUnschedulable node \<and> nodeReady node \<and>
        GetClass (gGuestClassRef guest) (Inr class) \<in> set h \<and> ListPods (Inr pods) \<in> set h \<and>
        noAllocatableCPU node = Some cpu \<and> noAllocatableMemory node = Some mem \<and>
        gcCPU class + (\<Sum>p\<leftarrow>counted_pods node pods. fst (podRequests p)) \<le> cpu \<and>
        gcMemory class + LauncherMemoryOverheadMiB * 1024 * 1024 * 1000 + (\<Sum>p\<leftarrow>counted_pods node pods. snd (podRequests p)) \<le> mem)"

definition admitted :: "kenv \<Rightarrow> SwiftMigration \<Rightarrow> kevent list \<Rightarrow> handled \<Rightarrow> bool" where
  "admitted E mig h r \<longleftrightarrow>
     (prAdvanced (fst r) \<longrightarrow>
        (\<exists>guest. GetGuest (mGuestRef mig) (Inr guest) \<in> set h \<and> gMigrationEnabled guest \<noteq> Some False \<and> target_ok E mig guest h \<and>
           (sMode (snd r) = ''live'' \<longrightarrow> live_ok guest h)))"

lemma volume_ok_mono: "volume_ok h v \<Longrightarrow> set h \<subseteq> set h' \<Longrightarrow> volume_ok h' v"
  by (auto simp: volume_ok_def split: prod.splits)

lemma storage_ok_mono: "storage_ok g h \<Longrightarrow> set h \<subseteq> set h' \<Longrightarrow> storage_ok g h'"
  unfolding storage_ok_def list_all_iff using volume_ok_mono by blast

lemma live_ok_mono: "live_ok g h \<Longrightarrow> set h \<subseteq> set h' \<Longrightarrow> live_ok g h'"
  unfolding live_ok_def using storage_ok_mono by blast

lemma target_ok_mono: "target_ok E m g h \<Longrightarrow> set h \<subseteq> set h' \<Longrightarrow> target_ok E m g h'"
  unfolding target_ok_def by (meson subset_iff)

lemma not_advanced [simp]: "\<not> prAdvanced (phaseFailure msg r)" "\<not> prAdvanced (phaseTransient e)" "\<not> prAdvanced (phaseRequeue d)"
  by (simp_all add: phaseFailure_def phaseTransient_def phaseRequeue_def)

lemma admitted_stopped: "\<not> prAdvanced r \<Longrightarrow> admitted E mig h (r, st)"
  by (simp add: admitted_def)

lemma admittedI:
  "GetGuest (mGuestRef mig) (Inr guest) \<in> set h \<Longrightarrow> gMigrationEnabled guest \<noteq> Some False \<Longrightarrow> target_ok E mig guest h \<Longrightarrow>
   (sMode (snd r) = ''live'' \<Longrightarrow> live_ok guest h) \<Longrightarrow> admitted E mig h r"
  by (auto simp: admitted_def)

section \<open>Checks\<close>

text \<open>What is counted against the target is exactly the requests of the pods that still run there.\<close>

lemma capacity_exact:
  "capacity_verdict E node class cpu mem pods = None \<longleftrightarrow>
     gcCPU class + (\<Sum>p\<leftarrow>counted_pods node pods. fst (podRequests p)) \<le> cpu \<and>
     gcMemory class + LauncherMemoryOverheadMiB * 1024 * 1024 * 1000 + (\<Sum>p\<leftarrow>counted_pods node pods. snd (podRequests p)) \<le> mem"
  by (auto simp: capacity_verdict_def Let_def comp_def)

lemma phaseAdvance_advanced [simp]: "prAdvanced phaseAdvance"
  by (simp add: phaseAdvance_def)

lemma mode_kept [status_simps]:
  "sMode (clear_wait r st) = sMode st" "sMode (ip_will_change now mig g st) = sMode st"
  "sMode (snd (awaitTerminatingPods now e st)) = sMode st"
  by (simp_all add: clear_wait_def ip_will_change_def awaitTerminatingPods_def status_simps Let_def split: option.split)

context policy
begin

lemma check_volume_ok: "obeys S P (\<lambda>h r. r = None \<longrightarrow> volume_ok h v) (check_volume E guest v)"
  unfolding check_volume_def Let_def
  by (rule obeys_rules | (auto simp: volume_ok_def refuse_volume_def list_ex_iff split: prod.splits; fail))+

lemma check_volumes_ok: "obeys S P (\<lambda>h r. r = None \<longrightarrow> list_all (volume_ok h) vs) (check_volumes E guest vs)"
proof (induction vs arbitrary: S)
  case Nil
  show ?case by (simp add: obeys_ret)
next
  case (Cons v vs)
  show ?case
    unfolding check_volumes.simps
  proof (rule obeys_andThen [OF check_volume_ok], rule obeys_option)
    fix h and r :: "goerr option"
    assume "r = None \<longrightarrow> volume_ok h v" "r = None"
    then show "obeys (set h) P (\<lambda>h r. r = None \<longrightarrow> list_all (volume_ok h) (v # vs)) (check_volumes E guest vs)"
      by (intro obeys_weaken [OF Cons.IH]) (auto intro: volume_ok_mono)
  qed (simp add: obeys_ret)
qed

lemma volumes_ok:
  assumes "\<And>h. S \<subseteq> set h \<Longrightarrow> gKernelRef guest \<or>
      (\<exists>class. GetClass (gGuestClassRef guest) (Inr class) \<in> set h \<and> MergeStorage guest class = (''ReadWriteMany'', ''Block''))"
  shows "obeys S P (\<lambda>h r. fst r = None \<longrightarrow> storage_ok guest h) (andThen (LiveMigrationVolumesError E guest) (\<lambda>g. ret (g, True)))"
  unfolding LiveMigrationVolumesError_def
proof (rule obeys_andThen [OF check_volumes_ok], rule obeys_ret)
  fix h h' and r :: "goerr option"
  assume h: "S \<subseteq> set h" "r = None \<longrightarrow> list_all (volume_ok h) (guest_volumes guest)" "set h \<subseteq> set h'"
  then have "gKernelRef guest \<or> (\<exists>class. GetClass (gGuestClassRef guest) (Inr class) \<in> set h' \<and> MergeStorage guest class = (''ReadWriteMany'', ''Block''))"
    by (intro assms) auto
  moreover have "r = None \<Longrightarrow> list_all (volume_ok h') (guest_volumes guest)"
    using h(2,3) volume_ok_mono unfolding list_all_iff by blast
  ultimately show "fst (r, True) = None \<longrightarrow> storage_ok guest h'" by (simp add: storage_ok_def)
qed

lemma liveStorageGate_ok:
  "obeys S P (\<lambda>h r. fst r = None \<longrightarrow> storage_ok guest h \<or> (\<exists>e. GetClass (gGuestClassRef guest) (Inl e) \<in> set h \<and> errors_Is e ErrNotFound))
     (liveStorageGate E guest)"
  unfolding liveStorageGate_def Let_def getClass_def
proof (rule obeys_if)
  assume "gKernelRef guest"
  then show "obeys S P (\<lambda>h r. fst r = None \<longrightarrow> storage_ok guest h \<or> (\<exists>e. GetClass (gGuestClassRef guest) (Inl e) \<in> set h \<and> errors_Is e ErrNotFound))
      (andThen (LiveMigrationVolumesError E guest) (\<lambda>g. ret (g, True)))"
    by (intro obeys_weaken [OF volumes_ok]) auto
qed (rule obeys_whenFound_answer obeys_weaken [OF volumes_ok] obeys_rules
  | (auto simp: plain LiveMigrationStorageError_def IsLiveMigrationCapable_def Let_def prod_eq_iff split: if_splits; fail))+

lemma NodeHasCapacity_ok:
  "obeys S P (\<lambda>h r. r = None \<longrightarrow> (\<exists>pods cpu mem. ListPods (Inr pods) \<in> set h \<and> noAllocatableCPU node = Some cpu \<and>
       noAllocatableMemory node = Some mem \<and> capacity_verdict E node class cpu mem pods = None)) (NodeHasCapacity E node class)"
  unfolding NodeHasCapacity_def by (rule obeys_rules | (auto; fail))+

lemma checkNodeCapacity_ok:
  "obeys S P (\<lambda>h r. (fst r = None \<longrightarrow> sMode (snd r) = sMode st \<and> (\<exists>pods cpu mem. ListPods (Inr pods) \<in> set h \<and>
       noAllocatableCPU node = Some cpu \<and> noAllocatableMemory node = Some mem \<and> capacity_verdict E node class cpu mem pods = None)) \<and>
       (\<forall>x. fst r = Some x \<longrightarrow> \<not> prAdvanced x)) (checkNodeCapacity E now node class reason st)"
  unfolding checkNodeCapacity_def
  by (rule NodeHasCapacity_ok obeys_rules | (auto simp: capacity_failed_def status_simps; fail) | blast)+

lemma target_okI:
  "GetNode (mTargetNode mig) (Inr node) \<in> set h \<Longrightarrow> \<not> noUnschedulable node \<Longrightarrow> nodeReady node \<Longrightarrow>
   GetClass (gGuestClassRef guest) (Inr class) \<in> set h \<Longrightarrow>
   \<exists>pods cpu mem. ListPods (Inr pods) \<in> set h \<and> noAllocatableCPU node = Some cpu \<and>
     noAllocatableMemory node = Some mem \<and> capacity_verdict E node class cpu mem pods = None \<Longrightarrow>
   target_ok E mig guest h"
  unfolding target_ok_def capacity_exact by blast

lemma check_target_ok:
  assumes k: "\<And>h st'. S \<subseteq> set h \<Longrightarrow> target_ok E mig guest h \<Longrightarrow> sMode st' = sMode st \<Longrightarrow> obeys (set h) P R (k st')"
    and stopped: "\<And>h x st'. \<not> prAdvanced x \<Longrightarrow> R h (x, st')"
  shows "obeys S P R (check_target E now mig guest reason st k)"
  unfolding check_target_def
  by (rule checkNodeCapacity_ok obeys_rules | (rule stopped; simp; fail)
    | (rule k, blast, rule target_okI, blast, assumption, simp, blast, simp, simp))+

lemma validated_mode: "obeys S P (\<lambda>_ r. sMode (snd r) = sMode st) (validated now c r d st)"
  unfolding validated_def by (rule obeys_ret) (simp add: status_simps)

text \<open>A status that is stored at the end of the checks, for a guest that passed them.\<close>

lemma validated_ok:
  assumes "\<And>h. S \<subseteq> set h \<Longrightarrow> GetGuest (mGuestRef mig) (Inr guest) \<in> set h" and "gMigrationEnabled guest \<noteq> Some False"
    and "\<And>h. S \<subseteq> set h \<Longrightarrow> target_ok E mig guest h" and "\<And>h. S \<subseteq> set h \<Longrightarrow> sMode st = ''live'' \<Longrightarrow> live_ok guest h"
  shows "obeys S P (admitted E mig) (validated now c r d st)"
  by (rule obeys_weaken [OF validated_mode], rule admittedI [of _ guest]) (use assms in auto)

lemma gpuPreflight_mode:
  "obeys S P (\<lambda>_ r. sMode (snd r) = sMode st \<and> (\<forall>x. fst r = Some x \<longrightarrow> \<not> prAdvanced x))
     (if HasVFIODevices guest then gpuPreflight E mig guest st else ret (None, st))"
  unfolding gpuPreflight_def by (rule obeys_rules | (simp; fail))+

lemma checked_ok:
  assumes g: "\<And>h. S \<subseteq> set h \<Longrightarrow> GetGuest (mGuestRef mig) (Inr guest) \<in> set h" "gMigrationEnabled guest \<noteq> Some False"
    and live: "\<And>h. S \<subseteq> set h \<Longrightarrow> sMode st = ''live'' \<Longrightarrow> live_ok guest h"
    and m: "\<And>S' st'. obeys S' P (\<lambda>_ r. sMode (snd r) = sMode st' \<and> (\<forall>x. fst r = Some x \<longrightarrow> \<not> prAdvanced x)) (m st')"
  shows "obeys S P (admitted E mig) (check_target E now mig guest reason st (\<lambda>st'. unlessStopped (m st') (validated now c r d)))"
proof (rule check_target_ok, rule obeys_unlessStopped [OF m])
  show "\<And>h x st'. \<not> prAdvanced x \<Longrightarrow> admitted E mig h (x, st')" by (rule admitted_stopped)
next
  fix h h' :: "kevent list" and st1 st2 :: SwiftMigrationStatus and x :: phaseResult
  assume "sMode (snd (Some x, st2)) = sMode st1 \<and> (\<forall>y. fst (Some x, st2) = Some y \<longrightarrow> \<not> prAdvanced y)"
  then show "admitted E mig h' (x, st2)" by (intro admitted_stopped) simp
next
  fix h h' :: "kevent list" and st1 st2 :: SwiftMigrationStatus
  assume h: "S \<subseteq> set h" "target_ok E mig guest h" "sMode st1 = sMode st" "set h \<subseteq> set h'"
    "sMode (snd (None :: phaseResult option, st2)) = sMode st1 \<and> (\<forall>y. fst (None, st2) = Some y \<longrightarrow> \<not> prAdvanced y)"
  have "S \<subseteq> set h''" "target_ok E mig guest h''" if "set h' \<subseteq> set h''" for h''
    using h(1,4) that target_ok_mono [OF h(2)] by auto
  then show "obeys (set h') P (admitted E mig) (validated now c r d st2)"
    using h(3,5) g live by (intro validated_ok) auto
qed

lemma handleValidatingOffline_ok: "obeys S P (admitted E mig) (handleValidatingOffline E now mig st)"
  unfolding handleValidatingOffline_def Let_def
  by (rule checked_ok gpuPreflight_mode obeys_rules | (rule admitted_stopped; simp; fail) | (auto simp: status_simps; fail))+

lemma validate_identity_mode:
  "obeys S P (\<lambda>_ r. sMode (snd r) = sMode st \<and> (\<forall>x. fst r = Some x \<longrightarrow> \<not> prAdvanced x)) (validate_identity E guest src st)"
  unfolding validate_identity_def by (rule obeys_rules | (simp; fail))+

lemma awaitVolumeDetach_stops:
  "obeys S P (\<lambda>_ r. \<forall>x. fst r = Some x \<longrightarrow> \<not> prAdvanced x) (awaitVolumeDetach E now src st)"
  unfolding awaitVolumeDetach_def by (rule obeys_rules | (simp add: await_detach_def Let_def; fail))+

lemma sourcePodCopyable_stops: "sourcePodCopyable src guest = Some r \<Longrightarrow> \<not> prAdvanced r"
  by (auto simp: sourcePodCopyable_def split: option.splits prod.splits if_splits bool.splits)

lemma validate_live_source_ok:
  assumes "\<And>h. S \<subseteq> set h \<Longrightarrow> GetGuest (mGuestRef mig) (Inr guest) \<in> set h" "gMigrationEnabled guest \<noteq> Some False"
    and "\<And>h. S \<subseteq> set h \<Longrightarrow> live_ok guest h"
  shows "obeys S P (admitted E mig) (validate_live_source E now mig guest st)"
  unfolding validate_live_source_def Let_def
  by (rule checked_ok validate_identity_mode awaitVolumeDetach_stops obeys_rules
    | (rule admitted_stopped; (rule sourcePodCopyable_stops, assumption | simp); fail)
    | (rule assms; auto; fail) | (auto; fail))+

lemma handleValidatingLive_ok: "obeys S P (admitted E mig) (handleValidatingLive E now mig st)"
  unfolding handleValidatingLive_def
  by (rule validate_live_source_ok liveStorageGate_ok obeys_rules | (rule admitted_stopped; simp; fail)
    | (auto simp: live_ok_def live_ineligible_def intro: storage_ok_mono split: if_splits; fail))+

lemma resolveAutoMode_stops: "obeys S P (\<lambda>_ r. \<forall>x. fst r = Some x \<longrightarrow> \<not> prAdvanced x) (resolveAutoMode E mig st)"
  unfolding resolveAutoMode_def Let_def by (rule obeys_rules | (simp; fail))+

lemma auto_mode_stops:
  "obeys S P (\<lambda>_ r. \<forall>x. fst r = Some x \<longrightarrow> \<not> prAdvanced x) (if b then resolveAutoMode E mig st else ret (None, st))"
  by (rule obeys_if, rule resolveAutoMode_stops, rule obeys_ret, simp)

lemma handleValidating_ok: "obeys S P (admitted E mig) (handleValidating E now mig st)"
  unfolding handleValidating_def
  by (rule auto_mode_stops handleValidatingLive_ok handleValidatingOffline_ok obeys_rules | (rule admitted_stopped; simp; fail) | (simp; fail))+

end

text \<open>No write is restricted here.\<close>

interpretation free: policy E "\<lambda>_ _. True" for E
  by unfold_locales simp

text \<open>
  C13. A migration leaves Validating only if the guest was read with migration enabled, the target
  was read schedulable and ready, and the listed pods leave it the CPU and memory of the
  guest's class; as a live migration only if the guest has no device bound to its node and each of its
  volumes was read as shared and, where it must be, as a block device, unless the guest's
  class was missing when it was looked up.
\<close>

theorem validation_sound:
  assumes "handleValidating E now mig st [] = Some (Inr (res, st'), h)" and "prAdvanced res"
  shows "\<exists>guest. GetGuest (mGuestRef mig) (Inr guest) \<in> set h \<and> gMigrationEnabled guest \<noteq> Some False \<and> target_ok E mig guest h \<and>
    (sMode st' = ''live'' \<longrightarrow> live_ok guest h)"
proof -
  have "admitted E mig h (res, st')" using obeysD [OF free.handleValidating_ok empty_subsetI assms(1)] by blast
  with assms(2) show ?thesis by (simp add: admitted_def)
qed

text \<open>The guest of the example with a data disk, on shared block storage.\<close>

definition ex_env :: kenv where
  "ex_env = (server (ex_cluster False))
     \<lparr>kGetGuest := (\<lambda>h n. Inr (ex_guest\<lparr>gDataDiskRef := True\<rparr>)),
      kGetNode := (\<lambda>h n. Inr \<lparr>noName = n, noUnschedulable = False, noConditions = [(''Ready'', ''True'')],
                             noAllocatableCPU = Some 4000, noAllocatableMemory = Some 8589934592000\<rparr>),
      kGetClass := (\<lambda>h n. Inr \<lparr>gcCPU = 2000, gcMemory = 4294967296000, gcStorage = Some (''ReadWriteMany'', ''Block''), gcSharedBaseDisk = False\<rparr>),
      kGetPVC := (\<lambda>h n. Inr \<lparr>pvVolumeName = ''v'', pvStatusAccessModes = [''ReadWriteMany''], pvSpecAccessModes = [], pvVolumeMode = Some ''Block''\<rparr>),
      kListPods := (\<lambda>h. Inr [])\<rparr>"

definition ex_validation :: "handled res \<times> kevent list" where
  "ex_validation = the (handleValidating ex_env 5 (ex_migration False) (no_status\<lparr>sPhase := PhaseValidating\<rparr>) [])"

text \<open>The theorem for the example.\<close>

theorem validation_sound_witness:
  "sMode (snd (projr (fst ex_validation))) = ''live'' \<and>
   (\<exists>guest. GetGuest ''g'' (Inr guest) \<in> set (snd ex_validation) \<and> gMigrationEnabled guest \<noteq> Some False \<and>
      target_ok ex_env (ex_migration False) guest (snd ex_validation) \<and> live_ok guest (snd ex_validation))"
proof -
  have live: "sMode (snd (projr (fst ex_validation))) = ''live''" by code_simp
  have adv: "prAdvanced (fst (projr (fst ex_validation)))" by code_simp
  have "isl (fst ex_validation) = False" by code_simp
  then have "fst ex_validation = Inr (fst (projr (fst ex_validation)), snd (projr (fst ex_validation)))" by (cases "fst ex_validation") auto
  moreover have "handleValidating ex_env 5 (ex_migration False) (no_status\<lparr>sPhase := PhaseValidating\<rparr>) [] \<noteq> None"
    using obeys_wp [OF free.handleValidating_ok empty_subsetI, where h = "[]"] by (fastforce simp: wp_def)
  ultimately have "handleValidating ex_env 5 (ex_migration False) (no_status\<lparr>sPhase := PhaseValidating\<rparr>) [] =
      Some (Inr (fst (projr (fst ex_validation)), snd (projr (fst ex_validation))), snd ex_validation)"
    by (auto simp: ex_validation_def)
  from validation_sound [OF this adv] live show ?thesis by (auto simp: ex_migration_def)
qed

end
