(* ===== verification/Migration_Edges.thy ===== *)
theory Migration_Edges
  imports Migration_Server
begin

text \<open>
  Facts about single decisions of the migration controller: the sub-states and the commit
  point, the destination pod that a pass creates and a later pass recognises, and the
  behaviours at the edges where the code and its documentation part.
\<close>

section \<open>Sub-states\<close>

text \<open>
  The sub-state derived from the launchers' reports agrees with the commit point: a
  migration is committed exactly if its sub-state is one of the two that lead to the cutover,
  whatever else the annotations say. The report of the destination alone never hides that of the source.
\<close>

theorem substate_commits:
  "passedCommitPoint mig src dst \<longleftrightarrow> deriveSubstate mig src dst \<in> {substateSrcCompleted, substateDstRunning}"
  by (auto simp: passedCommitPoint_def deriveSubstate_def srcReportedComplete_def dstReportedRunning_def Let_def)

section \<open>The destination pod\<close>

lemma set_launcher_env_images:
  "set_launcher_env name v cs = Some cs' \<Longrightarrow> map (\<lambda>c. (coName c, coImage c)) cs' = map (\<lambda>c. (coName c, coImage c)) cs"
  by (induction cs arbitrary: cs') (auto split: if_splits)

lemma first_image_diff_none:
  "(\<And>c. c \<in> set cs \<Longrightarrow> m (coName c) = Some (coImage c)) \<Longrightarrow> first_image_diff kind m cs = ''''"
  by (induction cs) auto

lemma images_diff_none:
  assumes "map (\<lambda>c. (coName c, coImage c)) g = map (\<lambda>c. (coName c, coImage c)) w" and "distinct (map coName w)"
  shows "images_diff kind g w = ''''"
proof -
  have "length g = length w" using arg_cong [OF assms(1), of length] by simp
  moreover have "map_of (rev (map (\<lambda>c. (coName c, coImage c)) w)) (coName c) = Some (coImage c)" if "c \<in> set g" for c
  proof (rule map_of_is_SomeI)
    show "distinct (map fst (rev (map (\<lambda>c. (coName c, coImage c)) w)))" using assms(2) by (simp add: rev_map [symmetric] comp_def)
    have "(coName c, coImage c) \<in> set (map (\<lambda>c. (coName c, coImage c)) g)" using that by auto
    then show "(coName c, coImage c) \<in> set (rev (map (\<lambda>c. (coName c, coImage c)) w))" using assms(1) by simp
  qed
  ultimately show ?thesis by (simp add: images_diff_def first_image_diff_none)
qed

text \<open>What of the new pod does not depend on the frozen intent and the network annotations.\<close>

definition launched :: "kenv \<Rightarrow> SwiftMigration \<Rightarrow> SwiftGuest \<Rightarrow> Container list \<Rightarrow> Container list" where
  "launched E mig guest cs =
     (if kMTLS E then removeContainerByName ''migration-stunnel'' cs @ [dstStunnelSidecar E (MigrationNodeCertSAN (gStatusNodeName guest))] else cs)"

lemma newDstPod_cases:
  assumes "newDstPod E mig guest src cm ovn = Inr dst"
  obtains cs1 cs2 where "set_launcher_env ''KUBESWIFT_MIGRATION_ROLE'' ''receiver'' (pContainers src) = Some cs1"
    "set_launcher_env ''KUBESWIFT_GUEST_NAME'' (gName guest) cs1 = Some cs2"
    "pContainers dst = launched E mig guest cs2" "pInitContainers dst = pInitContainers src"
    "pLabels dst = mergeLabelsForDst (pLabels src) (gName guest) (mName mig)"
    "pOwners dst = [\<lparr>orKind = ''SwiftGuest'', orName = gName guest, orUID = gUID guest, orController = Some True\<rparr>]"
    "pNodeName dst = mTargetNode mig" "dstPodName mig (gName guest) = Inr (pName dst)"
    "kMTLS E \<longrightarrow> gStatusNodeName guest \<noteq> '''' \<and> mTargetNode mig \<noteq> ''''"
  using assms
  by (auto simp: newDstPod_def bind_res_def addReceiverEnvToLauncher_def setLauncherEnv_def new_dst_meta_def reset_pod_status_def
      injectDstStunnelSidecar_def repointRuntimeIntentVolume_def launched_def Let_def split: sum.splits option.splits if_splits)

lemma newDstPod_again:
  assumes "newDstPod E mig guest src cm ovn = Inr dst"
  shows "\<exists>expected. newDstPod E mig guest src '''' [] = Inr expected"
  by (rule newDstPod_cases [OF assms])
    (auto simp: newDstPod_def bind_res_def addReceiverEnvToLauncher_def setLauncherEnv_def new_dst_meta_def Let_def)

lemma launched_names: "distinct (map coName cs) \<Longrightarrow> distinct (map coName (launched E mig guest cs))"
  by (auto simp: launched_def removeContainerByName_def dstStunnelSidecar_def distinct_map_filter)

text \<open>
  C26. The destination pod that a pass creates is recognised by the passes after it: it has the
  labels and the owner they look for, and for every frozen intent and network identity it has the
  images of the pod they would build, so that a retry adopts it and reports no conflict. It is bound
  to the target node.
\<close>

theorem created_destination_is_adopted:
  assumes dst: "newDstPod E mig guest src cm ovn = Inr dst"
    and d: "distinct (map coName (pContainers src))" "distinct (map coName (pInitContainers src))"
  shows "\<exists>expected. newDstPod E mig guest src '''' [] = Inr expected \<and> podImagesDiff dst expected = '''' \<and>
    dstPodMatches dst mig guest \<and> pNodeName dst = mTargetNode mig"
proof -
  obtain expected where e: "newDstPod E mig guest src '''' [] = Inr expected" using newDstPod_again [OF dst] by blast
  obtain cs1 cs2 where 1: "set_launcher_env ''KUBESWIFT_MIGRATION_ROLE'' ''receiver'' (pContainers src) = Some cs1"
    "set_launcher_env ''KUBESWIFT_GUEST_NAME'' (gName guest) cs1 = Some cs2" "pContainers dst = launched E mig guest cs2"
    "pInitContainers dst = pInitContainers src" and l: "pLabels dst = mergeLabelsForDst (pLabels src) (gName guest) (mName mig)"
    "pOwners dst = [\<lparr>orKind = ''SwiftGuest'', orName = gName guest, orUID = gUID guest, orController = Some True\<rparr>]"
    "pNodeName dst = mTargetNode mig"
    by (rule newDstPod_cases [OF dst])
  have 2: "pContainers expected = launched E mig guest cs2 \<and> pInitContainers expected = pInitContainers src"
    by (rule newDstPod_cases [OF e]) (use 1 in simp)
  have "map (\<lambda>c. (coName c, coImage c)) cs2 = map (\<lambda>c. (coName c, coImage c)) (pContainers src)"
    using set_launcher_env_images [OF 1(1)] set_launcher_env_images [OF 1(2)] by simp
  from arg_cong [OF this, of "map fst"] have "map coName cs2 = map coName (pContainers src)" by (simp add: comp_def)
  then have "distinct (map coName (launched E mig guest cs2))" using d(1) launched_names by simp
  then have "podImagesDiff dst expected = ''''"
    using d(2) by (simp add: podImagesDiff_def 1 2 images_diff_none Let_def)
  moreover have "dstPodMatches dst mig guest"
    by (simp add: dstPodMatches_def l mergeLabelsForDst_def at_def LabelGuestName_def LabelMigrationRole_def LabelMigrationName_def)
  ultimately show ?thesis using e l(3) by blast
qed

text \<open>The theorem for a launcher with a TLS sidecar, copied with mTLS on.\<close>

definition ex_source :: Pod where
  "ex_source = (ex_pod ''g'' '''' '''')
     \<lparr>pContainers := [\<lparr>coName = ''launcher'', coImage = ''l:1'', coEnv = [], coCPU = None, coMemory = None\<rparr>,
                      \<lparr>coName = ''migration-stunnel'', coImage = ''t:0'', coEnv = [], coCPU = None, coMemory = None\<rparr>]\<rparr>"

theorem created_destination_is_adopted_witness:
  "\<exists>dst expected. newDstPod ((server (ex_cluster False))\<lparr>kMTLS := True\<rparr>) (ex_migration False) ex_guest ex_source ''cm'' [(''k'', ''v'')] = Inr dst \<and>
     newDstPod ((server (ex_cluster False))\<lparr>kMTLS := True\<rparr>) (ex_migration False) ex_guest ex_source '''' [] = Inr expected \<and>
     podImagesDiff dst expected = '''' \<and> dstPodMatches dst (ex_migration False) ex_guest \<and> pNodeName dst = ''n2''"
proof -
  have ok: "\<not> isl (newDstPod ((server (ex_cluster False))\<lparr>kMTLS := True\<rparr>) (ex_migration False) ex_guest ex_source ''cm'' [(''k'', ''v'')])"
    by code_simp
  then obtain dst where dst: "newDstPod ((server (ex_cluster False))\<lparr>kMTLS := True\<rparr>) (ex_migration False) ex_guest ex_source ''cm'' [(''k'', ''v'')] = Inr dst"
    unfolding isl_def by (metis sum.exhaust)
  have d: "distinct (map coName (pContainers ex_source))" "distinct (map coName (pInitContainers ex_source))" by code_simp+
  have "mTargetNode (ex_migration False) = ''n2''" by code_simp
  with created_destination_is_adopted [OF dst d] dst show ?thesis by auto
qed

section \<open>Edges\<close>

text \<open>
  The name of the destination exists for guest names of at most 53 characters. The webhook
  and the comment of \<open>dst_pod.go\<close> admit live migrations of guests with names of up to 242 characters.
\<close>

theorem destination_name_bound:
  assumes "shortUIDLength \<le> length (mUID mig)"
  shows "dstPodName mig n = Inr (n @ ''-mig-'' @ take 6 (mUID mig)) \<longleftrightarrow> length n \<le> 53"
  using assms by (auto simp: dstPodName_def shortUIDLength_def dstPodNameMaxLength_def Let_def)

text \<open>
  C35. A migration that \<open>finalizeCancelled\<close> has ended has no terminal time, so that its retention never ends:
  no pass deletes it, whatever its time to live.
\<close>

theorem cancelled_never_expires:
  assumes "sTerminalAt (mStatus mig) = None" and "mStatus mig' = cancelled_status t detail (mStatus mig)"
  shows "handleTerminalRetention E now mig' h = Some (Inr noRequeue, h)"
proof -
  have "sTerminalAt (mStatus mig') = None"
    using assms by (simp add: cancelled_status_def setPhaseDetail_def setReadyCondition_def setCondition_def)
  then show ?thesis by (simp add: handleTerminalRetention_def ret_def split: option.split)
qed

theorem cancelled_never_expires_witness:
  "handleTerminalRetention (server (ex_cluster True)) 1000
     ((ex_migration True)\<lparr>mTTL := Some 1, mStatus := cancelled_status 20 ''cancelled'' (mStatus (ex_migration True))\<rparr>) [] = Some (Inr noRequeue, [])"
  by (rule cancelled_never_expires [of "ex_migration True"]) (simp_all add: ex_migration_def no_status_def)

text \<open>
  A target whose pods cannot be listed fails the migration for good, in contrast to every other
  read of the validation, which is retried.
\<close>

theorem unlisted_pods_fail:
  assumes "kListPods E h = Inl e" and "noAllocatableCPU node = Some c" and "noAllocatableMemory node = Some m"
  shows "\<exists>st' h'. checkNodeCapacity E now node class reason st h =
    Some (Inr (Some (phaseFailure (''list pods for capacity check: '' @ err_msg e) reason), st'), h')"
  using assms
  by (simp add: checkNodeCapacity_def NodeHasCapacity_def andThen_def attempt_def listPods_def answer_def ret_def
      capacity_failed_def Errorw_def)

text \<open>
  C36. A live migration whose source has reported its send complete and whose destination pod is gone
  is held in StopAndCopy for ever: the handler fails it, the failure is not applied because
  the migration has committed, and the cluster is as before the pass.
\<close>

theorem lost_destination_is_held:
  assumes m: "cMigs c name = Some m" "mName m = name" "\<not> mDeleting m" "hasFinalizer m" "\<not> mCancelRequested m"
    and st: "sMode (mStatus m) = ''live''" "sPhase (mStatus m) = PhaseStopAndCopy" "\<not> isPostCutover m"
      "sSourcePodRef (mStatus m) = Some s" "s \<noteq> ''''"
    and g: "cGuests c (mGuestRef m) = Some g" "gName g = mGuestRef m" "dstPodName m (gName g) = Inr d"
    and p: "cPods c s = Some src" "srcReportedComplete m (Some src)" "cPods c d = None"
  shows "after_pass name now c = c"
proof -
  let ?E = "server c"
  let ?h = "[GetMig name (Inr m), GetGuest (mGuestRef m) (Inr g), GetPod s (Inr src), GetPod d (Inl (missing d))]"
  have src: "srcPodLookupName m g = s" using st by (simp add: srcPodLookupName_def)
  have live: "isLiveMode m (started now m)" using st by (simp add: isLiveMode_def started_def)
  have fail: "yields (handleStopAndCopyLive ?E now m (started now m)) [GetMig name (Inr m)]
      (phaseFailure (''destination pod '' @ Quote d @ '' disappeared during StopAndCopy'') ''PodTerminated'', started now m) ?h"
    by (simp only: handleStopAndCopyLive_def live not_True_eq_False if_False,
        rule yields_whenFound [OF yields_getGuest], simp add: g,
        simp only: src, rule yields_orTransient [OF yields_findPod], simp add: p,
        simp only: g(3) sum.case, rule yields_orTransient [OF yields_findPod_missing], simp add: p)
      (simp add: failWith_def yields_ret)
  have committed: "yields (liveCommitted ?E m) ?h True (?h @ [GetGuest (mGuestRef m) (Inr g), GetPod s (Inr src)])"
    by (simp only: liveCommitted_def st not_True_eq_False if_False simp_thms,
        rule yields_whenFound [OF yields_getGuest], simp add: g,
        simp only: src, rule yields_andThen [OF yields_findPod], simp add: p)
      (simp add: p yields_ret)
  let ?h' = "?h @ [GetGuest (mGuestRef m) (Inr g), GetPod s (Inr src)]"
  have "yields (resolveSourceOwnership ?E now m) ?h (resolution abortCommitted ''none'' ''the migration had already committed'') ?h'"
    unfolding resolveSourceOwnership_def by (rule yields_andThen [OF yields_wrapErr [OF committed]]) (simp add: yields_ret)
  then have "yields (resolveBeforeFailing ?E now m (started now m)
      (phaseFailure (''destination pod '' @ Quote d @ '' disappeared during StopAndCopy'') ''PodTerminated'')) ?h
      (Inl (requeueAfter cancelPollInterval)) ?h'"
    unfolding resolveBeforeFailing_def using live st(3) by (auto simp: resolution_def yields_ret intro: yields_andThen)
  then have "yields (dispatchResult ?E now m (started now m)
      (phaseFailure (''destination pod '' @ Quote d @ '' disappeared during StopAndCopy'') ''PodTerminated'')) ?h
      (requeueAfter cancelPollInterval) ?h'"
    unfolding dispatchResult_def by (auto simp: phaseFailure_def yields_ret intro: yields_andThen)
  then have "yields (dispatched ?E now m (handleStopAndCopyLive ?E now m (started now m))) [GetMig name (Inr m)]
      (requeueAfter cancelPollInterval) ?h'"
    unfolding dispatched_def by (intro yields_andThen [OF fail]) simp
  then have "after_pass name now c = replay ?h' c" using st(2) by (intro pass_dispatch [OF m st(1)]) auto
  then show ?thesis by simp
qed

theorem lost_destination_is_held_witness:
  "after_pass ''m'' 99 ((ex_cluster False)\<lparr>cPods := [''g'' \<mapsto> ex_pod ''g'' ''complete'' ''m:send:1'']\<rparr>) =
     (ex_cluster False)\<lparr>cPods := [''g'' \<mapsto> ex_pod ''g'' ''complete'' ''m:send:1'']\<rparr>"
proof -
  have s: "srcReportedComplete (ex_migration False) (Some (ex_pod ''g'' ''complete'' ''m:send:1''))" by code_simp
  have d: "dstPodName (ex_migration False) (gName ex_guest) = Inr ''g-mig-abcdef''" by code_simp
  have p: "\<not> isPostCutover (ex_migration False)" "hasFinalizer (ex_migration False)" by code_simp+
  show ?thesis
    by (rule lost_destination_is_held [where m = "ex_migration False" and g = ex_guest and s = "''g''", OF _ _ _ p(2) _ _ _ p(1) _ _ _ _ d _ s])
      (simp_all add: ex_cluster_def ex_migration_def ex_guest_def)
qed

text \<open>
  The first pass of StopAndCopy, which finds the phase detail that Preparing left behind,
  does not compare the UID of the source pod.
\<close>

theorem first_copy_pass_skips_uid_check:
  assumes "dstPodReady dst" and "await_destination E now dst st h = Some (Inr (res, mStatus mig), h')"
  shows "sPhase (mStatus mig) = PhaseStopAndCopy \<and> \<not> shouldCheckSourcePodUID mig"
proof -
  have st: "mStatus mig = setPhaseDetail ''destination pod ready; advancing to StopAndCopy''
      (setReadyCondition now ''False'' ''StopAndCopy'' ''destination pod ready; starting state copy'' (setPhase PhaseStopAndCopy st))"
    using assms by (simp add: await_destination_def ret_def)
  then have "sPhase (mStatus mig) = PhaseStopAndCopy" "sPhaseDetail (mStatus mig) = ''destination pod ready; advancing to StopAndCopy''"
    by (simp_all add: setPhaseDetail_def setReadyCondition_def setCondition_def setPhase_def)
  then show ?thesis
    by (simp add: shouldCheckSourcePodUID_def isPreCutoverPhaseDetail_def PhaseDetailLiveIssuingRecv_def PhaseDetailLiveDestReceiving_def
        PhaseDetailLiveIssuingSend_def PhaseDetailLiveTransferring_def PhaseDetailLiveSourceBusy_def PhaseDetailLiveSrcCompleted_def)
qed

end
