(* ===== verification/Pool_Types.thy ===== *)
theory Pool_Types
  imports Kube
begin

text \<open>
  The API objects of the guest pool controller (\<open>api/swift/v1alpha1/types_swiftguestpool.go\<close>) and
  the fields of guests, claims, nodes and services that \<open>internal/controller/swiftguestpool\<close> reads
  or writes, with the calls of a pass.

  The parts of a guest spec, a claim spec and a network that the controller only copies are one
  opaque value each (\<open>gsRest\<close>, \<open>vtSpec\<close>, \<open>gnRest\<close>). Objects live in the namespace of the pool. Times are
  nanoseconds; a creation time of \<open>None\<close> is the zero time. Counts of replicas are integers: they
  are bounded by the length of a list the API server returned. \<open>SetControllerReference\<close> on a new
  object of the same namespace cannot fail and is the field \<open>owner\<close>.

  The environment \<open>penv\<close> answers every call from the history. \<open>pOrder\<close> is the order in which the
  runtime visits the keys of a map, \<open>pClock\<close> the clock and \<open>pHash\<close> the hash of a template spec (\<open>sha256\<close>
  of its JSON form). Events, log lines and metrics are not modelled.
\<close>

section \<open>Guests\<close>

record GuestPort =
  gpName :: string
  gpPort :: int
  gpTargetPort :: int
  gpProtocol :: string
  gpExpose :: string

record GuestNetwork =
  gnBinding :: string
  gnPorts :: "GuestPort list"
  gnRest :: string

record TopologySpread =
  tsMaxSkew :: int
  tsTopologyKey :: string
  tsWhenUnsatisfiable :: string
  tsLabelSelector :: "(string \<times> string) list option"

text \<open>A data disk of a guest is its name and the claim it refers to, if any.\<close>

record GuestSpec =
  gsRunPolicy :: string
  gsNetwork :: "GuestNetwork option"
  gsCloneTargetNode :: "string option"
  gsTopology :: "TopologySpread list"
  gsDataDisks :: "(string \<times> string option) list"
  gsRest :: string

record PoolGuest =
  pgName :: string
  pgLabels :: strmap
  pgAnnotations :: strmap
  pgOwner :: "string option"
  pgDeleting :: bool
  pgCreated :: "int option"
  pgSpec :: GuestSpec
  pgPhase :: string
  pgConditions :: "Condition list"

section \<open>Pools\<close>

record VolumeClaimTemplate =
  vtName :: string
  vtLabels :: strmap
  vtSpec :: string

record PoolServiceSpec =
  psPorts :: "GuestPort list"
  psType :: string
  psHeadless :: bool
  psAnnotations :: "(string, string) gomap"
  psLoadBalancerClass :: "string option"

record UpdateStrategy =
  usType :: string
  usRollingUpdate :: "(int \<times> int) option"

record SwiftGuestPoolStatus =
  poReplicas :: int
  poReadyReplicas :: int
  poAvailableReplicas :: int
  poFailedReplicas :: int
  poUpdatedReplicas :: int
  poCurrentTemplateHash :: string
  poServiceRef :: string
  poConditions :: "Condition list"

record SwiftGuestPool =
  spName :: string
  spUID :: string
  spDeleting :: bool
  spReplicas :: int
  spTemplateLabels :: strmap
  spTemplateAnnotations :: strmap
  spTemplateSpec :: GuestSpec
  spUpdateStrategy :: "UpdateStrategy option"
  spSpreadPolicy :: string
  spTopology :: "TopologySpread list"
  spVolumeClaimTemplates :: "VolumeClaimTemplate list"
  spService :: "PoolServiceSpec option"
  spStatus :: SwiftGuestPoolStatus

section \<open>Other objects\<close>

record PoolClaim =
  pcName :: string
  pcLabels :: strmap
  pcOwners :: "string list"
  pcSpec :: string

record PoolNode =
  pnName :: string
  pnUnschedulable :: bool
  pnLabels :: strmap
  pnTaints :: "string list"
  pnConditions :: "(string \<times> string) list"

record ServicePort =
  svpName :: string
  svpPort :: int
  svpProtocol :: string
  svpTargetPort :: int

record Service =
  svName :: string
  svOwner :: "string option"
  svLabels :: "(string \<times> string) list"
  svAnnotations :: "(string, string) gomap"
  svSelector :: "(string \<times> string) list"
  svPorts :: "ServicePort list"
  svType :: string
  svClusterIP :: string
  svLoadBalancerClass :: "string option"

section \<open>Calls\<close>

datatype pevent =
    GetPool "SwiftGuestPool res"
  | ListGuests "PoolGuest list res"
  | DeleteGuest string "goerr option"
  | CreateGuest PoolGuest "goerr option"
  | GetClaim string "PoolClaim res"
  | CreateClaim PoolClaim "goerr option"
  | PatchClaim PoolClaim PoolClaim "goerr option"
  | ListNodes "PoolNode list res"
  | GetService string "Service res"
  | CreateService Service "goerr option"
  | UpdateService Service "goerr option"
  | DeleteService string "goerr option"
  | PatchPoolStatus SwiftGuestPoolStatus "goerr option"

record penv =
  pGetPool :: "pevent list \<Rightarrow> SwiftGuestPool res"
  pListGuests :: "pevent list \<Rightarrow> PoolGuest list res"
  pGetClaim :: "pevent list \<Rightarrow> string \<Rightarrow> PoolClaim res"
  pListNodes :: "pevent list \<Rightarrow> PoolNode list res"
  pGetService :: "pevent list \<Rightarrow> string \<Rightarrow> Service res"
  pWrite :: "pevent list \<Rightarrow> goerr option"
  pOrder :: "pevent list \<Rightarrow> int list \<Rightarrow> int list"
  pClock :: "pevent list \<Rightarrow> int"
  pHash :: "GuestSpec \<Rightarrow> string"

type_synonym 'a pprog = "(pevent, 'a) caller"

definition getPool :: "penv \<Rightarrow> SwiftGuestPool pprog" where
  "getPool E = answer GetPool (pGetPool E)"

definition listGuests :: "penv \<Rightarrow> PoolGuest list pprog" where
  "listGuests E = answer ListGuests (pListGuests E)"

definition deleteGuest :: "penv \<Rightarrow> PoolGuest \<Rightarrow> unit pprog" where
  "deleteGuest E g = acknowledge (DeleteGuest (pgName g)) (pWrite E)"

definition createGuest :: "penv \<Rightarrow> PoolGuest \<Rightarrow> unit pprog" where
  "createGuest E g = acknowledge (CreateGuest g) (pWrite E)"

definition getClaim :: "penv \<Rightarrow> string \<Rightarrow> PoolClaim pprog" where
  "getClaim E n = answer (GetClaim n) (\<lambda>h. pGetClaim E h n)"

definition createClaim :: "penv \<Rightarrow> PoolClaim \<Rightarrow> unit pprog" where
  "createClaim E c = acknowledge (CreateClaim c) (pWrite E)"

definition patchClaim :: "penv \<Rightarrow> PoolClaim \<Rightarrow> PoolClaim \<Rightarrow> unit pprog" where
  "patchClaim E c c' = acknowledge (PatchClaim c c') (pWrite E)"

definition listNodes :: "penv \<Rightarrow> PoolNode list pprog" where
  "listNodes E = answer ListNodes (pListNodes E)"

definition getService :: "penv \<Rightarrow> string \<Rightarrow> Service pprog" where
  "getService E n = answer (GetService n) (\<lambda>h. pGetService E h n)"

definition createService :: "penv \<Rightarrow> Service \<Rightarrow> unit pprog" where
  "createService E s = acknowledge (CreateService s) (pWrite E)"

definition updateService :: "penv \<Rightarrow> Service \<Rightarrow> unit pprog" where
  "updateService E s = acknowledge (UpdateService s) (pWrite E)"

definition deleteService :: "penv \<Rightarrow> string \<Rightarrow> unit pprog" where
  "deleteService E n = acknowledge (DeleteService n) (pWrite E)"

definition patchPoolStatus :: "penv \<Rightarrow> SwiftGuestPoolStatus \<Rightarrow> unit pprog" where
  "patchPoolStatus E st = acknowledge (PatchPoolStatus st) (pWrite E)"

definition clock :: "penv \<Rightarrow> int pprog" where
  "clock E h = Some (Inr (pClock E h), h)"

text \<open>The keys of a map in the order a range loop visits them.\<close>

definition rangeKeys :: "penv \<Rightarrow> (int \<times> 'v) list \<Rightarrow> int list pprog" where
  "rangeKeys E m h = Some (Inr (pOrder E h (map fst m)), h)"

section \<open>Constants\<close>

definition LabelPoolName :: string where
  "LabelPoolName = ''swift.kubeswift.io/pool''"

definition LabelPoolIndex :: string where
  "LabelPoolIndex = ''swift.kubeswift.io/pool-index''"

definition AnnotationTemplateHash :: string where
  "AnnotationTemplateHash = ''swift.kubeswift.io/template-hash''"

definition AnnotationReplacementAttempt :: string where
  "AnnotationReplacementAttempt = ''swift.kubeswift.io/replacement-attempt''"

definition UpdateStrategyRollingUpdate :: string where
  "UpdateStrategyRollingUpdate = ''RollingUpdate''"

definition UpdateStrategyRecreate :: string where
  "UpdateStrategyRecreate = ''Recreate''"

lemmas pool_calls = getPool_def listGuests_def deleteGuest_def createGuest_def getClaim_def createClaim_def
  patchClaim_def listNodes_def getService_def createService_def updateService_def deleteService_def
  patchPoolStatus_def

end
