(* ===== verification/Pool_Controller.thy ===== *)
theory Pool_Controller
  imports Pool_Types
begin

text \<open>
  The guest pool controller of \<open>internal/controller/swiftguestpool\<close>: the replicas of a pool by
  index, replacement of failed replicas with back-off, scale down and up, rolling updates
  with surge replicas, per-replica claims, the placement of clones, the load-balanced
  service and the status (\<open>controller.go\<close>, \<open>clone.go\<close>, \<open>pvc.go\<close>, \<open>service.go\<close>).
\<close>

section \<open>Replacement of failed replicas\<close>

definition replacementBackoffBase :: int where
  "replacementBackoffBase = 10 * second"

definition replacementBackoffCap :: int where
  "replacementBackoffCap = 300 * second"

definition replacementBackoffReset :: int where
  "replacementBackoffReset = 600 * second"

fun double_until :: "int \<Rightarrow> nat \<Rightarrow> int \<Rightarrow> int" where
  "double_until cap 0 d = d"
| "double_until cap (Suc n) d = (if d < cap then double_until cap n (2 * d) else d)"

definition replacementBackoff :: "int \<Rightarrow> int" where
  "replacementBackoff att =
     min (double_until replacementBackoffCap (nat (max 0 att)) replacementBackoffBase) replacementBackoffCap"

definition outdated :: "string \<Rightarrow> PoolGuest \<Rightarrow> bool" where
  "outdated hash g \<longleftrightarrow> at (pgAnnotations g) AnnotationTemplateHash \<noteq> hash"

definition attempt_of :: "PoolGuest \<Rightarrow> int" where
  "attempt_of g =
     (case Atoi (at (pgAnnotations g) AnnotationReplacementAttempt) of
        Inl _ \<Rightarrow> 0
      | Inr n \<Rightarrow> if n < 0 then 0 else n)"

definition replacementDelay :: "PoolGuest \<Rightarrow> string \<Rightarrow> int \<Rightarrow> int \<times> int" where
  "replacementDelay g hash now =
     (if outdated hash g then (0, 0)
      else case pgCreated g of
        None \<Rightarrow> (0, 0)
      | Some created \<Rightarrow>
          let age = now - created
          in if replacementBackoffReset \<le> age then (0, 0)
             else let att = attempt_of g; wait = replacementBackoff att - age
                  in if 0 < wait then (wait, int64 (att + 1)) else (0, int64 (att + 1)))"

section \<open>Replicas by index\<close>

type_synonym replicas = "(int \<times> PoolGuest) list"

text \<open>The zero value a lookup of a missing index yields.\<close>

definition no_guest :: PoolGuest where
  "no_guest = \<lparr>pgName = '''', pgLabels = Map.empty, pgAnnotations = Map.empty, pgOwner = None, pgDeleting = False,
     pgCreated = None, pgSpec = \<lparr>gsRunPolicy = '''', gsNetwork = None, gsCloneTargetNode = None, gsTopology = [],
     gsDataDisks = [], gsRest = ''''\<rparr>, pgPhase = '''', pgConditions = []\<rparr>"

definition guest_at :: "replicas \<Rightarrow> int \<Rightarrow> PoolGuest" where
  "guest_at m i = (case map_of m i of None \<Rightarrow> no_guest | Some g \<Rightarrow> g)"

definition index_of :: "string \<Rightarrow> string \<Rightarrow> int option" where
  "index_of pool name =
     (let prefix = pool @ ''-''
      in if \<not> HasPrefix name prefix then None
         else case Atoi (drop (length prefix) name) of Inl _ \<Rightarrow> None | Inr i \<Rightarrow> Some i)"

definition buildIndexMap :: "string \<Rightarrow> PoolGuest list \<Rightarrow> replicas" where
  "buildIndexMap pool gs =
     foldl (\<lambda>m g. case index_of pool (pgName g) of None \<Rightarrow> m | Some i \<Rightarrow> AList.update i g m) [] gs"

definition findMissingIndices :: "replicas \<Rightarrow> int \<Rightarrow> int list" where
  "findMissingIndices m desired = filter (\<lambda>i. map_of m i = None) [0..desired - 1]"

definition findExcessIndices :: "replicas \<Rightarrow> int \<Rightarrow> int list" where
  "findExcessIndices m desired = rev (sort (filter (\<lambda>i. desired \<le> i) (map fst m)))"

definition isControlledBy :: "PoolGuest \<Rightarrow> SwiftGuestPool \<Rightarrow> bool" where
  "isControlledBy g pool \<longleftrightarrow> pgOwner g = Some (spUID pool)"

definition listOwnedGuests :: "penv \<Rightarrow> SwiftGuestPool \<Rightarrow> PoolGuest list pprog" where
  "listOwnedGuests E pool =
     andThen (listGuests E) (\<lambda>gs. ret (filter (\<lambda>g. isControlledBy g pool) gs))"

section \<open>Readiness and rollout parameters\<close>

fun condition_status :: "string \<Rightarrow> Condition list \<Rightarrow> string option" where
  "condition_status ty [] = None"
| "condition_status ty (c # cs) = (if cnType c = ty then Some (cnStatus c) else condition_status ty cs)"

definition guestReady :: "PoolGuest \<Rightarrow> bool" where
  "guestReady g \<longleftrightarrow>
     \<not> pgDeleting g \<and> pgPhase g = ''Running'' \<and> condition_status ''GuestRunning'' (pgConditions g) = Some ''True''"

definition rolloutParams :: "SwiftGuestPool \<Rightarrow> string \<times> int \<times> int" where
  "rolloutParams pool =
     (case spUpdateStrategy pool of
        None \<Rightarrow> (UpdateStrategyRollingUpdate, 1, 0)
      | Some u \<Rightarrow>
          let strategy = (if usType u \<noteq> '''' then usType u else UpdateStrategyRollingUpdate)
          in case usRollingUpdate u of
               None \<Rightarrow> (strategy, 1, 0)
             | Some (maxUnavailable, maxSurge) \<Rightarrow> (strategy, maxUnavailable, maxSurge))"

definition hasOutdatedGuests :: "replicas \<Rightarrow> string \<Rightarrow> bool" where
  "hasOutdatedGuests m hash = list_ex (\<lambda>(_, g). outdated hash g) m"

definition surgeReplicasToKeep :: "SwiftGuestPool \<Rightarrow> replicas \<Rightarrow> string \<Rightarrow> int \<Rightarrow> int list" where
  "surgeReplicasToKeep pool m hash desired =
     (let (strategy, _, maxSurge) = rolloutParams pool;
          outdatedLeft = list_ex (\<lambda>i. case map_of m i of None \<Rightarrow> False | Some g \<Rightarrow> outdated hash g) [0..desired - 1];
          notReady = list_ex (\<lambda>i. case map_of m i of None \<Rightarrow> True | Some g \<Rightarrow> \<not> guestReady g) [0..desired - 1]
      in if strategy \<noteq> UpdateStrategyRollingUpdate \<or> maxSurge = 0 then []
         else filter
           (\<lambda>i. case map_of m i of
                  None \<Rightarrow> False
                | Some g \<Rightarrow> \<not> pgDeleting g \<and> \<not> outdated hash g \<and> (outdatedLeft \<or> (notReady \<and> guestReady g)))
           [desired..desired + maxSurge - 1])"

section \<open>Claims and clone targets\<close>

definition pvcName :: "string \<Rightarrow> string \<Rightarrow> int \<Rightarrow> string" where
  "pvcName template pool index = template @ ''-'' @ pool @ ''-'' @ dec_int index"

definition dropPoolOwnership :: "penv \<Rightarrow> SwiftGuestPool \<Rightarrow> PoolClaim \<Rightarrow> unit pprog" where
  "dropPoolOwnership E pool c =
     (let kept = filter (\<lambda>uid. uid \<noteq> spUID pool) (pcOwners c)
      in if length kept = length (pcOwners c) then ret ()
         else wrapErr (''release PVC '' @ pcName c @ '' from pool ownership: '')
           (patchClaim E c (c\<lparr>pcOwners := kept\<rparr>)))"

definition ensurePVC :: "penv \<Rightarrow> SwiftGuestPool \<Rightarrow> VolumeClaimTemplate \<Rightarrow> int \<Rightarrow> string pprog" where
  "ensurePVC E pool t index =
     (let name = pvcName (vtName t) (spName pool) index;
          claim = \<lparr>pcName = name, pcLabels = (vtLabels t)(LabelPoolName \<mapsto> spName pool), pcOwners = [], pcSpec = vtSpec t\<rparr>
      in whenFound (getClaim E name)
           (andThen (wrapErr (''create PVC '' @ name @ '': '') (createClaim E claim)) (\<lambda>_. ret name))
           raise
           (\<lambda>existing.
              let owner = at (pcLabels existing) LabelPoolName
              in if owner \<noteq> spName pool
                 then raise (Errorf (''PVC '' @ name @ '' already exists but is labelled '' @ LabelPoolName @ ''='' @
                        Quote owner @ '', not '' @ Quote (spName pool) @ '': refusing to attach a claim this pool did '' @
                        ''not create (another pool whose PVC names collide with this one's, or a pre-existing claim)''))
                 else andThen (dropPoolOwnership E pool existing) (\<lambda>_. ret name)))"

fun ensure_claims :: "penv \<Rightarrow> SwiftGuestPool \<Rightarrow> int \<Rightarrow> VolumeClaimTemplate list \<Rightarrow> (string \<times> string option) list pprog" where
  "ensure_claims E pool index [] = ret []"
| "ensure_claims E pool index (t # ts) =
     andThen (ensurePVC E pool t index)
       (\<lambda>n. andThen (ensure_claims E pool index ts) (\<lambda>refs. ret ((vtName t, Some n) # refs)))"

definition isControlPlaneNode :: "PoolNode \<Rightarrow> bool" where
  "isControlPlaneNode n \<longleftrightarrow>
     pnLabels n ''node-role.kubernetes.io/control-plane'' \<noteq> None \<or>
     pnLabels n ''node-role.kubernetes.io/master'' \<noteq> None \<or>
     list_ex (\<lambda>t. t = ''node-role.kubernetes.io/control-plane'' \<or> t = ''node-role.kubernetes.io/master'') (pnTaints n)"

definition nodeIsReady :: "PoolNode \<Rightarrow> bool" where
  "nodeIsReady n \<longleftrightarrow> map_of (pnConditions n) ''Ready'' = Some ''True''"

definition schedulableWorkerNodes :: "penv \<Rightarrow> string list pprog" where
  "schedulableWorkerNodes E =
     andThen (listNodes E)
       (\<lambda>ns. ret (sort (map pnName
          (filter (\<lambda>n. \<not> (pnUnschedulable n \<or> isControlPlaneNode n \<or> \<not> nodeIsReady n)) ns))))"

definition assignCloneTargetNode :: "penv \<Rightarrow> GuestSpec \<Rightarrow> int \<Rightarrow> GuestSpec pprog" where
  "assignCloneTargetNode E spec index =
     (case gsCloneTargetNode spec of
        None \<Rightarrow> ret spec
      | Some _ \<Rightarrow>
          andThen (schedulableWorkerNodes E)
            (\<lambda>nodes. if nodes = []
               then raise (Errorf ''no schedulable worker nodes for cloneFromSnapshot pool replica'')
               else ret (spec\<lparr>gsCloneTargetNode := Some (nodes ! nat (index mod int (length nodes)))\<rparr>)))"

section \<open>Creation of a replica\<close>

definition poolPrimaryBinding :: "SwiftGuestPool \<Rightarrow> string" where
  "poolPrimaryBinding pool =
     (case gsNetwork (spTemplateSpec pool) of
        Some net \<Rightarrow> if gnBinding net = ''bridge'' then ''bridge'' else ''nat''
      | None \<Rightarrow> ''nat'')"

definition poolReplicaPorts :: "GuestPort list \<Rightarrow> GuestPort list" where
  "poolReplicaPorts ports = map (\<lambda>p. p\<lparr>gpExpose := ''''\<rparr>) ports"

definition buildTopologyConstraints :: "SwiftGuestPool \<Rightarrow> TopologySpread list" where
  "buildTopologyConstraints pool =
     (let selector = Some [(LabelPoolName, spName pool)]
      in if spTopology pool \<noteq> []
         then map (\<lambda>t. if tsLabelSelector t = None then t\<lparr>tsLabelSelector := selector\<rparr> else t) (spTopology pool)
         else if spSpreadPolicy pool = ''Spread''
         then [\<lparr>tsMaxSkew = 1, tsTopologyKey = ''kubernetes.io/hostname'', tsWhenUnsatisfiable = ''ScheduleAnyway'',
                tsLabelSelector = selector\<rparr>]
         else [])"

definition replica_name :: "SwiftGuestPool \<Rightarrow> int \<Rightarrow> string" where
  "replica_name pool index = spName pool @ ''-'' @ dec_int index"

text \<open>The spec of the template with the ports of the pool's service.\<close>

definition with_ports :: "SwiftGuestPool \<Rightarrow> GuestSpec" where
  "with_ports pool =
     (let spec = spTemplateSpec pool
      in case spService pool of
           None \<Rightarrow> spec
         | Some svc \<Rightarrow>
             if poolPrimaryBinding pool = ''bridge'' then spec
             else let net = (case gsNetwork spec of None \<Rightarrow> \<lparr>gnBinding = ''nat'', gnPorts = [], gnRest = ''''\<rparr> | Some net \<Rightarrow> net)
                  in spec\<lparr>gsNetwork := Some (net\<lparr>gnPorts := poolReplicaPorts (psPorts svc)\<rparr>)\<rparr>)"

definition replica_annotations :: "SwiftGuestPool \<Rightarrow> string \<Rightarrow> int \<Rightarrow> strmap" where
  "replica_annotations pool hash att =
     (spTemplateAnnotations pool)
       (AnnotationTemplateHash \<mapsto> hash,
        AnnotationReplacementAttempt := (if 0 < att then Some (dec_int att) else None))"

definition new_replica ::
  "SwiftGuestPool \<Rightarrow> int \<Rightarrow> string \<Rightarrow> int \<Rightarrow> (string \<times> string option) list \<Rightarrow> GuestSpec \<Rightarrow> PoolGuest" where
  "new_replica pool index hash att disks spec =
     \<lparr>pgName = replica_name pool index,
      pgLabels = (spTemplateLabels pool)(LabelPoolName \<mapsto> spName pool, LabelPoolIndex \<mapsto> dec_int index),
      pgAnnotations = replica_annotations pool hash att,
      pgOwner = Some (spUID pool), pgDeleting = False, pgCreated = None,
      pgSpec = spec\<lparr>gsTopology := buildTopologyConstraints pool, gsDataDisks := gsDataDisks spec @ disks\<rparr>,
      pgPhase = '''', pgConditions = []\<rparr>"

definition createSwiftGuest :: "penv \<Rightarrow> SwiftGuestPool \<Rightarrow> int \<Rightarrow> string \<Rightarrow> int \<Rightarrow> unit pprog" where
  "createSwiftGuest E pool index hash att =
     andThen (ensure_claims E pool index (spVolumeClaimTemplates pool))
       (\<lambda>disks. andThen
          (wrapErr (''assign clone target node for '' @ replica_name pool index @ '': '')
            (assignCloneTargetNode E (with_ports pool) index))
          (\<lambda>spec. wrapErr (''create SwiftGuest '' @ replica_name pool index @ '': '')
             (createGuest E (new_replica pool index hash att disks spec))))"

section \<open>Passes over the replicas\<close>

text \<open>
  The loop over failed replicas: the remaining replicas, the attempt each new replica carries,
  and how soon a deferred replacement falls due (\<open>0\<close>: none is deferred).
\<close>

definition replaceable :: "int \<Rightarrow> int \<Rightarrow> PoolGuest \<Rightarrow> bool" where
  "replaceable desired i g \<longleftrightarrow>
     i < desired \<and> pgPhase g = ''Failed'' \<and>
     gsRunPolicy (pgSpec g) \<in> {''Running'', ''Always'', ''RestartOnFailure''}"

fun replace_failed ::
  "penv \<Rightarrow> string \<Rightarrow> int \<Rightarrow> int list \<Rightarrow> replicas \<Rightarrow> (int \<times> int) list \<Rightarrow> int \<Rightarrow> (replicas \<times> (int \<times> int) list \<times> int) pprog" where
  "replace_failed E hash desired [] m atts backoff = ret (m, atts, backoff)"
| "replace_failed E hash desired (i # is) m atts backoff =
     (case map_of m i of
        None \<Rightarrow> replace_failed E hash desired is m atts backoff
      | Some g \<Rightarrow>
          if \<not> replaceable desired i g then replace_failed E hash desired is m atts backoff
          else andThen (clock E)
            (\<lambda>now. let (wait, n) = replacementDelay g hash now
               in if 0 < wait
                  then replace_failed E hash desired is m atts (if backoff = 0 \<or> wait < backoff then wait else backoff)
                  else andThen (deleteGuest E g)
                    (\<lambda>_. replace_failed E hash desired is (AList.delete i m) (AList.update i n atts) backoff)))"

fun scale_down :: "penv \<Rightarrow> int list \<Rightarrow> int list \<Rightarrow> replicas \<Rightarrow> bool \<Rightarrow> (replicas \<times> bool) pprog" where
  "scale_down E keep [] m requeue = ret (m, requeue)"
| "scale_down E keep (i # is) m requeue =
     (if i \<in> set keep then scale_down E keep is m True
      else andThen (deleteGuest E (guest_at m i))
        (\<lambda>_. scale_down E keep is (AList.delete i m) requeue))"

fun create_replicas :: "penv \<Rightarrow> SwiftGuestPool \<Rightarrow> string \<Rightarrow> (int \<times> int) list \<Rightarrow> int list \<Rightarrow> unit pprog" where
  "create_replicas E pool hash atts [] = ret ()"
| "create_replicas E pool hash atts (i # is) =
     andThen (createSwiftGuest E pool i hash (case map_of atts i of None \<Rightarrow> 0 | Some n \<Rightarrow> n))
       (\<lambda>_. create_replicas E pool hash atts is)"

fun delete_replicas :: "penv \<Rightarrow> replicas \<Rightarrow> int list \<Rightarrow> unit pprog" where
  "delete_replicas E m [] = ret ()"
| "delete_replicas E m (i # is) =
     andThen (deleteGuest E (guest_at m i)) (\<lambda>_. delete_replicas E m is)"

section \<open>Rolling updates\<close>

definition outdated_indices :: "replicas \<Rightarrow> string \<Rightarrow> int list" where
  "outdated_indices m hash = rev (sort (map fst (filter (\<lambda>(_, g). outdated hash g) m)))"

definition serving :: "replicas \<Rightarrow> replicas" where
  "serving m = filter (\<lambda>(_, g). guestReady g) m"

text \<open>
  The outdated replicas that serve, which the budget bounds; those that do not are deleted on
  the way.
\<close>

fun replace_idle :: "penv \<Rightarrow> replicas \<Rightarrow> int \<Rightarrow> int list \<Rightarrow> int list pprog" where
  "replace_idle E m desired [] = ret []"
| "replace_idle E m desired (i # is) =
     (let g = guest_at m i
      in if desired \<le> i \<or> pgDeleting g then replace_idle E m desired is
         else if guestReady g then andThen (replace_idle E m desired is) (\<lambda>js. ret (i # js))
         else andThen (deleteGuest E g) (\<lambda>_. replace_idle E m desired is))"

definition surge_indices :: "replicas \<Rightarrow> int \<Rightarrow> int \<Rightarrow> nat \<Rightarrow> int list" where
  "surge_indices m desired maxSurge n =
     filter (\<lambda>i. map_of m i = None) [desired..desired + min maxSurge (int n) - 1]"

definition reconcileRollingUpdate :: "penv \<Rightarrow> SwiftGuestPool \<Rightarrow> replicas \<Rightarrow> string \<Rightarrow> int \<Rightarrow> bool pprog" where
  "reconcileRollingUpdate E pool m hash desired =
     (let (strategy, maxUnavailable, maxSurge) = rolloutParams pool;
          old = outdated_indices m hash;
          budget = int (length (serving m)) - (desired - maxUnavailable)
      in if strategy = UpdateStrategyRecreate then andThen (delete_replicas E m old) (\<lambda>_. ret True)
         else if maxUnavailable = 0 \<and> maxSurge = 0 then ret True
         else andThen (replace_idle E m desired old)
           (\<lambda>oldReady. andThen (create_replicas E pool hash [] (surge_indices m desired maxSurge (length oldReady)))
              (\<lambda>_. andThen (delete_replicas E m (take (nat budget) oldReady)) (\<lambda>_. ret True))))"

section \<open>The service of a pool\<close>

record poolServiceResult =
  prName :: string
  prReady :: bool
  prReason :: string
  prMessage :: string

definition noService :: poolServiceResult where
  "noService = \<lparr>prName = '''', prReady = False, prReason = '''', prMessage = ''''\<rparr>"

definition copyAnnotations :: "(string, string) gomap \<Rightarrow> (string, string) gomap" where
  "copyAnnotations m = (if gm_list m = [] then None else Some (gm_list m))"

definition annotationsNeedOverlay :: "(string, string) gomap \<Rightarrow> (string, string) gomap \<Rightarrow> bool" where
  "annotationsNeedOverlay existing wanted =
     list_ex (\<lambda>(k, v). (case gm_get existing k of None \<Rightarrow> '''' | Some x \<Rightarrow> x) \<noteq> v) (gm_list wanted)"

definition overlayAnnotations :: "(string, string) gomap \<Rightarrow> (string, string) gomap \<Rightarrow> (string, string) gomap" where
  "overlayAnnotations existing wanted =
     (if gm_list wanted = [] then existing
      else Some (foldl (\<lambda>m (k, v). AList.update k v m) (gm_list existing) (gm_list wanted)))"

definition poolServicePorts :: "GuestPort list \<Rightarrow> ServicePort list" where
  "poolServicePorts ports =
     map (\<lambda>p. \<lparr>svpName = gpName p, svpPort = gpPort p, svpProtocol = (if gpProtocol p = '''' then ''TCP'' else gpProtocol p),
               svpTargetPort = gpPort p\<rparr>) ports"

text \<open>The fields of a port that the controller compares are those of the model.\<close>

definition poolServicePortsEqual :: "ServicePort list \<Rightarrow> ServicePort list \<Rightarrow> bool" where
  "poolServicePortsEqual a b \<longleftrightarrow> length a = length b \<and> list_all (\<lambda>(x, y). x = y) (zip a b)"

definition poolServiceReadyResult :: "string \<Rightarrow> int \<Rightarrow> poolServiceResult" where
  "poolServiceReadyResult name ready =
     (if 0 < ready
      then \<lparr>prName = name, prReady = True, prReason = ''ReplicasAvailable'',
            prMessage = dec_int ready @ '' replica(s) GuestRunning; endpoints become Ready as each in-guest service answers''\<rparr>
      else \<lparr>prName = name, prReady = False, prReason = ''NoReadyReplicas'',
            prMessage = ''no GuestRunning replicas backing the Service yet''\<rparr>)"

definition deleteOwnedPoolService :: "penv \<Rightarrow> SwiftGuestPool \<Rightarrow> string \<Rightarrow> unit pprog" where
  "deleteOwnedPoolService E pool name =
     whenFound (getService E name) (ret ())
       (\<lambda>e. raise (Errorw (''get Service '' @ Quote name @ '': '') e))
       (\<lambda>existing. if svOwner existing \<noteq> Some (spUID pool) then ret ()
          else wrapErr (''delete Service '' @ Quote name @ '': '') (ignoreNotFound (deleteService E name)))"

definition desired_service :: "SwiftGuestPool \<Rightarrow> PoolServiceSpec \<Rightarrow> string \<Rightarrow> Service" where
  "desired_service pool svc name =
     (let ty = (if psHeadless svc \<or> psType svc = '''' then ''ClusterIP'' else psType svc)
      in \<lparr>svName = name, svOwner = Some (spUID pool),
          svLabels = [(''app.kubernetes.io/name'', ''kubeswift''), (''app.kubernetes.io/component'', ''guestpool''),
            (''app.kubernetes.io/managed-by'', ''kubeswift-controller-manager''), (LabelPoolName, spName pool)],
          svAnnotations = copyAnnotations (psAnnotations svc), svSelector = [(LabelPoolName, spName pool)],
          svPorts = poolServicePorts (psPorts svc), svType = ty,
          svClusterIP = (if psHeadless svc then ''None'' else ''''),
          svLoadBalancerClass = (if \<not> psHeadless svc \<and> ty = ''LoadBalancer'' then psLoadBalancerClass svc else None)\<rparr>)"

definition service_drifted :: "Service \<Rightarrow> Service \<Rightarrow> bool" where
  "service_drifted existing wanted \<longleftrightarrow>
     svType existing \<noteq> svType wanted \<or> set (svSelector existing) \<noteq> set (svSelector wanted) \<or>
     \<not> poolServicePortsEqual (svPorts existing) (svPorts wanted) \<or>
     annotationsNeedOverlay (svAnnotations existing) (svAnnotations wanted)"

definition reconcilePoolService :: "penv \<Rightarrow> SwiftGuestPool \<Rightarrow> int \<Rightarrow> poolServiceResult pprog" where
  "reconcilePoolService E pool ready =
     (let name = spName pool @ ''-svc''
      in case spService pool of
           None \<Rightarrow> andThen (deleteOwnedPoolService E pool name) (\<lambda>_. ret noService)
         | Some svc \<Rightarrow>
             if poolPrimaryBinding pool = ''bridge''
             then andThen (deleteOwnedPoolService E pool name)
               (\<lambda>_. ret (noService\<lparr>prReason := ''BridgeBindingUnsupported'',
                  prMessage := ''spec.service requires a nat-bound template (a bridge primary reaches the NAD IP, '' @
                    ''not the pod IP, so no in-pod DNAT is installed)''\<rparr>))
             else let wanted = desired_service pool svc name
               in whenFound (getService E name)
                    (andThen (attempt (createService E wanted))
                       (\<lambda>r. case r of
                              Inl e \<Rightarrow> if errors_Is e ErrAlreadyExists then ret (poolServiceReadyResult name ready)
                                       else raise (Errorw (''create Service '' @ Quote name @ '': '') e)
                            | Inr _ \<Rightarrow> ret (poolServiceReadyResult name ready)))
                    (\<lambda>e. raise (Errorw (''get Service '' @ Quote name @ '': '') e))
                    (\<lambda>existing.
                       andThen
                         (if service_drifted existing wanted
                          then wrapErr (''update Service '' @ Quote name @ '': '')
                            (updateService E (existing\<lparr>svType := svType wanted, svSelector := svSelector wanted,
                               svPorts := svPorts wanted,
                               svAnnotations := overlayAnnotations (svAnnotations existing) (svAnnotations wanted)\<rparr>))
                          else ret ())
                         (\<lambda>_. ret (poolServiceReadyResult name ready))))"

section \<open>Status\<close>

definition condBool :: "bool \<Rightarrow> string" where
  "condBool b = (if b then ''True'' else ''False'')"

definition availableReason :: "int \<Rightarrow> string" where
  "availableReason ready = (if 0 < ready then ''MinimumReplicasAvailable'' else ''NoReplicasAvailable'')"

definition progressingReason :: "int \<Rightarrow> int \<Rightarrow> int \<Rightarrow> string" where
  "progressingReason tot desired failed =
     (if 0 < failed then ''FailedReplicasExist''
      else if tot < desired then ''NewReplicasCreated''
      else if desired < tot then ''ScalingDown''
      else ''ReplicasUpToDate'')"

definition updatedReason :: "int \<Rightarrow> int \<Rightarrow> string" where
  "updatedReason updated desired = (if updated = desired then ''AllReplicasUpdated'' else ''RollingUpdateInProgress'')"

fun setCondition :: "Condition list \<Rightarrow> Condition \<Rightarrow> Condition list" where
  "setCondition [] c = [c]"
| "setCondition (x # xs) c =
     (if cnType x = cnType c
      then (if cnStatus x \<noteq> cnStatus c \<or> cnReason x \<noteq> cnReason c then c # xs else x # xs)
      else x # setCondition xs c)"

definition count_ready :: "PoolGuest list \<Rightarrow> int" where
  "count_ready gs = int (length (filter (\<lambda>g. pgPhase g = ''Running'' \<and>
     list_ex (\<lambda>c. cnType c = ''GuestRunning'' \<and> cnStatus c = ''True'') (pgConditions g)) gs))"

definition pool_status ::
  "SwiftGuestPool \<Rightarrow> PoolGuest list \<Rightarrow> string \<Rightarrow> poolServiceResult \<Rightarrow> int \<Rightarrow> SwiftGuestPoolStatus" where
  "pool_status pool gs hash svc now =
     (let ready = count_ready gs;
          failed = int (length (filter (\<lambda>g. pgPhase g = ''Failed'') gs));
          updated = int (length (filter (\<lambda>g. \<not> outdated hash g) gs));
          tot = int (length gs);
          desired = spReplicas pool;
          cond = (\<lambda>ty b reason msg. \<lparr>cnType = ty, cnStatus = condBool b, cnReason = reason, cnMessage = msg, cnTransition = now\<rparr>);
          c1 = setCondition (poConditions (spStatus pool))
            (cond ''Available'' (0 < ready) (availableReason ready) (dec_int ready @ ''/'' @ dec_int desired @ '' replicas ready''));
          c2 = setCondition c1
            (cond ''Progressing'' (tot \<noteq> desired \<or> 0 < failed) (progressingReason tot desired failed)
              (''replicas='' @ dec_int tot @ '' desired='' @ dec_int desired @ '' failed='' @ dec_int failed));
          c3 = setCondition c2
            (cond ''Updated'' (updated = desired \<and> tot = desired) (updatedReason updated desired)
              (dec_int updated @ ''/'' @ dec_int desired @ '' replicas updated''));
          c4 = (if spService pool = None then c3
                else setCondition c3 (cond ''ServiceReady'' (prReady svc) (prReason svc) (prMessage svc)))
      in \<lparr>poReplicas = tot, poReadyReplicas = ready, poAvailableReplicas = ready, poFailedReplicas = failed,
          poUpdatedReplicas = updated, poCurrentTemplateHash = hash, poServiceRef = prName svc, poConditions = c4\<rparr>)"

definition updateStatus :: "penv \<Rightarrow> SwiftGuestPool \<Rightarrow> PoolGuest list \<Rightarrow> string \<Rightarrow> unit pprog" where
  "updateStatus E pool gs hash =
     andThen (reconcilePoolService E pool (count_ready gs))
       (\<lambda>svc. andThen (clock E) (\<lambda>now. patchPoolStatus E (pool_status pool gs hash svc now)))"

section \<open>A pass\<close>

definition rollout_step :: "penv \<Rightarrow> SwiftGuestPool \<Rightarrow> replicas \<Rightarrow> string \<Rightarrow> bool pprog" where
  "rollout_step E pool m hash =
     (if hasOutdatedGuests m hash then reconcileRollingUpdate E pool m hash (spReplicas pool) else ret False)"

definition reconcile_replicas :: "penv \<Rightarrow> SwiftGuestPool \<Rightarrow> replicas \<Rightarrow> string \<Rightarrow> (int \<times> bool) pprog" where
  "reconcile_replicas E pool m hash =
     (let desired = spReplicas pool
      in andThen (rangeKeys E m)
           (\<lambda>keys. andThen (replace_failed E hash desired keys m [] 0)
             (\<lambda>(m1, atts, backoff). andThen
                (scale_down E (surgeReplicasToKeep pool m1 hash desired) (findExcessIndices m1 desired) m1 False)
                (\<lambda>(m2, requeue). andThen (create_replicas E pool hash atts (findMissingIndices m2 desired))
                   (\<lambda>_. andThen (rollout_step E pool m2 hash) (\<lambda>more. ret (backoff, requeue \<or> more)))))))"

definition Reconcile :: "penv \<Rightarrow> ctrlResult pprog" where
  "Reconcile E =
     whenFound (getPool E) (ret noRequeue) raise
       (\<lambda>pool. if spDeleting pool then ret noRequeue
          else andThen (listOwnedGuests E pool)
            (\<lambda>owned. let hash = pHash E (spTemplateSpec pool)
               in andThen (reconcile_replicas E pool (buildIndexMap (spName pool) owned) hash)
                 (\<lambda>(backoff, requeue). andThen (listOwnedGuests E pool)
                    (\<lambda>owned'. andThen (updateStatus E pool owned' hash)
                       (\<lambda>_. ret (requeueAfter
                          (if requeue \<and> (backoff = 0 \<or> 10 * second < backoff) then 10 * second else backoff)))))))"

end
