(* ===== verification/Pool_Replicas.thy ===== *)
theory Pool_Replicas
  imports Pool_Controller
begin

text \<open>
  Facts about the replicas of a pool: names and indices correspond, the index map has one entry
  per index, and what each loop of a pass deletes and creates. \<open>deletes h\<close> lists the guests that
  the deletions of a history name, accepted or not.
\<close>

section \<open>Names and indices\<close>

lemma digit_not_sign: "is_digit c \<Longrightarrow> c \<noteq> CHR ''-'' \<and> c \<noteq> CHR ''+''"
  by (auto simp: is_digit_def)

lemma dec_hd: "hd (dec n) \<noteq> CHR ''-''" "hd (dec n) \<noteq> CHR ''+''"
  using dec_digits [of n] by (cases "dec n"; auto dest: digit_not_sign)+

lemma Atoi_dec_int: "- (2 ^ 63) \<le> i \<Longrightarrow> i < 2 ^ 63 \<Longrightarrow> Atoi (dec_int i) = Inr i"
  by (auto simp: Atoi_def dec_int_def dec_digits dec_hd Let_def)

lemma index_of_replica_name:
  "- (2 ^ 63) \<le> i \<Longrightarrow> i < 2 ^ 63 \<Longrightarrow> index_of (spName pool) (replica_name pool i) = Some i"
  by (simp add: index_of_def replica_name_def HasPrefix_def Atoi_dec_int)

section \<open>The index map\<close>

definition wf_replicas :: "string \<Rightarrow> replicas \<Rightarrow> bool" where
  "wf_replicas pool m \<longleftrightarrow> distinct (map fst m) \<and> list_all (\<lambda>(i, g). index_of pool (pgName g) = Some i) m"

lemma set_update_subset: "set (AList.update i g m) \<subseteq> insert (i, g) (set m)"
  by (induction m) auto

lemma wf_update:
  "wf_replicas pool m \<Longrightarrow> index_of pool (pgName g) = Some i \<Longrightarrow> wf_replicas pool (AList.update i g m)"
  using set_update_subset [of i g m] by (auto simp: wf_replicas_def distinct_update list_all_iff)

lemma wf_fold_update:
  assumes "wf_replicas pool m"
  shows "wf_replicas pool
    (foldl (\<lambda>m g. case index_of pool (pgName g) of None \<Rightarrow> m | Some i \<Rightarrow> AList.update i g m) m gs)"
  using assms by (induction gs arbitrary: m) (auto simp: wf_update split: option.split)

lemma wf_buildIndexMap: "wf_replicas pool (buildIndexMap pool gs)"
  unfolding buildIndexMap_def by (rule wf_fold_update) (simp add: wf_replicas_def)

lemma wf_map_of: "wf_replicas pool m \<Longrightarrow> (i, g) \<in> set m \<longleftrightarrow> map_of m i = Some g"
  by (simp add: wf_replicas_def)

lemma guest_at_eq: "wf_replicas pool m \<Longrightarrow> (i, g) \<in> set m \<Longrightarrow> guest_at m i = g"
  by (simp add: guest_at_def wf_map_of)

lemma guest_at_mem: "i \<in> fst ` set m \<Longrightarrow> (i, guest_at m i) \<in> set m"
  by (auto simp: guest_at_def weak_map_of_SomeI map_of_eq_None_iff rev_image_eqI dest: map_of_SomeD split: option.split)

text \<open>The name of a replica determines its entry.\<close>

lemma wf_name_inj:
  "wf_replicas pool m \<Longrightarrow> (i, g) \<in> set m \<Longrightarrow> (j, g') \<in> set m \<Longrightarrow> pgName g = pgName g' \<Longrightarrow> i = j \<and> g = g'"
  unfolding wf_replicas_def list_all_iff by (metis (mono_tags, lifting) case_prodD eq_key_imp_eq_value option.inject)

lemma wf_filter: "wf_replicas pool m \<Longrightarrow> wf_replicas pool (filter P m)"
  by (auto simp: wf_replicas_def list_all_iff distinct_map_filter)

lemma wf_delete: "wf_replicas pool m \<Longrightarrow> wf_replicas pool (AList.delete i m)"
  by (simp add: AList.delete_eq wf_filter)

lemma serving_filter: "serving (filter P m) = filter P (serving m)"
  by (simp add: serving_def conj_commute)

lemma serving_delete_idle:
  assumes "wf_replicas pool m" and "map_of m i = Some g" and "\<not> guestReady g"
  shows "serving (AList.delete i m) = serving m"
proof -
  have "k \<noteq> i" if "(k, g') \<in> set m" and "guestReady g'" for k g'
    using that assms wf_map_of [OF assms(1)] by auto
  then show ?thesis by (auto simp: serving_def AList.delete_eq intro!: filter_cong)
qed

lemma set_outdated_indices: "set (outdated_indices m hash) = {i. \<exists>g. (i, g) \<in> set m \<and> outdated hash g}"
  by (force simp: outdated_indices_def)

lemma set_findExcessIndices: "set (findExcessIndices m d) = {i \<in> fst ` set m. d \<le> i}"
  by (auto simp: findExcessIndices_def)

lemma distinct_findExcessIndices: "wf_replicas pool m \<Longrightarrow> distinct (findExcessIndices m d)"
  by (simp add: findExcessIndices_def wf_replicas_def)

section \<open>Deletions\<close>

fun deleted_name :: "pevent \<Rightarrow> string list" where
  "deleted_name (DeleteGuest n _) = [n]"
| "deleted_name _ = []"

definition deletes :: "pevent list \<Rightarrow> string list" where
  "deletes h = concat (map deleted_name h)"

lemma deletes_append [simp]: "deletes (h @ h') = deletes h @ deletes h'"
  by (simp add: deletes_def)

lemma deletes_Nil [simp]: "deletes [] = []"
  by (simp add: deletes_def)

lemma deletes_one [simp]: "deletes [e] = deleted_name e"
  by (simp add: deletes_def)

text \<open>
  \<open>after m Q h\<close>: started with \<open>h\<close>, the program ends, and \<open>Q\<close> holds of its result and the guests
  it deleted.
\<close>

definition after :: "'a pprog \<Rightarrow> ('a res \<Rightarrow> string list \<Rightarrow> bool) \<Rightarrow> pevent list \<Rightarrow> bool" where
  "after m Q h \<longleftrightarrow> (\<exists>r new. m h = Some (r, h @ new) \<and> Q r (deletes new))"

named_theorems after_rules \<open>which guests a program deletes\<close>

lemma after_mono: "after m P h \<Longrightarrow> (\<And>r ns. P r ns \<Longrightarrow> Q r ns) \<Longrightarrow> after m Q h"
  unfolding after_def by blast

lemma after_ret: "Q (Inr x) [] \<Longrightarrow> after (ret x) Q h"
  by (force simp: after_def ret_def)

lemma after_raise: "Q (Inl e) [] \<Longrightarrow> after (raise e) Q h"
  by (force simp: after_def raise_def)

lemma after_andThen:
  assumes "after m (\<lambda>r ns. case r of Inl e \<Rightarrow> Q (Inl e) ns | Inr x \<Rightarrow> (\<forall>h. after (k x) (\<lambda>r ns'. Q r (ns @ ns')) h)) h"
  shows "after (andThen m k) Q h"
proof -
  obtain r new where m: "m h = Some (r, h @ new)"
    and q: "case r of Inl e \<Rightarrow> Q (Inl e) (deletes new) | Inr x \<Rightarrow> (\<forall>h. after (k x) (\<lambda>r ns'. Q r (deletes new @ ns')) h)"
    using assms by (auto simp: after_def)
  show ?thesis
  proof (cases r)
    case (Inl e)
    then show ?thesis using m q by (auto simp: after_def andThen_def)
  next
    case (Inr x)
    with q have "after (k x) (\<lambda>r ns'. Q r (deletes new @ ns')) (h @ new)" by simp
    then obtain r' new' where "k x (h @ new) = Some (r', (h @ new) @ new')" "Q r' (deletes new @ deletes new')"
      by (auto simp: after_def)
    then show ?thesis using m Inr by (auto simp: after_def andThen_def intro!: exI [of _ "new @ new'"])
  qed
qed

lemma after_deleteGuest: "(\<And>r. Q r [pgName g]) \<Longrightarrow> after (deleteGuest E g) Q h"
  by (auto simp: after_def deleteGuest_def acknowledge_def split: option.split)

lemma after_clock: "(\<And>now. Q (Inr now) []) \<Longrightarrow> after (clock E) Q h"
  by (force simp: after_def clock_def)

lemma after_rangeKeys: "(\<And>ks. Q (Inr ks) []) \<Longrightarrow> after (rangeKeys E m) Q h"
  by (force simp: after_def rangeKeys_def)

text \<open>Programs that delete no guest.\<close>

definition quiet :: "'a pprog \<Rightarrow> bool" where
  "quiet m \<longleftrightarrow> emits_via id (\<lambda>_ e. deleted_name e = []) m"

lemma after_quiet:
  assumes "quiet m" and "\<And>r. Q r []"
  shows "after m Q h"
proof -
  obtain r h' where m: "m h = Some (r, h')" and g: "grows (\<lambda>_ e. deleted_name e = []) h h'"
    using emits_via_total [OF assms(1) [unfolded quiet_def], of h] by auto
  then obtain new where new: "h' = h @ new" "\<forall>pre e post. new = pre @ e # post \<longrightarrow> deleted_name e = []"
    by (auto simp: grows_iff)
  then have "deletes new = []" by (auto simp: deletes_def dest!: split_list)
  with m new assms(2) show ?thesis by (auto simp: after_def)
qed

lemma quiet_answer: "(\<And>r. deleted_name (ev r) = []) \<Longrightarrow> quiet (answer ev f)"
  by (auto simp: quiet_def emits_via_def wp_def answer_def intro: grows_one)

lemma quiet_acknowledge: "(\<And>r. deleted_name (ev r) = []) \<Longrightarrow> quiet (acknowledge ev f)"
  by (auto simp: quiet_def emits_via_def wp_def acknowledge_def intro: grows_one)

named_theorems quiet_rules \<open>programs that delete no guest\<close>

lemma quiet_combinators [quiet_rules]:
  "quiet (ret x)" "quiet (raise e)"
  "quiet m \<Longrightarrow> (\<And>x. quiet (k x)) \<Longrightarrow> quiet (andThen m k)"
  "quiet m \<Longrightarrow> quiet (attempt m)"
  "quiet m \<Longrightarrow> quiet (wrapErr s m)"
  "quiet m \<Longrightarrow> quiet n \<Longrightarrow> quiet (if b then m else n)"
  "quiet m \<Longrightarrow> (\<And>x. quiet (l x)) \<Longrightarrow> quiet (case y of None \<Rightarrow> m | Some x \<Rightarrow> l x)"
  "(\<And>e. quiet (f e)) \<Longrightarrow> (\<And>x. quiet (k x)) \<Longrightarrow> quiet (case z of Inl e \<Rightarrow> f e | Inr x \<Rightarrow> k x)"
  by (auto simp: quiet_def intro: emits_rules split: option.split sum.split)

lemma quiet_whenFound [quiet_rules]:
  "quiet m \<Longrightarrow> quiet absent \<Longrightarrow> (\<And>e. quiet (failed e)) \<Longrightarrow> (\<And>x. quiet (found x)) \<Longrightarrow>
   quiet (whenFound m absent failed found)"
  unfolding whenFound_def by (intro quiet_rules)

lemma quiet_ignoreNotFound [quiet_rules]: "quiet m \<Longrightarrow> quiet (ignoreNotFound m)"
  unfolding ignoreNotFound_def by (intro quiet_rules)

lemma quiet_calls [quiet_rules]:
  "quiet (getPool E)" "quiet (listGuests E)" "quiet (createGuest E g)" "quiet (getClaim E n)" "quiet (createClaim E c)"
  "quiet (patchClaim E c c')" "quiet (listNodes E)" "quiet (getService E n)" "quiet (createService E s)"
  "quiet (updateService E s)" "quiet (deleteService E n)" "quiet (patchPoolStatus E st)"
  by (simp_all add: pool_calls quiet_answer quiet_acknowledge)

lemma quiet_clock [quiet_rules]: "quiet (clock E)"
  by (simp add: quiet_def emits_via_def wp_def clock_def grows.same)

lemma quiet_ensurePVC [quiet_rules]: "quiet (ensurePVC E pool t i)"
  unfolding ensurePVC_def dropPoolOwnership_def Let_def by (intro quiet_rules)

lemma quiet_ensure_claims [quiet_rules]: "quiet (ensure_claims E pool i ts)"
  by (induction ts) (auto intro!: quiet_rules)

lemma quiet_createSwiftGuest [quiet_rules]: "quiet (createSwiftGuest E pool i hash n)"
  unfolding createSwiftGuest_def assignCloneTargetNode_def schedulableWorkerNodes_def by (intro quiet_rules)

lemma quiet_create_replicas [quiet_rules]: "quiet (create_replicas E pool hash atts ks)"
  by (induction ks) (auto intro!: quiet_rules)

lemma quiet_listOwnedGuests [quiet_rules]: "quiet (listOwnedGuests E pool)"
  unfolding listOwnedGuests_def by (intro quiet_rules)

lemma quiet_updateStatus [quiet_rules]: "quiet (updateStatus E pool gs hash)"
  unfolding updateStatus_def reconcilePoolService_def deleteOwnedPoolService_def Let_def by (intro quiet_rules)

section \<open>What each loop deletes\<close>

definition names_where :: "replicas \<Rightarrow> (int \<Rightarrow> PoolGuest \<Rightarrow> bool) \<Rightarrow> string set" where
  "names_where m P = {pgName g | i g. (i, g) \<in> set m \<and> P i g}"

lemma names_whereI: "(i, g) \<in> set m \<Longrightarrow> P i g \<Longrightarrow> pgName g \<in> names_where m P"
  by (auto simp: names_where_def)

lemma names_where_mono:
  "set m \<subseteq> set m' \<Longrightarrow> (\<And>i g. (i, g) \<in> set m \<Longrightarrow> P i g \<Longrightarrow> Q i g) \<Longrightarrow> names_where m P \<subseteq> names_where m' Q"
  unfolding names_where_def by blast

text \<open>Replacing failed replicas deletes none that serves and keeps every one that does.\<close>

definition idle_replaced :: "string \<Rightarrow> replicas \<Rightarrow> (replicas \<times> (int \<times> int) list \<times> int) res \<Rightarrow> string list \<Rightarrow> bool" where
  "idle_replaced pool m r ns \<longleftrightarrow>
     set ns \<subseteq> names_where m (\<lambda>_ g. \<not> guestReady g) \<and>
     (\<forall>m' a b. r = Inr (m', a, b) \<longrightarrow> wf_replicas pool m' \<and> set m' \<subseteq> set m \<and> serving m' = serving m)"

lemma idle_replaced_cons:
  assumes "wf_replicas pool m" and "map_of m i = Some g" and "\<not> guestReady g"
    and "idle_replaced pool (AList.delete i m) r ns"
  shows "idle_replaced pool m r (pgName g # ns)"
proof -
  have sub: "set (AList.delete i m) \<subseteq> set m" by (auto simp: AList.delete_eq)
  have "pgName g \<in> names_where m (\<lambda>_ g. \<not> guestReady g)"
    using assms(2,3) by (intro names_whereI [OF map_of_SomeD]) auto
  moreover have "set ns \<subseteq> names_where m (\<lambda>_ g. \<not> guestReady g)"
    using assms(4) names_where_mono [OF sub] unfolding idle_replaced_def by blast
  ultimately show ?thesis
    using assms(4) sub serving_delete_idle [OF assms(1-3)] unfolding idle_replaced_def by (simp, blast)
qed

lemma replace_failed_after:
  assumes "wf_replicas pool m"
  shows "after (replace_failed E hash desired ks m atts b) (idle_replaced pool m) h"
  using assms
proof (induction ks arbitrary: m atts b h)
  case Nil
  then show ?case by (auto intro: after_ret simp: idle_replaced_def)
next
  case (Cons i ks)
  show ?case
  proof (cases "map_of m i")
    case None
    then show ?thesis using Cons by simp
  next
    case (Some g)
    have del: "after (andThen (deleteGuest E g) (\<lambda>_. replace_failed E hash desired ks (AList.delete i m) a b)) (idle_replaced pool m) h'"
      if "replaceable desired i g" for a b h'
    proof -
      have idle: "\<not> guestReady g" using that by (simp add: replaceable_def guestReady_def)
      have none: "idle_replaced pool m (Inl e) [pgName g]" for e
        using idle Some by (auto simp: idle_replaced_def intro!: names_whereI [OF map_of_SomeD])
      show ?thesis
        by (rule after_andThen, rule after_deleteGuest)
          (auto simp: none intro!: after_mono [OF Cons.IH [OF wf_delete [OF Cons.prems]]]
            idle_replaced_cons [OF Cons.prems Some idle] split: sum.split)
    qed
    have clk: "after (andThen (clock E) k) (idle_replaced pool m) h'" if "\<And>now h. after (k now) (idle_replaced pool m) h" for k h'
      by (rule after_andThen, rule after_clock) (simp, rule allI, rule that)
    show ?thesis
      by (auto simp: Some Cons.IH [OF Cons.prems] del split: prod.split intro!: clk)
  qed
qed

text \<open>Scaling down deletes the given indices that are not kept.\<close>

definition scaled_down :: "int list \<Rightarrow> int list \<Rightarrow> replicas \<Rightarrow> (replicas \<times> bool) res \<Rightarrow> string list \<Rightarrow> bool" where
  "scaled_down keep ks m r ns \<longleftrightarrow>
     set ns \<subseteq> names_where m (\<lambda>i _. i \<in> set ks \<and> i \<notin> set keep) \<and>
     (\<forall>m' b. r = Inr (m', b) \<longrightarrow> m' = filter (\<lambda>(i, _). i \<notin> set ks \<or> i \<in> set keep) m)"

lemma scaled_down_kept:
  assumes "scaled_down keep ks m r ns" and "i \<in> set keep"
  shows "scaled_down keep (i # ks) m r ns"
proof -
  have "filter (\<lambda>(j, _). j \<notin> set (i # ks) \<or> j \<in> set keep) m = filter (\<lambda>(j, _). j \<notin> set ks \<or> j \<in> set keep) m"
    using assms(2) by (intro filter_cong) auto
  moreover have "names_where m (\<lambda>j _. j \<in> set ks \<and> j \<notin> set keep) \<subseteq> names_where m (\<lambda>j _. j \<in> set (i # ks) \<and> j \<notin> set keep)"
    by (rule names_where_mono) auto
  ultimately show ?thesis using assms(1) unfolding scaled_down_def by auto
qed

lemma scaled_down_cons:
  assumes "scaled_down keep ks (AList.delete i m) r ns" and "(i, g) \<in> set m" and "i \<notin> set keep"
  shows "scaled_down keep (i # ks) m r (pgName g # ns)"
proof -
  have "names_where (AList.delete i m) (\<lambda>j _. j \<in> set ks \<and> j \<notin> set keep) \<subseteq> names_where m (\<lambda>j _. j \<in> set (i # ks) \<and> j \<notin> set keep)"
    by (rule names_where_mono) (auto simp: AList.delete_eq)
  moreover have "pgName g \<in> names_where m (\<lambda>j _. j \<in> set (i # ks) \<and> j \<notin> set keep)"
    using assms(2,3) by (intro names_whereI) auto
  moreover have "filter (\<lambda>(j, _). j \<notin> set ks \<or> j \<in> set keep) (AList.delete i m) =
      filter (\<lambda>(j, _). j \<notin> set (i # ks) \<or> j \<in> set keep) m"
    using assms(3) by (auto simp: AList.delete_eq intro!: filter_cong)
  ultimately show ?thesis using assms(1) unfolding scaled_down_def by auto
qed

lemma scale_down_after:
  assumes "set ks \<subseteq> fst ` set m" and "distinct ks"
  shows "after (scale_down E keep ks m b) (scaled_down keep ks m) h"
  using assms
proof (induction ks arbitrary: m b h)
  case Nil
  then show ?case by (auto intro!: after_ret simp: scaled_down_def filter_id_conv)
next
  case (Cons i ks)
  show ?case
  proof (cases "i \<in> set keep")
    case True
    then show ?thesis using Cons.prems
      by (auto intro!: after_mono [OF Cons.IH] scaled_down_kept)
  next
    case False
    have g: "(i, guest_at m i) \<in> set m" using Cons.prems(1) by (simp add: guest_at_mem)
    have "set ks \<subseteq> fst ` set (AList.delete i m)" using Cons.prems by (force simp: AList.delete_eq)
    then have step: "after (scale_down E keep ks (AList.delete i m) b) (scaled_down keep ks (AList.delete i m)) h'" for h'
      using Cons.IH Cons.prems(2) by simp
    have none: "scaled_down keep (i # ks) m (Inl e) [pgName (guest_at m i)]" for e
      using g False by (auto simp: scaled_down_def intro!: names_whereI)
    show ?thesis
      by (simp add: False, rule after_andThen, rule after_deleteGuest)
        (auto simp: none intro!: after_mono [OF step] scaled_down_cons [OF _ g False] split: sum.split)
  qed
qed

lemma delete_replicas_after:
  "after (delete_replicas E m ks) (\<lambda>_ ns. set ns \<subseteq> (\<lambda>i. pgName (guest_at m i)) ` set ks) h"
proof (induction ks arbitrary: h)
  case Nil
  then show ?case by (auto intro: after_ret)
next
  case (Cons i ks)
  show ?case
    by (auto intro!: after_andThen after_deleteGuest after_mono [OF Cons.IH] split: sum.split)
qed

lemma replace_idle_after:
  "after (replace_idle E m desired ks)
    (\<lambda>r ns. set ns \<subseteq> (\<lambda>i. pgName (guest_at m i)) ` {i \<in> set ks. \<not> guestReady (guest_at m i)} \<and>
       (\<forall>js. r = Inr js \<longrightarrow> js = filter (\<lambda>i. i < desired \<and> \<not> pgDeleting (guest_at m i) \<and> guestReady (guest_at m i)) ks)) h"
proof (induction ks arbitrary: h)
  case Nil
  then show ?case by (auto intro: after_ret)
next
  case (Cons i ks)
  show ?case
    by (auto simp: Let_def intro!: after_andThen after_deleteGuest after_mono [OF Cons.IH] after_ret split: sum.split) blast+
qed

section \<open>An example\<close>

text \<open>
  A pool of one replica that must keep it serving and may surge by one, a guest of it by index,
  template and state, and a server that answers with them and accepts every write.
\<close>

definition example_pool :: SwiftGuestPool where
  "example_pool =
     \<lparr>spName = ''p'', spUID = ''u'', spDeleting = False, spReplicas = 1, spTemplateLabels = Map.empty,
      spTemplateAnnotations = Map.empty,
      spTemplateSpec = \<lparr>gsRunPolicy = ''Running'', gsNetwork = None, gsCloneTargetNode = None, gsTopology = [],
        gsDataDisks = [], gsRest = []\<rparr>,
      spUpdateStrategy = Some \<lparr>usType = ''RollingUpdate'', usRollingUpdate = Some (0, 1)\<rparr>, spSpreadPolicy = [],
      spTopology = [], spVolumeClaimTemplates = [], spService = None,
      spStatus = \<lparr>poReplicas = 0, poReadyReplicas = 0, poAvailableReplicas = 0, poFailedReplicas = 0,
        poUpdatedReplicas = 0, poCurrentTemplateHash = [], poServiceRef = [], poConditions = []\<rparr>\<rparr>"

definition example_guest :: "int \<Rightarrow> string \<Rightarrow> string \<Rightarrow> PoolGuest" where
  "example_guest i hash phase =
     \<lparr>pgName = replica_name example_pool i, pgLabels = Map.empty, pgAnnotations = [AnnotationTemplateHash \<mapsto> hash],
      pgOwner = Some ''u'', pgDeleting = False, pgCreated = Some 0, pgSpec = spTemplateSpec example_pool, pgPhase = phase,
      pgConditions = [\<lparr>cnType = ''GuestRunning'', cnStatus = (if phase = ''Running'' then ''True'' else ''False''),
        cnReason = ''r'', cnMessage = [], cnTransition = 0\<rparr>]\<rparr>"

definition not_found :: goerr where
  "not_found = GoErr ''not found'' [ErrNotFound]"

definition example_env :: "PoolGuest list \<Rightarrow> penv" where
  "example_env gs =
     \<lparr>pGetPool = \<lambda>_. Inr example_pool, pListGuests = \<lambda>_. Inr gs, pGetClaim = \<lambda>_ _. Inl not_found,
      pListNodes = \<lambda>_. Inr [], pGetService = \<lambda>_ _. Inl not_found, pWrite = \<lambda>_. None,
      pOrder = \<lambda>_ ks. ks, pClock = \<lambda>_. 60 * second, pHash = \<lambda>_. ''v2''\<rparr>"

fun status_written :: "pevent \<Rightarrow> bool" where
  "status_written (PatchPoolStatus _ _) = True"
| "status_written _ = False"

lemma in_deletes_split:
  assumes "n \<in> set (deletes h)"
  obtains pre a post where "h = pre @ DeleteGuest n a # post"
proof -
  obtain e where e: "e \<in> set h" "n \<in> set (deleted_name e)" using assms by (auto simp: deletes_def)
  obtain a where "e = DeleteGuest n a" using e(2) by (cases e) auto
  with e(1) that show thesis by (metis split_list)
qed

end
