(* ===== verification/Pool_Writes.thy ===== *)
theory Pool_Writes
  imports Pool_Replicas
begin

text \<open>
  The writes of a pass of the pool controller as a specification. \<open>pool_write\<close> says which
  deletions and creations a pass may make from what it read, and every pass in every
  environment stays within it.
\<close>

section \<open>Well-formed status\<close>

text \<open>
  What the API server demands of the conditions of a status, and the relations between the
  counts: one condition per type, each with a declared status and a reason.
\<close>

definition wf_conditions :: "Condition list \<Rightarrow> bool" where
  "wf_conditions cs \<longleftrightarrow>
     distinct (map cnType cs) \<and>
     list_all (\<lambda>c. cnStatus c \<in> {''True'', ''False'', ''Unknown''} \<and> cnReason c \<noteq> []) cs"

definition wf_pool_status :: "SwiftGuestPoolStatus \<Rightarrow> bool" where
  "wf_pool_status st \<longleftrightarrow>
     wf_conditions (poConditions st) \<and>
     {''Available'', ''Progressing'', ''Updated''} \<subseteq> cnType ` set (poConditions st) \<and>
     0 \<le> poReadyReplicas st \<and> 0 \<le> poFailedReplicas st \<and> poAvailableReplicas st = poReadyReplicas st \<and>
     poReadyReplicas st + poFailedReplicas st \<le> poReplicas st \<and>
     0 \<le> poUpdatedReplicas st \<and> poUpdatedReplicas st \<le> poReplicas st"

lemma types_setCondition: "cnType ` set (setCondition cs c) = insert (cnType c) (cnType ` set cs)"
  by (induction cs) auto

lemma wf_setCondition:
  "wf_conditions cs \<Longrightarrow> cnStatus c \<in> {''True'', ''False'', ''Unknown''} \<Longrightarrow> cnReason c \<noteq> [] \<Longrightarrow> wf_conditions (setCondition cs c)"
proof (induction cs)
  case (Cons x cs)
  then show ?case using types_setCondition [of cs c] by (auto simp: wf_conditions_def)
qed (simp add: wf_conditions_def)

lemma length_disjoint_filters:
  "(\<And>x. \<not> (P x \<and> Q x)) \<Longrightarrow> length (filter P xs) + length (filter Q xs) \<le> length xs"
  by (induction xs) auto

lemma wf_pool_status_written:
  assumes "wf_conditions (poConditions (spStatus pool))" and "spService pool \<noteq> None \<longrightarrow> prReason svc \<noteq> []"
  shows "wf_pool_status (pool_status pool gs hash svc now)"
proof -
  let ?st = "pool_status pool gs hash svc now"
  have c: "wf_conditions (setCondition cs \<lparr>cnType = ty, cnStatus = condBool b, cnReason = rs, cnMessage = msg, cnTransition = t\<rparr>)"
    if "wf_conditions cs" "rs \<noteq> []" for cs ty b rs msg t
    using that by (intro wf_setCondition) (simp_all add: condBool_def)
  have r: "availableReason n \<noteq> []" "progressingReason n n' n'' \<noteq> []" "updatedReason n n' \<noteq> []" for n n' n''
    by (simp_all add: availableReason_def progressingReason_def updatedReason_def)
  have "wf_conditions (poConditions ?st)"
    using assms by (cases "spService pool") (simp_all add: pool_status_def Let_def c r)
  moreover have "{''Available'', ''Progressing'', ''Updated''} \<subseteq> cnType ` set (poConditions ?st)"
    by (simp add: pool_status_def Let_def types_setCondition)
  moreover have "poReadyReplicas ?st + poFailedReplicas ?st \<le> poReplicas ?st"
    using length_disjoint_filters [of "\<lambda>g. pgPhase g = ''Running'' \<and>
        list_ex (\<lambda>c. cnType c = ''GuestRunning'' \<and> cnStatus c = ''True'') (pgConditions g)" "\<lambda>g. pgPhase g = ''Failed''" gs]
    by (simp add: pool_status_def Let_def count_ready_def)
  moreover have "0 \<le> poReadyReplicas ?st" "0 \<le> poFailedReplicas ?st" "poAvailableReplicas ?st = poReadyReplicas ?st"
    "0 \<le> poUpdatedReplicas ?st" "poUpdatedReplicas ?st \<le> poReplicas ?st"
    by (simp_all add: pool_status_def Let_def count_ready_def)
  ultimately show ?thesis unfolding wf_pool_status_def by blast
qed

section \<open>Permitted writes\<close>

text \<open>
  \<open>pool_write E pool m h e\<close>: after the history \<open>h\<close> of a pass that found the replicas \<open>m\<close>, the event \<open>e\<close> may
  follow. A replica is deleted because it is above the desired range, because its template is
  not the current one, or because it failed and its back-off has run out. A replica is created
  from the current template, within the desired range and the surge above it, at an index that
  was free or whose replica the pass has deleted.
\<close>

fun plain :: "pevent \<Rightarrow> bool" where
  "plain (DeleteGuest _ _) = False"
| "plain (CreateGuest _ _) = False"
| "plain (CreateClaim _ _) = False"
| "plain (PatchClaim _ _ _) = False"
| "plain (PatchPoolStatus _ _) = False"
| "plain _ = True"

inductive pool_write :: "penv \<Rightarrow> SwiftGuestPool \<Rightarrow> replicas \<Rightarrow> pevent list \<Rightarrow> pevent \<Rightarrow> bool"
  for E pool m where
  other: "plain e \<Longrightarrow> pool_write E pool m h e"
| excess: "(i, g) \<in> set m \<Longrightarrow> spReplicas pool \<le> i \<Longrightarrow> pool_write E pool m h (DeleteGuest (pgName g) a)"
| replaced: "(i, g) \<in> set m \<Longrightarrow> outdated (pHash E (spTemplateSpec pool)) g \<Longrightarrow>
    pool_write E pool m h (DeleteGuest (pgName g) a)"
| failed: "(i, g) \<in> set m \<Longrightarrow> replaceable (spReplicas pool) i g \<Longrightarrow>
    fst (replacementDelay g (pHash E (spTemplateSpec pool)) (pClock E h)) \<le> 0 \<Longrightarrow>
    pool_write E pool m h (DeleteGuest (pgName g) a)"
| created: "0 \<le> i \<Longrightarrow> i < spReplicas pool + max 0 (snd (snd (rolloutParams pool))) \<Longrightarrow>
    (\<And>g. (i, g) \<in> set m \<Longrightarrow> DeleteGuest (pgName g) None \<in> set h) \<Longrightarrow>
    pool_write E pool m h (CreateGuest (new_replica pool i (pHash E (spTemplateSpec pool)) n disks spec) a)"
| claimed: "pcOwners c = [] \<Longrightarrow> at (pcLabels c) LabelPoolName = spName pool \<Longrightarrow> pool_write E pool m h (CreateClaim c a)"
| released: "at (pcLabels c) LabelPoolName = spName pool \<Longrightarrow> c' = c\<lparr>pcOwners := filter (\<lambda>uid. uid \<noteq> spUID pool) (pcOwners c)\<rparr> \<Longrightarrow>
    pool_write E pool m h (PatchClaim c c' a)"
| reported: "(wf_conditions (poConditions (spStatus pool)) \<Longrightarrow> wf_pool_status st) \<Longrightarrow> pool_write E pool m h (PatchPoolStatus st a)"

inductive_cases deleteE: "pool_write E pool m h (DeleteGuest n a)"
inductive_cases createE: "pool_write E pool m h (CreateGuest g a)"
inductive_cases statusE: "pool_write E pool m h (PatchPoolStatus st a)"

text \<open>The replicas of the listing that are left, or deleted by the pass.\<close>

definition pruned :: "replicas \<Rightarrow> replicas \<Rightarrow> pevent set \<Rightarrow> bool" where
  "pruned m m' S \<longleftrightarrow> set m' \<subseteq> set m \<and> distinct (map fst m') \<and> (\<forall>(i, g) \<in> set m. (i, g) \<in> set m' \<or> DeleteGuest (pgName g) None \<in> S)"

lemma pruned_mono: "pruned m m' S \<Longrightarrow> S \<subseteq> S' \<Longrightarrow> pruned m m' S'"
  by (auto simp: pruned_def)

lemma pruned_delete:
  assumes "pruned m m' S" and "(i, g) \<in> set m'" and "DeleteGuest (pgName g) None \<in> S'" and "S \<subseteq> S'"
  shows "pruned m (AList.delete i m') S'"
proof -
  have "(j, g') \<in> set (AList.delete i m') \<or> DeleteGuest (pgName g') None \<in> S'" if "(j, g') \<in> set m" for j g'
  proof (cases "(j, g') \<in> set m'")
    case True
    then have "j \<noteq> i \<or> g' = g" using assms(1,2) by (auto simp: pruned_def dest: eq_key_imp_eq_value)
    with True assms(3) show ?thesis by (auto simp: AList.delete_eq)
  next
    case False
    with that assms(1,4) show ?thesis by (auto simp: pruned_def)
  qed
  moreover have "set (AList.delete i m') \<subseteq> set m" and "distinct (map fst (AList.delete i m'))"
    using assms(1) by (auto simp: pruned_def AList.delete_eq distinct_map_filter)
  ultimately show ?thesis unfolding pruned_def by blast
qed

lemma pruned_free: "pruned m m' S \<Longrightarrow> map_of m' i = None \<Longrightarrow> (i, g) \<in> set m \<Longrightarrow> DeleteGuest (pgName g) None \<in> S"
  by (auto simp: pruned_def map_of_eq_None_iff rev_image_eqI)

lemma plain_obeys [obeys_rules]:
  "obeys S (pool_write E pool m) (\<lambda>h x. GetPool (Inr x) \<in> set h) (getPool E)"
  "obeys S (pool_write E pool m) (\<lambda>h x. ListGuests (Inr x) \<in> set h) (listGuests E)"
  "obeys S (pool_write E pool m) (\<lambda>h x. GetClaim n (Inr x) \<in> set h) (getClaim E n)"
  "obeys S (pool_write E pool m) (\<lambda>h x. ListNodes (Inr x) \<in> set h) (listNodes E)"
  "obeys S (pool_write E pool m) (\<lambda>h x. GetService n (Inr x) \<in> set h) (getService E n)"
  "obeys S (pool_write E pool m) (\<lambda>_ _. True) (createService E s)"
  "obeys S (pool_write E pool m) (\<lambda>_ _. True) (updateService E s)"
  "obeys S (pool_write E pool m) (\<lambda>_ _. True) (deleteService E n)"
  by (auto simp: pool_calls intro!: obeys_answer obeys_true [OF obeys_acknowledge] pool_write.other)

lemma clock_obeys [obeys_rules]: "obeys S (pool_write E pool m) (\<lambda>_ _. True) (clock E)"
  by (auto simp: obeys_def wp_def clock_def grows.same)

lemma wp_clock: "wp (andThen (clock E) k) Q h = wp (k (pClock E h)) Q h"
  by (simp add: wp_def andThen_def clock_def)

lemma deleteGuest_obeys:
  "(\<And>h a. S \<subseteq> set h \<Longrightarrow> pool_write E pool m h (DeleteGuest (pgName g) a)) \<Longrightarrow> obeys S (pool_write E pool m) (\<lambda>h _. DeleteGuest (pgName g) None \<in> set h) (deleteGuest E g)"
  unfolding deleteGuest_def by (rule obeys_acknowledge)

lemma ensurePVC_obeys [obeys_rules]: "obeys S (pool_write E pool m) (\<lambda>_ _. True) (ensurePVC E pool t i)"
proof -
  have make: "obeys S (pool_write E pool m) (\<lambda>_ _. True) (createClaim E \<lparr>pcName = n, pcLabels = (vtLabels t)(LabelPoolName \<mapsto> spName pool), pcOwners = [], pcSpec = vtSpec t\<rparr>)" for S n
    unfolding createClaim_def by (rule obeys_true [OF obeys_acknowledge]) (auto intro!: pool_write.claimed simp: at_def)
  have drop: "obeys S (pool_write E pool m) (\<lambda>_ _. True) (dropPoolOwnership E pool c)" if "at (pcLabels c) LabelPoolName = spName pool" for S c
    unfolding dropPoolOwnership_def patchClaim_def Let_def
    by (auto intro!: obeys_ret obeys_wrapErr obeys_true [OF obeys_acknowledge] pool_write.released that)
  show ?thesis
    unfolding ensurePVC_def Let_def
    by (rule make drop obeys_rules TrueI | (rule refl; fail) | (simp; fail))+
qed

lemma ensure_claims_obeys [obeys_rules]: "obeys S (pool_write E pool m) (\<lambda>_ _. True) (ensure_claims E pool i ts)"
proof (induction ts arbitrary: S)
  case (Cons t ts)
  show ?case unfolding ensure_claims.simps by (rule Cons.IH obeys_rules TrueI)+
qed (simp add: obeys_ret)

lemma schedulableWorkerNodes_obeys [obeys_rules]: "obeys S (pool_write E pool m) (\<lambda>_ _. True) (schedulableWorkerNodes E)"
  unfolding schedulableWorkerNodes_def by (rule obeys_rules TrueI)+

lemma assignCloneTargetNode_obeys [obeys_rules]:
  "obeys S (pool_write E pool m) (\<lambda>_ _. True) (assignCloneTargetNode E spec i)"
  unfolding assignCloneTargetNode_def by (rule obeys_rules TrueI)+

text \<open>An index is free when the pass has deleted whatever was there.\<close>

definition free_index :: "SwiftGuestPool \<Rightarrow> replicas \<Rightarrow> pevent set \<Rightarrow> int \<Rightarrow> bool" where
  "free_index pool m S i \<longleftrightarrow> 0 \<le> i \<and> i < spReplicas pool + max 0 (snd (snd (rolloutParams pool))) \<and>
     (\<forall>g. (i, g) \<in> set m \<longrightarrow> DeleteGuest (pgName g) None \<in> S)"

lemma free_index_mono: "free_index pool m S i \<Longrightarrow> S \<subseteq> S' \<Longrightarrow> free_index pool m S' i"
  by (auto simp: free_index_def)

lemma createSwiftGuest_obeys:
  assumes "free_index pool m S i"
  shows "obeys S (pool_write E pool m) (\<lambda>_ _. True) (createSwiftGuest E pool i (pHash E (spTemplateSpec pool)) n)"
proof -
  have "obeys S' (pool_write E pool m) (\<lambda>_ _. True) (createGuest E (new_replica pool i (pHash E (spTemplateSpec pool)) n disks spec))"
    if "S \<subseteq> S'" for S' disks spec
    unfolding createGuest_def
    by (rule obeys_true [OF obeys_acknowledge], rule pool_write.created) (use that assms in \<open>auto simp: free_index_def\<close>)
  then show ?thesis
    unfolding createSwiftGuest_def
    by (auto intro!: obeys_andThen [OF ensure_claims_obeys] obeys_andThen [OF obeys_wrapErr [OF assignCloneTargetNode_obeys]] obeys_wrapErr)
qed

lemma create_replicas_obeys:
  assumes "\<forall>i \<in> set ks. free_index pool m S i"
  shows "obeys S (pool_write E pool m) (\<lambda>_ _. True) (create_replicas E pool (pHash E (spTemplateSpec pool)) atts ks)"
  using assms
proof (induction ks arbitrary: S)
  case Nil
  then show ?case by (auto intro: obeys_ret)
next
  case (Cons i ks)
  have "obeys (set h) (pool_write E pool m) (\<lambda>_ _. True) (create_replicas E pool (pHash E (spTemplateSpec pool)) atts ks)" if "S \<subseteq> set h" for h
    using Cons.prems free_index_mono [OF _ that] by (intro Cons.IH) auto
  then show ?case
    using Cons.prems by (auto intro!: obeys_andThen [OF createSwiftGuest_obeys])
qed

lemma replace_failed_obeys:
  assumes "pruned m m0 S"
  shows "obeys S (pool_write E pool m) (\<lambda>h r. pruned m (fst r) (set h))
    (replace_failed E (pHash E (spTemplateSpec pool)) (spReplicas pool) ks m0 atts b)"
  using assms
proof (induction ks arbitrary: S m0 atts b)
  case Nil
  then show ?case by (auto intro!: obeys_ret intro: pruned_mono)
next
  case (Cons i ks)
  let ?hash = "pHash E (spTemplateSpec pool)" and ?Q = "\<lambda>h r. pruned m (fst r) (set h)"
  show ?case
  proof (cases "map_of m0 i")
    case None
    then show ?thesis using Cons by simp
  next
    case (Some g)
    then have g0: "(i, g) \<in> set m0" and g: "(i, g) \<in> set m" using Cons.prems by (auto simp: pruned_def dest: map_of_SomeD)
    have "obeys (set h) (pool_write E pool m) ?Q
        (replace_failed E ?hash (spReplicas pool) ks (AList.delete i m0) atts' b')"
      if "S \<subseteq> set h" "DeleteGuest (pgName g) None \<in> set h" for h atts' b'
      using that pruned_delete [OF Cons.prems g0] by (intro Cons.IH) auto
    note rest = this
    have del: "wp (andThen (deleteGuest E g) (\<lambda>_. replace_failed E ?hash (spReplicas pool) ks (AList.delete i m0) atts' b'))
        (\<lambda>r h'. grows (pool_write E pool m) h h' \<and> (\<forall>x. r = Inr x \<longrightarrow> ?Q h' x)) h"
      if "replaceable (spReplicas pool) i g" and "fst (replacementDelay g ?hash (pClock E h)) \<le> 0" and "S \<subseteq> set h" for h atts' b'
    proof -
      have w: "grows (pool_write E pool m) h (h @ [DeleteGuest (pgName g) a])" for a
        by (rule grows_one, rule pool_write.failed [OF g that(1,2)])
      have "wp (replace_failed E ?hash (spReplicas pool) ks (AList.delete i m0) atts' b')
          (\<lambda>r h'. grows (pool_write E pool m) h h' \<and> (\<forall>x. r = Inr x \<longrightarrow> ?Q h' x)) (h @ [DeleteGuest (pgName g) None])"
        by (rule wp_mono [OF obeys_wp [OF rest subset_refl]]) (use that(3) in \<open>auto intro: grows_trans [OF w]\<close>)
      then show ?thesis
        using w by (auto simp: wp_andThen deleteGuest_def acknowledge_def wp_def [of "acknowledge _ _"] split: option.split sum.split)
    qed
    have skip: "obeys S (pool_write E pool m) ?Q (replace_failed E ?hash (spReplicas pool) ks m0 atts' b')" for atts' b'
      by (rule Cons.IH [OF Cons.prems])
    have "obeys S (pool_write E pool m) ?Q
        (andThen (clock E)
          (\<lambda>now. case replacementDelay g ?hash now of (wait, n) \<Rightarrow>
             if 0 < wait
             then replace_failed E ?hash (spReplicas pool) ks m0 atts (if b = 0 \<or> wait < b then wait else b)
             else andThen (deleteGuest E g)
               (\<lambda>_. replace_failed E ?hash (spReplicas pool) ks (AList.delete i m0) (AList.update i n atts) b)))"
      if "replaceable (spReplicas pool) i g"
    proof (rule obeysI, unfold wp_clock)
      fix h
      assume S: "S \<subseteq> set h"
      obtain wait n where d: "replacementDelay g ?hash (pClock E h) = (wait, n)" by (cases "replacementDelay g ?hash (pClock E h)")
      show "wp (case replacementDelay g ?hash (pClock E h) of (wait, n) \<Rightarrow>
             if 0 < wait
             then replace_failed E ?hash (spReplicas pool) ks m0 atts (if b = 0 \<or> wait < b then wait else b)
             else andThen (deleteGuest E g)
               (\<lambda>_. replace_failed E ?hash (spReplicas pool) ks (AList.delete i m0) (AList.update i n atts) b))
          (\<lambda>r h'. grows (pool_write E pool m) h h' \<and> (\<forall>x. r = Inr x \<longrightarrow> ?Q h' x)) h"
      proof (cases "0 < wait")
        case True
        then show ?thesis unfolding d prod.case if_P [OF True] by (intro obeys_wp [OF skip S])
      next
        case False
        then show ?thesis unfolding d prod.case if_not_P [OF False] by (intro del that S) (simp add: d)
      qed
    qed
    then show ?thesis by (simp add: Some skip Let_def)
  qed
qed

lemma scale_down_obeys:
  assumes "pruned m m0 S" and "set ks \<subseteq> fst ` set m0" and "distinct ks" and "\<forall>i \<in> set ks. spReplicas pool \<le> i"
  shows "obeys S (pool_write E pool m) (\<lambda>h r. pruned m (fst r) (set h)) (scale_down E keep ks m0 b)"
  using assms
proof (induction ks arbitrary: S m0 b)
  case Nil
  then show ?case by (auto intro!: obeys_ret intro: pruned_mono)
next
  case (Cons i ks)
  have g: "(i, guest_at m0 i) \<in> set m0" using Cons.prems(2) by (simp add: guest_at_mem)
  have "obeys S (pool_write E pool m) (\<lambda>h _. DeleteGuest (pgName (guest_at m0 i)) None \<in> set h) (deleteGuest E (guest_at m0 i))"
    using g Cons.prems(1,4) by (intro deleteGuest_obeys pool_write.excess [of i]) (auto simp: pruned_def)
  moreover have "obeys (set h) (pool_write E pool m) (\<lambda>h r. pruned m (fst r) (set h)) (scale_down E keep ks (AList.delete i m0) b)"
    if "S \<subseteq> set h" "DeleteGuest (pgName (guest_at m0 i)) None \<in> set h" for h
  proof (rule Cons.IH)
    show "set ks \<subseteq> fst ` set (AList.delete i m0)" using Cons.prems(2,3) by (force simp: AList.delete_eq)
  qed (use Cons.prems pruned_delete [OF Cons.prems(1) g that(2,1)] in auto)
  ultimately have "obeys S (pool_write E pool m) (\<lambda>h r. pruned m (fst r) (set h))
      (andThen (deleteGuest E (guest_at m0 i)) (\<lambda>_. scale_down E keep ks (AList.delete i m0) b))"
    by (rule obeys_andThen)
  then show ?case using Cons by simp
qed

lemma delete_outdated_obeys:
  assumes "pruned m m0 S" and "set ks \<subseteq> set (outdated_indices m0 (pHash E (spTemplateSpec pool)))"
  shows "obeys S (pool_write E pool m) (\<lambda>_ _. True) (delete_replicas E m0 ks)"
    and "obeys S (pool_write E pool m) (\<lambda>_ js. set js \<subseteq> set ks) (replace_idle E m0 d ks)"
proof -
  let ?old = "outdated_indices m0 (pHash E (spTemplateSpec pool))"
  have del: "obeys S' (pool_write E pool m) (\<lambda>_ _. True) (deleteGuest E (guest_at m0 i))" if i: "i \<in> set ?old" for i S'
  proof -
    obtain g where g: "(i, g) \<in> set m0" "outdated (pHash E (spTemplateSpec pool)) g"
      using i by (auto simp: set_outdated_indices)
    then have "guest_at m0 i = g" "(i, g) \<in> set m" using assms(1) by (auto simp: pruned_def guest_at_def)
    then show ?thesis using g by (auto intro!: obeys_true [OF deleteGuest_obeys] pool_write.replaced)
  qed
  have "obeys S' (pool_write E pool m) (\<lambda>_ _. True) (delete_replicas E m0 ks)" for S'
    using assms(2) by (induction ks arbitrary: S') (auto intro!: obeys_ret obeys_andThen [OF del])
  then show "obeys S (pool_write E pool m) (\<lambda>_ _. True) (delete_replicas E m0 ks)" .
  have idle: "obeys S' (pool_write E pool m) (\<lambda>_ js. set js \<subseteq> set ks) (replace_idle E m0 d ks)" for S'
    using assms(2)
  proof (induction ks arbitrary: S')
    case Nil
    then show ?case by (auto intro: obeys_ret)
  next
    case (Cons i ks)
    have "obeys S' (pool_write E pool m) (\<lambda>_ js. set js \<subseteq> set (i # ks)) (replace_idle E m0 d ks)" for S'
      using Cons by (intro obeys_weaken [OF Cons.IH]) auto
    moreover have "obeys S' (pool_write E pool m) (\<lambda>_ js. set js \<subseteq> set (i # ks))
        (andThen (replace_idle E m0 d ks) (\<lambda>js. ret (i # js)))"
      using Cons by (intro obeys_andThen [OF Cons.IH] obeys_ret) auto
    moreover have "obeys S' (pool_write E pool m) (\<lambda>_ js. set js \<subseteq> set (i # ks))
        (andThen (deleteGuest E (guest_at m0 i)) (\<lambda>_. replace_idle E m0 d ks))"
      using Cons.prems calculation(1) by (intro obeys_andThen [OF del]) auto
    ultimately show ?case by (simp add: Let_def)
  qed
  then show "obeys S (pool_write E pool m) (\<lambda>_ js. set js \<subseteq> set ks) (replace_idle E m0 d ks)" .
qed

lemma surge_free:
  assumes "pruned m m0 S" and "i \<in> set (surge_indices m0 (spReplicas pool) ms n)" and "0 \<le> spReplicas pool"
    and "ms = snd (snd (rolloutParams pool))"
  shows "free_index pool m S i"
  using assms pruned_free [OF assms(1)] by (auto simp: surge_indices_def free_index_def)

lemma missing_free:
  assumes "pruned m m0 S" and "i \<in> set (findMissingIndices m0 (spReplicas pool))"
  shows "free_index pool m S i"
  using assms pruned_free [OF assms(1)] by (auto simp: findMissingIndices_def free_index_def)

lemma rollout_step_obeys:
  assumes m0: "pruned m m0 S" and pos: "0 \<le> spReplicas pool"
  shows "obeys S (pool_write E pool m) (\<lambda>_ _. True) (rollout_step E pool m0 (pHash E (spTemplateSpec pool)))"
proof -
  let ?old = "outdated_indices m0 (pHash E (spTemplateSpec pool))"
  obtain strategy mu ms where ro: "rolloutParams pool = (strategy, mu, ms)" by (cases "rolloutParams pool") auto
  have "obeys S (pool_write E pool m) (\<lambda>_ _. True) (andThen (replace_idle E m0 (spReplicas pool) ?old)
      (\<lambda>js. andThen (create_replicas E pool (pHash E (spTemplateSpec pool)) [] (surge_indices m0 (spReplicas pool) ms (length js)))
         (\<lambda>_. andThen (delete_replicas E m0 (take n js)) (\<lambda>_. ret True))))" for n
  proof (rule obeys_andThen [OF delete_outdated_obeys(2) [OF m0 subset_refl]])
    fix h js
    assume S: "S \<subseteq> set h" and js: "set js \<subseteq> set ?old"
    have "pruned m m0 (set h')" if "set h \<subseteq> set h'" for h' using m0 S that by (meson pruned_mono subset_trans)
    then show "obeys (set h) (pool_write E pool m) (\<lambda>_ _. True)
        (andThen (create_replicas E pool (pHash E (spTemplateSpec pool)) [] (surge_indices m0 (spReplicas pool) ms (length js)))
           (\<lambda>_. andThen (delete_replicas E m0 (take n js)) (\<lambda>_. ret True)))"
      using js pos ro set_take_subset [of n js]
      by (intro obeys_andThen [OF create_replicas_obeys] obeys_andThen [OF delete_outdated_obeys(1)] obeys_ret ballI surge_free) auto
  qed
  moreover have "obeys S (pool_write E pool m) (\<lambda>_ _. True) (andThen (delete_replicas E m0 ?old) (\<lambda>_. ret True))"
    using m0 by (intro obeys_andThen [OF delete_outdated_obeys(1)] obeys_ret) auto
  ultimately show ?thesis
    by (simp add: rollout_step_def reconcileRollingUpdate_def ro obeys_ret Let_def)
qed

lemma reconcile_replicas_obeys:
  assumes wf: "distinct (map fst m)" and pos: "0 \<le> spReplicas pool"
  shows "obeys S (pool_write E pool m) (\<lambda>_ _. True) (reconcile_replicas E pool m (pHash E (spTemplateSpec pool)))"
proof -
  let ?hash = "pHash E (spTemplateSpec pool)"
  have keys: "obeys S (pool_write E pool m) (\<lambda>_ _. True) (rangeKeys E m)"
    by (auto simp: obeys_def wp_def rangeKeys_def grows.same)
  have start: "pruned m m (set h)" for h using wf by (auto simp: pruned_def)
  have down: "obeys (set h) (pool_write E pool m) (\<lambda>_ _. True)
      (andThen (scale_down E keep (findExcessIndices m1 (spReplicas pool)) m1 False)
        (\<lambda>(m2, requeue). andThen (create_replicas E pool ?hash a (findMissingIndices m2 (spReplicas pool)))
           (\<lambda>_. andThen (rollout_step E pool m2 ?hash) (\<lambda>more. ret (b, requeue \<or> more)))))"
    if m1: "pruned m m1 (set h)" for h keep m1 a b
  proof (rule obeys_andThen [OF scale_down_obeys [OF m1]], goal_cases)
    case (4 h' x)
    then have "pruned m (fst x) (set h'')" if "set h' \<subseteq> set h''" for h'' using that by (auto intro: pruned_mono)
    then show ?case
      by (auto simp: split_beta intro!: obeys_andThen [OF create_replicas_obeys] obeys_andThen [OF rollout_step_obeys [OF _ pos]] obeys_ret missing_free)
  qed (use m1 in \<open>auto simp: set_findExcessIndices findExcessIndices_def pruned_def\<close>)
  show ?thesis
    unfolding reconcile_replicas_def Let_def
    by (rule obeys_andThen [OF keys], rule obeys_andThen [OF replace_failed_obeys [OF start]])
      (auto intro!: down split: prod.split)
qed

section \<open>Every pass\<close>

lemma updateStatus_obeys [obeys_rules]: "obeys S (pool_write E pool m) (\<lambda>_ _. True) (updateStatus E pool gs hash)"
proof -
  have del: "obeys S (pool_write E pool m) (\<lambda>_ _. True) (deleteOwnedPoolService E pool n)" for S n
    unfolding deleteOwnedPoolService_def by (rule obeys_rules TrueI)+
  have svc: "obeys S (pool_write E pool m) (\<lambda>_ r. spService pool \<noteq> None \<longrightarrow> prReason r \<noteq> []) (reconcilePoolService E pool n)" for S n
    unfolding reconcilePoolService_def Let_def
    by (rule del obeys_rules TrueI | (simp add: poolServiceReadyResult_def; fail))+
  have "obeys S (pool_write E pool m) (\<lambda>_ _. True) (patchPoolStatus E (pool_status pool gs hash svc now))"
    if "spService pool \<noteq> None \<longrightarrow> prReason svc \<noteq> []" for S svc now
    unfolding patchPoolStatus_def
    by (rule obeys_true [OF obeys_acknowledge]) (rule pool_write.reported, erule wf_pool_status_written [OF _ that])
  then show ?thesis
    unfolding updateStatus_def by (auto intro!: obeys_andThen [OF svc] obeys_andThen [OF clock_obeys])
qed

lemma listOwnedGuests_obeys [obeys_rules]: "obeys S (pool_write E pool m) (\<lambda>_ _. True) (listOwnedGuests E pool)"
  unfolding listOwnedGuests_def by (rule obeys_rules TrueI)+

lemma Reconcile_writes:
  assumes "pGetPool E h = Inr pool" and "\<not> spDeleting pool" and "pListGuests E (h @ [GetPool (Inr pool)]) = Inr gs"
    and m: "m = buildIndexMap (spName pool) (filter (\<lambda>g. isControlledBy g pool) gs)" and "0 \<le> spReplicas pool"
  shows "wp (Reconcile E) (\<lambda>_ h'. grows (pool_write E pool m) h h') h"
proof -
  let ?h = "(h @ [GetPool (Inr pool)]) @ [ListGuests (Inr gs)]" and ?hash = "pHash E (spTemplateSpec pool)"
  let ?k = "andThen (reconcile_replicas E pool m ?hash) (\<lambda>(backoff, requeue). andThen (listOwnedGuests E pool)
      (\<lambda>owned'. andThen (updateStatus E pool owned' ?hash)
         (\<lambda>_. ret (requeueAfter (if requeue \<and> (backoff = 0 \<or> 10 * second < backoff) then 10 * second else backoff)))))"
  have "distinct (map fst m)" using wf_buildIndexMap [of "spName pool"] m by (simp add: wf_replicas_def)
  then have "obeys {} (pool_write E pool m) (\<lambda>_ _. True) ?k"
    using assms(5) by (intro obeys_andThen [OF reconcile_replicas_obeys])
      (auto intro!: obeys_andThen [OF listOwnedGuests_obeys] obeys_andThen [OF updateStatus_obeys] obeys_ret split: prod.split)
  then have "wp ?k (\<lambda>_ h'. grows (pool_write E pool m) ?h h') ?h"
    by (rule wp_mono [OF obeys_wp]) auto
  moreover have "grows (pool_write E pool m) h ?h"
    by (intro grows.more grows.same pool_write.other) simp_all
  moreover have "Reconcile E h = ?k ?h"
    using assms(1-4) by (simp add: Reconcile_def whenFound_def listOwnedGuests_def andThen_def attempt_def getPool_def
        listGuests_def answer_def ret_def Let_def)
  ultimately show ?thesis by (auto simp: wp_def intro: grows_trans)
qed

text \<open>
  C14. A healthy replica is never taken down. If a pass deletes a replica that is within the
  desired range and was made from the current template, the replica has failed, its run policy
  asks for it to run, and at the moment of the deletion the back-off of its replacement attempt
  has passed since it was created. This holds in every environment, under both update
  strategies, for every order in which the runtime visits the replicas.
\<close>

theorem healthy_replicas_untouched:
  assumes "pGetPool E h = Inr pool" and "\<not> spDeleting pool" and "pListGuests E (h @ [GetPool (Inr pool)]) = Inr gs"
    and "m = buildIndexMap (spName pool) (filter (\<lambda>g. isControlledBy g pool) gs)" and "0 \<le> spReplicas pool"
    and "Reconcile E h = Some (r, h @ pre @ DeleteGuest (pgName g) a # post)"
    and "(i, g) \<in> set m" and "i < spReplicas pool" and "\<not> outdated (pHash E (spTemplateSpec pool)) g"
  shows "replaceable (spReplicas pool) i g \<and>
    (\<forall>created. pgCreated g = Some created \<longrightarrow> created + replacementBackoff (attempt_of g) \<le> pClock E (h @ pre))"
proof -
  have wf: "wf_replicas (spName pool) m" using assms(4) by (simp add: wf_buildIndexMap)
  have "pool_write E pool m (h @ pre) (DeleteGuest (pgName g) a)"
    using wpD [OF Reconcile_writes [OF assms(1-5)] assms(6)] by (rule grows_event)
  then obtain i' g' where g': "(i', g') \<in> set m" "pgName g' = pgName g"
    and why: "spReplicas pool \<le> i' \<or> outdated (pHash E (spTemplateSpec pool)) g' \<or>
      replaceable (spReplicas pool) i' g' \<and> fst (replacementDelay g' (pHash E (spTemplateSpec pool)) (pClock E (h @ pre))) \<le> 0"
    by (cases rule: deleteE) auto
  then have "i' = i" "g' = g" using wf_name_inj [OF wf g'(1) assms(7)] by auto
  with why assms(8,9) have "replaceable (spReplicas pool) i g"
    and "fst (replacementDelay g (pHash E (spTemplateSpec pool)) (pClock E (h @ pre))) \<le> 0" by auto
  moreover have "replacementBackoff n \<le> replacementBackoffReset" for n
    by (simp add: replacementBackoff_def replacementBackoffCap_def replacementBackoffReset_def second_def)
  ultimately show ?thesis
    using assms(9) by (auto simp: replacementDelay_def Let_def split: if_splits) (smt (verit))
qed

theorem healthy_replicas_untouched_witness:
  "\<exists>r pre a post. Reconcile (example_env [example_guest 0 ''v2'' ''Failed'']) [] = Some (r, pre @ DeleteGuest ''p-0'' a # post) \<and>
     replacementBackoff 0 \<le> pClock (example_env [example_guest 0 ''v2'' ''Failed'']) pre"
proof -
  let ?g = "example_guest 0 ''v2'' ''Failed''"
  let ?E = "example_env [?g]"
  have d: "case Reconcile ?E [] of None \<Rightarrow> False | Some (_, new) \<Rightarrow> ''p-0'' \<in> set (deletes new)" by code_simp
  then obtain r new where r: "Reconcile ?E [] = Some (r, new)" "''p-0'' \<in> set (deletes new)" by (auto split: option.splits)
  then obtain pre a post where new: "new = pre @ DeleteGuest ''p-0'' a # post" by (elim in_deletes_split)
  have n: "pgName ?g = ''p-0''" "attempt_of ?g = 0" "pgCreated ?g = Some 0" "spReplicas example_pool = 1" "\<not> spDeleting example_pool"
    by code_simp+
  have m: "buildIndexMap (spName example_pool) (filter (\<lambda>g. isControlledBy g example_pool) [?g]) = [(0, ?g)]"
  proof -
    have "index_of (spName example_pool) (pgName ?g) = Some 0" "isControlledBy ?g example_pool" by code_simp+
    then show ?thesis by (simp add: buildIndexMap_def)
  qed
  have "\<not> outdated (pHash ?E (spTemplateSpec example_pool)) ?g" by code_simp
  with n m r new show ?thesis
    using healthy_replicas_untouched [of ?E "[]" example_pool "[?g]" "[(0, ?g)]" r pre ?g a post 0]
    by (auto simp: example_env_def)
qed

text \<open>
  C15. Every status a pass writes is well-formed. Provided the stored status was, the conditions
  written have distinct types, a declared status and a reason each (an empty one the API server
  rejects), the three conditions of a pool are there, and the counts fit together: ready and
  failed replicas are disjoint parts of all replicas, and no more are updated than exist.
\<close>

theorem pool_status_well_formed:
  assumes "pGetPool E h = Inr pool" and "\<not> spDeleting pool" and "pListGuests E (h @ [GetPool (Inr pool)]) = Inr gs"
    and "0 \<le> spReplicas pool" and "wf_conditions (poConditions (spStatus pool))"
    and "Reconcile E h = Some (r, h @ pre @ PatchPoolStatus st a # post)"
  shows "wf_pool_status st"
proof -
  have "pool_write E pool (buildIndexMap (spName pool) (filter (\<lambda>g. isControlledBy g pool) gs)) (h @ pre) (PatchPoolStatus st a)"
    using wpD [OF Reconcile_writes [OF assms(1-3) refl assms(4)] assms(6)] by (rule grows_event)
  then show ?thesis using assms(5) by (cases rule: statusE) auto
qed

theorem pool_status_well_formed_witness:
  "\<exists>r pre st a post. Reconcile (example_env [example_guest 0 ''v1'' ''Running'']) [] = Some (r, pre @ PatchPoolStatus st a # post) \<and>
     wf_pool_status st"
proof -
  let ?E = "example_env [example_guest 0 ''v1'' ''Running'']"
  have d: "case Reconcile ?E [] of None \<Rightarrow> False | Some (_, new) \<Rightarrow> list_ex status_written new" by code_simp
  then obtain r new e where r: "Reconcile ?E [] = Some (r, new)" "e \<in> set new" "status_written e"
    by (auto split: option.splits simp: list_ex_iff)
  obtain st a where e: "e = PatchPoolStatus st a" using r(3) by (cases e) auto
  then obtain pre post where new: "new = pre @ PatchPoolStatus st a # post" using r(2) by (metis split_list)
  have n: "0 \<le> spReplicas example_pool" "\<not> spDeleting example_pool" "wf_conditions (poConditions (spStatus example_pool))"
    by code_simp+
  with r new show ?thesis
    using pool_status_well_formed [of ?E "[]" example_pool "[example_guest 0 ''v1'' ''Running'']" r pre st a post]
    by (auto simp: example_env_def)
qed

end
