(* ===== verification/Pool_Rollout.thy ===== *)
theory Pool_Rollout
  imports Pool_Replicas
begin

text \<open>
  The guarantees of a rolling update. In every environment a pass leaves at least
  \<open>desired - maxUnavailable\<close> of the replicas it found serving; a replica of the current template
  within the desired range is deleted only after it failed and its back-off ran out; and what
  the pass creates.
\<close>

section \<open>Serving replicas never drop below the floor\<close>

text \<open>The serving replicas of a listing that a pass did not delete.\<close>

definition surviving :: "replicas \<Rightarrow> string list \<Rightarrow> replicas" where
  "surviving m ns = filter (\<lambda>(_, g). pgName g \<notin> set ns) (serving m)"

lemma not_names_where: "wf_replicas pool m \<Longrightarrow> (i, g) \<in> set m \<Longrightarrow> \<not> P i g \<Longrightarrow> pgName g \<notin> names_where m P"
  by (auto simp: names_where_def dest: wf_name_inj)

lemma length_filter_le_card:
  assumes "distinct (map fst xs)" and "finite B"
  shows "length (filter (\<lambda>(i, _). i \<in> B) xs) \<le> card B"
proof -
  let ?ys = "filter (\<lambda>(i, _). i \<in> B) xs"
  have "length ?ys = card (set (map fst ?ys))"
    using assms(1) by (metis distinct_card distinct_map_filter length_map)
  also have "\<dots> \<le> card B" using assms(2) by (intro card_mono) auto
  finally show ?thesis .
qed

lemma wf_serving: "wf_replicas pool m \<Longrightarrow> distinct (map fst (serving m))"
  by (simp add: serving_def wf_replicas_def distinct_map_filter)

lemma length_filter_mono:
  "(\<And>x. x \<in> set xs \<Longrightarrow> P x \<Longrightarrow> Q x) \<Longrightarrow> length (filter P xs) \<le> length (filter Q xs)"
  by (induction xs) auto

lemma length_filter_split: "length (filter P xs) \<le> length (filter (\<lambda>x. P x \<and> \<not> Q x) xs) + length (filter Q xs)"
  by (induction xs) auto

lemma surviving_bound:
  assumes wf: "wf_replicas pool m" and ns: "set ns \<subseteq> names_where m (\<lambda>i g. \<not> guestReady g \<or> C i \<or> i \<in> B)" and "finite B"
  shows "length (filter (\<lambda>(i, _). \<not> C i) (serving m)) \<le> length (surviving m ns) + card B"
proof -
  have "pgName g \<notin> set ns" if "(i, g) \<in> set (serving m)" "\<not> C i" "i \<notin> B" for i g
    using that ns not_names_where [OF wf, of i g "\<lambda>i g. \<not> guestReady g \<or> C i \<or> i \<in> B"] by (auto simp: serving_def)
  then have "length (filter (\<lambda>x. (case x of (i, _) \<Rightarrow> \<not> C i) \<and> \<not> (case x of (i, _) \<Rightarrow> i \<in> B)) (serving m)) \<le> length (surviving m ns)"
    unfolding surviving_def by (intro length_filter_mono) auto
  then show ?thesis
    using length_filter_split [of "\<lambda>(i, _). \<not> C i" "serving m" "\<lambda>(i, _). i \<in> B"]
      length_filter_le_card [OF wf_serving [OF wf] \<open>finite B\<close>] by linarith
qed

text \<open>Scaling down keeps the replicas in service as long as the desired range needs them.\<close>

definition scaled :: "SwiftGuestPool \<Rightarrow> replicas \<Rightarrow> string \<Rightarrow> int \<Rightarrow> bool" where
  "scaled pool m hash i \<longleftrightarrow>
     i \<in> set (findExcessIndices m (spReplicas pool)) \<and> i \<notin> set (surgeReplicasToKeep pool m hash (spReplicas pool))"

text \<open>No scale down is pending: whatever is above the desired range is a surge replica of the current template.\<close>

definition only_surge :: "SwiftGuestPool \<Rightarrow> replicas \<Rightarrow> string \<Rightarrow> bool" where
  "only_surge pool m hash \<longleftrightarrow>
     list_all (\<lambda>(i, g). spReplicas pool \<le> i \<longrightarrow> i < spReplicas pool + snd (snd (rolloutParams pool)) \<and> \<not> outdated hash g) m"

lemma scaled_serving:
  assumes wf: "wf_replicas (spName pool) m" and ro: "rolloutParams pool = (UpdateStrategyRollingUpdate, mu, ms)"
    and surge: "only_surge pool m hash"
  shows "min (int (length (serving m))) (spReplicas pool) \<le> int (length (filter (\<lambda>(i, _). \<not> scaled pool m hash i) (serving m)))"
proof (cases "\<forall>i. 0 \<le> i \<and> i < spReplicas pool \<longrightarrow> (\<exists>g. map_of m i = Some g \<and> guestReady g)")
  case True
  let ?kept = "filter (\<lambda>(i, _). \<not> scaled pool m hash i) (serving m)"
  have "{0..spReplicas pool - 1} \<subseteq> fst ` set ?kept"
  proof
    fix i
    assume "i \<in> {0..spReplicas pool - 1}"
    then obtain g where "map_of m i = Some g" "guestReady g" "i < spReplicas pool" using True by auto
    then have "(i, g) \<in> set ?kept" by (auto simp: serving_def scaled_def set_findExcessIndices dest: map_of_SomeD)
    then show "i \<in> fst ` set ?kept" by force
  qed
  then have "card {0..spReplicas pool - 1} \<le> card (fst ` set ?kept)" by (intro card_mono) auto
  also have "\<dots> \<le> length ?kept" by (metis card_length list.set_map length_map)
  finally show ?thesis by simp
next
  case False
  have "\<not> scaled pool m hash i" if "(i, g) \<in> set (serving m)" for i g
  proof (rule notI)
    assume sc: "scaled pool m hash i"
    have g: "map_of m i = Some g" "guestReady g" "\<not> pgDeleting g"
      using that wf_map_of [OF wf] by (auto simp: serving_def guestReady_def)
    have range: "spReplicas pool \<le> i" "i < spReplicas pool + ms" "\<not> outdated hash g"
      using that sc surge ro by (auto simp: scaled_def set_findExcessIndices only_surge_def list_all_iff serving_def)
    have "list_ex (\<lambda>i. case map_of m i of None \<Rightarrow> True | Some g \<Rightarrow> \<not> guestReady g) [0..spReplicas pool - 1]"
      using False by (fastforce simp: list_ex_iff split: option.splits)
    then have "i \<in> set (surgeReplicasToKeep pool m hash (spReplicas pool))"
      using g range ro by (simp add: surgeReplicasToKeep_def)
    with sc show False by (simp add: scaled_def)
  qed
  then have "filter (\<lambda>(i, _). \<not> scaled pool m hash i) (serving m) = serving m" by (auto simp: filter_id_conv)
  then show ?thesis by simp
qed

text \<open>A rolling update takes down idle replicas and at most its budget of serving ones.\<close>

definition rolled :: "replicas \<Rightarrow> int \<Rightarrow> string list \<Rightarrow> bool" where
  "rolled m floor ns \<longleftrightarrow>
     (\<exists>B. finite B \<and> int (card B) \<le> max 0 (int (length (serving m)) - floor) \<and>
          set ns \<subseteq> names_where m (\<lambda>i g. \<not> guestReady g \<or> i \<in> B))"

lemma rolled_idle: "set ns \<subseteq> names_where m (\<lambda>_ g. \<not> guestReady g) \<Longrightarrow> rolled m floor ns"
  using names_where_mono [of m m "\<lambda>_ g. \<not> guestReady g" "\<lambda>i g. \<not> guestReady g \<or> i \<in> {}"]
  by (auto simp: rolled_def intro!: exI [of _ "{}"])

lemma rolling_update_after:
  assumes wf: "wf_replicas pool' m" and ro: "rolloutParams pool = (UpdateStrategyRollingUpdate, mu, ms)"
  shows "after (reconcileRollingUpdate E pool m hash desired) (\<lambda>_ ns. rolled m (desired - mu) ns) h"
proof -
  let ?old = "outdated_indices m hash" and ?floor = "desired - mu"
  let ?budget = "int (length (serving m)) - ?floor"
  have at: "(i, guest_at m i) \<in> set m" if "i \<in> set ?old" for i
    using that by (intro guest_at_mem) (force simp: set_outdated_indices)
  have idle: "rolled m ?floor ns" if "set ns \<subseteq> (\<lambda>i. pgName (guest_at m i)) ` {i \<in> set ?old. \<not> guestReady (guest_at m i)}" for ns
    using that at by (intro rolled_idle) (fastforce intro: names_whereI)
  have both: "rolled m ?floor (ns @ ns')"
    if "set ns \<subseteq> (\<lambda>i. pgName (guest_at m i)) ` {i \<in> set ?old. \<not> guestReady (guest_at m i)}"
      and "set ns' \<subseteq> (\<lambda>i. pgName (guest_at m i)) ` set (take (nat ?budget) js)" and "set js \<subseteq> set ?old" for ns ns' js
  proof -
    let ?B = "set (take (nat ?budget) js)"
    have "card ?B \<le> nat ?budget" using card_length [of "take (nat ?budget) js"] by simp
    then have "int (card ?B) \<le> int (nat ?budget)" by (simp only: of_nat_le_iff)
    then have "int (card ?B) \<le> max 0 ?budget" by (simp only: int_nat_eq max_def split: if_splits)
    moreover have "set (ns @ ns') \<subseteq> names_where m (\<lambda>i g. \<not> guestReady g \<or> i \<in> ?B)"
    proof -
      have "pgName (guest_at m i) \<in> names_where m (\<lambda>i g. \<not> guestReady g \<or> i \<in> ?B)"
        if "i \<in> set ?old" "\<not> guestReady (guest_at m i) \<or> i \<in> ?B" for i
        using that at by (intro names_whereI) auto
      then show ?thesis using that set_take_subset [of "nat ?budget" js] by fastforce
    qed
    ultimately show ?thesis unfolding rolled_def by blast
  qed
  have end_: "after (andThen (delete_replicas E m (take (nat ?budget) js)) (\<lambda>_. ret True)) (\<lambda>_ ns'. rolled m ?floor (ns @ ns')) h'"
    if "set ns \<subseteq> (\<lambda>i. pgName (guest_at m i)) ` {i \<in> set ?old. \<not> guestReady (guest_at m i)}" and "set js \<subseteq> set ?old" for ns js h'
    by (rule after_andThen, rule after_mono [OF delete_replicas_after])
      (auto intro!: both [OF that(1) _ that(2)] after_ret split: sum.split)
  have mid: "after (andThen (create_replicas E pool hash [] ks) (\<lambda>_. andThen (delete_replicas E m (take (nat ?budget) js)) (\<lambda>_. ret True)))
      (\<lambda>_ ns'. rolled m ?floor (ns @ ns')) h'"
    if "set ns \<subseteq> (\<lambda>i. pgName (guest_at m i)) ` {i \<in> set ?old. \<not> guestReady (guest_at m i)}" and "set js \<subseteq> set ?old" for ns js ks h'
    by (rule after_andThen, rule after_quiet [OF quiet_create_replicas])
      (simp add: idle [OF that(1)] end_ [OF that] split: sum.split)
  have "UpdateStrategyRollingUpdate \<noteq> UpdateStrategyRecreate"
    by (simp add: UpdateStrategyRollingUpdate_def UpdateStrategyRecreate_def)
  then have "reconcileRollingUpdate E pool m hash desired =
      (if mu = 0 \<and> ms = 0 then ret True
       else andThen (replace_idle E m desired ?old)
         (\<lambda>js. andThen (create_replicas E pool hash [] (surge_indices m desired ms (length js)))
            (\<lambda>_. andThen (delete_replicas E m (take (nat ?budget) js)) (\<lambda>_. ret True))))"
    by (simp add: reconcileRollingUpdate_def ro)
  moreover have "after (andThen (replace_idle E m desired ?old)
      (\<lambda>js. andThen (create_replicas E pool hash [] (surge_indices m desired ms (length js)))
         (\<lambda>_. andThen (delete_replicas E m (take (nat ?budget) js)) (\<lambda>_. ret True)))) (\<lambda>_ ns. rolled m ?floor ns) h"
    by (rule after_andThen, rule after_mono [OF replace_idle_after]) (auto simp: idle mid split: sum.split)
  ultimately show ?thesis by (simp add: after_ret rolled_idle)
qed

lemma scaled_down_eq:
  "scaled_down (surgeReplicasToKeep pool m hash (spReplicas pool)) (findExcessIndices m (spReplicas pool)) m r ns \<Longrightarrow>
   set ns \<subseteq> names_where m (\<lambda>i _. scaled pool m hash i) \<and>
   (\<forall>m' b. r = Inr (m', b) \<longrightarrow> m' = filter (\<lambda>(i, _). \<not> scaled pool m hash i) m)"
  by (simp add: scaled_down_def scaled_def)

text \<open>The floor of a pass, from what its three deleting steps may take down.\<close>

lemma floor_kept:
  assumes wf: "wf_replicas (spName pool) m" and ro: "rolloutParams pool = (UpdateStrategyRollingUpdate, mu, ms)"
    and surge: "only_surge pool m hash" and "0 \<le> mu" and sub: "set m1 \<subseteq> set m" and wf1: "wf_replicas (spName pool) m1"
    and same: "serving m1 = serving m"
    and ns: "set ns1 \<subseteq> names_where m (\<lambda>_ g. \<not> guestReady g)" "set ns2 \<subseteq> names_where m1 (\<lambda>i _. scaled pool m1 hash i)"
    and rolled: "rolled (filter (\<lambda>(i, _). \<not> scaled pool m1 hash i) m1) (spReplicas pool - mu) ns3"
  shows "min (int (length (serving m))) (spReplicas pool - mu) \<le> int (length (surviving m (ns1 @ ns2 @ ns3)))"
proof -
  let ?m2 = "filter (\<lambda>(i, _). \<not> scaled pool m1 hash i) m1" and ?s = "scaled pool m1 hash"
  obtain B where B: "finite B" "int (card B) \<le> max 0 (int (length (serving ?m2)) - (spReplicas pool - mu))"
    and ns3: "set ns3 \<subseteq> names_where ?m2 (\<lambda>i g. \<not> guestReady g \<or> i \<in> B)"
    using rolled by (auto simp: rolled_def)
  let ?bad = "\<lambda>i g. \<not> guestReady g \<or> ?s i \<or> i \<in> B"
  have "set (ns1 @ ns2 @ ns3) \<subseteq> names_where m ?bad"
    using ns ns3 sub
      names_where_mono [of m m "\<lambda>_ g. \<not> guestReady g" ?bad] names_where_mono [OF sub, of "\<lambda>i _. ?s i" ?bad]
      names_where_mono [of ?m2 m "\<lambda>i g. \<not> guestReady g \<or> i \<in> B" ?bad] by auto
  then have "length (filter (\<lambda>(i, _). \<not> ?s i) (serving m)) \<le> length (surviving m (ns1 @ ns2 @ ns3)) + card B"
    by (intro surviving_bound [OF wf _ B(1)])
  moreover have "length (serving ?m2) = length (filter (\<lambda>(i, _). \<not> ?s i) (serving m))"
    by (simp add: serving_filter same)
  moreover have "only_surge pool m1 hash" using surge sub by (auto simp: only_surge_def list_all_iff)
  then have "min (int (length (serving m))) (spReplicas pool) \<le> int (length (filter (\<lambda>(i, _). \<not> ?s i) (serving m)))"
    using scaled_serving [OF wf1 ro] same by simp
  ultimately show ?thesis using B(2) \<open>0 \<le> mu\<close> by linarith
qed

lemma reconcile_replicas_floor:
  assumes wf: "wf_replicas (spName pool) m" and ro: "rolloutParams pool = (UpdateStrategyRollingUpdate, mu, ms)"
    and surge: "only_surge pool m hash" and mu: "0 \<le> mu"
  shows "after (reconcile_replicas E pool m hash)
    (\<lambda>_ ns. min (int (length (serving m))) (spReplicas pool - mu) \<le> int (length (surviving m ns))) h"
proof -
  let ?floor = "\<lambda>ns. min (int (length (serving m))) (spReplicas pool - mu) \<le> int (length (surviving m ns))"
  have early: "?floor ns" if "set ns \<subseteq> names_where m (\<lambda>_ g. \<not> guestReady g)" for ns
    using floor_kept [OF wf ro surge mu _ wf refl that, of "[]" "[]"] by (simp add: rolled_idle)
  have later: "?floor (ns1 @ ns2 @ ns3)"
    if "idle_replaced (spName pool) m (Inr (m1, a, b)) ns1" and "set ns2 \<subseteq> names_where m1 (\<lambda>i _. scaled pool m1 hash i)"
      and "rolled (filter (\<lambda>(i, _). \<not> scaled pool m1 hash i) m1) (spReplicas pool - mu) ns3" for m1 a b ns1 ns2 ns3
    using that by (intro floor_kept [OF wf ro surge mu, of m1]) (auto simp: idle_replaced_def)
  have roll: "after (rollout_step E pool m2 hash) (\<lambda>_ ns. rolled m2 (spReplicas pool - mu) ns) h'"
    if "wf_replicas (spName pool) m2" for m2 h'
    using rolling_update_after [OF that ro] by (auto simp: rollout_step_def rolled_idle intro: after_ret)
  have down: "after (andThen (scale_down E (surgeReplicasToKeep pool m1 hash (spReplicas pool)) (findExcessIndices m1 (spReplicas pool)) m1 False)
      (\<lambda>(m2, requeue). andThen (create_replicas E pool hash a (findMissingIndices m2 (spReplicas pool)))
         (\<lambda>_. andThen (rollout_step E pool m2 hash) (\<lambda>more. ret (b, requeue \<or> more)))))
      (\<lambda>_ ns. ?floor (ns1 @ ns)) h'"
    if r: "idle_replaced (spName pool) m (Inr (m1, a, b)) ns1" for m1 a b ns1 h'
  proof (rule after_andThen, rule after_mono [OF scale_down_after])
    have wf1: "wf_replicas (spName pool) m1" using r by (simp add: idle_replaced_def)
    then show "distinct (findExcessIndices m1 (spReplicas pool))" by (rule distinct_findExcessIndices)
    fix r' ns
    assume "scaled_down (surgeReplicasToKeep pool m1 hash (spReplicas pool)) (findExcessIndices m1 (spReplicas pool)) m1 r' ns"
    note d = scaled_down_eq [OF this]
    show "case r' of Inl e \<Rightarrow> ?floor (ns1 @ ns)
      | Inr x \<Rightarrow> \<forall>h. after (case x of (m2, requeue) \<Rightarrow> andThen (create_replicas E pool hash a (findMissingIndices m2 (spReplicas pool)))
         (\<lambda>_. andThen (rollout_step E pool m2 hash) (\<lambda>more. ret (b, requeue \<or> more)))) (\<lambda>_ ns'. ?floor (ns1 @ ns @ ns')) h"
      using d later [OF r, of ns "[]"] later [OF r, of ns] wf_filter [OF wf1]
      by (auto simp: rolled_idle intro!: after_andThen after_quiet quiet_rules after_mono [OF roll] after_ret split: sum.split)
  qed (auto simp: set_findExcessIndices)
  show ?thesis
    unfolding reconcile_replicas_def Let_def
    by (rule after_andThen, rule after_rangeKeys, simp, intro allI after_andThen, rule after_mono [OF replace_failed_after [OF wf]])
      (auto simp: idle_replaced_def [of _ _ "Inl e" for e] split: sum.split intro!: early down)
qed




end
