(* ===== verification/Pool_Convergence.thy ===== *)
theory Pool_Convergence
  imports Pool_Rollout
begin

text \<open>
  A rolling update completes. Against a working API server whose guests start and stop between
  two passes, the passes of the controller are steps of an abstract rollout on sets of indices,
  and every such step brings the pool closer to the desired replicas of the current template.
\<close>

section \<open>The abstract rollout\<close>

text \<open>
  The indices of a pool: those of the desired range that exist, those among them made from an
  old template, and the surge replicas. A step creates what is missing of the desired range,
  replaces as many old replicas as the budget allows, adds surge replicas while there are old
  ones, and drops them when the desired range is complete and up to date.
\<close>

record rollout =
  roBase :: "int set"
  roOld :: "int set"
  roSurge :: "int set"

definition complete :: "int \<Rightarrow> rollout \<Rightarrow> bool" where
  "complete n a \<longleftrightarrow> roBase a = {0..<n}"

definition kept_surge :: "int \<Rightarrow> rollout \<Rightarrow> int set" where
  "kept_surge n a = (if roOld a = {} \<and> complete n a then {} else roSurge a)"

inductive rollout_pass :: "int \<Rightarrow> int \<Rightarrow> int \<Rightarrow> rollout \<Rightarrow> rollout \<Rightarrow> bool" for n mu ms where
  pass: "D \<subseteq> roOld a \<Longrightarrow>
    int (card D) = min (int (card (roOld a))) (max 0 (int (card (roBase a)) + int (card (kept_surge n a)) - (n - mu))) \<Longrightarrow>
    rollout_pass n mu ms a
      \<lparr>roBase = {0..<n} - D, roOld = roOld a - D,
       roSurge = kept_surge n a \<union> {n..<n + min ms (int (card (roOld a)))}\<rparr>"

definition wf_rollout :: "int \<Rightarrow> int \<Rightarrow> rollout \<Rightarrow> bool" where
  "wf_rollout n ms a \<longleftrightarrow> roBase a \<subseteq> {0..<n} \<and> roOld a \<subseteq> roBase a \<and> roSurge a \<subseteq> {n..<n + ms}"

definition rolled_out :: "int \<Rightarrow> rollout \<Rightarrow> bool" where
  "rolled_out n a \<longleftrightarrow> roBase a = {0..<n} \<and> roOld a = {} \<and> roSurge a = {}"

text \<open>How far a pool is from the end of the rollout.\<close>

definition distance :: "int \<Rightarrow> int \<Rightarrow> rollout \<Rightarrow> nat" where
  "distance n mu a =
     3 * card (roOld a) +
     (if \<not> complete n a then 2
      else if roOld a = {} then (if roSurge a = {} then 0 else 1)
      else if mu = 0 \<and> roSurge a = {} then 1 else 0)"

lemma wf_rollout_finite:
  assumes "wf_rollout n ms a"
  shows "finite (roBase a)" "finite (roOld a)" "finite (roSurge a)"
  using assms unfolding wf_rollout_def by (meson finite_atLeastLessThan_int finite_subset)+

lemma rollout_pass_wf:
  assumes "rollout_pass n mu ms a b" and "wf_rollout n ms a"
  shows "wf_rollout n ms b"
  using assms(1)
proof cases
  case (pass D)
  have "kept_surge n a \<subseteq> roSurge a" by (simp add: kept_surge_def)
  then have "kept_surge n a \<subseteq> {n..<n + ms}" using assms(2) by (auto simp: wf_rollout_def)
  moreover have "{n..<n + min ms (int (card (roOld a)))} \<subseteq> {n..<n + ms}" by auto
  ultimately show ?thesis using assms(2) by (auto simp: wf_rollout_def pass(1))
qed

lemma distance_zero: "wf_rollout n ms a \<Longrightarrow> distance n mu a = 0 \<Longrightarrow> rolled_out n a"
  using wf_rollout_finite [of n ms a]
  by (auto simp: distance_def rolled_out_def complete_def split: if_splits)

lemma distance_decreases:
  assumes "rollout_pass n mu ms a b" and wf: "wf_rollout n ms a" and "0 \<le> mu" and "0 < mu \<or> 0 < ms" and "0 < distance n mu a"
  shows "distance n mu b < distance n mu a"
  using assms(1)
proof cases
  case (pass D)
  note fin = wf_rollout_finite [OF wf]
  have finD: "finite D" using pass(2) fin(2) by (rule finite_subset)
  have old: "card (roOld b) = card (roOld a) - card D" using pass(1,2) finD by (simp add: card_Diff_subset)
  have le: "card D \<le> card (roOld a)" using pass(2) fin(2) by (rule card_mono [rotated])
  have rest: "distance n mu b \<le> 3 * card (roOld b) + 2" by (simp add: distance_def)
  show ?thesis
  proof (cases "card D = 0")
    case False
    then have "card (roOld b) + 1 \<le> card (roOld a)" using old le by simp
    moreover have "3 * card (roOld a) \<le> distance n mu a" by (simp add: distance_def)
    ultimately show ?thesis using rest by linarith
  next
    case True
    then have D: "D = {}" using finD by simp
    have b: "complete n b" "roOld b = roOld a" "roSurge b = kept_surge n a \<union> {n..<n + min ms (int (card (roOld a)))}"
      using pass(1) D by (simp_all add: complete_def)
    show ?thesis
    proof (cases "complete n a")
      case False
      then show ?thesis using b by (simp add: distance_def)
    next
      case c: True
      show ?thesis
      proof (cases "roOld a = {}")
        case True
        then have "roSurge b = {}" using b(3) c by (simp add: kept_surge_def)
        moreover have "roSurge a \<noteq> {}" using assms(5) True c by (auto simp: distance_def split: if_splits)
        ultimately show ?thesis using b True c by (simp add: distance_def)
      next
        case False
        then have pos: "0 < card (roOld a)" using fin(2) by (simp add: card_gt_0_iff)
        have "0 \<le> n" using False wf c by (auto simp: wf_rollout_def complete_def)
        then have "int (card (roBase a)) = n" using c by (simp add: complete_def)
        then have "int (card (roSurge a)) + mu \<le> 0"
          using pass(3) True pos False by (simp add: kept_surge_def)
        then have "mu = 0" and "card (roSurge a) = 0" using assms(3) by linarith+
        then have s: "roSurge a = {}" using fin(3) by simp
        have "n \<in> roSurge b" using b(3) pos assms(4) \<open>mu = 0\<close> by simp
        then show ?thesis using b c False s \<open>mu = 0\<close> by (auto simp: distance_def)
      qed
    qed
  qed
qed

lemma rolled_out_stable: "rollout_pass n mu ms a b \<Longrightarrow> rolled_out n a \<Longrightarrow> rolled_out n b"
  by (auto simp: rolled_out_def kept_surge_def complete_def elim!: rollout_pass.cases)

section \<open>A working cluster\<close>

text \<open>
  What the cluster does between two passes: a deleted guest is gone, a created one runs. The
  API server accepts every write, has no claim and no service of the pool yet, and answers a
  listing with the effect of the writes so far.
\<close>

definition settle :: "PoolGuest \<Rightarrow> PoolGuest" where
  "settle g = g\<lparr>pgPhase := ''Running'', pgCreated := Some 0,
     pgConditions := [\<lparr>cnType = ''GuestRunning'', cnStatus = ''True'', cnReason = ''Running'', cnMessage = '''', cnTransition = 0\<rparr>]\<rparr>"

fun apply_event :: "PoolGuest list \<Rightarrow> pevent \<Rightarrow> PoolGuest list" where
  "apply_event gs (DeleteGuest n None) = filter (\<lambda>g. pgName g \<noteq> n) gs"
| "apply_event gs (CreateGuest g None) = gs @ [settle g]"
| "apply_event gs _ = gs"

definition cluster_env :: "SwiftGuestPool \<Rightarrow> (GuestSpec \<Rightarrow> string) \<Rightarrow> PoolNode list \<Rightarrow> PoolGuest list \<Rightarrow> penv" where
  "cluster_env pool hash nodes gs =
     \<lparr>pGetPool = \<lambda>_. Inr pool, pListGuests = \<lambda>h. Inr (foldl apply_event gs h), pGetClaim = \<lambda>_ _. Inl not_found,
      pListNodes = \<lambda>_. Inr nodes, pGetService = \<lambda>_ _. Inl not_found, pWrite = \<lambda>_. None,
      pOrder = \<lambda>_ ks. ks, pClock = \<lambda>_. 0, pHash = hash\<rparr>"

definition after_pass :: "SwiftGuestPool \<Rightarrow> (GuestSpec \<Rightarrow> string) \<Rightarrow> PoolNode list \<Rightarrow> PoolGuest list \<Rightarrow> PoolGuest list" where
  "after_pass pool hash nodes gs =
     (case Reconcile (cluster_env pool hash nodes gs) [] of
        None \<Rightarrow> gs
      | Some (_, h) \<Rightarrow> foldl apply_event gs h)"

text \<open>A clone needs a node to be placed on.\<close>

definition placeable :: "SwiftGuestPool \<Rightarrow> PoolNode list \<Rightarrow> bool" where
  "placeable pool nodes \<longleftrightarrow>
     gsCloneTargetNode (spTemplateSpec pool) = None \<or>
     list_ex (\<lambda>n. \<not> (pnUnschedulable n \<or> isControlPlaneNode n \<or> \<not> nodeIsReady n)) nodes"

section \<open>Runs without errors\<close>

text \<open>\<open>steps m x T h\<close>: after the history \<open>h\<close> the program returns \<open>x\<close> and takes the guests from one list to another by \<open>T\<close>.\<close>

definition steps :: "'a pprog \<Rightarrow> 'a \<Rightarrow> (PoolGuest list \<Rightarrow> PoolGuest list \<Rightarrow> bool) \<Rightarrow> pevent list \<Rightarrow> bool" where
  "steps m x T h \<longleftrightarrow> (\<exists>new. m h = Some (Inr x, h @ new) \<and> (\<forall>gs. T gs (foldl apply_event gs new)))"

lemma steps_ret: "(\<And>gs. T gs gs) \<Longrightarrow> steps (ret x) x T h"
  by (simp add: steps_def ret_def)

lemma steps_andThen:
  assumes "steps m x T h" and "\<And>h. steps (k x) y U h" and "\<And>a b c. T a b \<Longrightarrow> U b c \<Longrightarrow> V a c"
  shows "steps (andThen m k) y V h"
proof -
  obtain new where m: "m h = Some (Inr x, h @ new)" and T: "\<forall>gs. T gs (foldl apply_event gs new)"
    using assms(1) by (auto simp: steps_def)
  obtain new' where k: "k x (h @ new) = Some (Inr y, (h @ new) @ new')" and U: "\<forall>gs. U gs (foldl apply_event gs new')"
    using assms(2) [of "h @ new"] by (auto simp: steps_def)
  have "V gs (foldl apply_event (foldl apply_event gs new) new')" for gs using T U assms(3) by blast
  then show ?thesis unfolding steps_def using m k by (intro exI [of _ "new @ new'"]) (simp add: andThen_def)
qed

lemma steps_wrapErr: "steps m x T h \<Longrightarrow> steps (wrapErr s m) x T h"
  by (auto simp: steps_def wrapErr_def)

lemma steps_absent:
  assumes "f h = Inl not_found" and "\<And>r h. apply_event h (ev r) = h" and "steps absent x T (h @ [ev (Inl not_found)])"
  shows "steps (whenFound (answer ev f) absent failed found) x T h"
  using assms by (auto simp: steps_def whenFound_def andThen_def attempt_def answer_def not_found_def errors_Is_def)

text \<open>The calls against the cluster.\<close>

lemma steps_deleteGuest:
  "steps (deleteGuest (cluster_env pool hf nodes gs0) g) () (\<lambda>gs gs'. gs' = filter (\<lambda>x. pgName x \<noteq> pgName g) gs) h"
  by (simp add: steps_def deleteGuest_def acknowledge_def cluster_env_def)

lemma steps_createGuest: "steps (createGuest (cluster_env pool hf nodes gs0) g) () (\<lambda>gs gs'. gs' = gs @ [settle g]) h"
  by (simp add: steps_def createGuest_def acknowledge_def cluster_env_def)

definition is_replica :: "SwiftGuestPool \<Rightarrow> string \<Rightarrow> int \<Rightarrow> PoolGuest \<Rightarrow> bool" where
  "is_replica pool hash i g \<longleftrightarrow>
     pgName g = replica_name pool i \<and> isControlledBy g pool \<and> guestReady g \<and> \<not> outdated hash g"

lemma is_replica_settled: "is_replica pool hash i (settle (new_replica pool i hash n disks spec))"
  by (simp add: is_replica_def settle_def new_replica_def isControlledBy_def guestReady_def outdated_def
      replica_annotations_def at_def AnnotationTemplateHash_def AnnotationReplacementAttempt_def)

lemma steps_ensure_claims:
  "\<exists>disks. \<forall>h. steps (ensure_claims (cluster_env pool hf nodes gs0) pool i ts) disks (\<lambda>gs gs'. gs' = gs) h"
proof (induction ts)
  case Nil
  show ?case by (auto intro: steps_ret)
next
  case (Cons t ts)
  then obtain disks where rest: "\<And>h. steps (ensure_claims (cluster_env pool hf nodes gs0) pool i ts) disks (\<lambda>gs gs'. gs' = gs) h"
    by blast
  have mk: "steps (createClaim (cluster_env pool hf nodes gs0) c) () (\<lambda>gs gs'. gs' = gs) h" for c h
    by (simp add: steps_def createClaim_def acknowledge_def cluster_env_def)
  have one: "steps (ensurePVC (cluster_env pool hf nodes gs0) pool t i) (pvcName (vtName t) (spName pool) i) (\<lambda>gs gs'. gs' = gs) h" for h
    unfolding ensurePVC_def getClaim_def Let_def
    by (rule steps_absent, simp add: cluster_env_def, simp)
      (rule steps_andThen [OF steps_wrapErr [OF mk] steps_ret [where T = "\<lambda>gs gs'. gs' = gs"]], simp_all)
  show ?case
    unfolding ensure_claims.simps by (intro exI allI, rule steps_andThen [OF one], rule steps_andThen [OF rest]) (auto intro: steps_ret)
qed

lemma steps_assignCloneTargetNode:
  assumes "placeable pool nodes" and "gsCloneTargetNode spec \<noteq> None \<longrightarrow> gsCloneTargetNode (spTemplateSpec pool) \<noteq> None"
  shows "\<exists>spec'. \<forall>h. steps (assignCloneTargetNode (cluster_env pool hf nodes gs0) spec i) spec' (\<lambda>gs gs'. gs' = gs) h"
proof (cases "gsCloneTargetNode spec")
  case None
  then show ?thesis by (auto simp: assignCloneTargetNode_def intro: steps_ret)
next
  case (Some _)
  let ?names = "sort (map pnName (filter (\<lambda>n. \<not> (pnUnschedulable n \<or> isControlPlaneNode n \<or> \<not> nodeIsReady n)) nodes))"
  have names: "steps (schedulableWorkerNodes (cluster_env pool hf nodes gs0)) ?names (\<lambda>gs gs'. gs' = gs) h" for h
    by (simp add: steps_def schedulableWorkerNodes_def listNodes_def answer_def andThen_def ret_def cluster_env_def)
  have "set ?names \<noteq> {}" using assms Some by (auto simp: placeable_def list_ex_iff filter_empty_conv)
  then have ne: "?names \<noteq> []" by (metis list.set(1))
  have "steps (assignCloneTargetNode (cluster_env pool hf nodes gs0) spec i)
      (spec\<lparr>gsCloneTargetNode := Some (?names ! nat (i mod int (length ?names)))\<rparr>) (\<lambda>gs gs'. gs' = gs) h" for h
    unfolding assignCloneTargetNode_def Some option.case
    by (rule steps_andThen [OF names, where U = "\<lambda>gs gs'. gs' = gs"]) (use ne in \<open>auto intro: steps_ret\<close>)
  then show ?thesis by blast
qed

lemma steps_create_replicas:
  assumes "placeable pool nodes"
  shows "steps (create_replicas (cluster_env pool hf nodes gs0) pool hash atts ks) ()
    (\<lambda>gs gs'. \<exists>cs. gs' = gs @ cs \<and> list_all2 (is_replica pool hash) ks cs) h"
proof (induction ks arbitrary: h)
  case Nil
  show ?case by (auto intro: steps_ret)
next
  case (Cons i ks)
  have "gsCloneTargetNode (with_ports pool) = gsCloneTargetNode (spTemplateSpec pool)"
    by (simp add: with_ports_def Let_def split: option.split)
  then obtain spec where spec:
      "\<And>h. steps (assignCloneTargetNode (cluster_env pool hf nodes gs0) (with_ports pool) i) spec (\<lambda>gs gs'. gs' = gs) h"
    using steps_assignCloneTargetNode [OF assms, of "with_ports pool"] by (metis (no_types))
  obtain disks where disks:
      "\<And>h. steps (ensure_claims (cluster_env pool hf nodes gs0) pool i (spVolumeClaimTemplates pool)) disks (\<lambda>gs gs'. gs' = gs) h"
    using steps_ensure_claims by blast
  have "steps (createSwiftGuest (cluster_env pool hf nodes gs0) pool i hash n) ()
      (\<lambda>gs gs'. \<exists>c. gs' = gs @ [c] \<and> is_replica pool hash i c) h" for n h
    unfolding createSwiftGuest_def
    by (rule steps_andThen [OF disks], rule steps_andThen [OF steps_wrapErr [OF spec]], rule steps_wrapErr [OF steps_createGuest])
      (auto intro: is_replica_settled)
  note one = this
  show ?case
    unfolding create_replicas.simps by (rule steps_andThen [OF one], rule Cons.IH) auto
qed

lemma steps_delete_replicas:
  "steps (delete_replicas (cluster_env pool hf nodes gs0) m ks) ()
    (\<lambda>gs gs'. gs' = filter (\<lambda>g. pgName g \<notin> (\<lambda>i. pgName (guest_at m i)) ` set ks) gs) h"
proof (induction ks arbitrary: h)
  case Nil
  show ?case by (auto intro: steps_ret)
next
  case (Cons i ks)
  show ?case
    unfolding delete_replicas.simps by (rule steps_andThen [OF steps_deleteGuest], rule Cons.IH) (auto intro: filter_cong)
qed

section \<open>Passes are abstract steps\<close>

text \<open>Between two passes every guest of the namespace is a running replica of the pool.\<close>

definition settled :: "SwiftGuestPool \<Rightarrow> string \<Rightarrow> PoolGuest list \<Rightarrow> bool" where
  "settled pool hash gs \<longleftrightarrow>
     distinct (map pgName gs) \<and>
     list_all (\<lambda>g. isControlledBy g pool \<and> guestReady g \<and>
       list_ex (\<lambda>i. pgName g = replica_name pool i \<and> (spReplicas pool \<le> i \<longrightarrow> \<not> outdated hash g))
         [0..spReplicas pool + snd (snd (rolloutParams pool)) - 1]) gs"

definition abs_rollout :: "SwiftGuestPool \<Rightarrow> string \<Rightarrow> PoolGuest list \<Rightarrow> rollout" where
  "abs_rollout pool hash gs =
     (let n = spReplicas pool; ms = snd (snd (rolloutParams pool))
      in \<lparr>roBase = {i \<in> {0..<n}. \<exists>g \<in> set gs. pgName g = replica_name pool i},
          roOld = {i \<in> {0..<n}. \<exists>g \<in> set gs. pgName g = replica_name pool i \<and> outdated hash g},
          roSurge = {i \<in> {n..<n + ms}. \<exists>g \<in> set gs. pgName g = replica_name pool i}\<rparr>)"

lemma wf_abs_rollout: "wf_rollout (spReplicas pool) (snd (snd (rolloutParams pool))) (abs_rollout pool hash gs)"
  by (auto simp: wf_rollout_def abs_rollout_def Let_def)

lemma update_new_key: "k \<notin> fst ` set m \<Longrightarrow> AList.update k v m = m @ [(k, v)]"
  by (induction m) auto

lemma buildIndexMap_eq:
  assumes "\<And>g. g \<in> set gs \<Longrightarrow> index_of pool (pgName g) = Some (f g)" and "distinct (map f gs)"
  shows "buildIndexMap pool gs = map (\<lambda>g. (f g, g)) gs"
  using assms
proof (induction gs rule: rev_induct)
  case (snoc g gs)
  then have "f g \<notin> fst ` set (map (\<lambda>g. (f g, g)) gs)" by auto
  moreover have "buildIndexMap pool gs = map (\<lambda>g. (f g, g)) gs" using snoc by simp
  ultimately show ?case
    using snoc.prems(1) [of g] by (simp add: buildIndexMap_def update_new_key)
qed (simp add: buildIndexMap_def)

text \<open>A pool during a rolling update, with its parameters within the bounds of the API.\<close>

definition rolling :: "SwiftGuestPool \<Rightarrow> string \<Rightarrow> int \<Rightarrow> int \<Rightarrow> PoolGuest list \<Rightarrow> bool" where
  "rolling pool hash mu ms gs \<longleftrightarrow>
     rolloutParams pool = (UpdateStrategyRollingUpdate, mu, ms) \<and>
     0 \<le> spReplicas pool \<and> 0 \<le> mu \<and> 0 \<le> ms \<and> spReplicas pool + ms \<le> 2 ^ 63 \<and> settled pool hash gs"

abbreviation view :: "SwiftGuestPool \<Rightarrow> PoolGuest list \<Rightarrow> replicas" where
  "view pool gs \<equiv> buildIndexMap (spName pool) gs"

lemma rolling_guest:
  assumes "rolling pool hash mu ms gs" and "g \<in> set gs"
  obtains i where "pgName g = replica_name pool i" "0 \<le> i" "i < spReplicas pool + ms"
    "spReplicas pool \<le> i \<longrightarrow> \<not> outdated hash g" "isControlledBy g pool" "guestReady g"
    "index_of (spName pool) (pgName g) = Some i"
proof -
  have ro: "rolloutParams pool = (UpdateStrategyRollingUpdate, mu, ms)" "spReplicas pool + ms \<le> 2 ^ 63"
    and all: "list_all (\<lambda>g. isControlledBy g pool \<and> guestReady g \<and>
       list_ex (\<lambda>i. pgName g = replica_name pool i \<and> (spReplicas pool \<le> i \<longrightarrow> \<not> outdated hash g)) [0..spReplicas pool + ms - 1]) gs"
    using assms(1) by (auto simp: rolling_def settled_def)
  obtain i where i: "pgName g = replica_name pool i" "0 \<le> i" "i < spReplicas pool + ms"
      "spReplicas pool \<le> i \<longrightarrow> \<not> outdated hash g" "isControlledBy g pool" "guestReady g"
    using all assms(2) by (auto simp: list_all_iff list_ex_iff)
  have "index_of (spName pool) (pgName g) = Some i"
    unfolding i(1) by (rule index_of_replica_name) (use i(2,3) ro(2) in linarith)+
  with i show thesis by (rule that)
qed

lemma rolling_distinct: "rolling pool hash mu ms gs \<Longrightarrow> distinct (map pgName gs)"
  by (simp add: rolling_def settled_def)

lemma view_eq:
  assumes st: "rolling pool hash mu ms gs"
  shows "view pool gs = map (\<lambda>g. (the (index_of (spName pool) (pgName g)), g)) gs"
proof (rule buildIndexMap_eq)
  show "distinct (map (\<lambda>g. the (index_of (spName pool) (pgName g))) gs)"
    unfolding distinct_map
  proof (intro conjI inj_onI)
    show "distinct gs" using rolling_distinct [OF st] by (simp add: distinct_map)
    fix g g'
    assume g: "g \<in> set gs" "g' \<in> set gs" "the (index_of (spName pool) (pgName g)) = the (index_of (spName pool) (pgName g'))"
    have "pgName g = pgName g'"
      by (rule rolling_guest [OF st g(1)], rule rolling_guest [OF st g(2)]) (use g(3) in simp)
    then show "g = g'" using g rolling_distinct [OF st] by (auto simp: distinct_map inj_on_def)
  qed
next
  fix g
  assume "g \<in> set gs"
  then show "index_of (spName pool) (pgName g) = Some (the (index_of (spName pool) (pgName g)))"
    by (rule rolling_guest [OF st]) simp
qed

lemma in_view:
  assumes st: "rolling pool hash mu ms gs"
  shows "(i, g) \<in> set (view pool gs) \<longleftrightarrow> g \<in> set gs \<and> pgName g = replica_name pool i \<and> 0 \<le> i \<and> i < spReplicas pool + ms"
proof
  assume v: "(i, g) \<in> set (view pool gs)"
  then have g: "g \<in> set gs" by (auto simp: view_eq [OF st])
  moreover have "index_of (spName pool) (pgName g) = Some i"
    using v wf_buildIndexMap [of "spName pool" gs] by (auto simp: wf_replicas_def list_all_iff)
  ultimately show "g \<in> set gs \<and> pgName g = replica_name pool i \<and> 0 \<le> i \<and> i < spReplicas pool + ms"
    by (auto elim: rolling_guest [OF st])
next
  assume g: "g \<in> set gs \<and> pgName g = replica_name pool i \<and> 0 \<le> i \<and> i < spReplicas pool + ms"
  have "spReplicas pool + ms \<le> 2 ^ 63" using st by (simp add: rolling_def)
  with g have "index_of (spName pool) (replica_name pool i) = Some i" by (intro index_of_replica_name) auto
  with g show "(i, g) \<in> set (view pool gs)" by (force simp: view_eq [OF st])
qed

lemma fst_image_iff: "i \<in> fst ` set m \<longleftrightarrow> (\<exists>g. (i, g) \<in> set m)"
  by force

lemma fst_filter_iff: "i \<in> fst ` set (filter (\<lambda>(i, _). P i) m) \<longleftrightarrow> i \<in> fst ` set m \<and> P i"
  by (induction m) auto

lemma abs_iff:
  assumes st: "rolling pool hash mu ms gs"
  shows "i \<in> roBase (abs_rollout pool hash gs) \<longleftrightarrow> i < spReplicas pool \<and> i \<in> fst ` set (view pool gs)"
    and "i \<in> roSurge (abs_rollout pool hash gs) \<longleftrightarrow> spReplicas pool \<le> i \<and> i \<in> fst ` set (view pool gs)"
    and "i \<in> roOld (abs_rollout pool hash gs) \<longleftrightarrow> (\<exists>g. (i, g) \<in> set (view pool gs) \<and> outdated hash g)"
proof -
  have ro: "snd (snd (rolloutParams pool)) = ms" "0 \<le> spReplicas pool" "0 \<le> ms" using st by (simp_all add: rolling_def)
  have key: "i \<in> fst ` set (view pool gs) \<longleftrightarrow> (\<exists>g \<in> set gs. pgName g = replica_name pool i) \<and> 0 \<le> i \<and> i < spReplicas pool + ms"
    by (auto simp: fst_image_iff in_view [OF st])
  show "i \<in> roBase (abs_rollout pool hash gs) \<longleftrightarrow> i < spReplicas pool \<and> i \<in> fst ` set (view pool gs)"
    and "i \<in> roSurge (abs_rollout pool hash gs) \<longleftrightarrow> spReplicas pool \<le> i \<and> i \<in> fst ` set (view pool gs)"
    unfolding key using ro by (auto simp: abs_rollout_def Let_def)
  have "i < spReplicas pool" if g: "(i, g) \<in> set (view pool gs)" "outdated hash g" for g
  proof -
    have "g \<in> set gs" using g(1) in_view [OF st] by simp
    moreover have "index_of (spName pool) (pgName g) = Some i"
      using g(1) wf_buildIndexMap [of "spName pool" gs] by (auto simp: wf_replicas_def list_all_iff)
    ultimately show ?thesis using g(2) by (auto elim!: rolling_guest [OF st])
  qed
  then show "i \<in> roOld (abs_rollout pool hash gs) \<longleftrightarrow> (\<exists>g. (i, g) \<in> set (view pool gs) \<and> outdated hash g)"
    using ro by (auto simp: abs_rollout_def Let_def in_view [OF st])
qed

lemma view_ready: "rolling pool hash mu ms gs \<Longrightarrow> (i, g) \<in> set (view pool gs) \<Longrightarrow> guestReady g"
  by (auto simp: in_view elim: rolling_guest)

text \<open>Which surge replicas a pass keeps.\<close>

lemma scaled_iff:
  assumes st: "rolling pool hash mu ms gs" and i: "i \<in> fst ` set (view pool gs)"
  shows "scaled pool (view pool gs) hash i \<longleftrightarrow>
    i \<in> roSurge (abs_rollout pool hash gs) \<and> i \<notin> kept_surge (spReplicas pool) (abs_rollout pool hash gs)"
proof -
  let ?m = "view pool gs" and ?a = "abs_rollout pool hash gs" and ?n = "spReplicas pool"
  have ro: "rolloutParams pool = (UpdateStrategyRollingUpdate, mu, ms)" "0 \<le> ms" using st by (simp_all add: rolling_def)
  have wf: "wf_replicas (spName pool) ?m" by (rule wf_buildIndexMap)
  obtain g where g: "(i, g) \<in> set ?m" using i by auto
  then have mi: "map_of ?m i = Some g" using wf_map_of [OF wf] by simp
  have ready: "guestReady g" "\<not> pgDeleting g" using view_ready [OF st g] by (simp_all add: guestReady_def)
  have below: "i < ?n + ms" "0 \<le> i" using g in_view [OF st] by simp_all
  have left: "list_ex (\<lambda>i. case map_of ?m i of None \<Rightarrow> False | Some g \<Rightarrow> outdated hash g) [0..?n - 1] \<longleftrightarrow> roOld ?a \<noteq> {}"
  proof -
    have "j \<in> {0..?n - 1}" if "j \<in> roOld ?a" for j
      using that wf_abs_rollout [of pool hash gs] by (auto simp: wf_rollout_def)
    moreover have "j \<in> roOld ?a \<longleftrightarrow> (\<exists>g. map_of ?m j = Some g \<and> outdated hash g)" for j
      by (simp add: abs_iff(3) [OF st] wf_map_of [OF wf])
    ultimately have "(\<exists>j \<in> {0..?n - 1}. \<exists>g. map_of ?m j = Some g \<and> outdated hash g) \<longleftrightarrow> roOld ?a \<noteq> {}" by blast
    moreover have "(case x of None \<Rightarrow> False | Some g \<Rightarrow> outdated hash g) \<longleftrightarrow> (\<exists>g. x = Some g \<and> outdated hash g)" for x
      by (simp split: option.split)
    ultimately show ?thesis by (simp add: list_ex_iff)
  qed
  have miss: "list_ex (\<lambda>i. case map_of ?m i of None \<Rightarrow> True | Some g \<Rightarrow> \<not> guestReady g) [0..?n - 1] \<longleftrightarrow> \<not> complete ?n ?a"
  proof -
    have "(\<exists>i \<in> {0..?n - 1}. map_of ?m i = None) \<longleftrightarrow> \<not> complete ?n ?a"
      using abs_iff(1) [OF st] wf_abs_rollout [of pool hash gs]
      by (auto simp: complete_def wf_rollout_def map_of_eq_None_iff)
    moreover have "guestReady g'" if "map_of ?m j = Some g'" for j g' using that view_ready [OF st] wf_map_of [OF wf] by blast
    ultimately show ?thesis by (auto simp: list_ex_iff split: option.splits)
  qed
  have cur: "\<not> outdated hash g" if "?n \<le> i"
    using that g abs_iff(3) [OF st, of i] wf_abs_rollout [of pool hash gs] by (force simp: wf_rollout_def)
  have "i \<in> set (surgeReplicasToKeep pool ?m hash ?n) \<longleftrightarrow> ?n \<le> i \<and> (roOld ?a \<noteq> {} \<or> \<not> complete ?n ?a)"
    unfolding surgeReplicasToKeep_def ro Let_def prod.case left miss
    using mi ready below cur by auto
  then show ?thesis
    using i abs_iff(2) [OF st, of i] by (auto simp: scaled_def set_findExcessIndices kept_surge_def)
qed

text \<open>The loops of a pass over running replicas.\<close>

lemma steps_replace_failed:
  assumes "\<And>i g. map_of m i = Some g \<Longrightarrow> guestReady g"
  shows "steps (replace_failed E hash d ks m atts b) (m, atts, b) (\<lambda>gs gs'. gs' = gs) h"
proof (induction ks)
  case (Cons i ks)
  have "\<not> replaceable d i g" if "map_of m i = Some g" for g
    using assms [OF that] by (simp add: replaceable_def guestReady_def)
  then show ?case using Cons by (simp split: option.split)
qed (simp add: steps_ret)

lemma names_where_delete:
  assumes "distinct (map fst m)" and "(i, g) \<in> set m" and "P i g"
  shows "names_where m P = insert (pgName g) (names_where (AList.delete i m) P)"
  using assms by (auto simp: names_where_def AList.delete_eq dest: eq_key_imp_eq_value)

lemma steps_scale_down:
  assumes "distinct (map fst m)" and "set ks \<subseteq> fst ` set m" and "distinct ks"
  shows "steps (scale_down (cluster_env pool hf nodes gs0) keep ks m b)
    (filter (\<lambda>(i, _). i \<notin> set ks \<or> i \<in> set keep) m, b \<or> list_ex (\<lambda>i. i \<in> set keep) ks)
    (\<lambda>gs gs'. gs' = filter (\<lambda>g. pgName g \<notin> names_where m (\<lambda>i _. i \<in> set ks \<and> i \<notin> set keep)) gs) h"
  using assms
proof (induction ks arbitrary: m b h)
  case Nil
  then show ?case by (simp add: names_where_def filter_id_conv steps_ret)
next
  case (Cons i ks)
  show ?case
  proof (cases "i \<in> set keep")
    case True
    have "filter (\<lambda>(j, _). j \<notin> set (i # ks) \<or> j \<in> set keep) m = filter (\<lambda>(j, _). j \<notin> set ks \<or> j \<in> set keep) m"
      using True by (intro filter_cong) auto
    moreover have "names_where m (\<lambda>j _. j \<in> set (i # ks) \<and> j \<notin> set keep) = names_where m (\<lambda>j _. j \<in> set ks \<and> j \<notin> set keep)"
      using True by (auto simp: names_where_def)
    ultimately show ?thesis using Cons.IH [of m True] Cons.prems True by simp
  next
    case False
    let ?m = "AList.delete i m"
    have g: "(i, guest_at m i) \<in> set m" using Cons.prems(2) by (simp add: guest_at_mem)
    have "set ks \<subseteq> fst ` set ?m" using Cons.prems by (force simp: AList.delete_eq)
    then have rest: "steps (scale_down (cluster_env pool hf nodes gs0) keep ks ?m b)
        (filter (\<lambda>(i, _). i \<notin> set ks \<or> i \<in> set keep) ?m, b \<or> list_ex (\<lambda>i. i \<in> set keep) ks)
        (\<lambda>gs gs'. gs' = filter (\<lambda>g. pgName g \<notin> names_where ?m (\<lambda>i _. i \<in> set ks \<and> i \<notin> set keep)) gs) h" for h
      using Cons.prems by (intro Cons.IH) (auto simp: AList.delete_eq distinct_map_filter)
    have eq1: "filter (\<lambda>(j, _). j \<notin> set ks \<or> j \<in> set keep) ?m = filter (\<lambda>(j, _). j \<notin> set (i # ks) \<or> j \<in> set keep) m"
      using False by (auto simp: AList.delete_eq intro!: filter_cong)
    have "names_where ?m (\<lambda>j _. j \<in> set (i # ks) \<and> j \<notin> set keep) = names_where ?m (\<lambda>j _. j \<in> set ks \<and> j \<notin> set keep)"
      by (auto simp: names_where_def AList.delete_eq)
    then have eq2: "names_where m (\<lambda>j _. j \<in> set (i # ks) \<and> j \<notin> set keep) =
        insert (pgName (guest_at m i)) (names_where ?m (\<lambda>j _. j \<in> set ks \<and> j \<notin> set keep))"
      using names_where_delete [OF Cons.prems(1) g, of "\<lambda>j _. j \<in> set (i # ks) \<and> j \<notin> set keep"] False by simp
    have "steps (andThen (deleteGuest (cluster_env pool hf nodes gs0) (guest_at m i)) (\<lambda>_. scale_down (cluster_env pool hf nodes gs0) keep ks ?m b))
        (filter (\<lambda>(i, _). i \<notin> set ks \<or> i \<in> set keep) ?m, b \<or> list_ex (\<lambda>i. i \<in> set keep) ks)
        (\<lambda>gs gs'. gs' = filter (\<lambda>g. pgName g \<notin> insert (pgName (guest_at m i)) (names_where ?m (\<lambda>j _. j \<in> set ks \<and> j \<notin> set keep))) gs) h'" for h'
      by (rule steps_andThen [OF steps_deleteGuest rest]) (auto intro: filter_cong)
    moreover have "list_ex (\<lambda>i. i \<in> set keep) (i # ks) = list_ex (\<lambda>i. i \<in> set keep) ks" using False by simp
    ultimately show ?thesis using False by (simp only: scale_down.simps if_False eq1 eq2)
  qed
qed

lemma steps_replace_idle:
  assumes "\<And>i. i \<in> set ks \<Longrightarrow> guestReady (guest_at m i)"
  shows "steps (replace_idle E m d ks) (filter (\<lambda>i. i < d) ks) (\<lambda>gs gs'. gs' = gs) h"
  using assms
proof (induction ks arbitrary: h)
  case (Cons i ks)
  then have ready: "guestReady (guest_at m i)" "\<not> pgDeleting (guest_at m i)" by (simp_all add: guestReady_def)
  have rest: "steps (replace_idle E m d ks) (filter (\<lambda>i. i < d) ks) (\<lambda>gs gs'. gs' = gs) h" for h using Cons by simp
  show ?case
  proof (cases "d \<le> i")
    case True
    then show ?thesis using rest by (simp add: Let_def)
  next
    case False
    have "steps (andThen (replace_idle E m d ks) (\<lambda>js. ret (i # js))) (i # filter (\<lambda>i. i < d) ks) (\<lambda>gs gs'. gs' = gs) h'" for h'
      by (rule steps_andThen [OF rest, where U = "\<lambda>gs gs'. gs' = gs"]) (auto intro: steps_ret)
    then show ?thesis using False ready by (simp add: Let_def)
  qed
qed (simp add: steps_ret)

lemma steps_rollout_step:
  assumes ro: "rolloutParams pool = (UpdateStrategyRollingUpdate, mu, ms)" and act: "mu \<noteq> 0 \<or> ms \<noteq> 0"
    and wf: "wf_replicas pool' m" and ready: "\<And>i g. (i, g) \<in> set m \<Longrightarrow> guestReady g"
    and below: "\<And>i. i \<in> set (outdated_indices m hash) \<Longrightarrow> i < spReplicas pool" and pl: "placeable pool nodes"
  shows "steps (rollout_step (cluster_env pool hf nodes gs0) pool m hash) (hasOutdatedGuests m hash)
    (\<lambda>gs gs'. \<exists>cs. list_all2 (is_replica pool hash)
         (surge_indices m (spReplicas pool) ms (length (outdated_indices m hash))) cs \<and>
       gs' = filter (\<lambda>g. pgName g \<notin> (\<lambda>i. pgName (guest_at m i)) `
         set (take (nat (int (length m) - (spReplicas pool - mu))) (outdated_indices m hash))) (gs @ cs)) h"
proof (cases "hasOutdatedGuests m hash")
  case False
  then have "outdated_indices m hash = []"
    by (auto simp: hasOutdatedGuests_def outdated_indices_def list_ex_iff filter_empty_conv)
  then show ?thesis using False by (auto simp: rollout_step_def surge_indices_def intro!: steps_ret)
next
  case True
  let ?E = "cluster_env pool hf nodes gs0" and ?old = "outdated_indices m hash" and ?n = "spReplicas pool"
  let ?take = "take (nat (int (length m) - (?n - mu))) ?old"
  have "UpdateStrategyRollingUpdate \<noteq> UpdateStrategyRecreate"
    by (simp add: UpdateStrategyRollingUpdate_def UpdateStrategyRecreate_def)
  moreover have "serving m = m" using ready by (auto simp: serving_def filter_id_conv)
  ultimately have eq: "rollout_step ?E pool m hash =
      andThen (replace_idle ?E m ?n ?old)
        (\<lambda>js. andThen (create_replicas ?E pool hash [] (surge_indices m ?n ms (length js)))
           (\<lambda>_. andThen (delete_replicas ?E m (take (nat (int (length m) - (?n - mu))) js)) (\<lambda>_. ret True)))"
    using True ro act by (auto simp: rollout_step_def reconcileRollingUpdate_def Let_def)
  have idle: "steps (replace_idle ?E m ?n ?old) ?old (\<lambda>gs gs'. gs' = gs) h"
  proof -
    have "guestReady (guest_at m i)" if "i \<in> set ?old" for i
    proof -
      have "i \<in> fst ` set m" using that by (force simp: set_outdated_indices)
      then show ?thesis using ready guest_at_mem [of i m] by blast
    qed
    moreover have "filter (\<lambda>i. i < ?n) ?old = ?old" using below by (simp add: filter_id_conv)
    ultimately show ?thesis using steps_replace_idle [of ?old m ?E ?n h] by simp
  qed
  have del: "steps (andThen (delete_replicas ?E m ?take) (\<lambda>_. ret True)) True
      (\<lambda>gs gs'. gs' = filter (\<lambda>g. pgName g \<notin> (\<lambda>i. pgName (guest_at m i)) ` set ?take) gs) h" for h
    by (rule steps_andThen [OF steps_delete_replicas steps_ret [where T = "\<lambda>gs gs'. gs' = gs"]]) auto
  have "steps (andThen (create_replicas ?E pool hash [] (surge_indices m ?n ms (length ?old)))
        (\<lambda>_. andThen (delete_replicas ?E m ?take) (\<lambda>_. ret True))) True
      (\<lambda>gs gs'. \<exists>cs. list_all2 (is_replica pool hash) (surge_indices m ?n ms (length ?old)) cs \<and>
         gs' = filter (\<lambda>g. pgName g \<notin> (\<lambda>i. pgName (guest_at m i)) ` set ?take) (gs @ cs)) h" for h
    by (rule steps_andThen [OF steps_create_replicas [OF pl] del]) blast
  then show ?thesis
    unfolding eq using True by (intro steps_andThen [OF idle]) auto
qed

text \<open>What a pass does to the guests of a pool.\<close>

definition pass_result :: "SwiftGuestPool \<Rightarrow> string \<Rightarrow> int \<Rightarrow> int \<Rightarrow> PoolGuest list \<Rightarrow> PoolGuest list \<Rightarrow> bool" where
  "pass_result pool hash mu ms gs gs' \<longleftrightarrow>
     (let m = view pool gs; m2 = filter (\<lambda>(i, _). \<not> scaled pool m hash i) m; n = spReplicas pool; old = outdated_indices m2 hash
      in \<exists>cs ds. list_all2 (is_replica pool hash) (findMissingIndices m2 n) cs \<and>
           list_all2 (is_replica pool hash) (surge_indices m2 n ms (length old)) ds \<and>
           gs' = filter (\<lambda>g. pgName g \<notin> (\<lambda>i. pgName (guest_at m2 i)) ` set (take (nat (int (length m2) - (n - mu))) old))
             (filter (\<lambda>g. pgName g \<notin> names_where m (\<lambda>i _. scaled pool m hash i)) gs @ cs @ ds))"

lemma reconcile_replicas_steps:
  assumes st: "rolling pool hash mu ms gs" and act: "mu \<noteq> 0 \<or> ms \<noteq> 0" and pl: "placeable pool nodes"
  shows "\<exists>x. \<forall>h. \<exists>new. reconcile_replicas (cluster_env pool hf nodes gs0) pool (view pool gs) hash h = Some (Inr x, h @ new) \<and>
    pass_result pool hash mu ms gs (foldl apply_event gs new)"
proof -
  let ?E = "cluster_env pool hf nodes gs0" and ?m = "view pool gs" and ?n = "spReplicas pool"
  let ?keep = "surgeReplicasToKeep pool ?m hash ?n" and ?m2 = "filter (\<lambda>(i, _). \<not> scaled pool ?m hash i) ?m"
  have ro: "rolloutParams pool = (UpdateStrategyRollingUpdate, mu, ms)" using st by (simp add: rolling_def)
  have wf: "wf_replicas (spName pool) ?m" by (rule wf_buildIndexMap)
  have ready: "guestReady g" if "(i, g) \<in> set ?m" for i g using view_ready [OF st that] .
  have keys: "steps (rangeKeys ?E ?m) (map fst ?m) (\<lambda>gs gs'. gs' = gs) h" for h
    by (simp add: steps_def rangeKeys_def cluster_env_def)
  have failed: "steps (replace_failed ?E hash ?n (map fst ?m) ?m [] 0) (?m, [], 0) (\<lambda>gs gs'. gs' = gs) h" for h
    using ready by (intro steps_replace_failed) (auto dest: map_of_SomeD)
  have down: "steps (scale_down ?E ?keep (findExcessIndices ?m ?n) ?m False)
      (?m2, list_ex (\<lambda>i. i \<in> set ?keep) (findExcessIndices ?m ?n))
      (\<lambda>gs gs'. gs' = filter (\<lambda>g. pgName g \<notin> names_where ?m (\<lambda>i _. scaled pool ?m hash i)) gs) h" for h
  proof -
    have "distinct (map fst ?m)" "set (findExcessIndices ?m ?n) \<subseteq> fst ` set ?m"
      using wf by (auto simp: wf_replicas_def set_findExcessIndices)
    from steps_scale_down [OF this distinct_findExcessIndices [OF wf], of pool hf nodes gs0 ?keep False h]
    show ?thesis unfolding scaled_def de_Morgan_conj not_not by (simp only: simp_thms)
  qed
  have below: "i < ?n" if "i \<in> set (outdated_indices ?m2 hash)" for i
    using that abs_iff(3) [OF st, of i] wf_abs_rollout [of pool hash gs] by (force simp: set_outdated_indices wf_rollout_def)
  have roll: "steps (rollout_step ?E pool ?m2 hash) (hasOutdatedGuests ?m2 hash)
    (\<lambda>gs gs'. \<exists>cs. list_all2 (is_replica pool hash) (surge_indices ?m2 ?n ms (length (outdated_indices ?m2 hash))) cs \<and>
       gs' = filter (\<lambda>g. pgName g \<notin> (\<lambda>i. pgName (guest_at ?m2 i)) `
         set (take (nat (int (length ?m2) - (?n - mu))) (outdated_indices ?m2 hash))) (gs @ cs)) h" for h
    using ready by (intro steps_rollout_step [OF ro act wf_filter [OF wf] _ below pl]) auto
  let ?U = "\<lambda>gs gs'. \<exists>cs ds. list_all2 (is_replica pool hash) (findMissingIndices ?m2 ?n) cs \<and>
       list_all2 (is_replica pool hash) (surge_indices ?m2 ?n ms (length (outdated_indices ?m2 hash))) ds \<and>
       gs' = filter (\<lambda>g. pgName g \<notin> (\<lambda>i. pgName (guest_at ?m2 i)) `
         set (take (nat (int (length ?m2) - (?n - mu))) (outdated_indices ?m2 hash))) (gs @ cs @ ds)"
  have rest: "steps (andThen (rollout_step ?E pool ?m2 hash) (\<lambda>more. ret (0, req \<or> more))) (0, req \<or> hasOutdatedGuests ?m2 hash)
    (\<lambda>gs gs'. \<exists>cs. list_all2 (is_replica pool hash) (surge_indices ?m2 ?n ms (length (outdated_indices ?m2 hash))) cs \<and>
       gs' = filter (\<lambda>g. pgName g \<notin> (\<lambda>i. pgName (guest_at ?m2 i)) `
         set (take (nat (int (length ?m2) - (?n - mu))) (outdated_indices ?m2 hash))) (gs @ cs)) h" for req :: bool and h
    by (rule steps_andThen [OF roll steps_ret [where T = "\<lambda>gs gs'. gs' = gs"]]) auto
  have create: "steps (andThen (create_replicas ?E pool hash [] (findMissingIndices ?m2 ?n))
      (\<lambda>_. andThen (rollout_step ?E pool ?m2 hash) (\<lambda>more. ret (0, req \<or> more)))) (0, req \<or> hasOutdatedGuests ?m2 hash) ?U h" for req :: bool and h
    by (rule steps_andThen [OF steps_create_replicas [OF pl] rest])
      (elim exE conjE, intro exI conjI, assumption, assumption, simp only: append_assoc)
  let ?req = "list_ex (\<lambda>i. i \<in> set ?keep) (findExcessIndices ?m ?n)"
  have "steps (reconcile_replicas ?E pool ?m hash) (0, ?req \<or> hasOutdatedGuests ?m2 hash)
    (\<lambda>gs gs'. ?U (filter (\<lambda>g. pgName g \<notin> names_where ?m (\<lambda>i _. scaled pool ?m hash i)) gs) gs') h" for h
    unfolding reconcile_replicas_def Let_def
    by (rule steps_andThen [OF keys], rule steps_andThen [OF failed], unfold prod.case,
        rule steps_andThen [OF down], unfold prod.case, rule create) (simp_all only:)
  then show ?thesis
    unfolding steps_def pass_result_def Let_def by blast
qed

lemma replica_name_inj:
  assumes "0 \<le> i" "i < 2 ^ 63" "0 \<le> j" "j < 2 ^ 63" and "replica_name pool i = replica_name pool j"
  shows "i = j"
proof -
  have le: "- (2 ^ 63) \<le> (0 :: int)" by simp
  have "Some i = index_of (spName pool) (replica_name pool i)"
    by (rule index_of_replica_name [OF order_trans [OF le assms(1)] assms(2), symmetric])
  also have "\<dots> = index_of (spName pool) (replica_name pool j)" by (simp only: assms(5))
  also have "\<dots> = Some j" by (rule index_of_replica_name [OF order_trans [OF le assms(3)] assms(4)])
  finally show ?thesis by (simp only: option.inject)
qed

text \<open>The lists a pass works on, in terms of the abstract indices.\<close>

lemma pass_lists:
  assumes st: "rolling pool hash mu ms gs"
  defines "m2 \<equiv> filter (\<lambda>(i, _). \<not> scaled pool (view pool gs) hash i) (view pool gs)"
    and "a \<equiv> abs_rollout pool hash gs" and "n \<equiv> spReplicas pool"
  shows "fst ` set m2 = roBase a \<union> kept_surge n a"
    and "set (outdated_indices m2 hash) = roOld a" and "distinct (outdated_indices m2 hash)"
    and "length m2 = card (roBase a) + card (kept_surge n a)"
    and "set (findMissingIndices m2 n) = {0..<n} - roBase a"
    and "set (surge_indices m2 n ms k) = {n..<n + min ms (int k)} - kept_surge n a"
proof -
  have wf: "wf_replicas (spName pool) (view pool gs)" by (rule wf_buildIndexMap)
  have wf2: "wf_replicas (spName pool) m2" unfolding m2_def by (rule wf_filter [OF wf])
  have wfa: "roBase a \<subseteq> {0..<n}" "roOld a \<subseteq> roBase a" "roSurge a \<subseteq> {n..}"
    using wf_abs_rollout [of pool hash gs] by (auto simp: wf_rollout_def a_def n_def)
  have kept: "kept_surge n a \<subseteq> roSurge a" by (simp add: kept_surge_def)
  have base: "0 \<le> i \<and> i < n" if "i \<in> roBase a" for i using that wfa(1) by (meson atLeastLessThan_iff subsetD)
  have surge: "n \<le> i" if "i \<in> kept_surge n a" for i using that wfa(3) kept by (meson atLeast_iff subsetD)
  have fin: "finite (roBase a)" "finite (kept_surge n a)"
    using wf_rollout_finite [OF wf_abs_rollout [of pool hash gs]] kept by (auto simp: a_def intro: finite_subset)
  have keys: "i \<in> fst ` set m2 \<longleftrightarrow> i \<in> roBase a \<union> kept_surge n a" for i
  proof -
    have "i \<in> fst ` set m2 \<longleftrightarrow> i \<in> fst ` set (view pool gs) \<and> \<not> scaled pool (view pool gs) hash i"
      unfolding m2_def by (rule fst_filter_iff)
    also have "\<dots> \<longleftrightarrow> i \<in> fst ` set (view pool gs) \<and> (i \<in> roSurge a \<longrightarrow> i \<in> kept_surge n a)"
      using scaled_iff [OF st, of i] by (auto simp: a_def n_def)
    also have "\<dots> \<longleftrightarrow> i \<in> roBase a \<union> kept_surge n a"
      using abs_iff(1,2) [OF st, of i] kept by (auto simp: a_def n_def)
    finally show ?thesis .
  qed
  then show "fst ` set m2 = roBase a \<union> kept_surge n a" by blast
  have "(i, g) \<in> set m2" if "(i, g) \<in> set (view pool gs)" "outdated hash g" for i g
  proof -
    have "i \<in> roOld a" using that abs_iff(3) [OF st, of i] by (auto simp: a_def)
    then have "i < n" using wfa(1,2) by (meson atLeastLessThan_iff subsetD)
    then have "i \<notin> roSurge a" using wfa(3) by (meson atLeast_iff linorder_not_le subsetD)
    then have "\<not> scaled pool (view pool gs) hash i" using scaled_iff [OF st, of i] that(1) by (force simp: a_def)
    then show ?thesis using that(1) by (simp add: m2_def)
  qed
  moreover have "set m2 \<subseteq> set (view pool gs)" by (auto simp: m2_def)
  ultimately show "set (outdated_indices m2 hash) = roOld a"
    unfolding set_outdated_indices set_eq_iff mem_Collect_eq a_def abs_iff(3) [OF st] by blast
  show "distinct (outdated_indices m2 hash)"
    using wf2 by (simp add: outdated_indices_def wf_replicas_def distinct_map_filter)
  have "length m2 = card (fst ` set m2)" using wf2 by (metis distinct_card length_map list.set_map wf_replicas_def)
  also have "\<dots> = card (roBase a \<union> kept_surge n a)" using keys by (metis subsetI subset_antisym)
  also have "\<dots> = card (roBase a) + card (kept_surge n a)"
    using base surge by (intro card_Un_disjoint fin) fastforce
  finally show "length m2 = card (roBase a) + card (kept_surge n a)" .
  have free: "map_of m2 i = None \<longleftrightarrow> i \<notin> roBase a \<union> kept_surge n a" for i
    using keys [of i] by (simp add: map_of_eq_None_iff)
  show "set (findMissingIndices m2 n) = {0..<n} - roBase a"
    using base surge by (fastforce simp: findMissingIndices_def free)
  show "set (surge_indices m2 n ms k) = {n..<n + min ms (int k)} - kept_surge n a"
    using base by (fastforce simp: surge_indices_def free)
qed

lemma distinct_pass_lists: "distinct (findMissingIndices m n)" "distinct (surge_indices m n ms k)"
  by (simp_all add: findMissingIndices_def surge_indices_def)

lemma replicas_names: "list_all2 (is_replica pool hash) ks cs \<Longrightarrow> map pgName cs = map (replica_name pool) ks"
  by (induction rule: list_all2_induct) (auto simp: is_replica_def)

lemma replicas_mem: "list_all2 (is_replica pool hash) ks cs \<Longrightarrow> c \<in> set cs \<Longrightarrow> \<exists>i \<in> set ks. is_replica pool hash i c"
  by (induction rule: list_all2_induct) auto

lemma replicas_mem': "list_all2 (is_replica pool hash) ks cs \<Longrightarrow> i \<in> set ks \<Longrightarrow> \<exists>c \<in> set cs. is_replica pool hash i c"
  by (induction rule: list_all2_induct) auto

text \<open>A pass takes a pool in service to a pool in service, by a step of the abstract rollout.\<close>

lemma pass_result_eq:
  assumes st: "rolling pool hash mu ms gs" and "pass_result pool hash mu ms gs gs'"
  defines "a \<equiv> abs_rollout pool hash gs" and "n \<equiv> spReplicas pool"
  obtains D cs ds where "D \<subseteq> roOld a"
    "int (card D) = min (int (card (roOld a))) (max 0 (int (card (roBase a)) + int (card (kept_surge n a)) - (n - mu)))"
    "gs' = filter (\<lambda>g. pgName g \<notin> replica_name pool ` D)
      (filter (\<lambda>g. pgName g \<notin> replica_name pool ` (roSurge a - kept_surge n a)) gs @ cs @ ds)"
    "\<exists>ks ls. list_all2 (is_replica pool hash) ks cs \<and> list_all2 (is_replica pool hash) ls ds \<and>
      distinct ks \<and> distinct ls \<and> set ks = {0..<n} - roBase a \<and>
      set ls = {n..<n + min ms (int (card (roOld a)))} - kept_surge n a"
proof -
  let ?m = "view pool gs" and ?m2 = "filter (\<lambda>(i, _). \<not> scaled pool (view pool gs) hash i) (view pool gs)"
  let ?old = "outdated_indices ?m2 hash"
  let ?D = "set (take (nat (int (length ?m2) - (n - mu))) ?old)"
  note lists = pass_lists [OF st, folded a_def n_def]
  obtain cs ds where cs: "list_all2 (is_replica pool hash) (findMissingIndices ?m2 n) cs"
    and ds: "list_all2 (is_replica pool hash) (surge_indices ?m2 n ms (length ?old)) ds"
    and gs': "gs' = filter (\<lambda>g. pgName g \<notin> (\<lambda>i. pgName (guest_at ?m2 i)) ` ?D)
      (filter (\<lambda>g. pgName g \<notin> names_where ?m (\<lambda>i _. scaled pool ?m hash i)) gs @ cs @ ds)"
    using assms(2) unfolding pass_result_def Let_def n_def by blast
  have D: "?D \<subseteq> roOld a" using lists(2) set_take_subset by fastforce
  have sub: "roOld a \<subseteq> roBase a" using wf_abs_rollout [of pool hash gs] by (simp add: wf_rollout_def a_def)
  have len: "length ?old = card (roOld a)" using lists(2,3) by (metis distinct_card)
  have "card ?D = min (length ?old) (nat (int (length ?m2) - (n - mu)))"
    using lists(3) by (simp add: distinct_card)
  then have card: "int (card ?D) = min (int (card (roOld a))) (max 0 (int (card (roBase a)) + int (card (kept_surge n a)) - (n - mu)))"
    using len lists(4) by simp
  have "(\<lambda>i. pgName (guest_at ?m2 i)) ` ?D = replica_name pool ` ?D"
  proof (rule image_cong [OF refl])
    fix i
    assume "i \<in> ?D"
    then have "i \<in> fst ` set ?m2" using D lists(1) sub by blast
    then have "(i, guest_at ?m2 i) \<in> set ?m" using guest_at_mem [of i ?m2] by simp
    then show "pgName (guest_at ?m2 i) = replica_name pool i" using in_view [OF st] by blast
  qed
  moreover have "names_where ?m (\<lambda>i _. scaled pool ?m hash i) = replica_name pool ` (roSurge a - kept_surge n a)"
  proof -
    have key: "i \<in> fst ` set ?m" if "(i, g) \<in> set ?m" for i g using that by (simp add: rev_image_eqI)
    have "(i, g) \<in> set ?m \<and> scaled pool ?m hash i \<longleftrightarrow> (i, g) \<in> set ?m \<and> i \<in> roSurge a - kept_surge n a" for i g
      using scaled_iff [OF st key] unfolding a_def n_def by blast
    moreover have "i \<in> roSurge a - kept_surge n a \<Longrightarrow> \<exists>g. (i, g) \<in> set ?m" for i
      using abs_iff(2) [OF st, of i] unfolding a_def fst_image_iff by blast
    moreover have "pgName g = replica_name pool i" if "(i, g) \<in> set ?m" for i g using that in_view [OF st] by blast
    ultimately show ?thesis unfolding names_where_def image_def by (intro set_eqI iffI; clarsimp; metis)
  qed
  ultimately have eq: "gs' = filter (\<lambda>g. pgName g \<notin> replica_name pool ` ?D)
      (filter (\<lambda>g. pgName g \<notin> replica_name pool ` (roSurge a - kept_surge n a)) gs @ cs @ ds)"
    unfolding gs' by (simp only:)
  show thesis
    by (rule that [OF D card eq]) (intro exI conjI, rule cs, rule ds, rule distinct_pass_lists, rule distinct_pass_lists,
        simp only: lists(5), simp only: lists(6) len)
qed

lemma named_filter:
  assumes "inj_on (replica_name pool) R" and "D \<subseteq> R" and "i \<in> R"
  shows "(\<exists>g \<in> set (filter (\<lambda>g. pgName g \<notin> replica_name pool ` D) gs). pgName g = replica_name pool i \<and> P g) \<longleftrightarrow>
    i \<notin> D \<and> (\<exists>g \<in> set gs. pgName g = replica_name pool i \<and> P g)"
  unfolding set_filter using inj_on_image_mem_iff [OF assms(1,3,2)] by (metis (mono_tags, lifting) mem_Collect_eq)

lemma named_replicas:
  assumes "list_all2 (is_replica pool hash) ks cs" and "inj_on (replica_name pool) R" and "set ks \<subseteq> R" and "i \<in> R"
  shows "(\<exists>g \<in> set cs. pgName g = replica_name pool i) \<longleftrightarrow> i \<in> set ks"
proof -
  have "(\<exists>g \<in> set cs. pgName g = replica_name pool i) \<longleftrightarrow> replica_name pool i \<in> set (map pgName cs)" by (metis image_iff set_map)
  also have "\<dots> \<longleftrightarrow> i \<in> set ks"
    unfolding replicas_names [OF assms(1)] set_map by (rule inj_on_image_mem_iff [OF assms(2,4,3)])
  finally show ?thesis .
qed

lemma replica_current: "list_all2 (is_replica pool hash) ks cs \<Longrightarrow> g \<in> set cs \<Longrightarrow> \<not> outdated hash g"
  by (auto dest!: replicas_mem simp: is_replica_def)

text \<open>The guests after a pass, by the indices they have.\<close>

lemma pass_names:
  assumes ro: "rolloutParams pool = (strategy, mu, ms)" "n = spReplicas pool" "0 \<le> n" "0 \<le> ms" "n + ms \<le> 2 ^ 63"
    and cs: "list_all2 (is_replica pool hash) ks cs" "set ks = {0..<n} - roBase (abs_rollout pool hash gs)"
    and ds: "list_all2 (is_replica pool hash) ls ds" "set ls = {n..<n + min ms c} - K" and K: "K \<subseteq> roSurge (abs_rollout pool hash gs)"
    and D: "D \<subseteq> roOld (abs_rollout pool hash gs)"
    and gs': "gs' = filter (\<lambda>g. pgName g \<notin> replica_name pool ` D)
      (filter (\<lambda>g. pgName g \<notin> replica_name pool ` (roSurge (abs_rollout pool hash gs) - K)) gs @ cs @ ds)"
  shows "abs_rollout pool hash gs' = \<lparr>roBase = {0..<n} - D, roOld = roOld (abs_rollout pool hash gs) - D, roSurge = K \<union> {n..<n + min ms c}\<rparr>"
proof -
  define a where "a = abs_rollout pool hash gs"
  note a = ro(2) cs(2) ds(2) K D gs' [folded a_def]
  let ?R = "{0..<n + ms}" and ?rn = "replica_name pool"
  have inj: "inj_on ?rn ?R" using ro(5) by (intro inj_onI replica_name_inj) auto
  have wfa: "roBase a \<subseteq> {0..<n}" "roOld a \<subseteq> roBase a" "roSurge a \<subseteq> {n..<n + ms}"
    using wf_abs_rollout [of pool hash gs] ro(1,2) by (simp_all add: wf_rollout_def a_def)
  have DR: "D \<subseteq> {0..<n}" and XR: "roSurge a - K \<subseteq> {n..<n + ms}" and KR: "K \<subseteq> {n..<n + ms}"
    and kR: "set ks \<subseteq> {0..<n}" and lR: "set ls \<subseteq> {n..<n + ms}"
    using wfa D K cs(2) ds(2) by (auto simp: a_def [symmetric])
  have base: "i \<in> roBase a \<longleftrightarrow> i \<in> {0..<n} \<and> (\<exists>g \<in> set gs. pgName g = ?rn i)"
    and surge: "i \<in> roSurge a \<longleftrightarrow> i \<in> {n..<n + ms} \<and> (\<exists>g \<in> set gs. pgName g = ?rn i)"
    and old: "i \<in> roOld a \<longleftrightarrow> i \<in> {0..<n} \<and> (\<exists>g \<in> set gs. pgName g = ?rn i \<and> outdated hash g)" for i
    by (simp_all add: a_def abs_rollout_def Let_def ro(1,2))
  have sub: "{0..<n} \<subseteq> ?R" "{n..<n + ms} \<subseteq> ?R" using ro(3,4) by auto
  have named: "(\<exists>g \<in> set gs'. pgName g = ?rn i \<and> P g) \<longleftrightarrow> i \<notin> D \<and>
      ((i \<notin> roSurge a - K \<and> (\<exists>g \<in> set gs. pgName g = ?rn i \<and> P g)) \<or>
       (\<exists>g \<in> set cs. pgName g = ?rn i \<and> P g) \<or> (\<exists>g \<in> set ds. pgName g = ?rn i \<and> P g))" if "i \<in> ?R" for i P
  proof -
    have "D \<subseteq> ?R" "roSurge a - K \<subseteq> ?R" using DR XR sub by blast+
    note f = named_filter [OF inj this(1) that, of _ P] named_filter [OF inj this(2) that, of gs P]
    show ?thesis unfolding gs' [folded a_def] f(1) set_append bex_Un f(2) by blast
  qed
  have mk: "(\<exists>g \<in> set cs. pgName g = ?rn i) \<longleftrightarrow> i \<in> set ks" "(\<exists>g \<in> set ds. pgName g = ?rn i) \<longleftrightarrow> i \<in> set ls" if "i \<in> ?R" for i
    using named_replicas [OF cs(1) inj _ that] named_replicas [OF ds(1) inj _ that] kR lR sub by blast+
  have all: "(\<exists>g \<in> set gs'. pgName g = ?rn i) \<longleftrightarrow> i \<notin> D \<and>
      ((i \<notin> roSurge a - K \<and> (\<exists>g \<in> set gs. pgName g = ?rn i)) \<or> i \<in> set ks \<or> i \<in> set ls)" if "i \<in> ?R" for i
    using named [OF that, of "\<lambda>_. True"] mk [OF that] by simp
  have out: "(\<exists>g \<in> set gs'. pgName g = ?rn i \<and> outdated hash g) \<longleftrightarrow> i \<notin> D \<and> i \<notin> roSurge a - K \<and>
      (\<exists>g \<in> set gs. pgName g = ?rn i \<and> outdated hash g)" if "i \<in> ?R" for i
    using named [OF that, of "outdated hash"] replica_current [OF cs(1)] replica_current [OF ds(1)] by blast
  have lo: "i \<in> ?R \<and> i \<notin> set ls \<and> i \<notin> roSurge a - K" if "i \<in> {0..<n}" for i
    using that lR XR sub(1) by (metis atLeastLessThan_iff linorder_not_le subsetD)
  have hi: "i \<in> ?R \<and> i \<notin> set ks \<and> i \<notin> D" if "i \<in> {n..<n + ms}" for i
    using that kR DR sub(2) by (metis atLeastLessThan_iff linorder_not_le subsetD)
  have "i \<in> {0..<n} \<and> (\<exists>g \<in> set gs'. pgName g = ?rn i) \<longleftrightarrow> i \<in> {0..<n} - D" for i
    using all [of i] base [of i] lo [of i] cs(2) [folded a_def] by blast
  moreover have "i \<in> {n..<n + ms} \<and> (\<exists>g \<in> set gs'. pgName g = ?rn i) \<longleftrightarrow> i \<in> K \<union> {n..<n + min ms c}" for i
  proof -
    have "i \<in> {n..<n + min ms c} \<Longrightarrow> i \<in> {n..<n + ms}" by auto
    then show ?thesis using all [of i] surge [of i] hi [of i] ds(2) KR K [folded a_def] by blast
  qed
  moreover have "i \<in> {0..<n} \<and> (\<exists>g \<in> set gs'. pgName g = ?rn i \<and> outdated hash g) \<longleftrightarrow> i \<in> roOld a - D" for i
    using out [of i] old [of i] lo [of i] by blast
  ultimately show ?thesis
    unfolding abs_rollout_def [of pool hash gs'] Let_def ro(1) a_def [symmetric] snd_conv ro(2) [symmetric] by blast
qed

lemma disjoint_images: "(\<And>i. i \<in> X \<union> Y \<Longrightarrow> f i \<notin> A) \<Longrightarrow> A \<inter> (f ` X \<union> f ` Y) = {}"
  by blast

lemma pass_settled:
  assumes st: "rolling pool hash mu ms gs"
    and cs: "list_all2 (is_replica pool hash) ks cs" "distinct ks" "set ks = {0..<spReplicas pool} - roBase (abs_rollout pool hash gs)"
    and ds: "list_all2 (is_replica pool hash) ls ds" "distinct ls" "set ls = {spReplicas pool..<spReplicas pool + min ms c} - K"
    and gs': "gs' = filter (\<lambda>g. pgName g \<notin> replica_name pool ` D)
      (filter (\<lambda>g. pgName g \<notin> replica_name pool ` (roSurge (abs_rollout pool hash gs) - K)) gs @ cs @ ds)"
  shows "settled pool hash gs'"
proof -
  define n where "n = spReplicas pool"
  let ?R = "{0..<n + ms}" and ?rn = "replica_name pool" and ?a = "abs_rollout pool hash gs"
  have ro: "rolloutParams pool = (UpdateStrategyRollingUpdate, mu, ms)" "0 \<le> n" "0 \<le> ms" "n + ms \<le> 2 ^ 63"
    using st by (simp_all add: rolling_def n_def)
  have inj: "inj_on ?rn ?R" using ro(4) by (intro inj_onI replica_name_inj) auto
  have kR: "set ks \<subseteq> ?R" and lR: "set ls \<subseteq> ?R" and kl: "set ks \<inter> set ls = {}"
    using cs(3) ds(3) ro(2,3) by (auto simp: n_def)
  let ?gs = "filter (\<lambda>g. pgName g \<notin> ?rn ` (roSurge ?a - K)) gs"
  have free: "?rn i \<notin> pgName ` set ?gs" if "i \<in> set ks \<union> set ls" for i
  proof
    assume "?rn i \<in> pgName ` set ?gs"
    then obtain g where g: "g \<in> set gs" "pgName g = ?rn i" "?rn i \<notin> ?rn ` (roSurge ?a - K)" by auto
    have iR: "i \<in> ?R" using that kR lR by blast
    have "i \<in> fst ` set (view pool gs)"
      using g iR in_view [OF st, of i g] by (simp add: rev_image_eqI n_def)
    then have "i \<in> roBase ?a \<or> i \<in> roSurge ?a" using abs_iff(1,2) [OF st, of i] by (meson linorder_not_le)
    moreover have "i \<notin> roSurge ?a - K" using g(3) by blast
    moreover have "i \<notin> K" if "i \<in> set ls" using that ds(3) by blast
    moreover have "roBase ?a \<inter> set ls = {}" "roSurge ?a \<inter> set ks = {}"
      using wf_abs_rollout [of pool hash gs] cs(3) ds(3) by (auto simp: wf_rollout_def)
    moreover have "i \<notin> roBase ?a" if "i \<in> set ks" using that cs(3) by blast
    ultimately show False using that by blast
  qed
  have names: "map pgName (?gs @ cs @ ds) = map pgName ?gs @ map ?rn ks @ map ?rn ls"
    by (simp only: map_append replicas_names [OF cs(1)] replicas_names [OF ds(1)])
  have "?rn ` set ks \<inter> ?rn ` set ls = {}" using inj_on_image_Int [OF inj kR lR] kl by simp
  moreover have "distinct (map ?rn ks)" "distinct (map ?rn ls)"
    using cs(2) ds(2) inj_on_subset [OF inj kR] inj_on_subset [OF inj lR] by (simp_all add: distinct_map)
  moreover have "distinct (map pgName ?gs)" using rolling_distinct [OF st] by (rule distinct_map_filter)
  moreover have "pgName ` set ?gs \<inter> (?rn ` set ks \<union> ?rn ` set ls) = {}" by (rule disjoint_images) (rule free)
  ultimately have "distinct (map pgName (?gs @ cs @ ds))"
    unfolding names distinct_append set_append set_map by blast
  then have "distinct (map pgName gs')" unfolding gs' by (rule distinct_map_filter)
  moreover have "isControlledBy g pool \<and> guestReady g \<and> (\<exists>i \<in> ?R. pgName g = ?rn i \<and> (n \<le> i \<longrightarrow> \<not> outdated hash g))"
    if g': "g \<in> set gs'" for g
  proof -
    have "g \<in> set gs \<or> g \<in> set cs \<or> g \<in> set ds" using g' by (auto simp: gs')
    then consider "g \<in> set gs" | i where "i \<in> ?R" "is_replica pool hash i g"
      using kR lR replicas_mem [OF cs(1), of g] replicas_mem [OF ds(1), of g] by blast
    then show ?thesis
    proof cases
      case 1
      then show ?thesis by (rule rolling_guest [OF st]) (auto simp: n_def)
    qed (auto simp: is_replica_def)
  qed
  then have "list_all (\<lambda>g. isControlledBy g pool \<and> guestReady g \<and>
      list_ex (\<lambda>i. pgName g = ?rn i \<and> (n \<le> i \<longrightarrow> \<not> outdated hash g)) [0..n + ms - 1]) gs'"
    by (fastforce simp: list_all_iff list_ex_iff)
  ultimately show ?thesis by (simp add: settled_def ro(1) n_def)
qed

lemma pass_result_simulates:
  assumes st: "rolling pool hash mu ms gs" and res: "pass_result pool hash mu ms gs gs'"
  shows "rolling pool hash mu ms gs' \<and>
    rollout_pass (spReplicas pool) mu ms (abs_rollout pool hash gs) (abs_rollout pool hash gs')"
proof -
  let ?a = "abs_rollout pool hash gs" and ?n = "spReplicas pool"
  let ?K = "kept_surge ?n ?a"
  obtain D cs ds ks ls where D: "D \<subseteq> roOld ?a"
    "int (card D) = min (int (card (roOld ?a))) (max 0 (int (card (roBase ?a)) + int (card ?K) - (?n - mu)))"
    and gs': "gs' = filter (\<lambda>g. pgName g \<notin> replica_name pool ` D)
      (filter (\<lambda>g. pgName g \<notin> replica_name pool ` (roSurge ?a - ?K)) gs @ cs @ ds)"
    and cs: "list_all2 (is_replica pool hash) ks cs" "distinct ks" "set ks = {0..<?n} - roBase ?a"
    and ds: "list_all2 (is_replica pool hash) ls ds" "distinct ls" "set ls = {?n..<?n + min ms (int (card (roOld ?a)))} - ?K"
    by (rule pass_result_eq [OF st res]) blast
  have ro: "rolloutParams pool = (UpdateStrategyRollingUpdate, mu, ms)" "0 \<le> ?n" "0 \<le> ms" "?n + ms \<le> 2 ^ 63"
    using st by (simp_all add: rolling_def)
  have K: "?K \<subseteq> roSurge ?a" by (simp add: kept_surge_def)
  have "rolling pool hash mu ms gs'"
    using st pass_settled [OF st cs ds gs'] by (simp add: rolling_def)
  moreover have "rollout_pass ?n mu ms ?a (abs_rollout pool hash gs')"
    unfolding pass_names [OF ro(1) refl ro(2-4) cs(1,3) ds(1,3) K D(1) gs'] by (rule rollout_pass.pass [OF D])
  ultimately show ?thesis ..
qed

section \<open>A rollout completes\<close>

lemma steps_updateStatus: "steps (updateStatus (cluster_env pool hf nodes gs0) pool gs hash) () (\<lambda>gs gs'. gs' = gs) h"
proof -
  let ?E = "cluster_env pool hf nodes gs0" and ?same = "\<lambda>gs gs' :: PoolGuest list. gs' = gs"
  have gone: "steps (deleteOwnedPoolService ?E pool s) () ?same h" for s h
    unfolding deleteOwnedPoolService_def getService_def
    by (rule steps_absent) (auto simp: cluster_env_def intro: steps_ret)
  have make: "steps (attempt (createService ?E s)) (Inr ()) ?same h" for s h
    by (simp add: steps_def attempt_def createService_def acknowledge_def cluster_env_def)
  have "\<exists>svc. steps (reconcilePoolService ?E pool k) svc ?same h" for k h
  proof (cases "spService pool")
    case None
    have "steps (andThen (deleteOwnedPoolService ?E pool s) (\<lambda>_. ret noService)) noService ?same h" for s
      by (rule steps_andThen [OF gone steps_ret [where T = ?same]]) auto
    then show ?thesis by (auto simp: reconcilePoolService_def Let_def None)
  next
    case (Some svc)
    have del: "steps (andThen (deleteOwnedPoolService ?E pool s) (\<lambda>_. ret x)) x ?same h" for s x
      by (rule steps_andThen [OF gone steps_ret [where T = ?same]]) auto
    have crt: "steps (andThen (attempt (createService ?E s)) (\<lambda>r. case r of Inl e \<Rightarrow> err e | Inr _ \<Rightarrow> ret x)) x ?same h" for s x err h
      by (rule steps_andThen [OF make, where U = ?same]) (auto intro: steps_ret)
    have new: "steps (whenFound (getService ?E s) (andThen (attempt (createService ?E s')) (\<lambda>r. case r of Inl e \<Rightarrow> err e | Inr _ \<Rightarrow> ret x)) f g) x ?same h"
      for s s' err x f g
      unfolding getService_def by (rule steps_absent, simp add: cluster_env_def, simp, rule crt)
    show ?thesis
    proof (cases "poolPrimaryBinding pool = ''bridge''")
      case True
      show ?thesis unfolding reconcilePoolService_def Let_def Some option.case if_P [OF True] by (rule exI, rule del)
    next
      case False
      show ?thesis unfolding reconcilePoolService_def Let_def Some option.case if_not_P [OF False] by (rule exI, rule new)
    qed
  qed
  then obtain svc where svc: "steps (reconcilePoolService ?E pool (count_ready gs)) svc ?same h" by blast
  have "steps (andThen (clock ?E) (\<lambda>now. patchPoolStatus ?E (pool_status pool gs hash svc now))) () ?same h" for h
    by (simp add: steps_def clock_def andThen_def patchPoolStatus_def acknowledge_def cluster_env_def)
  then show ?thesis
    unfolding updateStatus_def by (rule steps_andThen [OF svc]) auto
qed

lemma after_pass_result:
  assumes st: "rolling pool (hf (spTemplateSpec pool)) mu ms gs" and act: "mu \<noteq> 0 \<or> ms \<noteq> 0" and pl: "placeable pool nodes"
    and live: "\<not> spDeleting pool"
  shows "pass_result pool (hf (spTemplateSpec pool)) mu ms gs (after_pass pool hf nodes gs)"
proof -
  let ?E = "cluster_env pool hf nodes gs" and ?hash = "hf (spTemplateSpec pool)"
  let ?h = "[GetPool (Inr pool), ListGuests (Inr gs)]"
  have owned: "filter (\<lambda>g. isControlledBy g pool) gs = gs"
    using rolling_guest [OF st] by (auto simp: filter_id_conv)
  obtain x new where rec: "reconcile_replicas ?E pool (view pool gs) ?hash ?h = Some (Inr x, ?h @ new)"
    and res: "pass_result pool ?hash mu ms gs (foldl apply_event gs new)"
    using reconcile_replicas_steps [OF st act pl, of hf gs] by blast
  obtain b q where x: "x = (b, q)" by (cases x)
  let ?rest = "\<lambda>(backoff, requeue). andThen (listOwnedGuests ?E pool) (\<lambda>owned'. andThen (updateStatus ?E pool owned' ?hash)
      (\<lambda>_. ret (requeueAfter (if requeue \<and> (backoff = 0 \<or> 10 * second < backoff) then 10 * second else backoff))))"
  let ?y = "requeueAfter (if q \<and> (b = 0 \<or> 10 * second < b) then 10 * second else b)" and ?same = "\<lambda>gs gs' :: PoolGuest list. gs' = gs"
  have list: "steps (listOwnedGuests ?E pool) (filter (\<lambda>g. isControlledBy g pool) (foldl apply_event gs (?h @ new))) ?same (?h @ new)"
    by (simp add: steps_def listOwnedGuests_def listGuests_def answer_def andThen_def ret_def cluster_env_def)
  have upd: "steps (andThen (updateStatus ?E pool o' ?hash) (\<lambda>_. ret ?y)) ?y ?same h" for o' h
    by (rule steps_andThen [OF steps_updateStatus steps_ret [where T = ?same]]) auto
  have "steps (?rest x) ?y ?same (?h @ new)"
    unfolding x prod.case by (rule steps_andThen [OF list upd]) simp
  then obtain new' where fin: "?rest x (?h @ new) = Some (Inr ?y, (?h @ new) @ new')" and same: "\<And>gs. foldl apply_event gs new' = gs"
    by (auto simp: steps_def)
  have "Reconcile ?E [] = andThen (reconcile_replicas ?E pool (view pool gs) ?hash) ?rest ?h"
    using live owned by (simp add: Reconcile_def whenFound_def listOwnedGuests_def andThen_def attempt_def getPool_def
        listGuests_def answer_def ret_def Let_def cluster_env_def)
  also have "\<dots> = Some (Inr ?y, (?h @ new) @ new')" using rec fin by (simp add: andThen_def)
  finally have "after_pass pool hf nodes gs = foldl apply_event gs new" by (simp add: after_pass_def same)
  with res show ?thesis by simp
qed

lemma after_pass_simulates:
  assumes "rolling pool (hf (spTemplateSpec pool)) mu ms gs" and "mu \<noteq> 0 \<or> ms \<noteq> 0" and "placeable pool nodes" and "\<not> spDeleting pool"
  shows "rolling pool (hf (spTemplateSpec pool)) mu ms (after_pass pool hf nodes gs)"
    and "rollout_pass (spReplicas pool) mu ms (abs_rollout pool (hf (spTemplateSpec pool)) gs)
      (abs_rollout pool (hf (spTemplateSpec pool)) (after_pass pool hf nodes gs))"
  using pass_result_simulates [OF assms(1) after_pass_result [where hf = hf, OF assms]] by simp_all

lemma passes_roll_out:
  assumes "rolling pool (hf (spTemplateSpec pool)) mu ms gs" and act: "mu \<noteq> 0 \<or> ms \<noteq> 0" and "placeable pool nodes" and "\<not> spDeleting pool"
    and "distance (spReplicas pool) mu (abs_rollout pool (hf (spTemplateSpec pool)) gs) \<le> k"
  shows "rolling pool (hf (spTemplateSpec pool)) mu ms ((after_pass pool hf nodes ^^ k) gs) \<and>
    rolled_out (spReplicas pool) (abs_rollout pool (hf (spTemplateSpec pool)) ((after_pass pool hf nodes ^^ k) gs))"
  using assms(1,5)
proof (induction k arbitrary: gs)
  case 0
  then show ?case using distance_zero [OF wf_abs_rollout] by simp
next
  case (Suc k)
  let ?a = "\<lambda>gs. abs_rollout pool (hf (spTemplateSpec pool)) gs" and ?p = "after_pass pool hf nodes" and ?d = "distance (spReplicas pool) mu"
  note sim = after_pass_simulates [where gs = gs and hf = hf, OF Suc.prems(1) act assms(3,4)]
  have ro: "0 \<le> mu" "0 \<le> ms" "snd (snd (rolloutParams pool)) = ms" using Suc.prems(1) by (simp_all add: rolling_def)
  have "?d (?a (?p gs)) \<le> k"
  proof (cases "0 < ?d (?a gs)")
    case True
    have "wf_rollout (spReplicas pool) ms (?a gs)" using wf_abs_rollout [of pool] ro(3) by simp
    then have "?d (?a (?p gs)) < ?d (?a gs)"
      using act ro True by (intro distance_decreases [OF sim(2)]) auto
    then show ?thesis using Suc.prems(2) by simp
  next
    case False
    then have "rolled_out (spReplicas pool) (?a (?p gs))"
      using rolled_out_stable [OF sim(2)] distance_zero [OF wf_abs_rollout] by blast
    then show ?thesis by (simp add: distance_def rolled_out_def complete_def)
  qed
  then show ?case using Suc.IH [OF sim(1)] by (simp only: funpow_Suc_right o_apply)
qed

lemma rolled_out_guests:
  assumes st: "rolling pool hash mu ms gs" and ro: "rolled_out (spReplicas pool) (abs_rollout pool hash gs)"
  shows "pgName ` set gs = replica_name pool ` {0..<spReplicas pool}" and "list_all (\<lambda>g. guestReady g \<and> \<not> outdated hash g) gs"
proof -
  have i: "\<exists>i \<in> {0..<spReplicas pool}. pgName g = replica_name pool i \<and> guestReady g \<and> \<not> outdated hash g" if g: "g \<in> set gs" for g
  proof -
    obtain i where i: "pgName g = replica_name pool i" "0 \<le> i" "i < spReplicas pool + ms" "guestReady g" by (rule rolling_guest [OF st g])
    then have v: "(i, g) \<in> set (view pool gs)" unfolding in_view [OF st] using g by blast
    then have "i \<in> fst ` set (view pool gs)" unfolding fst_image_iff by blast
    moreover have e: "roSurge (abs_rollout pool hash gs) = {}" "roOld (abs_rollout pool hash gs) = {}"
      using ro by (simp_all add: rolled_out_def)
    ultimately have "i < spReplicas pool" using abs_iff(2) [OF st, of i] unfolding e by simp
    moreover have "\<not> outdated hash g" using abs_iff(3) [OF st, of i] v unfolding e by blast
    ultimately show ?thesis using i by (intro bexI [of _ i]) simp_all
  qed
  then show "list_all (\<lambda>g. guestReady g \<and> \<not> outdated hash g) gs" unfolding list_all_iff by blast
  have base: "roBase (abs_rollout pool hash gs) = {0..<spReplicas pool}" using ro by (simp add: rolled_out_def)
  have "\<exists>g \<in> set gs. pgName g = replica_name pool j" if j: "j \<in> {0..<spReplicas pool}" for j
  proof -
    have "j \<in> roBase (abs_rollout pool hash gs)" using j by (simp only: base)
    then show ?thesis by (simp add: abs_rollout_def Let_def)
  qed
  with i show "pgName ` set gs = replica_name pool ` {0..<spReplicas pool}" by (intro equalityI subsetI) (blast, force simp: image_iff)
qed

text \<open>
  C9. A rolling update completes. Start from any mix of running replicas of the old and the new
  template and surge replicas of the new one. Against an API server that accepts the writes,
  with guests that start and stop between two passes, after \<open>3 * desired + 2\<close> passes (and ever
  after) the pool has exactly the desired replicas, one per index, all running from the current
  template, and no surge replica is left. It suffices that one of \<open>maxUnavailable\<close> and \<open>maxSurge\<close> is
  positive and that a clone template finds a node.
\<close>

theorem rollout_completes:
  assumes "rolloutParams pool = (UpdateStrategyRollingUpdate, maxUnavailable, maxSurge)"
    and "0 \<le> maxUnavailable" and "0 \<le> maxSurge" and "maxUnavailable \<noteq> 0 \<or> maxSurge \<noteq> 0"
    and "0 \<le> spReplicas pool" and "spReplicas pool + maxSurge \<le> 2 ^ 63" and "\<not> spDeleting pool"
    and "placeable pool nodes" and "settled pool (hash (spTemplateSpec pool)) gs" and "3 * nat (spReplicas pool) + 2 \<le> k"
  shows "pgName ` set ((after_pass pool hash nodes ^^ k) gs) = replica_name pool ` {0..<spReplicas pool} \<and>
    distinct (map pgName ((after_pass pool hash nodes ^^ k) gs)) \<and>
    list_all (\<lambda>g. guestReady g \<and> \<not> outdated (hash (spTemplateSpec pool)) g) ((after_pass pool hash nodes ^^ k) gs)"
proof -
  let ?a = "abs_rollout pool (hash (spTemplateSpec pool)) gs"
  have st: "rolling pool (hash (spTemplateSpec pool)) maxUnavailable maxSurge gs" unfolding rolling_def using assms(1-3,5,6,9) by blast
  have "roOld ?a \<subseteq> {0..<spReplicas pool}" by (simp add: abs_rollout_def Let_def subset_iff)
  then have "card (roOld ?a) \<le> nat (spReplicas pool)" using card_mono [OF finite_atLeastLessThan_int] by (metis card_atLeastLessThan_int diff_zero)
  then have "distance (spReplicas pool) maxUnavailable ?a \<le> k" using assms(10) by (simp add: distance_def)
  from passes_roll_out [where hf = hash, OF st assms(4,8,7) this] show ?thesis
    by (metis (no_types) rolled_out_guests rolling_distinct)
qed

theorem rollout_completes_witness:
  "settled example_pool ''v2'' [example_guest 0 ''v1'' ''Running''] \<and>
   (let gs = (after_pass example_pool (\<lambda>_. ''v2'') [] ^^ 5) [example_guest 0 ''v1'' ''Running'']
    in pgName ` set gs = {''p-0''} \<and> length gs = 1 \<and> list_all (\<lambda>g. guestReady g \<and> \<not> outdated ''v2'' g) gs)"
proof -
  let ?gs = "(after_pass example_pool (\<lambda>_. ''v2'') [] ^^ 5) [example_guest 0 ''v1'' ''Running'']"
  have p: "rolloutParams example_pool = (UpdateStrategyRollingUpdate, 0, 1)" "spReplicas example_pool = 1"
      "\<not> spDeleting example_pool" "placeable example_pool []" "replica_name example_pool 0 = ''p-0''"
    by code_simp+
  have s: "settled example_pool ''v2'' [example_guest 0 ''v1'' ''Running'']" by code_simp
  have o: "{0..<1::int} = {0}" by auto
  have n: "pgName ` set ?gs = {''p-0''} \<and> distinct (map pgName ?gs) \<and> list_all (\<lambda>g. guestReady g \<and> \<not> outdated ''v2'' g) ?gs"
    using rollout_completes [of example_pool 0 1 "[]" "\<lambda>_. ''v2''" "[example_guest 0 ''v1'' ''Running'']" 5] p s o by simp
  then have "set (map pgName ?gs) = {''p-0''}" "distinct (map pgName ?gs)" by simp_all
  then have "length (map pgName ?gs) = 1" by (metis distinct_card is_singletonI is_singleton_altdef)
  with n s show ?thesis by (simp add: Let_def)
qed

end
