(* ===== verification/Snapshot_Schedule.thy ===== *)
theory Snapshot_Schedule
  imports Kube
begin

text \<open>
  The controller of snapshot schedules (\<open>internal/controller/swiftsnapshotschedule\<close>), the parser
  of its cron expressions (\<open>internal/snapshot/cronspec\<close>) and the retention of snapshots by age
  (\<open>internal/controller/swiftsnapshot/retention.go\<close>).

  The library \<open>robfig/cron\<close> enters as a parameter: \<open>sParseStandard\<close> is \<open>cron.ParseStandard\<close>, which
  may panic (\<open>None\<close>), and a parsed schedule has the function \<open>csNextIn\<close> that computes the next
  tick in a time zone, \<open>None\<close> being the zero time of a search that gave up. So do the condition
  helpers of \<open>apimachinery\<close>: \<open>sSetCondition\<close> returns the conditions and whether they changed.
  \<open>sRank\<close> decides ties of \<open>sort.Slice\<close>, which is not stable. Log lines and metrics are dropped.
\<close>

section \<open>Objects\<close>

text \<open>Of the backend of a snapshot the fields a schedule clears; the rest of the spec is opaque.\<close>

record SwiftSnapshotSpec =
  ssLocalHostPath :: "string option"
  ssOCITag :: "string option"
  ssTTL :: "int option"
  ssRest :: string

record SwiftSnapshot =
  snName :: string
  snLabels :: strmap
  snAnnotations :: "(string, string) gomap"
  snOwner :: "string option"
  snDeleting :: bool
  snCreated :: int
  snGeneration :: int
  snSpec :: SwiftSnapshotSpec
  snPhase :: string
  snCapturedAt :: "int option"
  snConditions :: "Condition list"

record SwiftSnapshotScheduleStatus =
  scLastSchedule :: "int option"
  scLastSuccessful :: "int option"
  scActive :: "string list"
  scConditions :: "Condition list"

record SwiftSnapshotSchedule =
  schName :: string
  schUID :: string
  schCreated :: int
  schGeneration :: int
  schSchedule :: string
  schSuspend :: bool
  schConcurrencyPolicy :: string
  schStartingDeadline :: "int option"
  schRetention :: "int option option"
  schTemplateLabels :: strmap
  schTemplateAnnotations :: "(string, string) gomap"
  schTemplateSpec :: SwiftSnapshotSpec
  schStatus :: SwiftSnapshotScheduleStatus

text \<open>A guest with the snapshot it is cloned from, and a restore.\<close>

record CloneGuest =
  cgName :: string
  cgCloneFrom :: "string option"

record SwiftRestore =
  reName :: string
  reSnapshot :: string
  rePhase :: string

record cronSchedule =
  csCalendar :: bool
  csLocation :: string
  csNextIn :: "string \<Rightarrow> int \<Rightarrow> int option"

definition Next :: "cronSchedule \<Rightarrow> int \<Rightarrow> int option" where
  "Next s t = csNextIn s (csLocation s) t"

section \<open>Calls\<close>

datatype sevent =
    GetSchedule "SwiftSnapshotSchedule res"
  | ListSnapshots "SwiftSnapshot list res"
  | CreateSnapshot SwiftSnapshot "goerr option"
  | UpdateScheduleStatus SwiftSnapshotScheduleStatus "goerr option"
  | ListCloneGuests "CloneGuest list res"
  | ListRestores "SwiftRestore list res"
  | DeleteSnapshot string "goerr option"
  | UpdateSnapshotStatus string "Condition list" "goerr option"

record senv =
  sGetSchedule :: "sevent list \<Rightarrow> SwiftSnapshotSchedule res"
  sListSnapshots :: "sevent list \<Rightarrow> SwiftSnapshot list res"
  sListGuests :: "sevent list \<Rightarrow> CloneGuest list res"
  sListRestores :: "sevent list \<Rightarrow> SwiftRestore list res"
  sWrite :: "sevent list \<Rightarrow> goerr option"
  sClock :: "sevent list \<Rightarrow> int"
  sRank :: "SwiftSnapshot \<Rightarrow> int"
  sParseStandard :: "string \<Rightarrow> cronSchedule res option"
  sSetCondition :: "sevent list \<Rightarrow> Condition list \<Rightarrow> int \<Rightarrow> Condition \<Rightarrow> Condition list \<times> bool"
  sFindCondition :: "Condition list \<Rightarrow> string \<Rightarrow> Condition option"

type_synonym 'a sprog = "(sevent, 'a) caller"

definition getSchedule :: "senv \<Rightarrow> SwiftSnapshotSchedule sprog" where
  "getSchedule E = answer GetSchedule (sGetSchedule E)"

definition ownedSnapshots :: "senv \<Rightarrow> SwiftSnapshot list sprog" where
  "ownedSnapshots E = answer ListSnapshots (sListSnapshots E)"

definition createSnapshot :: "senv \<Rightarrow> SwiftSnapshot \<Rightarrow> unit sprog" where
  "createSnapshot E s = acknowledge (CreateSnapshot s) (sWrite E)"

definition updateScheduleStatus :: "senv \<Rightarrow> SwiftSnapshotScheduleStatus \<Rightarrow> unit sprog" where
  "updateScheduleStatus E st = acknowledge (UpdateScheduleStatus st) (sWrite E)"

definition listCloneGuests :: "senv \<Rightarrow> CloneGuest list sprog" where
  "listCloneGuests E = answer ListCloneGuests (sListGuests E)"

definition listRestores :: "senv \<Rightarrow> SwiftRestore list sprog" where
  "listRestores E = answer ListRestores (sListRestores E)"

definition deleteSnapshot :: "senv \<Rightarrow> SwiftSnapshot \<Rightarrow> unit sprog" where
  "deleteSnapshot E s = acknowledge (DeleteSnapshot (snName s)) (sWrite E)"

definition updateSnapshotStatus :: "senv \<Rightarrow> SwiftSnapshot \<Rightarrow> Condition list \<Rightarrow> unit sprog" where
  "updateSnapshotStatus E s cs = acknowledge (UpdateSnapshotStatus (snName s) cs) (sWrite E)"

definition readClock :: "senv \<Rightarrow> int sprog" where
  "readClock E h = Some (Inr (sClock E h), h)"

lemmas snapshot_calls = getSchedule_def ownedSnapshots_def createSnapshot_def updateScheduleStatus_def
  listCloneGuests_def listRestores_def deleteSnapshot_def updateSnapshotStatus_def

section \<open>Cron expressions\<close>

definition namesTimezone :: "string \<Rightarrow> bool" where
  "namesTimezone spec \<longleftrightarrow> HasPrefix spec ''TZ='' \<or> HasPrefix spec ''CRON_TZ=''"

definition timezoneKeyword :: "string \<Rightarrow> string" where
  "timezoneKeyword spec = (if HasPrefix spec ''CRON_TZ='' then ''CRON_TZ='' else ''TZ='')"

definition checkTimezonePrefix :: "string \<Rightarrow> goerr option" where
  "checkTimezonePrefix spec =
     (if namesTimezone spec \<and> \<not> Contains spec '' ''
      then Some (Errorf (''a '' @ timezoneKeyword spec @ '' prefix must be followed by a space and the cron fields, e.g. '' @
        Quote ''CRON_TZ=Europe/Rome 0 2 * * *'' @ ''; got '' @ Quote spec))
      else None)"

text \<open>The first of January 2000, in UTC.\<close>

definition satisfiableRef :: int where
  "satisfiableRef = 946684800 * second"

definition checkSatisfiable :: "cronSchedule \<Rightarrow> string \<Rightarrow> goerr option" where
  "checkSatisfiable s spec =
     (if csCalendar s \<and> Next s satisfiableRef = None
      then Some (Errorf (''cron expression '' @ Quote spec @
        '' can never fire: its day-of-month and month fields describe a date that does not exist, such as 31 April or 30 February''))
      else None)"

definition Parse :: "senv \<Rightarrow> string \<Rightarrow> cronSchedule res option" where
  "Parse E spec =
     (case checkTimezonePrefix spec of
        Some e \<Rightarrow> Some (Inl e)
      | None \<Rightarrow>
          (case sParseStandard E spec of
             None \<Rightarrow> None
           | Some (Inl e) \<Rightarrow> Some (Inl e)
           | Some (Inr s) \<Rightarrow>
               let s' = (if csCalendar s \<and> \<not> namesTimezone spec then s\<lparr>csLocation := ''UTC''\<rparr> else s)
               in case checkSatisfiable s' spec of Some e \<Rightarrow> Some (Inl e) | None \<Rightarrow> Some (Inr s')))"

definition parseScheduleUTC :: "senv \<Rightarrow> string \<Rightarrow> cronSchedule sprog" where
  "parseScheduleUTC E spec h = map_option (\<lambda>r. (r, h)) (Parse E spec)"

section \<open>Ticks\<close>

definition minute :: int where
  "minute = 60 * second"

definition maxRequeue :: int where
  "maxRequeue = 60 * minute"

text \<open>
  The window before \<open>now\<close> that is searched: it doubles until it holds a tick or reaches back
  to \<open>earliest\<close>. Doubling is 64-bit arithmetic and the loop need not end.
\<close>

partial_function (option) window :: "(int \<Rightarrow> int option) \<Rightarrow> int \<Rightarrow> int \<Rightarrow> int \<Rightarrow> int option" where
  "window nxt earliest now d =
     (if now - d \<le> earliest then Some earliest
      else case nxt (now - d) of
        None \<Rightarrow> window nxt earliest now (int64 (d * 2))
      | Some t \<Rightarrow> if t \<le> now then Some (now - d) else window nxt earliest now (int64 (d * 2)))"

partial_function (option) last_tick :: "(int \<Rightarrow> int option) \<Rightarrow> int \<Rightarrow> int option \<Rightarrow> int \<Rightarrow> int option option" where
  "last_tick nxt now due t =
     (case nxt t of
        None \<Rightarrow> Some due
      | Some u \<Rightarrow> if u \<le> now then last_tick nxt now (Some u) u else Some due)"

declare window.simps [code] last_tick.simps [code]

definition mostRecentDue :: "(int \<Rightarrow> int option) \<Rightarrow> int \<Rightarrow> int \<Rightarrow> int option option" where
  "mostRecentDue nxt earliest now =
     (if now \<le> earliest then Some None
      else case window nxt earliest now minute of
        None \<Rightarrow> None
      | Some start \<Rightarrow> last_tick nxt now None start)"

definition tooLate :: "SwiftSnapshotSchedule \<Rightarrow> int \<Rightarrow> int \<Rightarrow> bool" where
  "tooLate sched tick now =
     (case schStartingDeadline sched of
        None \<Rightarrow> False
      | Some d \<Rightarrow> int64 (d * second) < time_Sub now tick)"

definition requeueToNext :: "(int \<Rightarrow> int option) \<Rightarrow> int \<Rightarrow> int" where
  "requeueToNext nxt now =
     (case nxt now of
        None \<Rightarrow> maxRequeue
      | Some t \<Rightarrow>
          let wait = time_Sub t now; wait' = (if wait < second then second else wait)
          in if maxRequeue < wait' then maxRequeue else wait')"

section \<open>Scheduled snapshots\<close>

definition ScheduleLabel :: string where
  "ScheduleLabel = ''snapshot.kubeswift.io/schedule''"

definition mergeLabels :: "strmap \<Rightarrow> string \<Rightarrow> strmap" where
  "mergeLabels tmpl n = tmpl(ScheduleLabel \<mapsto> n)"

definition copyMap :: "(string, string) gomap \<Rightarrow> (string, string) gomap" where
  "copyMap m = (if gm_list m = [] then None else Some (gm_list m))"

definition scheduled_snapshot :: "SwiftSnapshotSchedule \<Rightarrow> int \<Rightarrow> SwiftSnapshot" where
  "scheduled_snapshot sched tick =
     (let spec = schTemplateSpec sched
      in \<lparr>snName = schName sched @ ''-'' @ dec_int (tick div second), snLabels = mergeLabels (schTemplateLabels sched) (schName sched),
          snAnnotations = copyMap (schTemplateAnnotations sched), snOwner = Some (schUID sched), snDeleting = False, snCreated = 0,
          snGeneration = 0,
          snSpec = spec\<lparr>ssLocalHostPath := map_option (\<lambda>_. []) (ssLocalHostPath spec), ssOCITag := map_option (\<lambda>_. []) (ssOCITag spec)\<rparr>,
          snPhase = [], snCapturedAt = None, snConditions = []\<rparr>)"

definition createScheduledSnapshot :: "senv \<Rightarrow> SwiftSnapshotSchedule \<Rightarrow> int \<Rightarrow> unit sprog" where
  "createScheduledSnapshot E sched tick =
     andThen (attempt (createSnapshot E (scheduled_snapshot sched tick)))
       (\<lambda>r. case r of Inr _ \<Rightarrow> ret () | Inl e \<Rightarrow> if errors_Is e ErrAlreadyExists then ret () else raise e)"

section \<open>Status\<close>

definition snapshotTerminal :: "string \<Rightarrow> bool" where
  "snapshotTerminal p \<longleftrightarrow> p = ''Ready'' \<or> p = ''Failed''"

definition hasInFlight :: "SwiftSnapshot list \<Rightarrow> bool" where
  "hasInFlight children = list_ex (\<lambda>c. \<not> snapshotTerminal (snPhase c)) children"

definition newest_capture :: "SwiftSnapshot list \<Rightarrow> int option" where
  "newest_capture children =
     foldl (\<lambda>last c.
         if snPhase c = ''Ready'' then
           (case snCapturedAt c of
              None \<Rightarrow> last
            | Some t \<Rightarrow> (case last of None \<Rightarrow> Some t | Some l \<Rightarrow> if l < t then Some t else last))
         else last)
       None children"

definition updateObservedStatus :: "SwiftSnapshotScheduleStatus \<Rightarrow> SwiftSnapshot list \<Rightarrow> SwiftSnapshotScheduleStatus" where
  "updateObservedStatus st children =
     (let st' = st\<lparr>scActive := map snName (filter (\<lambda>c. \<not> snapshotTerminal (snPhase c)) children)\<rparr>
      in case newest_capture children of None \<Rightarrow> st' | Some t \<Rightarrow> st'\<lparr>scLastSuccessful := Some t\<rparr>)"

definition locationWaits :: "string list" where
  "locationWaits = [''NoStorageLocation'', ''StorageLocationNotFound'', ''StorageLocationInvalid'', ''AmbiguousStorageLocation'',
     ''RegistryCredentialsMissing'', ''SigningKeyMissing'']"

text \<open>The oldest snapshot that waits for its storage, with its condition.\<close>

definition waits :: "senv \<Rightarrow> SwiftSnapshot \<Rightarrow> Condition option" where
  "waits E c =
     (if snapshotTerminal (snPhase c) then None
      else case sFindCondition E (snConditions c) ''Ready'' of
        None \<Rightarrow> None
      | Some cond \<Rightarrow> if cnReason cond \<in> set locationWaits then Some cond else None)"

definition waitingChild :: "senv \<Rightarrow> SwiftSnapshot list \<Rightarrow> (SwiftSnapshot \<times> Condition) option" where
  "waitingChild E children =
     foldl (\<lambda>oldest c.
         case waits E c of
           None \<Rightarrow> oldest
         | Some cond \<Rightarrow>
             (case oldest of
                None \<Rightarrow> Some (c, cond)
              | Some (o', _) \<Rightarrow>
                  if snCreated c < snCreated o' \<or> snCreated c = snCreated o' \<and> snName c < snName o' then Some (c, cond) else oldest))
       None children"

definition waitingMessage :: "SwiftSnapshotSchedule \<Rightarrow> string \<Rightarrow> string \<Rightarrow> string" where
  "waitingMessage sched child msg =
     ''SwiftSnapshot '' @ child @ '' is waiting: '' @ msg @ ''; '' @
     (if schConcurrencyPolicy sched = ''Allow'' then ''new snapshots are created on each tick, and wait the same way''
      else ''with concurrencyPolicy Forbid, no new snapshot is created until it goes on'')"

definition setLastSchedule :: "int \<Rightarrow> SwiftSnapshotScheduleStatus \<Rightarrow> SwiftSnapshotScheduleStatus" where
  "setLastSchedule t st = st\<lparr>scLastSchedule := Some t\<rparr>"

definition setReady :: "senv \<Rightarrow> SwiftSnapshotSchedule \<Rightarrow> SwiftSnapshotScheduleStatus \<Rightarrow> string \<Rightarrow> string \<Rightarrow> string \<Rightarrow> SwiftSnapshotScheduleStatus sprog" where
  "setReady E sched st state reason msg h =
     Some (Inr (st\<lparr>scConditions := fst (sSetCondition E h (scConditions st) (schGeneration sched)
       \<lparr>cnType = ''Ready'', cnStatus = state, cnReason = reason, cnMessage = msg, cnTransition = 0\<rparr>)\<rparr>), h)"

definition persistStatus :: "senv \<Rightarrow> SwiftSnapshotSchedule \<Rightarrow> SwiftSnapshotScheduleStatus \<Rightarrow> unit sprog" where
  "persistStatus E sched st = (if schStatus sched = st then ret () else updateScheduleStatus E st)"

section \<open>Retention\<close>

definition restorePhaseTerminal :: "string \<Rightarrow> bool" where
  "restorePhaseTerminal p \<longleftrightarrow> p = ''Ready'' \<or> p = ''Failed''"

definition ReferenceBlocker :: "senv \<Rightarrow> SwiftSnapshot \<Rightarrow> string sprog" where
  "ReferenceBlocker E s =
     andThen (listCloneGuests E)
       (\<lambda>gs. case find (\<lambda>g. cgCloneFrom g = Some (snName s)) gs of
          Some g \<Rightarrow> ret (''referenced by SwiftGuest '' @ cgName g @ '' (cloneFromSnapshot)'')
        | None \<Rightarrow> andThen (listRestores E)
            (\<lambda>rs. case find (\<lambda>r. reSnapshot r = snName s \<and> \<not> restorePhaseTerminal (rePhase r)) rs of
               Some r \<Rightarrow> ret (''referenced by in-flight SwiftRestore '' @ reName r)
             | None \<Rightarrow> ret []))"

definition snapTime :: "SwiftSnapshot \<Rightarrow> int" where
  "snapTime s = (case snCapturedAt s of Some t \<Rightarrow> t | None \<Rightarrow> snCreated s)"

definition countsForKeep :: "SwiftSnapshot \<Rightarrow> bool" where
  "countsForKeep s \<longleftrightarrow> snPhase s = ''Ready'' \<and> \<not> snDeleting s"

text \<open>Newest first, in any order among snapshots of the same time.\<close>

definition newest_first :: "senv \<Rightarrow> SwiftSnapshot list \<Rightarrow> SwiftSnapshot list" where
  "newest_first E ss = sort_key (\<lambda>s. - snapTime s) (sort_key (sRank E) ss)"

fun prune :: "senv \<Rightarrow> SwiftSnapshot list \<Rightarrow> unit sprog" where
  "prune E [] = ret ()"
| "prune E (s # ss) =
     andThen (ReferenceBlocker E s)
       (\<lambda>blocker. if blocker \<noteq> [] then prune E ss
          else andThen (ignoreNotFound (deleteSnapshot E s)) (\<lambda>_. prune E ss))"

definition pruneKeepN :: "senv \<Rightarrow> SwiftSnapshotSchedule \<Rightarrow> SwiftSnapshot list \<Rightarrow> unit sprog" where
  "pruneKeepN E sched children =
     (case schRetention sched of
        Some (Some keep) \<Rightarrow>
          let ready = filter countsForKeep children
          in if int (length ready) \<le> keep then ret ()
             else if keep < 0 then (\<lambda>_. None)
             else prune E (drop (nat keep) (newest_first E ready))
      | _ \<Rightarrow> ret ())"

definition setRetentionBlocked :: "senv \<Rightarrow> SwiftSnapshot \<Rightarrow> string \<Rightarrow> unit sprog" where
  "setRetentionBlocked E s reason h =
     (let (cs, changed) = sSetCondition E h (snConditions s) (snGeneration s)
        \<lparr>cnType = ''RetentionBlocked'', cnStatus = ''True'', cnReason = ''Referenced'',
         cnMessage = ''TTL expired but deletion is deferred: '' @ reason, cnTransition = 0\<rparr>
      in if changed then updateSnapshotStatus E s cs h else ret () h)"

definition handleRetention :: "senv \<Rightarrow> SwiftSnapshot \<Rightarrow> int sprog" where
  "handleRetention E s =
     (case (ssTTL (snSpec s), snCapturedAt s) of
        (Some ttl, Some captured) \<Rightarrow>
          andThen (readClock E)
            (\<lambda>now. let expiry = captured + ttl
               in if now < expiry
                  then ret (let remaining = time_Sub expiry now in if maxRequeue < remaining then maxRequeue else remaining)
                  else andThen (ReferenceBlocker E s)
                    (\<lambda>blocker. if blocker \<noteq> [] then andThen (setRetentionBlocked E s blocker) (\<lambda>_. ret minute)
                       else andThen (ignoreNotFound (deleteSnapshot E s)) (\<lambda>_. ret 0)))
      | _ \<Rightarrow> ret 0)"

section \<open>A pass\<close>

definition blocked_by_policy :: "SwiftSnapshotSchedule \<Rightarrow> SwiftSnapshot list \<Rightarrow> bool" where
  "blocked_by_policy sched children \<longleftrightarrow> schConcurrencyPolicy sched = ''Forbid'' \<and> hasInFlight children"

definition fire :: "senv \<Rightarrow> SwiftSnapshotSchedule \<Rightarrow> SwiftSnapshot list \<Rightarrow> int \<Rightarrow> int option \<Rightarrow> SwiftSnapshotScheduleStatus \<Rightarrow> SwiftSnapshotScheduleStatus sprog" where
  "fire E sched children now due st =
     (case due of
        None \<Rightarrow> ret st
      | Some tick \<Rightarrow>
          if tooLate sched tick now \<or> blocked_by_policy sched children then ret (setLastSchedule tick st)
          else andThen (createScheduledSnapshot E sched tick) (\<lambda>_. ret (setLastSchedule tick st)))"

definition report :: "senv \<Rightarrow> SwiftSnapshotSchedule \<Rightarrow> SwiftSnapshot list \<Rightarrow> SwiftSnapshotScheduleStatus \<Rightarrow> SwiftSnapshotScheduleStatus sprog" where
  "report E sched children st =
     (case waitingChild E children of
        Some (c, cond) \<Rightarrow> setReady E sched st ''False'' (cnReason cond) (waitingMessage sched (snName c) (cnMessage cond))
      | None \<Rightarrow> setReady E sched st ''True'' ''Scheduled''
          (''schedule '' @ Quote (schSchedule sched) @ '' is valid; a snapshot is created on each tick''))"

definition run_schedule :: "senv \<Rightarrow> SwiftSnapshotSchedule \<Rightarrow> cronSchedule \<Rightarrow> int \<Rightarrow> SwiftSnapshot list \<Rightarrow> ctrlResult sprog" where
  "run_schedule E sched cron now children =
     (let st = updateObservedStatus (schStatus sched) children;
          earliest = (case scLastSchedule st of None \<Rightarrow> schCreated sched | Some t \<Rightarrow> t)
      in case mostRecentDue (Next cron) earliest now of
           None \<Rightarrow> (\<lambda>_. None)
         | Some due \<Rightarrow>
             andThen (fire E sched children now due st)
               (\<lambda>st1. andThen (report E sched children st1)
                  (\<lambda>st2. andThen (persistStatus E sched st2)
                     (\<lambda>_. andThen (pruneKeepN E sched children)
                        (\<lambda>_. ret (requeueAfter (requeueToNext (Next cron) now)))))))"

definition Reconcile :: "senv \<Rightarrow> ctrlResult sprog" where
  "Reconcile E =
     whenFound (getSchedule E) (ret noRequeue) raise
       (\<lambda>sched. if schSuspend sched
          then andThen (setReady E sched (schStatus sched) ''False'' ''Suspended'' ''spec.suspend is set; no snapshots are created while suspended'')
            (\<lambda>st. andThen (persistStatus E sched st) (\<lambda>_. ret (requeueAfter maxRequeue)))
          else andThen (attempt (parseScheduleUTC E (schSchedule sched)))
            (\<lambda>r. case r of
               Inl e \<Rightarrow> andThen (setReady E sched (schStatus sched) ''False'' ''InvalidSchedule'' (err_msg e))
                 (\<lambda>st. andThen (persistStatus E sched st) (\<lambda>_. ret noRequeue))
             | Inr cron \<Rightarrow> andThen (readClock E)
                 (\<lambda>now. andThen (ownedSnapshots E) (\<lambda>children. run_schedule E sched cron now children))))"

end
