(* ===== verification/Snapshot_Passes.thy ===== *)
theory Snapshot_Passes
  imports Snapshot_Ticks
begin

text \<open>
  What a pass of the schedule controller writes. A pass creates a snapshot exactly when a tick
  is due and nothing forbids it, and the two retention paths (the newest \<open>keepLast\<close> snapshots of
  a schedule, the time to live of a snapshot) delete only snapshots they have found unreferenced.
  The history starts empty: what a pass knows it has read in this pass.
\<close>

section \<open>Events\<close>

fun created_snapshot :: "sevent \<Rightarrow> SwiftSnapshot list" where
  "created_snapshot (CreateSnapshot s _) = [s]"
| "created_snapshot _ = []"

fun deleted_snapshot :: "sevent \<Rightarrow> string list" where
  "deleted_snapshot (DeleteSnapshot n _) = [n]"
| "deleted_snapshot _ = []"

definition created :: "sevent list \<Rightarrow> SwiftSnapshot list" where
  "created h = concat (map created_snapshot h)"

definition deleted :: "sevent list \<Rightarrow> string list" where
  "deleted h = concat (map deleted_snapshot h)"

lemma created_append [simp]: "created (h @ h') = created h @ created h'" "created [] = []" "created [e] = created_snapshot e"
  by (simp_all add: created_def)

lemma in_deleted_iff: "n \<in> set (deleted h) \<longleftrightarrow> (\<exists>a. DeleteSnapshot n a \<in> set h)"
proof -
  have "n \<in> set (deleted_snapshot e) \<longleftrightarrow> (\<exists>a. e = DeleteSnapshot n a)" for e by (cases e) auto
  then show ?thesis by (auto simp: deleted_def)
qed

text \<open>The lists a pass has read show no guest and no running restore that uses the snapshot.\<close>

definition unreferenced :: "SwiftSnapshot \<Rightarrow> sevent list \<Rightarrow> bool" where
  "unreferenced s h \<longleftrightarrow>
     (\<exists>gs. ListCloneGuests (Inr gs) \<in> set h \<and> list_all (\<lambda>g. cgCloneFrom g \<noteq> Some (snName s)) gs) \<and>
     (\<exists>rs. ListRestores (Inr rs) \<in> set h \<and> list_all (\<lambda>r. reSnapshot r = snName s \<longrightarrow> restorePhaseTerminal (rePhase r)) rs)"

lemma unreferenced_mono: "unreferenced s h \<Longrightarrow> set h \<subseteq> set h' \<Longrightarrow> unreferenced s h'"
  unfolding unreferenced_def by blast

lemma unreferenced_append: "unreferenced s h \<Longrightarrow> unreferenced s (h @ es)"
  by (rule unreferenced_mono) auto

text \<open>Nothing is created, and what is deleted is a candidate and unreferenced.\<close>

definition retention_write :: "(SwiftSnapshot \<Rightarrow> bool) \<Rightarrow> sevent list \<Rightarrow> sevent \<Rightarrow> bool" where
  "retention_write candidate h e \<longleftrightarrow>
     created_snapshot e = [] \<and> (\<forall>n \<in> set (deleted_snapshot e). \<exists>s. snName s = n \<and> candidate s \<and> unreferenced s h)"

section \<open>Retention\<close>

lemma retention_calls [obeys_rules]:
  "obeys S (retention_write ok) (\<lambda>_ _. True) (readClock E)"
  "obeys S (retention_write ok) (\<lambda>_ _. True) (updateScheduleStatus E st)"
  "obeys S (retention_write ok) (\<lambda>_ _. True) (updateSnapshotStatus E s cs)"
  "obeys S (retention_write ok) (\<lambda>h gs. ListCloneGuests (Inr gs) \<in> set h) (listCloneGuests E)"
  "obeys S (retention_write ok) (\<lambda>h rs. ListRestores (Inr rs) \<in> set h) (listRestores E)"
      apply (simp add: readClock_def obeys_def wp_def grows.same)
     apply (unfold snapshot_calls)
     apply (rule obeys_true [OF obeys_acknowledge], simp add: retention_write_def)
    apply (rule obeys_true [OF obeys_acknowledge], simp add: retention_write_def)
   apply (rule obeys_answer, simp add: retention_write_def)
  apply (rule obeys_answer, simp add: retention_write_def)
  done

lemma ReferenceBlocker_obeys: "obeys S (retention_write ok) (\<lambda>h b. b = [] \<longrightarrow> unreferenced s h) (ReferenceBlocker E s)"
  unfolding ReferenceBlocker_def
proof (rule obeys_andThen [OF retention_calls(4)])
  fix h gs
  assume g: "ListCloneGuests (Inr gs) \<in> set h"
  have "unreferenced s h'"
    if "find (\<lambda>g. cgCloneFrom g = Some (snName s)) gs = None" "set h \<subseteq> set h'" "ListRestores (Inr rs) \<in> set h'"
      "find (\<lambda>r. reSnapshot r = snName s \<and> \<not> restorePhaseTerminal (rePhase r)) rs = None" for h' rs
    using that g by (auto simp: unreferenced_def find_None_iff list_all_iff)
  then show "obeys (set h) (retention_write ok) (\<lambda>h b. b = [] \<longrightarrow> unreferenced s h)
      (case find (\<lambda>g. cgCloneFrom g = Some (snName s)) gs of
         None \<Rightarrow> andThen (listRestores E) (\<lambda>rs. case find (\<lambda>r. reSnapshot r = snName s \<and> \<not> restorePhaseTerminal (rePhase r)) rs of
           None \<Rightarrow> ret [] | Some r \<Rightarrow> ret (''referenced by in-flight SwiftRestore '' @ reName r))
       | Some g \<Rightarrow> ret (''referenced by SwiftGuest '' @ cgName g @ '' (cloneFromSnapshot)''))"
    by (auto intro!: obeys_option obeys_ret obeys_andThen [OF retention_calls(5)])
qed

lemma delete_obeys:
  assumes "ok s" and "unreferenced s h"
  shows "obeys (set h) (retention_write ok) (\<lambda>_ _. True) (ignoreNotFound (deleteSnapshot E s))"
  unfolding deleteSnapshot_def
  by (rule obeys_ignoreNotFound [OF obeys_acknowledge])
    (use assms unreferenced_mono in \<open>auto simp: retention_write_def\<close>)

lemma prune_obeys: "list_all ok ss \<Longrightarrow> obeys S (retention_write ok) (\<lambda>_ _. True) (prune E ss)"
proof (induction ss arbitrary: S)
  case (Cons s ss)
  then show ?case
    by (auto intro!: obeys_andThen [OF ReferenceBlocker_obeys] obeys_if obeys_andThen [OF delete_obeys])
qed (auto intro: obeys_ret)

lemma setRetentionBlocked_obeys: "obeys S (retention_write ok) (\<lambda>_ _. True) (setRetentionBlocked E s b)"
proof -
  have "wp (setRetentionBlocked E s b) (\<lambda>r h'. grows (retention_write ok) h h') h" for h
    using retention_calls(3) [of "{}" ok E s]
    by (auto simp: setRetentionBlocked_def Let_def obeys_def wp_def ret_def grows.same split: prod.split)
  then show ?thesis by (simp add: obeys_def)
qed

lemma handleRetention_obeys: "obeys S (retention_write (\<lambda>s'. s' = s)) (\<lambda>_ _. True) (handleRetention E s)"
  unfolding handleRetention_def Let_def
  by (auto intro!: obeys_ret obeys_andThen [OF retention_calls(1)] obeys_andThen [OF ReferenceBlocker_obeys] obeys_if
      obeys_andThen [OF setRetentionBlocked_obeys] obeys_andThen [OF delete_obeys] split: option.split)

section \<open>A pass\<close>

definition prunable :: "senv \<Rightarrow> SwiftSnapshotSchedule \<Rightarrow> SwiftSnapshot list \<Rightarrow> SwiftSnapshot \<Rightarrow> bool" where
  "prunable E sched children s \<longleftrightarrow>
     (\<exists>keep. schRetention sched = Some (Some keep) \<and> s \<in> set (drop (nat keep) (newest_first E (filter countsForKeep children))))"

definition last_fired :: "SwiftSnapshotSchedule \<Rightarrow> int" where
  "last_fired sched = (case scLastSchedule (schStatus sched) of None \<Rightarrow> schCreated sched | Some t \<Rightarrow> t)"

definition fires :: "SwiftSnapshotSchedule \<Rightarrow> SwiftSnapshot list \<Rightarrow> int \<Rightarrow> int option \<Rightarrow> SwiftSnapshot list" where
  "fires sched children now due =
     (case due of
        None \<Rightarrow> []
      | Some tick \<Rightarrow> if tooLate sched tick now \<or> blocked_by_policy sched children then [] else [scheduled_snapshot sched tick])"

lemma grows_created: "grows (retention_write ok) h h' \<Longrightarrow> created h' = created h"
  by (induction rule: grows.induct) (auto simp: retention_write_def)

lemma grows_deleted:
  "grows (retention_write ok) h h' \<Longrightarrow> DeleteSnapshot n a \<in> set h' \<Longrightarrow>
   DeleteSnapshot n a \<in> set h \<or> (\<exists>s. snName s = n \<and> ok s \<and> unreferenced s h')"
proof (induction rule: grows.induct)
  case (more h' e)
  then show ?case by (auto simp: retention_write_def) (blast intro: unreferenced_append)+
qed simp

lemma pruneKeepN_obeys:
  assumes "\<And>keep. schRetention sched = Some (Some keep) \<Longrightarrow> 0 \<le> keep"
  shows "obeys S (retention_write (prunable E sched children)) (\<lambda>_ _. True) (pruneKeepN E sched children)"
  unfolding pruneKeepN_def
  using assms by (auto intro!: obeys_ret prune_obeys simp: Let_def list_all_iff prunable_def split: option.split)

lemma report_ends: "\<exists>st'. report E sched children st h = Some (Inr st', h)"
  by (auto simp: report_def setReady_def split: option.split prod.split)

text \<open>What follows the decision whether to fire.\<close>

lemma finish_obeys:
  assumes "\<And>keep. schRetention sched = Some (Some keep) \<Longrightarrow> 0 \<le> keep"
  shows "obeys S (retention_write (prunable E sched children)) (\<lambda>_ r. crAfter r = requeueToNext (Next cron) now)
    (andThen (report E sched children st) (\<lambda>st2. andThen (persistStatus E sched st2)
       (\<lambda>_. andThen (pruneKeepN E sched children) (\<lambda>_. ret (requeueAfter (requeueToNext (Next cron) now))))))"
proof -
  have rep: "obeys S (retention_write (prunable E sched children)) (\<lambda>_ _. True) (report E sched children st)"
    using report_ends [of E sched children st] unfolding obeys_def wp_def by (metis grows.same)
  have per: "obeys S (retention_write (prunable E sched children)) (\<lambda>_ _. True) (persistStatus E sched st')" for S st'
    unfolding persistStatus_def by (intro obeys_if obeys_ret retention_calls(2)) simp
  show ?thesis
    by (rule obeys_andThen [OF rep], rule obeys_andThen [OF per], rule obeys_andThen [OF pruneKeepN_obeys])
      (auto intro: assms obeys_ret simp: requeueAfter_def)
qed

lemma fire_wp:
  assumes "\<And>st h'. created h' = created h @ fires sched children now due \<Longrightarrow> deleted h' = deleted h \<Longrightarrow> wp (k st) Q h'"
    and "\<And>e h'. created h' = created h @ fires sched children now due \<Longrightarrow> deleted h' = deleted h \<Longrightarrow> Q (Inl e) h'"
  shows "wp (andThen (fire E sched children now due st) k) Q h"
proof (cases due)
  case None
  then show ?thesis using assms(1) by (simp add: fire_def wp_andThen wp_ret fires_def)
next
  case (Some tick)
  show ?thesis
  proof (cases "tooLate sched tick now \<or> blocked_by_policy sched children")
    case True
    then show ?thesis using assms(1) Some by (simp add: fire_def wp_andThen wp_ret fires_def)
  next
    case False
    let ?h = "h @ [CreateSnapshot (scheduled_snapshot sched tick) (sWrite E h)]"
    have "created ?h = created h @ fires sched children now due" "deleted ?h = deleted h"
      using False Some by (simp_all add: fires_def deleted_def)
    then show ?thesis
      using assms False Some by (auto simp: fire_def createScheduledSnapshot_def createSnapshot_def wp_def andThen_def attempt_def acknowledge_def
          ret_def raise_def split: option.split)
  qed
qed

lemma Reconcile_pass:
  assumes "sGetSchedule E [] = Inr sched" and "\<not> schSuspend sched" and "Parse E (schSchedule sched) = Some (Inr cron)"
    and "sListSnapshots E [GetSchedule (Inr sched)] = Inr children"
    and due: "mostRecentDue (Next cron) (last_fired sched) (sClock E [GetSchedule (Inr sched)]) = Some due"
    and keep: "\<And>keep. schRetention sched = Some (Some keep) \<Longrightarrow> 0 \<le> keep"
  shows "wp (Reconcile E) (\<lambda>r new. created new = fires sched children (sClock E [GetSchedule (Inr sched)]) due \<and>
      (\<forall>n a. DeleteSnapshot n a \<in> set new \<longrightarrow> (\<exists>s. snName s = n \<and> prunable E sched children s \<and> unreferenced s new)) \<and>
      (\<forall>x. r = Inr x \<longrightarrow> crAfter x = requeueToNext (Next cron) (sClock E [GetSchedule (Inr sched)]))) []"
proof -
  let ?now = "sClock E [GetSchedule (Inr sched)]" and ?h = "[GetSchedule (Inr sched), ListSnapshots (Inr children)]"
  let ?st = "updateObservedStatus (schStatus sched) children"
  let ?fin = "\<lambda>st. andThen (report E sched children st) (\<lambda>st2. andThen (persistStatus E sched st2)
       (\<lambda>_. andThen (pruneKeepN E sched children) (\<lambda>_. ret (requeueAfter (requeueToNext (Next cron) ?now)))))"
  let ?Q = "\<lambda>r new. created new = fires sched children ?now due \<and>
      (\<forall>n a. DeleteSnapshot n a \<in> set new \<longrightarrow> (\<exists>s. snName s = n \<and> prunable E sched children s \<and> unreferenced s new)) \<and>
      (\<forall>x. r = Inr x \<longrightarrow> crAfter x = requeueToNext (Next cron) ?now)"
  have "(case scLastSchedule ?st of None \<Rightarrow> schCreated sched | Some t \<Rightarrow> t) = last_fired sched"
    by (simp add: updateObservedStatus_def last_fired_def Let_def split: option.split)
  then have run: "Reconcile E [] = andThen (fire E sched children ?now due ?st) ?fin ?h"
    using assms(1-4) due by (simp add: Reconcile_def run_schedule_def whenFound_def parseScheduleUTC_def readClock_def snapshot_calls
        andThen_def attempt_def answer_def Let_def)
  have fin: "wp (?fin st) ?Q h" if "created h = fires sched children ?now due" "deleted h = []" for st h
  proof (rule wp_mono [OF obeys_wp [OF finish_obeys [of sched "{}"]]])
    fix r new
    assume a: "grows (retention_write (prunable E sched children)) h new \<and> (\<forall>x. r = Inr x \<longrightarrow> crAfter x = requeueToNext (Next cron) ?now)"
    have "\<exists>s. snName s = n \<and> prunable E sched children s \<and> unreferenced s new" if "DeleteSnapshot n b \<in> set new" for n b
      using grows_deleted [of "prunable E sched children" h new n b] a that in_deleted_iff [of n h] \<open>deleted h = []\<close> by auto
    with a grows_created that(1) show "?Q r new" by (metis (no_types, lifting))
  qed (use keep in auto)
  have "wp (andThen (fire E sched children ?now due ?st) ?fin) ?Q ?h"
  proof (rule fire_wp)
    have h: "created ?h = []" "deleted ?h = []" by (simp_all add: created_def deleted_def)
    show "wp (?fin st) ?Q h'" if "created h' = created ?h @ fires sched children ?now due" "deleted h' = deleted ?h" for st h'
      using that h by (intro fin) simp_all
    show "?Q (Inl e) h'" if "created h' = created ?h @ fires sched children ?now due" "deleted h' = deleted ?h" for e h'
      using that h in_deleted_iff [of _ h'] by (metis append_Nil empty_iff list.set(1) sum.distinct(1))
  qed
  then show ?thesis using run by (simp add: wp_def)
qed

lemma requeueToNext_bounds: "second \<le> requeueToNext nxt now \<and> requeueToNext nxt now \<le> maxRequeue"
  by (simp add: requeueToNext_def Let_def maxRequeue_def minute_def second_def split: option.split)

text \<open>
  C21. A schedule fires its latest due tick, once. Take a calendar schedule that was created or
  last fired within the five years cron looks ahead. A pass then returns, and it creates exactly
  one snapshot, the one of the latest tick since the last one fired, unless there is no such
  tick, the tick is past its starting deadline, or concurrent runs are forbidden and a snapshot
  is in flight; in these cases it creates none. A pass without an error is repeated after
  between a second and an hour. This holds for every answer to the writes.
\<close>

theorem schedule_fires_latest_tick:
  assumes "sGetSchedule E [] = Inr sched" and "\<not> schSuspend sched" and "Parse E (schSchedule sched) = Some (Inr cron)"
    and "sListSnapshots E [GetSchedule (Inr sched)] = Inr children" and "now = sClock E [GetSchedule (Inr sched)]"
    and "calendar tick limit (Next cron)" and "now - last_fired sched \<le> limit" and "limit \<le> 2 ^ 62"
    and "\<And>keep. schRetention sched = Some (Some keep) \<Longrightarrow> 0 \<le> keep"
  shows "\<exists>r new. Reconcile E [] = Some (r, new) \<and>
    created new =
      (case latest_tick tick (last_fired sched) now of
         None \<Rightarrow> []
       | Some t \<Rightarrow> if tooLate sched t now \<or> schConcurrencyPolicy sched = ''Forbid'' \<and> hasInFlight children then []
           else [scheduled_snapshot sched t]) \<and>
    (\<forall>x. r = Inr x \<longrightarrow> second \<le> crAfter x \<and> crAfter x \<le> 3600 * second)"
proof -
  note due = mostRecentDue_latest [OF assms(6-8)]
  show ?thesis
    using Reconcile_pass [OF assms(1-4) due [unfolded assms(5)] assms(9)] requeueToNext_bounds [of "Next cron" now]
    unfolding assms(5) [symmetric] fires_def blocked_by_policy_def by (auto simp: wp_def maxRequeue_def minute_def)
qed

text \<open>An example: a tick on every full hour.\<close>

definition hourly :: "int \<Rightarrow> int option" where
  "hourly t = Some ((t div maxRequeue + 1) * maxRequeue)"

lemma calendar_hourly: "calendar (\<lambda>t. t mod maxRequeue = 0) limit hourly"
proof -
  have pos: "0 < maxRequeue" by (simp add: maxRequeue_def minute_def second_def)
  have lt: "t < (t div maxRequeue + 1) * maxRequeue" for t
  proof -
    have "t = t div maxRequeue * maxRequeue + t mod maxRequeue" by (rule div_mult_mod_eq [symmetric])
    moreover have "(t div maxRequeue + 1) * maxRequeue = t div maxRequeue * maxRequeue + maxRequeue" by (simp only: distrib_right mult_1)
    ultimately show ?thesis using pos_mod_bound [OF pos, of t] by linarith
  qed
  have gap: "v mod maxRequeue \<noteq> 0" if "t < v" "v < (t div maxRequeue + 1) * maxRequeue" for t v
  proof
    assume z: "v mod maxRequeue = 0"
    then have v: "v = v div maxRequeue * maxRequeue" using mult_div_mod_eq [of maxRequeue v] by (simp add: mult.commute)
    then have "v div maxRequeue < t div maxRequeue + 1" using that(2) pos by (metis mult_less_cancel_right_pos)
    then have "v div maxRequeue * maxRequeue \<le> t div maxRequeue * maxRequeue" using pos by simp
    also have "\<dots> \<le> t" using div_mult_mod_eq [of t maxRequeue] pos_mod_sign [OF pos, of t] by linarith
    finally show False using v that(1) by simp
  qed
  show ?thesis unfolding calendar_def hourly_def option.case
  proof (intro allI conjI impI)
    show "t < (t div maxRequeue + 1) * maxRequeue" for t by (rule lt)
    show "(t div maxRequeue + 1) * maxRequeue mod maxRequeue = 0" for t by simp
    show "v mod maxRequeue \<noteq> 0" if "t < v \<and> v < (t div maxRequeue + 1) * maxRequeue" for t v
      using that by (elim conjE) (rule gap)
  qed
qed

definition example_snapshot :: "string \<Rightarrow> int \<Rightarrow> SwiftSnapshot" where
  "example_snapshot n t =
     \<lparr>snName = n, snLabels = Map.empty, snAnnotations = None, snOwner = Some ''u'', snDeleting = False, snCreated = t, snGeneration = 1,
      snSpec = schTemplateSpec example_schedule, snPhase = ''Ready'', snCapturedAt = Some t, snConditions = []\<rparr>"

definition example_senv :: "SwiftSnapshot list \<Rightarrow> int \<Rightarrow> senv" where
  "example_senv children now =
     \<lparr>sGetSchedule = \<lambda>_. Inr example_schedule, sListSnapshots = \<lambda>_. Inr children, sListGuests = \<lambda>_. Inr [], sListRestores = \<lambda>_. Inr [],
      sWrite = \<lambda>_. None, sClock = \<lambda>_. now, sRank = \<lambda>_. 0,
      sParseStandard = \<lambda>_. Some (Inr \<lparr>csCalendar = True, csLocation = ''Local'', csNextIn = \<lambda>_. hourly\<rparr>),
      sSetCondition = \<lambda>_ cs _ c. (c # filter (\<lambda>x. cnType x \<noteq> cnType c) cs, True),
      sFindCondition = \<lambda>cs ty. find (\<lambda>x. cnType x = ty) cs\<rparr>"

theorem schedule_fires_latest_tick_witness:
  "\<exists>r new. Reconcile (example_senv [] (1000 * minute)) [] = Some (r, new) \<and>
     created new = [scheduled_snapshot example_schedule (960 * minute)]"
proof -
  let ?E = "example_senv [] (1000 * minute)"
  let ?cron = "\<lparr>csCalendar = True, csLocation = ''UTC'', csNextIn = \<lambda>_. hourly\<rparr>"
  have nxt: "Next ?cron = hourly" by (simp add: Next_def fun_eq_iff)
  have parse: "Parse ?E (schSchedule example_schedule) = Some (Inr ?cron)"
    by (simp add: Parse_def checkTimezonePrefix_def namesTimezone_def HasPrefix_def example_senv_def example_schedule_def
        checkSatisfiable_def Next_def hourly_def)
  have "mostRecentDue hourly 0 (1000 * minute) = Some (Some (960 * minute))"
    by (simp add: search_steps hourly_def maxRequeue_def minute_def second_def)
  then have late: "latest_tick (\<lambda>t. t mod maxRequeue = 0) 0 (1000 * minute) = Some (960 * minute)"
    using mostRecentDue_latest [OF calendar_hourly, of "1000 * minute" 0 "2 ^ 62"] by (simp add: minute_def second_def)
  have ex: "\<not> schSuspend example_schedule" "last_fired example_schedule = 0" "schStartingDeadline example_schedule = None"
    "schRetention example_schedule = Some (Some 1)"
    by (simp_all add: example_schedule_def last_fired_def)
  have "\<exists>r new. Reconcile ?E [] = Some (r, new) \<and>
      created new =
        (case latest_tick (\<lambda>t. t mod maxRequeue = 0) (last_fired example_schedule) (1000 * minute) of
           None \<Rightarrow> []
         | Some t \<Rightarrow> if tooLate example_schedule t (1000 * minute) \<or> schConcurrencyPolicy example_schedule = ''Forbid'' \<and> hasInFlight [] then []
             else [scheduled_snapshot example_schedule t]) \<and>
      (\<forall>x. r = Inr x \<longrightarrow> second \<le> crAfter x \<and> crAfter x \<le> 3600 * second)"
  proof (rule schedule_fires_latest_tick)
    show "calendar (\<lambda>t. t mod maxRequeue = 0) (2 ^ 62) (Next ?cron)" unfolding nxt by (rule calendar_hourly)
  qed (use parse ex in \<open>simp_all add: example_senv_def minute_def second_def\<close>)
  then show ?thesis using ex late by (auto simp: tooLate_def hasInFlight_def)
qed

section \<open>Keeping the newest\<close>

lemma no_deletes:
  assumes "andThen (setReady E sched st a b c) (\<lambda>st. andThen (persistStatus E sched st) (\<lambda>_. ret x)) [e] = Some (r, new)"
    and "deleted_snapshot e = []"
  shows "deleted new = []"
  using assms by (auto simp: andThen_def setReady_def persistStatus_def updateScheduleStatus_def acknowledge_def ret_def deleted_def
      split: if_splits option.splits sum.splits)

lemma Reconcile_deletes:
  assumes get: "sGetSchedule E [] = Inr sched" and run: "Reconcile E [] = Some (r, new)"
    and list: "sListSnapshots E [GetSchedule (Inr sched)] = Inr children"
    and keep: "\<And>keep. schRetention sched = Some (Some keep) \<Longrightarrow> 0 \<le> keep" and del: "DeleteSnapshot n a \<in> set new"
  shows "\<exists>s. snName s = n \<and> prunable E sched children s \<and> unreferenced s new"
proof -
  have some: "deleted new \<noteq> []" using del in_deleted_iff [of n new] by (metis empty_iff list.set(1))
  have read: "getSchedule E [] = Some (Inr sched, [GetSchedule (Inr sched)])" using get by (simp add: getSchedule_def answer_def)
  have act: "\<not> schSuspend sched"
  proof
    assume "schSuspend sched"
    then have "andThen (setReady E sched (schStatus sched) ''False'' ''Suspended'' ''spec.suspend is set; no snapshots are created while suspended'')
        (\<lambda>st. andThen (persistStatus E sched st) (\<lambda>_. ret (requeueAfter maxRequeue))) [GetSchedule (Inr sched)] = Some (r, new)"
      using run by (simp add: Reconcile_def whenFound_found [of "getSchedule E", OF read])
    from no_deletes [OF this] some show False by simp
  qed
  have start: "andThen (attempt (parseScheduleUTC E (schSchedule sched)))
      (\<lambda>r. case r of
         Inl e \<Rightarrow> andThen (setReady E sched (schStatus sched) ''False'' ''InvalidSchedule'' (err_msg e))
           (\<lambda>st. andThen (persistStatus E sched st) (\<lambda>_. ret noRequeue))
       | Inr cron \<Rightarrow> andThen (readClock E) (\<lambda>now. andThen (ownedSnapshots E) (\<lambda>children. run_schedule E sched cron now children)))
      [GetSchedule (Inr sched)] = Some (r, new)"
    using run act by (simp add: Reconcile_def whenFound_found [of "getSchedule E", OF read])
  obtain cron where cron: "Parse E (schSchedule sched) = Some (Inr cron)"
  proof (cases "Parse E (schSchedule sched)")
    case None
    with start show thesis by (simp add: andThen_def attempt_def parseScheduleUTC_def)
  next
    case (Some p)
    show thesis
    proof (cases p)
      case (Inl e)
      with Some start have "andThen (setReady E sched (schStatus sched) ''False'' ''InvalidSchedule'' (err_msg e))
          (\<lambda>st. andThen (persistStatus E sched st) (\<lambda>_. ret noRequeue)) [GetSchedule (Inr sched)] = Some (r, new)"
        by (simp add: andThen_def [of "attempt _"] attempt_def parseScheduleUTC_def)
      from no_deletes [OF this] some show thesis by simp
    next
      case (Inr cron)
      with Some that show thesis by simp
    qed
  qed
  obtain due where due: "mostRecentDue (Next cron) (last_fired sched) (sClock E [GetSchedule (Inr sched)]) = Some due"
  proof (cases "mostRecentDue (Next cron) (last_fired sched) (sClock E [GetSchedule (Inr sched)])")
    case None
    have "(case scLastSchedule (updateObservedStatus (schStatus sched) children) of None \<Rightarrow> schCreated sched | Some t \<Rightarrow> t) = last_fired sched"
      by (simp add: updateObservedStatus_def last_fired_def Let_def split: option.split)
    with None have "Reconcile E [] = None"
      using get act cron list by (simp add: Reconcile_def run_schedule_def whenFound_def parseScheduleUTC_def readClock_def snapshot_calls
          andThen_def attempt_def answer_def Let_def)
    with run show thesis by simp
  qed (rule that)
  show ?thesis using wpD [OF Reconcile_pass [OF get act cron list due keep] run] del by blast
qed

lemma length_filter_ge_card: "A \<subseteq> {x \<in> set xs. P x} \<Longrightarrow> card A \<le> length (filter P xs)"
proof -
  assume "A \<subseteq> {x \<in> set xs. P x}"
  then have "card A \<le> card (set (filter P xs))" by (intro card_mono) auto
  also have "\<dots> \<le> length (filter P xs)" by (rule card_length)
  finally show ?thesis .
qed

text \<open>
  C16. Retention by count keeps the newest snapshots. If a pass deletes a snapshot of a schedule
  with \<open>keepLast = keep\<close>, then the snapshot is ready, this pass has listed the guests and the
  restores of the namespace and none of them uses it, and at least \<open>keep\<close> ready snapshots that are
  not older stay undeleted. This holds in every environment and for every order the sort
  gives snapshots of the same time.
\<close>

theorem retention_keeps_newest:
  assumes "sGetSchedule E [] = Inr sched" and "Reconcile E [] = Some (r, new)"
    and "sListSnapshots E [GetSchedule (Inr sched)] = Inr children" and "distinct (map snName children)"
    and "schRetention sched = Some (Some keep)" and "0 \<le> keep"
    and "c \<in> set children" and "DeleteSnapshot (snName c) a \<in> set new"
  shows "countsForKeep c \<and> unreferenced c new \<and>
    nat keep \<le> length (filter (\<lambda>s. countsForKeep s \<and> snapTime c \<le> snapTime s \<and> snName s \<notin> set (deleted new)) children)"
proof -
  let ?L = "newest_first E (filter countsForKeep children)"
  have L: "set ?L = {s \<in> set children. countsForKeep s}" "distinct ?L" "sorted (map (\<lambda>s. - snapTime s) ?L)"
    using assms(4) by (auto simp: newest_first_def distinct_map)
  have inj: "s = t" if "s \<in> set children" "t \<in> set children" "snName s = snName t" for s t
    using assms(4) that by (auto simp: distinct_map inj_on_def)
  have del: "s \<in> set (drop (nat keep) ?L) \<and> unreferenced s new" if s: "s \<in> set children" "snName s \<in> set (deleted new)" for s
  proof -
    obtain a where "DeleteSnapshot (snName s) a \<in> set new" using s(2) in_deleted_iff by blast
    then obtain t where t: "snName t = snName s" "prunable E sched children t" "unreferenced t new"
      using Reconcile_deletes [OF assms(1-3)] assms(5,6) by (metis option.inject)
    then have "t \<in> set (drop (nat keep) ?L)" using assms(5) by (auto simp: prunable_def)
    moreover from this have "t \<in> set children" using L(1) in_set_dropD by fastforce
    ultimately show ?thesis using t inj [OF _ s(1)] by metis
  qed
  have c: "c \<in> set (drop (nat keep) ?L)" "unreferenced c new"
    using del [OF assms(7)] assms(8) in_deleted_iff by blast+
  have older: "snapTime c \<le> snapTime s" if s: "s \<in> set (take (nat keep) ?L)" for s
    using L(3) s c(1) sorted_append [of "map (\<lambda>s. - snapTime s) (take (nat keep) ?L)" "map (\<lambda>s. - snapTime s) (drop (nat keep) ?L)"]
    by (metis (no_types, lifting) append_take_drop_id image_eqI list.set_map map_append neg_le_iff_le)
  have "snName s \<notin> set (deleted new)" if s: "s \<in> set (take (nat keep) ?L)" for s
  proof
    assume d: "snName s \<in> set (deleted new)"
    have "s \<in> set children" using s L(1) in_set_takeD by fastforce
    then have "s \<in> set (drop (nat keep) ?L)" using del d by blast
    moreover have "set (take (nat keep) ?L) \<inter> set (drop (nat keep) ?L) = {}" using L(2) by (rule set_take_disj_set_drop_if_distinct) simp
    ultimately show False using s by blast
  qed
  then have "set (take (nat keep) ?L) \<subseteq> {s \<in> set children. countsForKeep s \<and> snapTime c \<le> snapTime s \<and> snName s \<notin> set (deleted new)}"
    using older L(1) in_set_takeD [of _ "nat keep" ?L] by blast
  from length_filter_ge_card [OF this] have "card (set (take (nat keep) ?L)) \<le>
      length (filter (\<lambda>s. countsForKeep s \<and> snapTime c \<le> snapTime s \<and> snName s \<notin> set (deleted new)) children)" .
  moreover have "card (set (take (nat keep) ?L)) = nat keep"
  proof -
    have "nat keep \<le> length ?L" using c(1) by (metis drop_all empty_iff linorder_le_cases list.set(1))
    then show ?thesis using L(2) by (simp add: distinct_card)
  qed
  moreover have "countsForKeep c" using c(1) L(1) in_set_dropD by fastforce
  ultimately show ?thesis using c(2) by simp
qed

theorem retention_keeps_newest_witness:
  "\<exists>r new. Reconcile (example_senv [example_snapshot ''a'' 1, example_snapshot ''b'' 2] 0) [] = Some (r, new) \<and>
     set (deleted new) = {''a''} \<and> unreferenced (example_snapshot ''a'' 1) new \<and>
     1 \<le> length (filter (\<lambda>s. countsForKeep s \<and> 1 \<le> snapTime s \<and> snName s \<notin> set (deleted new)) [example_snapshot ''a'' 1, example_snapshot ''b'' 2])"
proof -
  let ?c = "[example_snapshot ''a'' 1, example_snapshot ''b'' 2]" and ?E = "example_senv [example_snapshot ''a'' 1, example_snapshot ''b'' 2] 0"
  have "case Reconcile ?E [] of None \<Rightarrow> False | Some (_, new) \<Rightarrow> deleted new = [''a'']" by code_simp
  then obtain r new where run: "Reconcile ?E [] = Some (r, new)" and del: "deleted new = [''a'']" by (auto split: option.splits)
  then obtain a where a: "DeleteSnapshot ''a'' a \<in> set new" using in_deleted_iff [of "''a''" new] by auto
  have n: "snName (example_snapshot n t) = n" "snapTime (example_snapshot n t) = t" for n t
    by (simp_all add: example_snapshot_def snapTime_def)
  have "countsForKeep (example_snapshot ''a'' 1) \<and> unreferenced (example_snapshot ''a'' 1) new \<and>
    nat 1 \<le> length (filter (\<lambda>s. countsForKeep s \<and> snapTime (example_snapshot ''a'' 1) \<le> snapTime s \<and> snName s \<notin> set (deleted new)) ?c)"
    by (rule retention_keeps_newest [where sched = example_schedule and a = a, OF _ run]) (simp_all add: example_senv_def example_schedule_def n a)
  then show ?thesis using run del n by auto
qed

section \<open>Expiry\<close>

text \<open>
  C38. A snapshot expires only when its time to live is over and nothing uses it. If the
  retention of a snapshot deletes one, it is this snapshot, the clock has passed the capture
  time plus the time to live, and the lists of guests and restores read in this pass show no
  clone and no running restore of it.
\<close>

theorem ttl_spares_referenced:
  assumes "handleRetention E s [] = Some (r, new)" and "DeleteSnapshot n a \<in> set new"
  shows "n = snName s \<and> unreferenced s new \<and>
    (\<exists>ttl captured. ssTTL (snSpec s) = Some ttl \<and> snCapturedAt s = Some captured \<and> captured + ttl \<le> sClock E [])"
proof -
  have "grows (retention_write (\<lambda>s'. s' = s)) [] new"
    using obeysD [OF handleRetention_obeys _ assms(1)] by simp
  then have "n = snName s \<and> unreferenced s new" using grows_deleted assms(2) by fastforce
  moreover have "\<exists>ttl captured. ssTTL (snSpec s) = Some ttl \<and> snCapturedAt s = Some captured \<and> captured + ttl \<le> sClock E []"
    using assms by (auto simp: handleRetention_def andThen_def [of "readClock E"] readClock_def ret_def Let_def not_less split: option.splits if_splits)
  ultimately show ?thesis by blast
qed

theorem ttl_spares_referenced_witness:
  "let s = example_snapshot ''a'' 1\<lparr>snSpec := (schTemplateSpec example_schedule)\<lparr>ssTTL := Some 9\<rparr>\<rparr>
   in \<exists>r new. handleRetention (example_senv [] 10) s [] = Some (r, new) \<and> deleted new = [''a''] \<and> unreferenced s new"
proof -
  let ?s = "example_snapshot ''a'' 1\<lparr>snSpec := (schTemplateSpec example_schedule)\<lparr>ssTTL := Some 9\<rparr>\<rparr>"
  have "case handleRetention (example_senv [] 10) ?s [] of None \<Rightarrow> False | Some (_, new) \<Rightarrow> deleted new = [''a'']" by code_simp
  then obtain r new where run: "handleRetention (example_senv [] 10) ?s [] = Some (r, new)" and del: "deleted new = [''a'']"
    by (auto split: option.splits)
  then obtain a where "DeleteSnapshot ''a'' a \<in> set new" using in_deleted_iff [of "''a''" new] by auto
  from ttl_spares_referenced [OF run this] show ?thesis using run del by auto
qed

end
