(* ===== verification/Spec2Isabelle.thy ===== *)
theory Spec2Isabelle
  imports Frames GPU_Concurrency GPU_Controller Thin_Bases Migration_Safety Migration_Eligible Migration_Edges Pool_Writes Pool_Convergence Snapshot_Passes
begin

text \<open>
  A verification development for kubeswift.
\<close>

end
